(* ===== verification/Prelude.thy ===== *)
theory Prelude
  imports "HOL-Library.Word"
begin

text \<open>
  Shared material of the development: the names of the machine types, memory writes on byte
  buffers, little-endian numbers, zero-padded struct tails, and the fact collections the
  components extend.
\<close>

named_theorems wp_simps \<open>weakest-precondition equations of the trusted-application calculus\<close>
named_theorems codec_simps \<open>lengths and field offsets of the wire structures\<close>

type_synonym byte = "8 word"
type_synonym bytes = "byte list"
type_synonym u16 = "16 word"
type_synonym u32 = "32 word"
type_synonym u64 = "64 word"

section \<open>Byte buffers\<close>

text \<open>A write of the bytes \<open>d\<close> at offset \<open>off\<close> of a buffer, as \<open>memcpy\<close> does it.\<close>

definition splice :: "bytes \<Rightarrow> nat \<Rightarrow> bytes \<Rightarrow> bytes" where
  "splice buf off d = take off buf @ d @ drop (off + length d) buf"

lemma length_splice [simp]:
  "off + length d \<le> length buf \<Longrightarrow> length (splice buf off d) = length buf"
  by (simp add: splice_def)

lemma splice_0: "splice buf 0 d = d @ drop (length d) buf"
  by (simp add: splice_def)

lemma splice_full [simp]: "length d = length buf \<Longrightarrow> splice buf 0 d = d"
  by (simp add: splice_def)

lemma take_splice_here:
  "off \<le> length buf \<Longrightarrow> take (length d) (drop off (splice buf off d)) = d"
  by (simp add: splice_def)

lemma take_splice_before:
  "n \<le> off \<Longrightarrow> off \<le> length buf \<Longrightarrow> take n (splice buf off d) = take n buf"
  by (simp add: splice_def min_absorb1)

lemma drop_splice_after:
  "off + length d \<le> n \<Longrightarrow> off \<le> length buf \<Longrightarrow> drop n (splice buf off d) = drop n buf"
  by (simp add: splice_def)

section \<open>Little-endian numbers\<close>

text \<open>The memory image of an unsigned integer of \<open>n\<close> bytes on a little-endian target.\<close>

fun le_bytes :: "nat \<Rightarrow> nat \<Rightarrow> bytes" where
  "le_bytes 0 v = []"
| "le_bytes (Suc n) v = of_nat v # le_bytes n (v div 256)"

fun le_value :: "bytes \<Rightarrow> nat" where
  "le_value [] = 0"
| "le_value (b # bs) = unat b + 256 * le_value bs"

lemma length_le_bytes [simp]: "length (le_bytes n v) = n"
  by (induction n arbitrary: v) auto

lemma unat_byte_of_nat: "unat (of_nat v :: byte) = v mod 256"
  by (simp add: unat_of_nat)

lemma le_value_le_bytes: "v < 256 ^ n \<Longrightarrow> le_value (le_bytes n v) = v"
proof (induction n arbitrary: v)
  case 0
  then show ?case by simp
next
  case (Suc n)
  then have "v div 256 < 256 ^ n"
    by (simp add: less_mult_imp_div_less mult.commute)
  then show ?case
    using Suc.IH by (simp add: unat_byte_of_nat)
qed

lemma unat_byte_less: "unat (b :: byte) < 256"
  using unsigned_less [of b] by simp

lemma le_value_bound: "le_value bs < 256 ^ length bs"
proof (induction bs)
  case Nil
  then show ?case by simp
next
  case (Cons b bs)
  have "unat b < 256"
    by (rule unat_byte_less)
  with Cons show ?case by simp
qed

lemma le_bytes_le_value: "le_bytes (length bs) (le_value bs) = bs"
proof (induction bs)
  case Nil
  then show ?case by simp
next
  case (Cons b bs)
  have "unat b < 256"
    by (rule unat_byte_less)
  then have "(unat b + 256 * le_value bs) div 256 = le_value bs"
    by simp
  moreover have "(of_nat (unat b + 256 * le_value bs) :: byte) = b"
  proof (rule word_unat_eq_iff [THEN iffD2])
    show "unat (of_nat (unat b + 256 * le_value bs) :: byte) = unat b"
      using \<open>unat b < 256\<close> by (simp only: unat_byte_of_nat) simp
  qed
  ultimately show ?case
    using Cons by simp
qed

section \<open>Alignment\<close>

definition align_up :: "nat \<Rightarrow> nat \<Rightarrow> nat" where
  "align_up a n = ((n + a - 1) div a) * a"

lemma align_up_ge: "0 < a \<Longrightarrow> n \<le> align_up a n"
proof -
  assume a: "0 < a"
  have "n + a - 1 < align_up a n + a"
    using a mod_less_divisor [of a "n + a - 1"] div_mult_mod_eq [of "n + a - 1" a]
    unfolding align_up_def by linarith
  then show ?thesis using a by linarith
qed

lemma align_up_less: "0 < a \<Longrightarrow> align_up a n < n + a"
  using div_mult_mod_eq [of "n + a - 1" a] unfolding align_up_def by linarith

lemma align_up_dvd: "a dvd align_up a n"
  by (simp add: align_up_def)

end
