(* ===== verification/Tee_Api.thy ===== *)
theory Tee_Api
  imports Prelude
begin

text \<open>
  The GlobalPlatform TEE Internal Core API as the trusted applications use it. The
  implementation of the API (OP-TEE) is not part of the repository, so it is a parameter: an
  environment answers every call, given the calls made before. A trusted application is a
  computation that issues calls and reads the answers. It ends with a value, with a panic (the
  API may terminate the application in any call) or with an access outside a C object.

  The theory holds the calls and answers, the computations and their weakest preconditions;
  \<open>Gp_Spec\<close> states what the API documents about its answers.
\<close>

section \<open>Result codes\<close>

type_synonym TEE_Result = u32

definition TEE_SUCCESS :: TEE_Result where
  "TEE_SUCCESS = 0"
definition TEE_ERROR_GENERIC :: TEE_Result where
  "TEE_ERROR_GENERIC = 0xFFFF0000"
definition TEE_ERROR_BAD_PARAMETERS :: TEE_Result where
  "TEE_ERROR_BAD_PARAMETERS = 0xFFFF0006"
definition TEE_ERROR_BAD_STATE :: TEE_Result where
  "TEE_ERROR_BAD_STATE = 0xFFFF0007"
definition TEE_ERROR_COMMUNICATION :: TEE_Result where
  "TEE_ERROR_COMMUNICATION = 0xFFFF000E"
definition TEE_ERROR_SECURITY :: TEE_Result where
  "TEE_ERROR_SECURITY = 0xFFFF000F"
definition TEE_ERROR_SHORT_BUFFER :: TEE_Result where
  "TEE_ERROR_SHORT_BUFFER = 0xFFFF0010"
definition TEE_ERROR_MAC_INVALID :: TEE_Result where
  "TEE_ERROR_MAC_INVALID = 0xFFFF3071"
definition TEE_ERROR_SIGNATURE_INVALID :: TEE_Result where
  "TEE_ERROR_SIGNATURE_INVALID = 0xFFFF3072"

lemmas tee_result_defs = TEE_SUCCESS_def TEE_ERROR_GENERIC_def TEE_ERROR_BAD_PARAMETERS_def
  TEE_ERROR_BAD_STATE_def TEE_ERROR_COMMUNICATION_def TEE_ERROR_SECURITY_def
  TEE_ERROR_SHORT_BUFFER_def TEE_ERROR_MAC_INVALID_def TEE_ERROR_SIGNATURE_INVALID_def

lemma tee_errors_not_success [simp]:
  "TEE_ERROR_GENERIC \<noteq> TEE_SUCCESS" "TEE_ERROR_BAD_PARAMETERS \<noteq> TEE_SUCCESS"
  "TEE_ERROR_BAD_STATE \<noteq> TEE_SUCCESS" "TEE_ERROR_COMMUNICATION \<noteq> TEE_SUCCESS"
  "TEE_ERROR_SECURITY \<noteq> TEE_SUCCESS" "TEE_ERROR_SHORT_BUFFER \<noteq> TEE_SUCCESS"
  "TEE_ERROR_MAC_INVALID \<noteq> TEE_SUCCESS" "TEE_ERROR_SIGNATURE_INVALID \<noteq> TEE_SUCCESS"
  by (simp_all add: tee_result_defs)

declare tee_errors_not_success [symmetric, simp]

section \<open>Calls and answers\<close>

type_synonym handle = nat

datatype obj_type = TEE_TYPE_ECDH_KEYPAIR | TEE_TYPE_ECDH_PUBLIC_KEY | TEE_TYPE_ECDSA_KEYPAIR
  | TEE_TYPE_ECDSA_PUBLIC_KEY | TEE_TYPE_GENERIC_SECRET | TEE_TYPE_AES | TEE_TYPE_RSA_KEYPAIR

datatype alg = TEE_ALG_SHA256 | TEE_ALG_ECDSA_P256 | TEE_ALG_ECDH_P256 | TEE_ALG_AES_CMAC
  | TEE_ALG_AES_GCM | TEE_ALG_RSAES_PKCS1_V1_5

datatype mode = TEE_MODE_DIGEST | TEE_MODE_SIGN | TEE_MODE_VERIFY | TEE_MODE_DERIVE
  | TEE_MODE_MAC | TEE_MODE_ENCRYPT | TEE_MODE_DECRYPT

datatype attr_id = TEE_ATTR_ECC_PUBLIC_VALUE_X | TEE_ATTR_ECC_PUBLIC_VALUE_Y
  | TEE_ATTR_ECC_CURVE | TEE_ATTR_SECRET_VALUE

text \<open>An attribute as a call receives it: a buffer by reference, or a pair of numbers. The
  only curve the code names is NIST P-256.\<close>

datatype attribute = RefAttr attr_id bytes | CurveP256

text \<open>Besides the API, the modelled code calls the WebAssembly runtime, the memory-mapping
  extensions of OP-TEE and, on the host side, the operating system and the TEE client library. A
  file or socket call fails if its answer carries a result other than \<open>TEE_SUCCESS\<close>.\<close>

datatype wamr_call =
    wasm_runtime_full_init handle nat nat
  | wasm_runtime_load bytes
  | wasm_runtime_set_wasi_args handle "bytes list"
  | wasm_runtime_instantiate handle nat nat
  | wasm_application_execute_main handle
  | wasm_runtime_deinstantiate handle
  | wasm_runtime_unload handle
  | wasm_runtime_destroy

datatype map_call =
    tee_map_zi nat
  | tee_unmap handle nat
  | tee_mprotect handle nat nat
  | tee_remap nat handle
  | TEE_Realloc handle nat

datatype host_call =
    sys_socket | sys_setsockopt handle | sys_bind handle nat | sys_listen handle nat | sys_accept handle
  | sys_read handle nat | sys_write handle bytes | sys_close handle
  | sys_fopen string | sys_fseek_end handle | sys_ftell handle | sys_rewind handle
  | sys_fread handle nat | sys_fclose handle
  | sys_malloc nat | sys_free handle | sys_printf bytes
  | TEEC_InitializeContext | TEEC_FinalizeContext
  | TEEC_OpenSession | TEEC_InvokeCommand nat | TEEC_CloseSession

datatype tee_call =
    TEE_AllocateTransientObject obj_type nat
  | TEE_FreeTransientObject handle
  | TEE_GenerateKey handle nat "attribute list"
  | TEE_PopulateTransientObject handle "attribute list"
  | TEE_GetObjectBufferAttribute handle attr_id nat
  | TEE_GetObjectInfo1 handle
  | TEE_AllocateOperation alg mode nat
  | TEE_FreeOperation handle
  | TEE_ResetOperation handle
  | TEE_SetOperationKey handle handle
  | TEE_DigestUpdate handle bytes
  | TEE_DigestDoFinal handle bytes nat
  | TEE_MACInit handle
  | TEE_MACUpdate handle bytes
  | TEE_MACComputeFinal handle bytes nat
  | TEE_MACCompareFinal handle bytes bytes
  | TEE_AsymmetricSignDigest handle bytes nat
  | TEE_AsymmetricVerifyDigest handle bytes bytes
  | TEE_AsymmetricEncrypt handle bytes nat
  | TEE_AsymmetricDecrypt handle bytes nat
  | TEE_DeriveKey handle "attribute list" handle
  | TEE_GenerateRandom nat
  | TEE_AEInit handle bytes nat
  | TEE_AEEncryptFinal handle bytes nat nat
  | TEE_AEDecryptFinal handle bytes nat bytes
  | TEE_Malloc nat
  | TEE_Free handle
  | TEE_OpenTASession
  | TEE_CloseTASession handle
  | TEE_InvokeTACommand handle bytes bytes bytes
  | tcp_open string nat
  | tcp_send handle bytes
  | tcp_recv handle nat
  | tcp_close handle
  | Wamr wamr_call
  | Map map_call
  | Host host_call

text \<open>An answer: the result code, a handle or pointer, the bytes the call wrote into the
  caller's buffer and the value it stored in the caller's length variable. For the calls that
  create a key or memory, the bytes are the private value or the initial contents; an
  authenticated encryption also writes a tag.\<close>

record tee_answer =
  ans_res :: TEE_Result
  ans_handle :: handle
  ans_data :: bytes
  ans_size :: nat
  ans_tag :: bytes

type_synonym trace = "(tee_call \<times> tee_answer) list"
type_synonym env = "trace \<Rightarrow> tee_call \<Rightarrow> tee_answer option"

section \<open>Computations\<close>

text \<open>The trace lists the calls already made, the latest first. \<open>Oob\<close> is a read or write
  outside the C object the code names.\<close>

datatype 'a outcome = Ret 'a | Panic | Oob

type_synonym 'a tee = "env \<Rightarrow> trace \<Rightarrow> 'a outcome \<times> trace"

definition return :: "'a \<Rightarrow> 'a tee" where
  "return x env tr = (Ret x, tr)"

definition bind :: "'a tee \<Rightarrow> ('a \<Rightarrow> 'b tee) \<Rightarrow> 'b tee" where
  "bind m k env tr =
     (case m env tr of (Ret x, tr') \<Rightarrow> k x env tr' | (Panic, tr') \<Rightarrow> (Panic, tr') | (Oob, tr') \<Rightarrow> (Oob, tr'))"

definition call :: "tee_call \<Rightarrow> (tee_answer \<Rightarrow> 'a tee) \<Rightarrow> 'a tee" where
  "call c k env tr = (case env tr c of None \<Rightarrow> (Panic, tr) | Some a \<Rightarrow> k a env ((c, a) # tr))"

text \<open>\<open>rd\<close> reads the first \<open>n\<close> bytes of an array, \<open>wr\<close> writes into one.\<close>

definition rd :: "bytes \<Rightarrow> nat \<Rightarrow> (bytes \<Rightarrow> 'a tee) \<Rightarrow> 'a tee" where
  "rd buf n k env tr = (if n \<le> length buf then k (take n buf) env tr else (Oob, tr))"

definition wr :: "bytes \<Rightarrow> nat \<Rightarrow> bytes \<Rightarrow> (bytes \<Rightarrow> 'a tee) \<Rightarrow> 'a tee" where
  "wr buf off d k env tr =
     (if off + length d \<le> length buf then k (splice buf off d) env tr else (Oob, tr))"

text \<open>\<open>within b k\<close> continues if the accesses described by \<open>b\<close> stay inside their objects.\<close>

definition within :: "bool \<Rightarrow> 'a tee \<Rightarrow> 'a tee" where
  "within b k env tr = (if b then k env tr else (Oob, tr))"

lemmas tee_defs = return_def bind_def call_def rd_def wr_def within_def

section \<open>Weakest preconditions\<close>

text \<open>\<open>wp m env tr ob Q\<close>: the computation, started after \<open>tr\<close>, panics, or returns with
  \<open>Q\<close>, or leaves a C object, which is acceptable only if \<open>ob\<close>.\<close>

definition wp :: "'a tee \<Rightarrow> env \<Rightarrow> trace \<Rightarrow> bool \<Rightarrow> ('a \<Rightarrow> trace \<Rightarrow> bool) \<Rightarrow> bool" where
  "wp m env tr ob Q = (case m env tr of (Ret x, tr') \<Rightarrow> Q x tr' | (Panic, _) \<Rightarrow> True | (Oob, _) \<Rightarrow> ob)"

lemma wp_return [wp_simps]: "wp (return x) env tr ob Q = Q x tr"
  by (simp add: wp_def return_def)

lemma wp_call:
  "wp (call c k) env tr ob Q = (\<forall>a. env tr c = Some a \<longrightarrow> wp (k a) env ((c, a) # tr) ob Q)"
  by (auto simp: wp_def call_def split: option.splits)

lemma wp_rd [wp_simps]:
  "wp (rd buf n k) env tr ob Q = (if n \<le> length buf then wp (k (take n buf)) env tr ob Q else ob)"
  by (simp add: wp_def rd_def)

lemma wp_wr [wp_simps]:
  "wp (wr buf off d k) env tr ob Q =
     (if off + length d \<le> length buf then wp (k (splice buf off d)) env tr ob Q else ob)"
  by (simp add: wp_def wr_def)

lemma wp_within [wp_simps]: "wp (within b k) env tr ob Q = (if b then wp k env tr ob Q else ob)"
  by (simp add: wp_def within_def)

lemma wp_bind [wp_simps]:
  "wp (bind m k) env tr ob Q = wp m env tr ob (\<lambda>x tr'. wp (k x) env tr' ob Q)"
  by (auto simp: wp_def bind_def split: prod.splits outcome.splits)

lemma wp_if [wp_simps]:
  "wp (if b then m else n) env tr ob Q = (if b then wp m env tr ob Q else wp n env tr ob Q)"
  by simp

lemma wp_prod [wp_simps]:
  "wp (case p of (x, y) \<Rightarrow> m x y) env tr ob Q = (case p of (x, y) \<Rightarrow> wp (m x y) env tr ob Q)"
  by (simp split: prod.splits)

lemma wp_mono:
  "wp m env tr ob Q \<Longrightarrow> (\<And>x tr'. Q x tr' \<Longrightarrow> R x tr') \<Longrightarrow> wp m env tr ob R"
  by (auto simp: wp_def split: prod.splits outcome.splits)

lemma wp_bindI:
  "wp m env tr ob R \<Longrightarrow> (\<And>x tr'. R x tr' \<Longrightarrow> wp (k x) env tr' ob Q) \<Longrightarrow> wp (bind m k) env tr ob Q"
  by (auto simp: wp_bind intro: wp_mono)

lemma wp_conj:
  "wp m env tr ob Q \<Longrightarrow> wp m env tr ob R \<Longrightarrow> wp m env tr ob (\<lambda>x tr'. Q x tr' \<and> R x tr')"
  by (auto simp: wp_def split: prod.splits outcome.splits)

lemma wp_oob_mono: "wp m env tr False Q \<Longrightarrow> wp m env tr ob Q"
  by (auto simp: wp_def split: prod.splits outcome.splits)

lemma wpD: "wp m env tr ob Q \<Longrightarrow> m env tr = (Ret x, tr') \<Longrightarrow> Q x tr'"
  by (simp add: wp_def)

lemma wp_safeD: "wp m env tr False Q \<Longrightarrow> fst (m env tr) \<noteq> Oob"
  by (auto simp: wp_def split: prod.splits outcome.splits)

lemma wp_TrueI: "(\<And>x tr'. m env tr = (Ret x, tr') \<Longrightarrow> Q x tr') \<Longrightarrow> wp m env tr True Q"
  by (auto simp: wp_def split: prod.splits outcome.splits)

end
