(* ===== verification/Gp_Spec.thy ===== *)
theory Gp_Spec
  imports Tee_Api
begin

text \<open>
  What the GlobalPlatform specification documents about the answers of the API, stated over the
  trace of calls made so far: the contents of key objects and operations, which handles are
  live, and \<open>gp_tee\<close>, the hypothesis under which the protocol theorems hold. The
  cryptographic primitives themselves are parameters (\<open>crypto\<close>). \<open>ref_env\<close> is an
  environment that satisfies the hypothesis, for every choice of primitives.
\<close>

section \<open>Primitives\<close>

record crypto =
  sha256 :: "bytes \<Rightarrow> bytes"
  cmac :: "bytes \<Rightarrow> bytes \<Rightarrow> bytes"
  pub_x :: "bytes \<Rightarrow> bytes"
  pub_y :: "bytes \<Rightarrow> bytes"
  ecdh :: "bytes \<Rightarrow> bytes \<Rightarrow> bytes \<Rightarrow> bytes"
  ecdsa_sign :: "bytes \<Rightarrow> bytes \<Rightarrow> bytes"
  ecdsa_ok :: "bytes \<Rightarrow> bytes \<Rightarrow> bytes \<Rightarrow> bytes \<Rightarrow> bool"
  gcm_seal :: "bytes \<Rightarrow> bytes \<Rightarrow> bytes \<Rightarrow> bytes \<times> bytes"
  gcm_open :: "bytes \<Rightarrow> bytes \<Rightarrow> bytes \<Rightarrow> bytes \<Rightarrow> bytes option"

section \<open>Contents of objects\<close>

datatype keyval = NoKey | KAttrs "attribute list" | KPriv bytes | KSecret bytes

fun attr_of :: "attribute list \<Rightarrow> attr_id \<Rightarrow> bytes" where
  "attr_of [] i = []"
| "attr_of (RefAttr j d # as) i = (if i = j then d else attr_of as i)"
| "attr_of (CurveP256 # as) i = attr_of as i"

fun key_attr :: "crypto \<Rightarrow> keyval \<Rightarrow> attr_id \<Rightarrow> bytes" where
  "key_attr C NoKey i = []"
| "key_attr C (KAttrs as) i = attr_of as i"
| "key_attr C (KPriv p) i =
     (if i = TEE_ATTR_ECC_PUBLIC_VALUE_X then pub_x C p
      else if i = TEE_ATTR_ECC_PUBLIC_VALUE_Y then pub_y C p else [])"
| "key_attr C (KSecret s) i = (if i = TEE_ATTR_SECRET_VALUE then s else [])"

fun priv_of :: "keyval \<Rightarrow> bytes" where
  "priv_of (KPriv p) = p"
| "priv_of _ = []"

definition obj_upd :: "tee_call \<Rightarrow> tee_answer \<Rightarrow> handle \<Rightarrow> keyval \<Rightarrow> keyval" where
  "obj_upd c a h v = (case c of
       TEE_AllocateTransientObject _ _ \<Rightarrow>
         if ans_res a = TEE_SUCCESS \<and> ans_handle a = h then NoKey else v
     | TEE_GenerateKey h' _ _ \<Rightarrow> if ans_res a = TEE_SUCCESS \<and> h' = h then KPriv (ans_data a) else v
     | TEE_PopulateTransientObject h' as \<Rightarrow> if ans_res a = TEE_SUCCESS \<and> h' = h then KAttrs as else v
     | TEE_DeriveKey _ _ h' \<Rightarrow> if h' = h then KSecret (ans_data a) else v
     | _ \<Rightarrow> v)"

primrec obj_val :: "trace \<Rightarrow> handle \<Rightarrow> keyval" where
  "obj_val [] h = NoKey"
| "obj_val (e # tr) h = obj_upd (fst e) (snd e) h (obj_val tr h)"

section \<open>State of operations\<close>

record opst =
  op_key :: keyval
  op_acc :: bytes
  op_iv :: bytes

definition op_init :: opst where
  "op_init = \<lparr>op_key = NoKey, op_acc = [], op_iv = []\<rparr>"

definition op_upd :: "trace \<Rightarrow> tee_call \<Rightarrow> tee_answer \<Rightarrow> handle \<Rightarrow> opst \<Rightarrow> opst" where
  "op_upd tr c a h s = (case c of
       TEE_AllocateOperation _ _ _ \<Rightarrow>
         if ans_res a = TEE_SUCCESS \<and> ans_handle a = h then op_init else s
     | TEE_SetOperationKey h' k \<Rightarrow>
         if ans_res a = TEE_SUCCESS \<and> h' = h then s\<lparr>op_key := obj_val tr k\<rparr> else s
     | TEE_ResetOperation h' \<Rightarrow> if h' = h then s\<lparr>op_acc := [], op_iv := []\<rparr> else s
     | TEE_MACInit h' \<Rightarrow> if h' = h then s\<lparr>op_acc := []\<rparr> else s
     | TEE_DigestUpdate h' d \<Rightarrow> if h' = h then s\<lparr>op_acc := op_acc s @ d\<rparr> else s
     | TEE_MACUpdate h' d \<Rightarrow> if h' = h then s\<lparr>op_acc := op_acc s @ d\<rparr> else s
     | TEE_AEInit h' iv _ \<Rightarrow> if ans_res a = TEE_SUCCESS \<and> h' = h then s\<lparr>op_iv := iv\<rparr> else s
     | _ \<Rightarrow> s)"

primrec op_st :: "trace \<Rightarrow> handle \<Rightarrow> opst" where
  "op_st [] h = op_init"
| "op_st (e # tr) h = op_upd tr (fst e) (snd e) h (op_st tr h)"

section \<open>Live handles\<close>

primrec live_objs :: "trace \<Rightarrow> handle set" where
  "live_objs [] = {}"
| "live_objs (e # tr) = (case fst e of
       TEE_AllocateTransientObject _ _ \<Rightarrow>
         if ans_res (snd e) = TEE_SUCCESS then insert (ans_handle (snd e)) (live_objs tr) else live_objs tr
     | TEE_FreeTransientObject h \<Rightarrow> live_objs tr - {h}
     | _ \<Rightarrow> live_objs tr)"

primrec live_ops :: "trace \<Rightarrow> handle set" where
  "live_ops [] = {}"
| "live_ops (e # tr) = (case fst e of
       TEE_AllocateOperation _ _ _ \<Rightarrow>
         if ans_res (snd e) = TEE_SUCCESS then insert (ans_handle (snd e)) (live_ops tr) else live_ops tr
     | TEE_FreeOperation h \<Rightarrow> live_ops tr - {h}
     | _ \<Rightarrow> live_ops tr)"

lemma finite_live_ops [simp]: "finite (live_ops tr)"
proof (induction tr)
  case (Cons e tr)
  then show ?case by (cases "fst e") simp_all
qed simp

section \<open>Documented answers\<close>

text \<open>A call never writes more than the capacity it was given. On success a call that creates
  something returns an unused handle that is not null, and a cryptographic call the value of its
  primitive on the state of its operation.\<close>

definition ans_ok :: "crypto \<Rightarrow> trace \<Rightarrow> tee_call \<Rightarrow> tee_answer \<Rightarrow> bool" where
  "ans_ok C tr c a = (case c of
       TEE_AllocateTransientObject _ _ \<Rightarrow>
         ans_res a = TEE_SUCCESS \<longrightarrow> ans_handle a \<noteq> 0 \<and> ans_handle a \<notin> live_objs tr
     | TEE_AllocateOperation _ _ _ \<Rightarrow>
         ans_res a = TEE_SUCCESS \<longrightarrow> ans_handle a \<noteq> 0 \<and> ans_handle a \<notin> live_ops tr
     | TEE_GetObjectBufferAttribute h i n \<Rightarrow>
         length (ans_data a) \<le> n \<and> (ans_res a = TEE_SUCCESS \<longrightarrow>
           ans_data a = key_attr C (obj_val tr h) i \<and> ans_size a = length (ans_data a))
     | TEE_DigestDoFinal h d n \<Rightarrow>
         length (ans_data a) \<le> n \<and> (ans_res a \<noteq> TEE_SUCCESS \<longrightarrow> ans_data a = []) \<and>
         (ans_res a = TEE_SUCCESS \<longrightarrow>
           ans_data a = sha256 C (op_acc (op_st tr h) @ d) \<and> ans_size a = length (ans_data a))
     | TEE_MACComputeFinal h d n \<Rightarrow>
         length (ans_data a) \<le> n \<and> (ans_res a = TEE_SUCCESS \<longrightarrow>
           ans_data a = cmac C (key_attr C (op_key (op_st tr h)) TEE_ATTR_SECRET_VALUE) (op_acc (op_st tr h) @ d)
           \<and> ans_size a = length (ans_data a))
     | TEE_MACCompareFinal h d m \<Rightarrow>
         ans_res a = TEE_SUCCESS \<longrightarrow>
           m = cmac C (key_attr C (op_key (op_st tr h)) TEE_ATTR_SECRET_VALUE) (op_acc (op_st tr h) @ d)
     | TEE_AsymmetricSignDigest h d n \<Rightarrow>
         length (ans_data a) \<le> n \<and> (ans_res a = TEE_SUCCESS \<longrightarrow>
           ans_data a = ecdsa_sign C (priv_of (op_key (op_st tr h))) d \<and> ans_size a = length (ans_data a))
     | TEE_AsymmetricVerifyDigest h d s \<Rightarrow>
         ans_res a = TEE_SUCCESS \<longrightarrow>
           ecdsa_ok C (key_attr C (op_key (op_st tr h)) TEE_ATTR_ECC_PUBLIC_VALUE_X)
                      (key_attr C (op_key (op_st tr h)) TEE_ATTR_ECC_PUBLIC_VALUE_Y) d s
     | TEE_DeriveKey h as _ \<Rightarrow>
         ans_data a = ecdh C (priv_of (op_key (op_st tr h)))
           (attr_of as TEE_ATTR_ECC_PUBLIC_VALUE_X) (attr_of as TEE_ATTR_ECC_PUBLIC_VALUE_Y)
     | TEE_GenerateRandom n \<Rightarrow> length (ans_data a) = n
     | TEE_AEEncryptFinal h d n t \<Rightarrow>
         length (ans_data a) \<le> n \<and> length (ans_tag a) \<le> t \<and> (ans_res a = TEE_SUCCESS \<longrightarrow>
           ans_data a = fst (gcm_seal C (key_attr C (op_key (op_st tr h)) TEE_ATTR_SECRET_VALUE) (op_iv (op_st tr h)) d)
           \<and> ans_tag a = snd (gcm_seal C (key_attr C (op_key (op_st tr h)) TEE_ATTR_SECRET_VALUE) (op_iv (op_st tr h)) d)
           \<and> ans_size a = length (ans_data a))
     | TEE_AEDecryptFinal h d n t \<Rightarrow>
         length (ans_data a) \<le> n \<and> (ans_res a = TEE_SUCCESS \<longrightarrow>
           gcm_open C (key_attr C (op_key (op_st tr h)) TEE_ATTR_SECRET_VALUE) (op_iv (op_st tr h)) d t
             = Some (ans_data a)
           \<and> ans_size a = length (ans_data a))
     | TEE_AsymmetricEncrypt _ _ n \<Rightarrow> length (ans_data a) \<le> n
     | TEE_AsymmetricDecrypt _ _ n \<Rightarrow> length (ans_data a) \<le> n
     | TEE_Malloc n \<Rightarrow> length (ans_data a) = (if ans_handle a = 0 then 0 else n)
     | tcp_recv _ n \<Rightarrow> length (ans_data a) \<le> n
     | Host (sys_read _ n) \<Rightarrow> length (ans_data a) \<le> n
     | Host (sys_fread _ n) \<Rightarrow> length (ans_data a) \<le> n
     | Host (sys_malloc n) \<Rightarrow> length (ans_data a) = (if ans_handle a = 0 then 0 else n)
     | _ \<Rightarrow> True)"

definition gp_tee :: "crypto \<Rightarrow> env \<Rightarrow> bool" where
  "gp_tee C env \<longleftrightarrow> (\<forall>tr c a. env tr c = Some a \<longrightarrow> ans_ok C tr c a)"

lemma gp_teeD: "gp_tee C env \<Longrightarrow> env tr c = Some a \<Longrightarrow> ans_ok C tr c a"
  by (simp add: gp_tee_def)

lemma gp_callI:
  assumes "gp_tee C env"
    and "\<And>a. ans_ok C tr c a \<Longrightarrow> wp (k a) env ((c, a) # tr) ob Q"
  shows "wp (call c k) env tr ob Q"
  using assms by (simp add: wp_call gp_teeD)

lemmas gp_simps = ans_ok_def obj_upd_def op_upd_def op_init_def

section \<open>Frames\<close>

text \<open>\<open>keeps tr tr'\<close>: the objects that were live are live still, with the same contents.\<close>

definition keeps :: "trace \<Rightarrow> trace \<Rightarrow> bool" where
  "keeps tr tr' \<longleftrightarrow> (\<forall>h \<in> live_objs tr. h \<in> live_objs tr' \<and> obj_val tr' h = obj_val tr h)"

lemma keeps_refl [simp]: "keeps tr tr"
  by (simp add: keeps_def)

lemma keeps_trans [trans]: "keeps a b \<Longrightarrow> keeps b c \<Longrightarrow> keeps a c"
  by (simp add: keeps_def)

lemma keepsD: "keeps tr tr' \<Longrightarrow> h \<in> live_objs tr \<Longrightarrow> h \<in> live_objs tr' \<and> obj_val tr' h = obj_val tr h"
  by (simp add: keeps_def)

section \<open>A reference environment\<close>

definition fresh :: "trace \<Rightarrow> handle" where
  "fresh tr = Suc (foldr (\<lambda>e. max (ans_handle (snd e))) tr 0)"

definition ok :: "handle \<Rightarrow> bytes \<Rightarrow> bytes \<Rightarrow> tee_answer" where
  "ok h d t = \<lparr>ans_res = TEE_SUCCESS, ans_handle = h, ans_data = d, ans_size = length d, ans_tag = t\<rparr>"

definition err :: "TEE_Result \<Rightarrow> tee_answer" where
  "err r = \<lparr>ans_res = r, ans_handle = 0, ans_data = [], ans_size = 0, ans_tag = []\<rparr>"

definition fits :: "bytes \<Rightarrow> nat \<Rightarrow> tee_answer" where
  "fits d n = (if length d \<le> n then ok 0 d [] else err TEE_ERROR_SHORT_BUFFER)"

text \<open>Answers with the documented values. Key generation takes the private value, the network
  the received bytes, from the two further arguments.\<close>

definition ref_ans :: "crypto \<Rightarrow> bytes \<Rightarrow> bytes \<Rightarrow> trace \<Rightarrow> tee_call \<Rightarrow> tee_answer" where
  "ref_ans C priv net tr c = (case c of
       TEE_AllocateTransientObject _ _ \<Rightarrow> ok (fresh tr) [] []
     | TEE_AllocateOperation _ _ _ \<Rightarrow> ok (fresh tr) [] []
     | TEE_GenerateKey _ _ _ \<Rightarrow> ok 0 priv []
     | TEE_GetObjectBufferAttribute h i n \<Rightarrow> fits (key_attr C (obj_val tr h) i) n
     | TEE_DigestDoFinal h d n \<Rightarrow> fits (sha256 C (op_acc (op_st tr h) @ d)) n
     | TEE_MACComputeFinal h d n \<Rightarrow>
         fits (cmac C (key_attr C (op_key (op_st tr h)) TEE_ATTR_SECRET_VALUE) (op_acc (op_st tr h) @ d)) n
     | TEE_MACCompareFinal h d m \<Rightarrow>
         if m = cmac C (key_attr C (op_key (op_st tr h)) TEE_ATTR_SECRET_VALUE) (op_acc (op_st tr h) @ d)
         then ok 0 [] [] else err TEE_ERROR_MAC_INVALID
     | TEE_AsymmetricSignDigest h d n \<Rightarrow> fits (ecdsa_sign C (priv_of (op_key (op_st tr h))) d) n
     | TEE_AsymmetricVerifyDigest h d s \<Rightarrow>
         if ecdsa_ok C (key_attr C (op_key (op_st tr h)) TEE_ATTR_ECC_PUBLIC_VALUE_X)
              (key_attr C (op_key (op_st tr h)) TEE_ATTR_ECC_PUBLIC_VALUE_Y) d s
         then ok 0 [] [] else err TEE_ERROR_SIGNATURE_INVALID
     | TEE_DeriveKey h as _ \<Rightarrow>
         ok 0 (ecdh C (priv_of (op_key (op_st tr h)))
           (attr_of as TEE_ATTR_ECC_PUBLIC_VALUE_X) (attr_of as TEE_ATTR_ECC_PUBLIC_VALUE_Y)) []
     | TEE_GenerateRandom n \<Rightarrow> ok 0 (replicate n 0) []
     | TEE_AEEncryptFinal h d n t \<Rightarrow>
         (case gcm_seal C (key_attr C (op_key (op_st tr h)) TEE_ATTR_SECRET_VALUE) (op_iv (op_st tr h)) d of
            (ct, tag) \<Rightarrow> if length ct \<le> n \<and> length tag \<le> t then ok 0 ct tag else err TEE_ERROR_SHORT_BUFFER)
     | TEE_AEDecryptFinal h d n t \<Rightarrow>
         (case gcm_open C (key_attr C (op_key (op_st tr h)) TEE_ATTR_SECRET_VALUE) (op_iv (op_st tr h)) d t of
            None \<Rightarrow> err TEE_ERROR_MAC_INVALID
          | Some p \<Rightarrow> fits p n)
     | TEE_Malloc n \<Rightarrow> ok (fresh tr) (replicate n 0) []
     | tcp_open _ _ \<Rightarrow> ok (fresh tr) [] []
     | tcp_recv _ n \<Rightarrow> ok 0 (take n net) []
     | Host (sys_read _ n) \<Rightarrow> ok 0 (take n net) []
     | Host (sys_fread _ n) \<Rightarrow> ok 0 (take n net) []
     | Host (sys_malloc n) \<Rightarrow> ok (fresh tr) (replicate n 0) []
     | TEE_OpenTASession \<Rightarrow> ok (fresh tr) [] []
     | _ \<Rightarrow> ok 0 [] [])"

definition ref_env :: "crypto \<Rightarrow> bytes \<Rightarrow> bytes \<Rightarrow> env" where
  "ref_env C priv net tr c = Some (ref_ans C priv net tr c)"

lemma fresh_gt: "e \<in> set tr \<Longrightarrow> ans_handle (snd e) < fresh tr"
  by (induction tr) (auto simp: fresh_def less_Suc_eq_le max_def)

lemma live_objs_trace: "h \<in> live_objs tr \<Longrightarrow> \<exists>e \<in> set tr. ans_handle (snd e) = h"
proof (induction tr)
  case (Cons e tr)
  then show ?case by (cases "fst e") (auto split: if_splits)
qed simp

lemma live_ops_trace: "h \<in> live_ops tr \<Longrightarrow> \<exists>e \<in> set tr. ans_handle (snd e) = h"
proof (induction tr)
  case (Cons e tr)
  then show ?case by (cases "fst e") (auto split: if_splits)
qed simp

lemma fresh_not_live: "fresh tr \<notin> live_objs tr" "fresh tr \<notin> live_ops tr" "fresh tr \<noteq> 0"
  using live_objs_trace live_ops_trace fresh_gt by (fastforce, fastforce, simp add: fresh_def)

lemma ans_ok_ref_ans: "ans_ok C tr c (ref_ans C priv net tr c)"
  by (cases c)
    (auto simp: ref_ans_def ans_ok_def fresh_not_live ok_def err_def fits_def
      split: prod.splits option.splits host_call.splits)

lemma gp_tee_ref_env: "gp_tee C (ref_env C priv net)"
  by (simp add: gp_tee_def ref_env_def ans_ok_ref_ans)

end
