(* ===== verification/Ra_Wire.thy ===== *)
theory Ra_Wire
  imports Gp_Spec
begin

text \<open>
  The wire structures of the remote attestation protocol, as \<open>remote_attestation.h\<close> (attester)
  and \<open>verifier.h\<close> (verifier) declare them, and their memory images. Both sides move whole
  structs with \<open>TEE_MemMove\<close>, so the image of a struct is its encoding. Each public key is four
  consecutive fields (x, length of x, y, length of y), here one \<open>ec_point\<close>. The two headers
  differ in the type of the length fields, so every codec takes its width in bytes.

  \<open>attestation.h\<close> belongs to OP-TEE and is not part of the repository: the sizes and the layout
  of \<open>ra_quote\<close> it declares are parameters (\<open>ra_params\<close>), and so is the target's
  \<open>sizeof(size_t)\<close>, which is also the alignment that pads the structs. The last two
  parameters are the contents of a local variable that is read before it is assigned.
\<close>

record ra_params =
  sizeof_size_t :: nat
  RA_SIGNATURE_SIZE :: nat
  RA_ANCHOR_SIZE :: nat
  sizeof_ra_quote :: nat
  quote_anchor :: "bytes \<Rightarrow> bytes"
  quote_version :: "bytes \<Rightarrow> bytes"
  quote_claim_hash :: "bytes \<Rightarrow> bytes"
  quote_attestation_key :: "bytes \<Rightarrow> bytes"
  quote_signature :: "bytes \<Rightarrow> bytes"
  uninit_handle :: handle
  uninit_size :: nat

section \<open>Structures\<close>

record ec_point =
  x_raw :: bytes
  x_size :: nat
  y_raw :: bytes
  y_size :: nat

type_synonym msg0_t = ec_point

record msg1_t =
  ecdh_verifier_public_key :: ec_point
  ecdsa_verifier_public_key :: ec_point
  ecdh_signature :: bytes
  mac1 :: bytes

record msg2_t =
  ecdh_local_public_key :: ec_point
  quote :: bytes
  mac2 :: bytes

record msg3_t =
  iv :: bytes
  tag :: bytes
  encrypted_content_size :: nat

text \<open>The bytes that fill a struct of \<open>n\<close> bytes up to the alignment \<open>w\<close>.\<close>

definition tail_pad :: "nat \<Rightarrow> nat \<Rightarrow> nat" where
  "tail_pad w n = (if w = 0 then 0 else align_up w n - n)"

definition sizeof_msg0 :: "nat \<Rightarrow> nat" where
  "sizeof_msg0 w = 64 + 2 * w"

definition body_msg1 :: "ra_params \<Rightarrow> nat \<Rightarrow> nat" where
  "body_msg1 p w = 2 * sizeof_msg0 w + RA_SIGNATURE_SIZE p + 16"

definition sizeof_msg1 :: "ra_params \<Rightarrow> nat \<Rightarrow> nat" where
  "sizeof_msg1 p w = body_msg1 p w + tail_pad w (body_msg1 p w)"

definition body_msg2 :: "ra_params \<Rightarrow> nat \<Rightarrow> nat" where
  "body_msg2 p w = sizeof_msg0 w + sizeof_ra_quote p + 16"

definition sizeof_msg2 :: "ra_params \<Rightarrow> nat \<Rightarrow> nat" where
  "sizeof_msg2 p w = body_msg2 p w + tail_pad w (body_msg2 p w)"

text \<open>The header of \<open>msg3_t\<close>; its flexible array member has no size.\<close>

definition sizeof_msg3 :: "nat \<Rightarrow> nat" where
  "sizeof_msg3 w = 48 + w"

section \<open>Images\<close>

definition wf_point :: "nat \<Rightarrow> ec_point \<Rightarrow> bool" where
  "wf_point w p \<longleftrightarrow> length (x_raw p) = 32 \<and> length (y_raw p) = 32
     \<and> x_size p < 256 ^ w \<and> y_size p < 256 ^ w"

definition enc_point :: "nat \<Rightarrow> ec_point \<Rightarrow> bytes" where
  "enc_point w p = x_raw p @ le_bytes w (x_size p) @ y_raw p @ le_bytes w (y_size p)"

definition dec_point :: "nat \<Rightarrow> bytes \<Rightarrow> ec_point" where
  "dec_point w bs =
     \<lparr>x_raw = take 32 bs, x_size = le_value (take w (drop 32 bs)),
      y_raw = take 32 (drop (32 + w) bs), y_size = le_value (take w (drop (64 + w) bs))\<rparr>"

definition wf_msg1 :: "ra_params \<Rightarrow> nat \<Rightarrow> msg1_t \<Rightarrow> bool" where
  "wf_msg1 p w m \<longleftrightarrow> wf_point w (ecdh_verifier_public_key m) \<and> wf_point w (ecdsa_verifier_public_key m)
     \<and> length (ecdh_signature m) = RA_SIGNATURE_SIZE p \<and> length (mac1 m) = 16"

definition enc_msg1 :: "ra_params \<Rightarrow> nat \<Rightarrow> msg1_t \<Rightarrow> bytes" where
  "enc_msg1 p w m =
     enc_point w (ecdh_verifier_public_key m) @ enc_point w (ecdsa_verifier_public_key m)
     @ ecdh_signature m @ mac1 m @ replicate (tail_pad w (body_msg1 p w)) 0"

definition dec_msg1 :: "ra_params \<Rightarrow> nat \<Rightarrow> bytes \<Rightarrow> msg1_t" where
  "dec_msg1 p w bs =
     \<lparr>ecdh_verifier_public_key = dec_point w bs,
      ecdsa_verifier_public_key = dec_point w (drop (sizeof_msg0 w) bs),
      ecdh_signature = take (RA_SIGNATURE_SIZE p) (drop (2 * sizeof_msg0 w) bs),
      mac1 = take 16 (drop (2 * sizeof_msg0 w + RA_SIGNATURE_SIZE p) bs)\<rparr>"

definition wf_msg2 :: "ra_params \<Rightarrow> nat \<Rightarrow> msg2_t \<Rightarrow> bool" where
  "wf_msg2 p w m \<longleftrightarrow> wf_point w (ecdh_local_public_key m)
     \<and> length (quote m) = sizeof_ra_quote p \<and> length (mac2 m) = 16"

definition enc_msg2 :: "ra_params \<Rightarrow> nat \<Rightarrow> msg2_t \<Rightarrow> bytes" where
  "enc_msg2 p w m = enc_point w (ecdh_local_public_key m) @ quote m @ mac2 m
     @ replicate (tail_pad w (body_msg2 p w)) 0"

definition dec_msg2 :: "ra_params \<Rightarrow> nat \<Rightarrow> bytes \<Rightarrow> msg2_t" where
  "dec_msg2 p w bs =
     \<lparr>ecdh_local_public_key = dec_point w bs,
      quote = take (sizeof_ra_quote p) (drop (sizeof_msg0 w) bs),
      mac2 = take 16 (drop (sizeof_msg0 w + sizeof_ra_quote p) bs)\<rparr>"

definition wf_msg3 :: "nat \<Rightarrow> msg3_t \<Rightarrow> bool" where
  "wf_msg3 w m \<longleftrightarrow> length (iv m) = 32 \<and> length (tag m) = 16 \<and> encrypted_content_size m < 256 ^ w"

definition enc_msg3 :: "nat \<Rightarrow> msg3_t \<Rightarrow> bytes" where
  "enc_msg3 w m = iv m @ tag m @ le_bytes w (encrypted_content_size m)"

definition dec_msg3 :: "nat \<Rightarrow> bytes \<Rightarrow> msg3_t" where
  "dec_msg3 w bs =
     \<lparr>iv = take 32 bs, tag = take 16 (drop 32 bs),
      encrypted_content_size = le_value (take w (drop 48 bs))\<rparr>"

lemmas sizeof_defs = sizeof_msg0_def sizeof_msg1_def sizeof_msg2_def sizeof_msg3_def
  body_msg1_def body_msg2_def

section \<open>The codec interface\<close>

text \<open>What a struct's image promises its users: a fixed size, a faithful read back from any
  buffer that starts with it, and a well-formed value from any buffer that is long enough.\<close>

locale struct_codec =
  fixes enc :: "'a \<Rightarrow> bytes"
    and dec :: "bytes \<Rightarrow> 'a"
    and size_of :: nat
    and wf :: "'a \<Rightarrow> bool"
  assumes length_enc: "wf m \<Longrightarrow> length (enc m) = size_of"
    and dec_enc_append: "wf m \<Longrightarrow> dec (enc m @ rest) = m"
    and wf_dec: "size_of \<le> length bs \<Longrightarrow> wf (dec bs)"
    and dec_take: "dec (take size_of bs) = dec bs"
begin

lemma dec_enc: "wf m \<Longrightarrow> dec (enc m) = m"
  using dec_enc_append [of m "[]"] by simp

lemma dec_append: "size_of \<le> length xs \<Longrightarrow> dec (xs @ ys) = dec xs"
  using dec_take [of "xs @ ys"] dec_take [of xs] by simp

lemma dec_take_ge: "size_of \<le> n \<Longrightarrow> dec (take n bs) = dec bs"
  using dec_take [of "take n bs"] dec_take [of bs] by (simp add: min_absorb1)

text \<open>A message received into a buffer is read back whatever the rest of the buffer holds.\<close>

lemma dec_received:
  "size_of \<le> length xs \<Longrightarrow> size_of \<le> n \<Longrightarrow> dec (splice buf 0 (take n xs)) = dec xs"
  using dec_append [of "take n xs"] by (simp add: splice_0 dec_take_ge)

lemma enc_inj: "wf m \<Longrightarrow> wf m' \<Longrightarrow> enc m = enc m' \<Longrightarrow> m = m'"
  using dec_enc by metis

lemma memmove_load:
  "wf m \<Longrightarrow> size_of \<le> length buf \<Longrightarrow> dec (splice buf 0 (enc m)) = m"
  by (simp add: splice_0 dec_enc_append)

lemma memmove_length:
  "wf m \<Longrightarrow> size_of \<le> length buf \<Longrightarrow> length (splice buf 0 (enc m)) = length buf"
  by (simp add: length_enc)

lemma memmove_rest:
  "wf m \<Longrightarrow> size_of \<le> length buf \<Longrightarrow> drop size_of (splice buf 0 (enc m)) = drop size_of buf"
  by (simp add: splice_0 length_enc)

end

section \<open>The images satisfy the interface\<close>

lemma length_enc_point: "wf_point w p \<Longrightarrow> length (enc_point w p) = sizeof_msg0 w"
  by (simp add: wf_point_def enc_point_def sizeof_msg0_def)

lemma dec_enc_point: "wf_point w p \<Longrightarrow> dec_point w (enc_point w p @ rest) = p"
  by (simp add: wf_point_def enc_point_def dec_point_def le_value_le_bytes)

lemma le_value_take_bound: "n \<le> length bs \<Longrightarrow> le_value (take n bs) < 256 ^ n"
  using le_value_bound [of "take n bs"] by simp

lemma wf_dec_point: "sizeof_msg0 w \<le> length bs \<Longrightarrow> wf_point w (dec_point w bs)"
  by (simp add: wf_point_def dec_point_def sizeof_msg0_def le_value_take_bound)

lemma dec_point_take: "sizeof_msg0 w \<le> n \<Longrightarrow> dec_point w (take n bs) = dec_point w bs"
  by (simp add: dec_point_def sizeof_msg0_def drop_take min_def)

interpretation point_codec: struct_codec "enc_point w" "dec_point w" "sizeof_msg0 w" "wf_point w" for w
  by unfold_locales (simp_all add: length_enc_point dec_enc_point wf_dec_point dec_point_take)

interpretation msg3_codec: struct_codec "enc_msg3 w" "dec_msg3 w" "sizeof_msg3 w" "wf_msg3 w" for w
  by unfold_locales
    (auto simp: enc_msg3_def dec_msg3_def sizeof_msg3_def wf_msg3_def le_value_le_bytes
      le_value_take_bound drop_take min_def)

lemma length_enc_msg1: "wf_msg1 p w m \<Longrightarrow> length (enc_msg1 p w m) = sizeof_msg1 p w"
  by (simp add: wf_msg1_def enc_msg1_def length_enc_point sizeof_msg1_def body_msg1_def)

lemma dec_enc_msg1: "wf_msg1 p w m \<Longrightarrow> dec_msg1 p w (enc_msg1 p w m @ rest) = m"
  by (simp add: wf_msg1_def enc_msg1_def dec_msg1_def dec_enc_point length_enc_point)

interpretation msg1_codec:
  struct_codec "enc_msg1 p w" "dec_msg1 p w" "sizeof_msg1 p w" "wf_msg1 p w" for p w
proof unfold_locales
  fix bs :: bytes
  assume "sizeof_msg1 p w \<le> length bs"
  then show "wf_msg1 p w (dec_msg1 p w bs)"
    by (simp add: wf_msg1_def dec_msg1_def wf_dec_point sizeof_msg1_def body_msg1_def)
next
  fix bs :: bytes
  show "dec_msg1 p w (take (sizeof_msg1 p w) bs) = dec_msg1 p w bs"
    by (simp add: dec_msg1_def sizeof_msg1_def body_msg1_def dec_point_take drop_take min_def)
qed (simp_all add: length_enc_msg1 dec_enc_msg1)

lemma length_enc_msg2: "wf_msg2 p w m \<Longrightarrow> length (enc_msg2 p w m) = sizeof_msg2 p w"
  by (simp add: wf_msg2_def enc_msg2_def length_enc_point sizeof_msg2_def body_msg2_def)

lemma dec_enc_msg2: "wf_msg2 p w m \<Longrightarrow> dec_msg2 p w (enc_msg2 p w m @ rest) = m"
  by (simp add: wf_msg2_def enc_msg2_def dec_msg2_def dec_enc_point length_enc_point)

interpretation msg2_codec:
  struct_codec "enc_msg2 p w" "dec_msg2 p w" "sizeof_msg2 p w" "wf_msg2 p w" for p w
proof unfold_locales
  fix bs :: bytes
  assume "sizeof_msg2 p w \<le> length bs"
  then show "wf_msg2 p w (dec_msg2 p w bs)"
    by (simp add: wf_msg2_def dec_msg2_def wf_dec_point sizeof_msg2_def body_msg2_def)
next
  fix bs :: bytes
  show "dec_msg2 p w (take (sizeof_msg2 p w) bs) = dec_msg2 p w bs"
    by (simp add: dec_msg2_def sizeof_msg2_def body_msg2_def dec_point_take drop_take min_def)
qed (simp_all add: length_enc_msg2 dec_enc_msg2)

end
