(* ===== verification/Attester.thy ===== *)
theory Attester
  imports Ra_Wire
begin

text \<open>
  The attester: \<open>remote_attestation.c\<close>, which runs inside the WaTZ trusted application and speaks
  the protocol with a verifier over a TCP socket of the TEE. One definition per C function; the
  context struct is passed and returned, every API call is issued in the order of the code, and
  every early return and \<open>goto out\<close> is a branch. The blocks under \<open>DEBUG_MESSAGE\<close> and
  \<open>PROFILING_MESSAGES\<close> are not compiled into the modelled configuration.
\<close>

section \<open>Context\<close>

text \<open>A \<open>TEE_Attribute\<close> of the context refers to an array of the same context, so only its
  length is state. \<open>msg3\<close> is the memory behind the pointer \<open>msg3_ptr\<close>.\<close>

record ra_context =
  ecdh_local_keypair_handle :: handle
  ecdh_remote_public_key_x_attr :: nat
  ecdh_remote_public_key_y_attr :: nat
  ecdh_shared_key_derivation_key :: handle
  ecdh_shared_mac_key :: handle
  ecdh_shared_session_key :: handle
  ecdsa_verifier_public_key_x_attr :: nat
  ecdsa_verifier_public_key_y_attr :: nat
  ecdsa_verifier_public_key_handle :: handle
  msg0 :: msg0_t
  msg1 :: msg1_t
  msg2 :: msg2_t
  msg3 :: bytes
  msg3_ptr :: handle
  msg3_size :: nat
  socket_handle :: handle

definition zero_point :: ec_point where
  "zero_point = \<lparr>x_raw = replicate 32 0, x_size = 0, y_raw = replicate 32 0, y_size = 0\<rparr>"

definition zero_ra_context :: "ra_params \<Rightarrow> ra_context" where
  "zero_ra_context p =
     \<lparr>ecdh_local_keypair_handle = 0, ecdh_remote_public_key_x_attr = 0,
      ecdh_remote_public_key_y_attr = 0, ecdh_shared_key_derivation_key = 0,
      ecdh_shared_mac_key = 0, ecdh_shared_session_key = 0,
      ecdsa_verifier_public_key_x_attr = 0, ecdsa_verifier_public_key_y_attr = 0,
      ecdsa_verifier_public_key_handle = 0, msg0 = zero_point,
      msg1 = \<lparr>ecdh_verifier_public_key = zero_point, ecdsa_verifier_public_key = zero_point,
              ecdh_signature = replicate (RA_SIGNATURE_SIZE p) 0, mac1 = replicate 16 0\<rparr>,
      msg2 = \<lparr>ecdh_local_public_key = zero_point, quote = replicate (sizeof_ra_quote p) 0,
              mac2 = replicate 16 0\<rparr>,
      msg3 = [], msg3_ptr = 0, msg3_size = 0, socket_handle = 0\<rparr>"

definition alloc_ra_context :: "ra_params \<Rightarrow> TEE_Result \<times> ra_context" where
  "alloc_ra_context p =
     (TEE_SUCCESS, (zero_ra_context p)\<lparr>msg0 := zero_point\<lparr>x_size := 32, y_size := 32\<rparr>\<rparr>)"

section \<open>Printing of byte arrays\<close>

definition hex_digit :: "nat \<Rightarrow> byte" where
  "hex_digit n = (if n < 10 then of_nat (48 + n) else of_nat (87 + n))"

definition hex_text :: "byte \<Rightarrow> bytes" where
  "hex_text b = [hex_digit (unat b div 16), hex_digit (unat b mod 16), 32]"

text \<open>\<open>snprintf(buffer + cursor, 150 - cursor, "%02x ", b)\<close>: the text is cut to the room left and
  terminated. \<open>None\<close> is a write outside the buffer.\<close>

definition snprintf_at :: "bytes \<Rightarrow> nat \<Rightarrow> bytes \<Rightarrow> bytes option" where
  "snprintf_at buf cursor text =
     (let room = 150 - cursor in
      if room = 0 then Some buf
      else let d = take (room - 1) text @ [0] in
        if cursor + length d \<le> length buf then Some (splice buf cursor d) else None)"

fun print_line :: "bytes \<Rightarrow> nat \<Rightarrow> bytes \<Rightarrow> bytes option" where
  "print_line buf cursor [] = (if cursor < length buf then Some (buf[cursor := 0]) else None)"
| "print_line buf cursor (b # bs) =
     (case snprintf_at buf cursor (hex_text b) of
        None \<Rightarrow> None
      | Some buf' \<Rightarrow> print_line buf' (cursor + 3) bs)"

fun print_lines :: "bytes \<Rightarrow> bytes \<Rightarrow> bytes list option" where
  "print_lines buf bs =
     (if bs = [] then Some []
      else case print_line buf 0 (take 50 bs) of
             None \<Rightarrow> None
           | Some buf' \<Rightarrow> map_option (Cons (takeWhile (\<lambda>c. c \<noteq> 0) buf')) (print_lines buf' (drop 50 bs)))"

declare print_lines.simps [simp del]

definition utils_print_byte_array :: "bytes \<Rightarrow> 'a tee \<Rightarrow> 'a tee" where
  "utils_print_byte_array bs k =
     call (TEE_Malloc 150) (\<lambda>m.
     within (print_lines (ans_data m) bs \<noteq> None)
     (call (TEE_Free (ans_handle m)) (\<lambda>_. k)))"

section \<open>Socket\<close>

text \<open>The loop of \<open>receive_socket_per_chunk\<close>. A received chunk is written at the cursor; the
  number of bytes received is the chunk size of the next request.\<close>

function receive_socket_per_chunk ::
  "handle \<Rightarrow> nat \<Rightarrow> bytes \<Rightarrow> nat \<Rightarrow> nat \<Rightarrow> (TEE_Result \<times> bytes \<times> nat) tee" where
  "receive_socket_per_chunk s chunk_size dat data_size transfered env tr =
     (if 0 < chunk_size \<and> transfered < data_size then
        (if data_size < transfered then (Ret (TEE_ERROR_SHORT_BUFFER, dat, transfered), tr)
         else case env tr (tcp_recv s chunk_size) of
            None \<Rightarrow> (Panic, tr)
          | Some a \<Rightarrow>
              (if ans_res a \<noteq> TEE_SUCCESS
               then (Ret (ans_res a, dat, transfered), (tcp_recv s chunk_size, a) # tr)
               else if transfered + length (ans_data a) \<le> length dat
               then receive_socket_per_chunk s (length (ans_data a)) (splice dat transfered (ans_data a))
                      data_size (transfered + length (ans_data a)) env ((tcp_recv s chunk_size, a) # tr)
               else (Oob, (tcp_recv s chunk_size, a) # tr)))
      else (Ret (TEE_SUCCESS, dat, transfered), tr))"
  by pat_completeness auto
termination
  by (relation "measure (\<lambda>(s, c, d, n, t, env, tr). (n - t) + (if 0 < c then 1 else 0))")
    (auto simp flip: length_greater_0_conv)

declare receive_socket_per_chunk.simps [simp del]

definition establish_tcp_connection :: "ra_context \<Rightarrow> string \<Rightarrow> (TEE_Result \<times> ra_context) tee" where
  "establish_tcp_connection ctx host =
     call (tcp_open host 8080) (\<lambda>a.
     let ctx = ctx\<lparr>socket_handle := ans_handle a\<rparr> in
     if ans_res a \<noteq> TEE_SUCCESS then return (ans_res a, ctx) else return (TEE_SUCCESS, ctx))"

section \<open>Message 0\<close>

text \<open>\<open>TEE_GetObjectBufferAttribute\<close> into a buffer of the given capacity.\<close>

definition get_buffer_attribute ::
  "handle \<Rightarrow> attr_id \<Rightarrow> bytes \<Rightarrow> nat \<Rightarrow> (TEE_Result \<Rightarrow> bytes \<Rightarrow> nat \<Rightarrow> 'a tee) \<Rightarrow> 'a tee" where
  "get_buffer_attribute h i buf n k =
     call (TEE_GetObjectBufferAttribute h i n) (\<lambda>a.
     wr buf 0 (ans_data a) (\<lambda>buf'. k (ans_res a) buf' (ans_size a)))"

definition generate_ecdh_keypair :: "ra_context \<Rightarrow> (TEE_Result \<times> ra_context) tee" where
  "generate_ecdh_keypair ctx =
     call (TEE_AllocateTransientObject TEE_TYPE_ECDH_KEYPAIR 256) (\<lambda>a.
     let ctx = ctx\<lparr>ecdh_local_keypair_handle := ans_handle a\<rparr> in
     if ans_res a \<noteq> TEE_SUCCESS then return (ans_res a, ctx) else
     call (TEE_GenerateKey (ecdh_local_keypair_handle ctx) 256 [CurveP256]) (\<lambda>g.
     if ans_res g \<noteq> TEE_SUCCESS then return (ans_res g, ctx) else
     get_buffer_attribute (ecdh_local_keypair_handle ctx) TEE_ATTR_ECC_PUBLIC_VALUE_X
       (x_raw (msg0 ctx)) (x_size (msg0 ctx)) (\<lambda>res x n.
     let ctx = ctx\<lparr>msg0 := (msg0 ctx)\<lparr>x_raw := x, x_size := n\<rparr>\<rparr> in
     if res \<noteq> TEE_SUCCESS then return (res, ctx) else
     get_buffer_attribute (ecdh_local_keypair_handle ctx) TEE_ATTR_ECC_PUBLIC_VALUE_Y
       (y_raw (msg0 ctx)) (y_size (msg0 ctx)) (\<lambda>res y n.
     let ctx = ctx\<lparr>msg0 := (msg0 ctx)\<lparr>y_raw := y, y_size := n\<rparr>\<rparr> in
     if res \<noteq> TEE_SUCCESS then return (res, ctx) else
     return (TEE_SUCCESS, ctx)))))"

definition send_msg0 :: "ra_context \<Rightarrow> TEE_Result tee" where
  "send_msg0 ctx =
     call (tcp_send (socket_handle ctx) (enc_point 4 (msg0 ctx))) (\<lambda>a.
     if ans_res a \<noteq> TEE_SUCCESS then return (ans_res a) else return TEE_SUCCESS)"

section \<open>Message 1\<close>

text \<open>The local array \<open>msg1\<close> has no initialiser; it is copied only after all its bytes were
  received.\<close>

definition receive_msg1 :: "ra_params \<Rightarrow> ra_context \<Rightarrow> (TEE_Result \<times> ra_context) tee" where
  "receive_msg1 p ctx =
     bind (receive_socket_per_chunk (socket_handle ctx) (sizeof_msg1 p 4)
             (replicate (sizeof_msg1 p 4) 0) (sizeof_msg1 p 4) 0) (\<lambda>(res, buf, n).
     if res \<noteq> TEE_SUCCESS then return (res, ctx) else
     if n < sizeof_msg1 p 4 then return (TEE_ERROR_GENERIC, ctx) else
     let m = dec_msg1 p 4 buf in
     return (TEE_SUCCESS,
       ctx\<lparr>msg1 := m,
           ecdh_remote_public_key_x_attr := x_size (ecdh_verifier_public_key m),
           ecdh_remote_public_key_y_attr := y_size (ecdh_verifier_public_key m)\<rparr>))"

definition verify_service_public_key ::
  "ra_context \<Rightarrow> bytes \<Rightarrow> nat \<Rightarrow> bytes \<Rightarrow> nat \<Rightarrow> TEE_Result tee" where
  "verify_service_public_key ctx kx kx_size ky ky_size =
     (if kx_size = 0 \<and> ky_size = 0 then return TEE_SUCCESS else
      if kx_size \<noteq> 32 \<or> ky_size \<noteq> 32 then return TEE_ERROR_COMMUNICATION else
      rd kx kx_size (\<lambda>a. rd (x_raw (ecdsa_verifier_public_key (msg1 ctx))) kx_size (\<lambda>b.
      if a \<noteq> b then return TEE_ERROR_COMMUNICATION else
      rd ky ky_size (\<lambda>a. rd (y_raw (ecdsa_verifier_public_key (msg1 ctx))) ky_size (\<lambda>b.
      if a \<noteq> b then return TEE_ERROR_COMMUNICATION else
      return TEE_SUCCESS)))))"

definition import_verifier_attestation_key :: "ra_context \<Rightarrow> (TEE_Result \<times> ra_context) tee" where
  "import_verifier_attestation_key ctx =
     call (TEE_AllocateTransientObject TEE_TYPE_ECDSA_PUBLIC_KEY 256) (\<lambda>a.
     let ctx = ctx\<lparr>ecdsa_verifier_public_key_handle := ans_handle a\<rparr> in
     if ans_res a \<noteq> TEE_SUCCESS then return (ans_res a, ctx) else
     let k = ecdsa_verifier_public_key (msg1 ctx);
         ctx = ctx\<lparr>ecdsa_verifier_public_key_x_attr := x_size k,
                   ecdsa_verifier_public_key_y_attr := y_size k\<rparr> in
     rd (x_raw k) (ecdsa_verifier_public_key_x_attr ctx) (\<lambda>x.
     rd (y_raw k) (ecdsa_verifier_public_key_y_attr ctx) (\<lambda>y.
     call (TEE_PopulateTransientObject (ecdsa_verifier_public_key_handle ctx)
       [RefAttr TEE_ATTR_ECC_PUBLIC_VALUE_X x, RefAttr TEE_ATTR_ECC_PUBLIC_VALUE_Y y, CurveP256]) (\<lambda>b.
     if ans_res b \<noteq> TEE_SUCCESS then return (ans_res b, ctx) else
     return (TEE_SUCCESS, ctx)))))"

definition free_op :: "handle \<Rightarrow> 'a \<Rightarrow> 'a tee" where
  "free_op op r = call (TEE_FreeOperation op) (\<lambda>_. return r)"

text \<open>\<open>rd_print\<close> prints a prefix of an array. The invalid-signature branch dumps the message and
  the inputs of the digest before it leaves through \<open>out\<close>. The code also compares \<open>sign_len\<close> with
  \<open>expected_sign_len\<close>; both are the constant \<open>RA_SIGNATURE_SIZE\<close> and never assigned.\<close>

definition rd_print :: "bytes \<Rightarrow> nat \<Rightarrow> 'a tee \<Rightarrow> 'a tee" where
  "rd_print buf n k = rd buf n (\<lambda>d. utils_print_byte_array d k)"

definition dump_invalid_signature :: "ra_params \<Rightarrow> ra_context \<Rightarrow> bytes \<Rightarrow> 'a tee \<Rightarrow> 'a tee" where
  "dump_invalid_signature p ctx digest k =
     (let gv = ecdh_verifier_public_key (msg1 ctx); kv = ecdsa_verifier_public_key (msg1 ctx);
          ga = msg0 ctx in
      rd_print (enc_msg1 p 4 (msg1 ctx)) (sizeof_msg1 p 4)
      (rd_print digest 32
      (rd_print (x_raw kv) (x_size kv) (rd_print (y_raw kv) (y_size kv)
      (rd_print (x_raw ga) (x_size ga) (rd_print (y_raw ga) (y_size ga)
      (rd_print (x_raw gv) (x_size gv) (rd_print (y_raw gv) (y_size gv) k))))))))"

definition verify_ecdh_public_key_signature :: "ra_params \<Rightarrow> ra_context \<Rightarrow> TEE_Result tee" where
  "verify_ecdh_public_key_signature p ctx =
     (let gv = ecdh_verifier_public_key (msg1 ctx); ga = msg0 ctx in
      call (TEE_AllocateOperation TEE_ALG_SHA256 TEE_MODE_DIGEST 0) (\<lambda>a.
      let op = ans_handle a in
      if ans_res a \<noteq> TEE_SUCCESS then free_op op (ans_res a) else
      rd (x_raw gv) (x_size gv) (\<lambda>d. call (TEE_DigestUpdate op d) (\<lambda>_.
      rd (y_raw gv) (y_size gv) (\<lambda>d. call (TEE_DigestUpdate op d) (\<lambda>_.
      rd (x_raw ga) (x_size ga) (\<lambda>d. call (TEE_DigestUpdate op d) (\<lambda>_.
      rd (y_raw ga) (y_size ga) (\<lambda>d. call (TEE_DigestDoFinal op d 256) (\<lambda>f.
      wr (replicate 32 0) 0 (ans_data f) (\<lambda>digest.
      if ans_res f \<noteq> TEE_SUCCESS then free_op op (ans_res f) else
      if ans_size f \<noteq> 32 then free_op op TEE_ERROR_GENERIC else
      call (TEE_ResetOperation op) (\<lambda>_.
      call (TEE_AllocateOperation TEE_ALG_ECDSA_P256 TEE_MODE_VERIFY 256) (\<lambda>b.
      let op = ans_handle b in
      if ans_res b \<noteq> TEE_SUCCESS then free_op op (ans_res b) else
      call (TEE_SetOperationKey op (ecdsa_verifier_public_key_handle ctx)) (\<lambda>s.
      if ans_res s \<noteq> TEE_SUCCESS then free_op op (ans_res s) else
      call (TEE_AsymmetricVerifyDigest op digest (ecdh_signature (msg1 ctx))) (\<lambda>v.
      if ans_res v = TEE_ERROR_SIGNATURE_INVALID
      then dump_invalid_signature p ctx digest (free_op op (ans_res v)) else
      if ans_res v \<noteq> TEE_SUCCESS then free_op op (ans_res v) else
      free_op op TEE_SUCCESS)))))))))))))))"

definition verify_msg1_mac :: "ra_context \<Rightarrow> TEE_Result tee" where
  "verify_msg1_mac ctx =
     (let gv = ecdh_verifier_public_key (msg1 ctx); kv = ecdsa_verifier_public_key (msg1 ctx) in
      call (TEE_AllocateOperation TEE_ALG_AES_CMAC TEE_MODE_MAC 128) (\<lambda>a.
      let op = ans_handle a in
      if ans_res a \<noteq> TEE_SUCCESS then return (ans_res a) else
      call (TEE_SetOperationKey op (ecdh_shared_mac_key ctx)) (\<lambda>s.
      if ans_res s \<noteq> TEE_SUCCESS then return (ans_res s) else
      call (TEE_MACInit op) (\<lambda>_.
      rd (x_raw gv) (x_size gv) (\<lambda>d. call (TEE_MACUpdate op d) (\<lambda>_.
      rd (y_raw gv) (y_size gv) (\<lambda>d. call (TEE_MACUpdate op d) (\<lambda>_.
      rd (x_raw kv) (x_size kv) (\<lambda>d. call (TEE_MACUpdate op d) (\<lambda>_.
      rd (y_raw kv) (y_size kv) (\<lambda>d. call (TEE_MACUpdate op d) (\<lambda>_.
      call (TEE_MACCompareFinal op (ecdh_signature (msg1 ctx)) (mac1 (msg1 ctx))) (\<lambda>m.
      if ans_res m = TEE_ERROR_MAC_INVALID then free_op op (ans_res m) else
      if ans_res m \<noteq> TEE_SUCCESS then free_op op (ans_res m) else
      free_op op (ans_res m))))))))))))))"

definition generate_anchor ::
  "ra_params \<Rightarrow> ra_context \<Rightarrow> bytes \<Rightarrow> nat \<Rightarrow> (TEE_Result \<times> bytes) tee" where
  "generate_anchor p ctx anchor anchor_size =
     (let gv = ecdh_verifier_public_key (msg1 ctx); ga = msg0 ctx in
      if anchor_size \<noteq> RA_ANCHOR_SIZE p then return (TEE_ERROR_SECURITY, anchor) else
      call (TEE_AllocateOperation TEE_ALG_SHA256 TEE_MODE_DIGEST 0) (\<lambda>a.
      let op = ans_handle a in
      if ans_res a \<noteq> TEE_SUCCESS then free_op op (ans_res a, anchor) else
      rd (x_raw ga) (x_size ga) (\<lambda>d. call (TEE_DigestUpdate op d) (\<lambda>_.
      rd (y_raw ga) (y_size ga) (\<lambda>d. call (TEE_DigestUpdate op d) (\<lambda>_.
      rd (x_raw gv) (x_size gv) (\<lambda>d. call (TEE_DigestUpdate op d) (\<lambda>_.
      rd (y_raw gv) (y_size gv) (\<lambda>d. call (TEE_DigestDoFinal op d (RA_ANCHOR_SIZE p)) (\<lambda>f.
      wr anchor 0 (ans_data f) (\<lambda>anchor.
      if ans_res f \<noteq> TEE_SUCCESS then free_op op (ans_res f, anchor) else
      if ans_size f \<noteq> RA_ANCHOR_SIZE p then free_op op (TEE_ERROR_GENERIC, anchor) else
      free_op op (ans_res f, anchor))))))))))))"

section \<open>Key derivation\<close>

text \<open>The label \<open>out\<close> of \<open>derive_shared_key\<close>: the two objects may still be uninitialised variables
  when it is reached.\<close>

definition derive_out :: "handle \<Rightarrow> handle \<Rightarrow> handle \<Rightarrow> 'a \<Rightarrow> 'a tee" where
  "derive_out aes_key op secret r =
     call (TEE_FreeTransientObject aes_key) (\<lambda>_.
     call (TEE_FreeOperation op) (\<lambda>_.
     call (TEE_FreeTransientObject secret) (\<lambda>_. return r)))"

text \<open>The result of \<open>TEE_DeriveKey\<close> is not checked by the code. A failure to read the shared
  secret returns at once, without \<open>out\<close>. The operation variable is assigned a second time
  without a free.\<close>

definition derive_shared_key :: "ra_params \<Rightarrow> ra_context \<Rightarrow> (TEE_Result \<times> ra_context) tee" where
  "derive_shared_key p ctx =
     (let gv = ecdh_verifier_public_key (msg1 ctx); u = uninit_handle p in
      call (TEE_AllocateOperation TEE_ALG_ECDH_P256 TEE_MODE_DERIVE 256) (\<lambda>a.
      let op = ans_handle a in
      if ans_res a \<noteq> TEE_SUCCESS then derive_out u op u (ans_res a, ctx) else
      call (TEE_SetOperationKey op (ecdh_local_keypair_handle ctx)) (\<lambda>s.
      if ans_res s \<noteq> TEE_SUCCESS then derive_out u op u (ans_res s, ctx) else
      call (TEE_AllocateTransientObject TEE_TYPE_GENERIC_SECRET 256) (\<lambda>b.
      let secret = ans_handle b in
      if ans_res b \<noteq> TEE_SUCCESS then derive_out u op secret (ans_res b, ctx) else
      rd (x_raw gv) (ecdh_remote_public_key_x_attr ctx) (\<lambda>x.
      rd (y_raw gv) (ecdh_remote_public_key_y_attr ctx) (\<lambda>y.
      call (TEE_DeriveKey op [RefAttr TEE_ATTR_ECC_PUBLIC_VALUE_X x,
                              RefAttr TEE_ATTR_ECC_PUBLIC_VALUE_Y y] secret) (\<lambda>_.
      get_buffer_attribute secret TEE_ATTR_SECRET_VALUE (replicate 32 0) 32 (\<lambda>res raw n.
      if res \<noteq> TEE_SUCCESS then return (res, ctx) else
      call (TEE_ResetOperation op) (\<lambda>_.
      call (TEE_AllocateTransientObject TEE_TYPE_AES 128) (\<lambda>k.
      let aes_key = ans_handle k in
      if ans_res k \<noteq> TEE_SUCCESS then derive_out aes_key op secret (ans_res k, ctx) else
      call (TEE_PopulateTransientObject aes_key [RefAttr TEE_ATTR_SECRET_VALUE (replicate 16 0)]) (\<lambda>q.
      if ans_res q \<noteq> TEE_SUCCESS then derive_out aes_key op secret (ans_res q, ctx) else
      call (TEE_AllocateOperation TEE_ALG_AES_CMAC TEE_MODE_MAC 128) (\<lambda>a.
      let op = ans_handle a in
      if ans_res a \<noteq> TEE_SUCCESS then derive_out aes_key op secret (ans_res a, ctx) else
      call (TEE_SetOperationKey op aes_key) (\<lambda>s.
      if ans_res s \<noteq> TEE_SUCCESS then derive_out aes_key op secret (ans_res s, ctx) else
      call (TEE_MACInit op) (\<lambda>_.
      rd raw n (\<lambda>d. call (TEE_MACComputeFinal op d 16) (\<lambda>m.
      wr (replicate 16 0) 0 (ans_data m) (\<lambda>mac.
      if ans_res m \<noteq> TEE_SUCCESS then derive_out aes_key op secret (ans_res m, ctx) else
      call (TEE_AllocateTransientObject TEE_TYPE_AES 128) (\<lambda>k.
      let ctx = ctx\<lparr>ecdh_shared_key_derivation_key := ans_handle k\<rparr> in
      if ans_res k \<noteq> TEE_SUCCESS then derive_out aes_key op secret (ans_res k, ctx) else
      rd mac (ans_size m) (\<lambda>d.
      call (TEE_PopulateTransientObject (ecdh_shared_key_derivation_key ctx)
              [RefAttr TEE_ATTR_SECRET_VALUE d]) (\<lambda>q.
      derive_out aes_key op secret (ans_res q, ctx)))))))))))))))))))))"

text \<open>\<open>derive_shared_mac_key\<close> stores the key in the context field the caller names; here it
  returns the new value of that field, \<open>old\<close> until the key is allocated.\<close>

definition derive_shared_mac_key ::
  "ra_params \<Rightarrow> ra_context \<Rightarrow> bytes \<Rightarrow> handle \<Rightarrow> (TEE_Result \<times> handle) tee" where
  "derive_shared_mac_key p ctx dat old =
     (let out = (\<lambda>op aes_key r. call (TEE_FreeOperation op) (\<lambda>_.
                   call (TEE_FreeTransientObject aes_key) (\<lambda>_. return r)));
          u = uninit_handle p in
      call (TEE_AllocateTransientObject TEE_TYPE_AES 128) (\<lambda>k.
      let aes_key = ans_handle k in
      if ans_res k \<noteq> TEE_SUCCESS then out u aes_key (ans_res k, old) else
      get_buffer_attribute (ecdh_shared_key_derivation_key ctx) TEE_ATTR_SECRET_VALUE
        (replicate 32 0) 32 (\<lambda>res kdk n.
      if res \<noteq> TEE_SUCCESS then out u aes_key (res, old) else
      rd kdk n (\<lambda>d.
      call (TEE_PopulateTransientObject aes_key [RefAttr TEE_ATTR_SECRET_VALUE d]) (\<lambda>q.
      if ans_res q \<noteq> TEE_SUCCESS then out u aes_key (ans_res q, old) else
      call (TEE_AllocateOperation TEE_ALG_AES_CMAC TEE_MODE_MAC 128) (\<lambda>a.
      let op = ans_handle a in
      if ans_res a \<noteq> TEE_SUCCESS then out op aes_key (ans_res a, old) else
      call (TEE_SetOperationKey op aes_key) (\<lambda>s.
      if ans_res s \<noteq> TEE_SUCCESS then out op aes_key (ans_res s, old) else
      call (TEE_MACInit op) (\<lambda>_.
      call (TEE_MACComputeFinal op dat 16) (\<lambda>m.
      wr (replicate 16 0) 0 (ans_data m) (\<lambda>mac.
      if ans_res m \<noteq> TEE_SUCCESS then out op aes_key (ans_res m, old) else
      call (TEE_AllocateTransientObject TEE_TYPE_AES 128) (\<lambda>k.
      let key = ans_handle k in
      if ans_res k \<noteq> TEE_SUCCESS then out op aes_key (ans_res k, key) else
      rd mac (ans_size m) (\<lambda>d.
      call (TEE_PopulateTransientObject key [RefAttr TEE_ATTR_SECRET_VALUE d]) (\<lambda>q.
      out op aes_key (ans_res q, key))))))))))))))"

text \<open>The derivation labels, with the terminating zero that \<open>sizeof\<close> counts.\<close>

definition WASI_RA_SHARED_MAC_DATA :: bytes where
  "WASI_RA_SHARED_MAC_DATA = [0x01, 0x53, 0x4D, 0x4B, 0x00, 0x80, 0x00, 0x00]"

definition WASI_RA_SHARED_SESSION_DATA :: bytes where
  "WASI_RA_SHARED_SESSION_DATA = [0x01, 0x53, 0x4B, 0x00, 0x80, 0x00, 0x00]"

section \<open>Message 2\<close>

text \<open>Every path, the failures included, ends in \<open>return TEE_SUCCESS\<close>.\<close>

definition prepare_msg2 :: "ra_context \<Rightarrow> bytes \<Rightarrow> (TEE_Result \<times> ra_context) tee" where
  "prepare_msg2 ctx q =
     (let ga = msg0 ctx; pt = ecdh_local_public_key (msg2 ctx) in
      rd (x_raw ga) (x_size ga) (\<lambda>d. wr (x_raw pt) 0 d (\<lambda>x.
      rd (y_raw ga) (y_size ga) (\<lambda>d. wr (y_raw pt) 0 d (\<lambda>y.
      wr (quote (msg2 ctx)) 0 q (\<lambda>q.
      let m = (msg2 ctx)\<lparr>ecdh_local_public_key :=
                \<lparr>x_raw = x, x_size = x_size ga, y_raw = y, y_size = y_size ga\<rparr>, quote := q\<rparr>;
          ctx = ctx\<lparr>msg2 := m\<rparr> in
      call (TEE_AllocateOperation TEE_ALG_AES_CMAC TEE_MODE_MAC 128) (\<lambda>a.
      let op = ans_handle a in
      if ans_res a \<noteq> TEE_SUCCESS then free_op op (TEE_SUCCESS, ctx) else
      call (TEE_SetOperationKey op (ecdh_shared_mac_key ctx)) (\<lambda>s.
      if ans_res s \<noteq> TEE_SUCCESS then free_op op (TEE_SUCCESS, ctx) else
      call (TEE_MACInit op) (\<lambda>_.
      rd (x_raw (ecdh_local_public_key m)) (x_size ga) (\<lambda>d. call (TEE_MACUpdate op d) (\<lambda>_.
      rd (y_raw (ecdh_local_public_key m)) (y_size ga) (\<lambda>d. call (TEE_MACUpdate op d) (\<lambda>_.
      call (TEE_MACComputeFinal op (quote m) 16) (\<lambda>f.
      wr (mac2 m) 0 (ans_data f) (\<lambda>t.
      free_op op (TEE_SUCCESS, ctx\<lparr>msg2 := m\<lparr>mac2 := t\<rparr>\<rparr>))))))))))))))))"

definition send_msg2 :: "ra_params \<Rightarrow> ra_context \<Rightarrow> TEE_Result tee" where
  "send_msg2 p ctx =
     call (tcp_send (socket_handle ctx) (enc_msg2 p (sizeof_size_t p) (msg2 ctx))) (\<lambda>a.
     if ans_res a \<noteq> TEE_SUCCESS then return (ans_res a) else return TEE_SUCCESS)"

section \<open>Message 3\<close>

definition allocate_msg3 :: "ra_params \<Rightarrow> ra_context \<Rightarrow> nat \<Rightarrow> (TEE_Result \<times> ra_context) tee" where
  "allocate_msg3 p ctx data_size =
     (let n = (sizeof_msg3 (sizeof_size_t p) + data_size + 16) mod 256 ^ sizeof_size_t p in
      call (TEE_Malloc n) (\<lambda>m.
      return (TEE_SUCCESS, ctx\<lparr>msg3_size := n, msg3 := ans_data m, msg3_ptr := ans_handle m\<rparr>)))"

definition receive_msg3 :: "ra_context \<Rightarrow> (TEE_Result \<times> ra_context) tee" where
  "receive_msg3 ctx =
     bind (receive_socket_per_chunk (socket_handle ctx) (256 * 1024) (msg3 ctx) (msg3_size ctx) 0)
       (\<lambda>(res, buf, n).
     if res \<noteq> TEE_SUCCESS then return (res, ctx\<lparr>msg3 := buf\<rparr>) else
     return (TEE_SUCCESS, ctx\<lparr>msg3 := buf, msg3_size := n\<rparr>))"

text \<open>The encrypted content and its length are read from the received memory as they are.\<close>

definition decrypt_msg3 ::
  "ra_params \<Rightarrow> ra_context \<Rightarrow> bytes \<Rightarrow> nat \<Rightarrow> (TEE_Result \<times> bytes \<times> nat) tee" where
  "decrypt_msg3 p ctx dat data_size =
     (let hdr = sizeof_msg3 (sizeof_size_t p) in
      call (TEE_AllocateOperation TEE_ALG_AES_GCM TEE_MODE_DECRYPT 128) (\<lambda>a.
      let op = ans_handle a in
      if ans_res a \<noteq> TEE_SUCCESS then free_op op (ans_res a, dat, data_size) else
      call (TEE_SetOperationKey op (ecdh_shared_session_key ctx)) (\<lambda>s.
      if ans_res s \<noteq> TEE_SUCCESS then free_op op (ans_res s, dat, data_size) else
      rd (msg3 ctx) hdr (\<lambda>h.
      let m = dec_msg3 (sizeof_size_t p) h in
      call (TEE_AEInit op (iv m) 128) (\<lambda>i.
      if ans_res i \<noteq> TEE_SUCCESS then free_op op (ans_res i, dat, data_size) else
      rd (drop hdr (msg3 ctx)) (encrypted_content_size m) (\<lambda>ct.
      call (TEE_AEDecryptFinal op ct data_size (tag m)) (\<lambda>f.
      wr dat 0 (ans_data f) (\<lambda>dat'.
      if ans_res f = TEE_ERROR_SHORT_BUFFER then free_op op (ans_res f, dat', ans_size f) else
      if ans_res f \<noteq> TEE_SUCCESS then free_op op (ans_res f, dat', ans_size f) else
      free_op op (ans_res f, dat', ans_size f)))))))))"

section \<open>Quotes\<close>

definition ensure_attestation_service_up :: "handle \<Rightarrow> (TEE_Result \<times> handle) tee" where
  "ensure_attestation_service_up session =
     (if session \<noteq> 0 then return (TEE_SUCCESS, session) else
      call TEE_OpenTASession (\<lambda>a. return (ans_res a, ans_handle a)))"

text \<open>The session handle is kept by the caller. The test in \<open>close_attestation_session\<close> is on the
  pointer to the handle, which is not null.\<close>

definition close_attestation_session :: "handle \<Rightarrow> TEE_Result tee" where
  "close_attestation_session session = call (TEE_CloseTASession session) (\<lambda>_. return TEE_SUCCESS)"

definition ra_quote_collect ::
  "handle \<Rightarrow> bytes \<Rightarrow> bytes \<Rightarrow> bytes \<Rightarrow> (TEE_Result \<times> handle \<times> bytes) tee" where
  "ra_quote_collect session wasm_bytecode_hash anchor q =
     bind (ensure_attestation_service_up session) (\<lambda>(res, session).
     if res \<noteq> TEE_SUCCESS then return (res, session, q) else
     call (TEE_InvokeTACommand session wasm_bytecode_hash anchor q) (\<lambda>a.
     wr q 0 (ans_data a) (\<lambda>q'.
     if ans_res a \<noteq> TEE_SUCCESS then return (ans_res a, session, q') else
     return (TEE_SUCCESS, session, q'))))"

definition ra_quote_dispose :: "handle \<Rightarrow> bytes \<Rightarrow> (TEE_Result \<times> handle \<times> bytes) tee" where
  "ra_quote_dispose session q =
     bind (close_attestation_session session) (\<lambda>res.
     if res \<noteq> TEE_SUCCESS then return (res, session, q) else
     return (TEE_SUCCESS, session, replicate (length q) 0))"

section \<open>The protocol\<close>

definition ra_net_handshake ::
  "ra_params \<Rightarrow> string \<Rightarrow> bytes \<Rightarrow> nat \<Rightarrow> bytes \<Rightarrow> nat \<Rightarrow> bytes \<Rightarrow> nat \<Rightarrow>
     (TEE_Result \<times> ra_context \<times> bytes) tee" where
  "ra_net_handshake p host kx kx_size ky ky_size anchor anchor_size =
     (let (res, ctx) = alloc_ra_context p in
      if res \<noteq> TEE_SUCCESS then return (res, ctx, anchor) else
      bind (generate_ecdh_keypair ctx) (\<lambda>(res, ctx).
      if res \<noteq> TEE_SUCCESS then return (res, ctx, anchor) else
      bind (establish_tcp_connection ctx host) (\<lambda>(res, ctx).
      if res \<noteq> TEE_SUCCESS then return (res, ctx, anchor) else
      bind (send_msg0 ctx) (\<lambda>res.
      if res \<noteq> TEE_SUCCESS then return (res, ctx, anchor) else
      bind (receive_msg1 p ctx) (\<lambda>(res, ctx).
      if res \<noteq> TEE_SUCCESS then return (res, ctx, anchor) else
      bind (verify_service_public_key ctx kx kx_size ky ky_size) (\<lambda>res.
      if res \<noteq> TEE_SUCCESS then return (res, ctx, anchor) else
      bind (import_verifier_attestation_key ctx) (\<lambda>(res, ctx).
      if res \<noteq> TEE_SUCCESS then return (res, ctx, anchor) else
      bind (verify_ecdh_public_key_signature p ctx) (\<lambda>res.
      if res \<noteq> TEE_SUCCESS then return (res, ctx, anchor) else
      bind (derive_shared_key p ctx) (\<lambda>(res, ctx).
      if res \<noteq> TEE_SUCCESS then return (res, ctx, anchor) else
      bind (derive_shared_mac_key p ctx WASI_RA_SHARED_MAC_DATA (ecdh_shared_mac_key ctx)) (\<lambda>(res, k).
      let ctx = ctx\<lparr>ecdh_shared_mac_key := k\<rparr> in
      if res \<noteq> TEE_SUCCESS then return (res, ctx, anchor) else
      bind (derive_shared_mac_key p ctx WASI_RA_SHARED_SESSION_DATA (ecdh_shared_session_key ctx)) (\<lambda>(res, k).
      let ctx = ctx\<lparr>ecdh_shared_session_key := k\<rparr> in
      if res \<noteq> TEE_SUCCESS then return (res, ctx, anchor) else
      bind (verify_msg1_mac ctx) (\<lambda>res.
      if res \<noteq> TEE_SUCCESS then return (res, ctx, anchor) else
      bind (generate_anchor p ctx anchor anchor_size) (\<lambda>(res, anchor).
      if res \<noteq> TEE_SUCCESS then return (res, ctx, anchor) else
      return (TEE_SUCCESS, ctx, anchor))))))))))))))"

definition ra_net_send_quote :: "ra_params \<Rightarrow> ra_context \<Rightarrow> bytes \<Rightarrow> (TEE_Result \<times> ra_context) tee" where
  "ra_net_send_quote p ctx q =
     bind (prepare_msg2 ctx q) (\<lambda>(res, ctx).
     if res \<noteq> TEE_SUCCESS then return (res, ctx) else
     bind (send_msg2 p ctx) (\<lambda>res.
     if res \<noteq> TEE_SUCCESS then return (res, ctx) else
     return (TEE_SUCCESS, ctx)))"

definition ra_net_receive_data ::
  "ra_params \<Rightarrow> ra_context \<Rightarrow> bytes \<Rightarrow> nat \<Rightarrow> (TEE_Result \<times> ra_context \<times> bytes \<times> nat) tee" where
  "ra_net_receive_data p ctx dat data_size =
     bind (allocate_msg3 p ctx data_size) (\<lambda>(res, ctx).
     if res \<noteq> TEE_SUCCESS then return (res, ctx, dat, data_size) else
     bind (receive_msg3 ctx) (\<lambda>(res, ctx).
     if res \<noteq> TEE_SUCCESS then return (res, ctx, dat, data_size) else
     bind (decrypt_msg3 p ctx dat data_size) (\<lambda>(res, dat, data_size).
     if res \<noteq> TEE_SUCCESS then return (res, ctx, dat, data_size) else
     return (TEE_SUCCESS, ctx, dat, data_size))))"

definition free_ra_context :: "ra_context \<Rightarrow> (TEE_Result \<times> ra_context) tee" where
  "free_ra_context ctx =
     call (TEE_FreeTransientObject (ecdh_local_keypair_handle ctx)) (\<lambda>_.
     call (TEE_FreeTransientObject (ecdh_shared_key_derivation_key ctx)) (\<lambda>_.
     call (TEE_FreeTransientObject (ecdh_shared_mac_key ctx)) (\<lambda>_.
     call (TEE_FreeTransientObject (ecdh_shared_session_key ctx)) (\<lambda>_.
     call (TEE_FreeTransientObject (ecdsa_verifier_public_key_handle ctx)) (\<lambda>_.
     bind (if 0 < msg3_size ctx
           then call (TEE_Free (msg3_ptr ctx)) (\<lambda>_. return (ctx\<lparr>msg3_size := 0, msg3 := []\<rparr>))
           else return ctx) (\<lambda>ctx.
     call (tcp_close (socket_handle ctx)) (\<lambda>_. return (TEE_SUCCESS, ctx))))))))"

definition ra_net_dispose :: "ra_context \<Rightarrow> (TEE_Result \<times> ra_context) tee" where
  "ra_net_dispose ctx = free_ra_context ctx"

end
