(* ===== verification/Verifier.thy ===== *)
theory Verifier
  imports Attester
begin

text \<open>
  The verifier: \<open>verifier.c\<close>, the protocol side that runs in the trusted application of the relying
  party. One definition per C function. The messages arrive in and leave through buffers that the
  application shares with its host. A name that the attester also defines carries the suffix
  \<open>_v\<close>. The blocks under \<open>DEBUG_MESSAGE\<close> and the \<open>PROFILING\<close> switches are not compiled into the
  modelled configuration.
\<close>

section \<open>Context\<close>

text \<open>The attributes for the session key refer to arrays of the context, so only their lengths are
  state; those of the attestation key refer to local arrays and are not read again. \<open>secret\<close> and
  \<open>msg3_v\<close> are the memory behind the pointers of the same name.\<close>

record ra_context_verifier =
  secret :: bytes
  secret_ptr :: handle
  secret_size :: nat
  ecdsa_attester_public_key_x_attr :: nat
  ecdsa_attester_public_key_y_attr :: nat
  ecdsa_attester_public_key_handle :: handle
  ecdh_attester_public_key_x_attr :: nat
  ecdh_attester_public_key_y_attr :: nat
  ecdh_attester_public_key_handle :: handle
  ecdsa_local_keypair_handle :: handle
  ecdh_local_keypair_handle_v :: handle
  ecdh_shared_key_derivation_key_v :: handle
  ecdh_shared_mac_key_v :: handle
  ecdh_shared_session_key_v :: handle
  is_quote_valid :: bool
  msg0_v :: msg0_t
  msg1_v :: msg1_t
  msg2_v :: msg2_t
  msg3_v :: bytes
  msg3_ptr_v :: handle
  msg3_size_v :: nat

definition RA_IMX_TEST_PUBLIC_KEY_X :: bytes where
  "RA_IMX_TEST_PUBLIC_KEY_X =
     [0x48, 0xee, 0xee, 0x81, 0xde, 0x28, 0xdb, 0x3e, 0x5d, 0x5a, 0xfc, 0x7d, 0x4b, 0x7e, 0xa4, 0xb1,
      0xac, 0x16, 0xa2, 0xd7, 0xa9, 0x97, 0x8c, 0x1f, 0x84, 0xb4, 0x35, 0x57, 0x30, 0x64, 0x38, 0x47]"

definition RA_IMX_TEST_PUBLIC_KEY_Y :: bytes where
  "RA_IMX_TEST_PUBLIC_KEY_Y =
     [0xf7, 0xf2, 0xce, 0x32, 0x43, 0x4e, 0xab, 0x77, 0x93, 0x53, 0x74, 0x8e, 0xee, 0x64, 0xe7, 0x29,
      0x76, 0x34, 0x0e, 0x80, 0x5d, 0x87, 0xc2, 0xb6, 0x98, 0x4a, 0xa5, 0xd1, 0x2d, 0x30, 0x3f, 0xaf]"

definition RA_SHARED_MAC_DATA :: bytes where
  "RA_SHARED_MAC_DATA = [0x01, 0x53, 0x4D, 0x4B, 0x00, 0x80, 0x00, 0x00]"

definition RA_SHARED_SESSION_DATA :: bytes where
  "RA_SHARED_SESSION_DATA = [0x01, 0x53, 0x4B, 0x00, 0x80, 0x00, 0x00]"

section \<open>Keys\<close>

definition generate_ecdh_keypair_v :: "ra_context_verifier \<Rightarrow> (TEE_Result \<times> ra_context_verifier) tee" where
  "generate_ecdh_keypair_v ctx =
     call (TEE_AllocateTransientObject TEE_TYPE_ECDH_KEYPAIR 256) (\<lambda>a.
     let h = ans_handle a; ctx = ctx\<lparr>ecdh_local_keypair_handle_v := h\<rparr> in
     if ans_res a \<noteq> TEE_SUCCESS then return (ans_res a, ctx) else
     call (TEE_GenerateKey h 256 [CurveP256]) (\<lambda>g.
     if ans_res g \<noteq> TEE_SUCCESS then return (ans_res g, ctx) else
     let pt = (ecdh_verifier_public_key (msg1_v ctx))\<lparr>x_size := 32, y_size := 32\<rparr> in
     get_buffer_attribute h TEE_ATTR_ECC_PUBLIC_VALUE_X (x_raw pt) (x_size pt) (\<lambda>res x n.
     let pt = pt\<lparr>x_raw := x, x_size := n\<rparr>;
         ctx = ctx\<lparr>msg1_v := (msg1_v ctx)\<lparr>ecdh_verifier_public_key := pt\<rparr>\<rparr> in
     if res \<noteq> TEE_SUCCESS then return (res, ctx) else
     get_buffer_attribute h TEE_ATTR_ECC_PUBLIC_VALUE_Y (y_raw pt) (y_size pt) (\<lambda>res y n.
     let pt = pt\<lparr>y_raw := y, y_size := n\<rparr>;
         ctx = ctx\<lparr>msg1_v := (msg1_v ctx)\<lparr>ecdh_verifier_public_key := pt\<rparr>\<rparr> in
     if res \<noteq> TEE_SUCCESS then return (res, ctx) else
     return (TEE_SUCCESS, ctx)))))"

definition store_msg0 :: "ra_params \<Rightarrow> ra_context_verifier \<Rightarrow> bytes \<Rightarrow> TEE_Result \<times> ra_context_verifier" where
  "store_msg0 p ctx buffer =
     (if length buffer < sizeof_msg0 (sizeof_size_t p) then (TEE_ERROR_SHORT_BUFFER, ctx)
      else (TEE_SUCCESS, ctx\<lparr>msg0_v := dec_point (sizeof_size_t p) buffer\<rparr>))"

definition populate_attester_key :: "ra_context_verifier \<Rightarrow> (TEE_Result \<times> ra_context_verifier) tee" where
  "populate_attester_key ctx =
     (let ga = msg0_v ctx;
          ctx = ctx\<lparr>ecdh_attester_public_key_x_attr := x_size ga, ecdh_attester_public_key_y_attr := y_size ga\<rparr> in
      call (TEE_AllocateTransientObject TEE_TYPE_ECDH_PUBLIC_KEY 256) (\<lambda>a.
      let ctx = ctx\<lparr>ecdh_attester_public_key_handle := ans_handle a\<rparr> in
      if ans_res a \<noteq> TEE_SUCCESS then return (ans_res a, ctx) else
      rd (x_raw ga) (ecdh_attester_public_key_x_attr ctx) (\<lambda>x.
      rd (y_raw ga) (ecdh_attester_public_key_y_attr ctx) (\<lambda>y.
      call (TEE_PopulateTransientObject (ecdh_attester_public_key_handle ctx)
        [RefAttr TEE_ATTR_ECC_PUBLIC_VALUE_X x, RefAttr TEE_ATTR_ECC_PUBLIC_VALUE_Y y, CurveP256]) (\<lambda>b.
      if ans_res b \<noteq> TEE_SUCCESS then return (ans_res b, ctx) else
      return (TEE_SUCCESS, ctx))))))"

text \<open>As in the attester, the result of \<open>TEE_DeriveKey\<close> is ignored, the operation variable is
  assigned twice, and a failure to read the shared secret returns without \<open>out\<close>.\<close>

definition derive_shared_key_v ::
  "ra_params \<Rightarrow> ra_context_verifier \<Rightarrow> (TEE_Result \<times> ra_context_verifier) tee" where
  "derive_shared_key_v p ctx =
     (let ga = msg0_v ctx; u = uninit_handle p in
      call (TEE_AllocateOperation TEE_ALG_ECDH_P256 TEE_MODE_DERIVE 256) (\<lambda>a.
      let op = ans_handle a in
      if ans_res a \<noteq> TEE_SUCCESS then derive_out u op u (ans_res a, ctx) else
      call (TEE_SetOperationKey op (ecdh_local_keypair_handle_v ctx)) (\<lambda>s.
      if ans_res s \<noteq> TEE_SUCCESS then derive_out u op u (ans_res s, ctx) else
      call (TEE_AllocateTransientObject TEE_TYPE_GENERIC_SECRET 256) (\<lambda>b.
      let secret = ans_handle b in
      if ans_res b \<noteq> TEE_SUCCESS then derive_out u op secret (ans_res b, ctx) else
      rd (x_raw ga) (ecdh_attester_public_key_x_attr ctx) (\<lambda>x.
      rd (y_raw ga) (ecdh_attester_public_key_y_attr ctx) (\<lambda>y.
      call (TEE_DeriveKey op [RefAttr TEE_ATTR_ECC_PUBLIC_VALUE_X x,
                              RefAttr TEE_ATTR_ECC_PUBLIC_VALUE_Y y] secret) (\<lambda>_.
      get_buffer_attribute secret TEE_ATTR_SECRET_VALUE (replicate 32 0) 32 (\<lambda>res raw n.
      if res \<noteq> TEE_SUCCESS then return (res, ctx) else
      call (TEE_ResetOperation op) (\<lambda>_.
      call (TEE_AllocateTransientObject TEE_TYPE_AES 128) (\<lambda>k.
      let aes_key = ans_handle k in
      if ans_res k \<noteq> TEE_SUCCESS then derive_out aes_key op secret (ans_res k, ctx) else
      call (TEE_PopulateTransientObject aes_key [RefAttr TEE_ATTR_SECRET_VALUE (replicate 16 0)]) (\<lambda>q.
      if ans_res q \<noteq> TEE_SUCCESS then derive_out aes_key op secret (ans_res q, ctx) else
      call (TEE_AllocateOperation TEE_ALG_AES_CMAC TEE_MODE_MAC 128) (\<lambda>a.
      let op = ans_handle a in
      if ans_res a \<noteq> TEE_SUCCESS then derive_out aes_key op secret (ans_res a, ctx) else
      call (TEE_SetOperationKey op aes_key) (\<lambda>s.
      if ans_res s \<noteq> TEE_SUCCESS then derive_out aes_key op secret (ans_res s, ctx) else
      call (TEE_MACInit op) (\<lambda>_.
      rd raw n (\<lambda>d. call (TEE_MACComputeFinal op d 16) (\<lambda>m.
      wr (replicate 16 0) 0 (ans_data m) (\<lambda>mac.
      if ans_res m \<noteq> TEE_SUCCESS then derive_out aes_key op secret (ans_res m, ctx) else
      call (TEE_AllocateTransientObject TEE_TYPE_AES 128) (\<lambda>k.
      let ctx = ctx\<lparr>ecdh_shared_key_derivation_key_v := ans_handle k\<rparr> in
      if ans_res k \<noteq> TEE_SUCCESS then derive_out aes_key op secret (ans_res k, ctx) else
      rd mac (ans_size m) (\<lambda>d.
      call (TEE_PopulateTransientObject (ecdh_shared_key_derivation_key_v ctx)
              [RefAttr TEE_ATTR_SECRET_VALUE d]) (\<lambda>q.
      derive_out aes_key op secret (ans_res q, ctx)))))))))))))))))))))"

definition derive_shared_mac_key_v ::
  "ra_params \<Rightarrow> ra_context_verifier \<Rightarrow> bytes \<Rightarrow> handle \<Rightarrow> (TEE_Result \<times> handle) tee" where
  "derive_shared_mac_key_v p ctx dat old =
     (let out = (\<lambda>op aes_key r. call (TEE_FreeOperation op) (\<lambda>_.
                   call (TEE_FreeTransientObject aes_key) (\<lambda>_. return r)));
          u = uninit_handle p in
      call (TEE_AllocateTransientObject TEE_TYPE_AES 128) (\<lambda>k.
      let aes_key = ans_handle k in
      if ans_res k \<noteq> TEE_SUCCESS then out u aes_key (ans_res k, old) else
      get_buffer_attribute (ecdh_shared_key_derivation_key_v ctx) TEE_ATTR_SECRET_VALUE
        (replicate 32 0) 32 (\<lambda>res kdk n.
      if res \<noteq> TEE_SUCCESS then out u aes_key (res, old) else
      rd kdk n (\<lambda>d.
      call (TEE_PopulateTransientObject aes_key [RefAttr TEE_ATTR_SECRET_VALUE d]) (\<lambda>q.
      if ans_res q \<noteq> TEE_SUCCESS then out u aes_key (ans_res q, old) else
      call (TEE_AllocateOperation TEE_ALG_AES_CMAC TEE_MODE_MAC 128) (\<lambda>a.
      let op = ans_handle a in
      if ans_res a \<noteq> TEE_SUCCESS then out op aes_key (ans_res a, old) else
      call (TEE_SetOperationKey op aes_key) (\<lambda>s.
      if ans_res s \<noteq> TEE_SUCCESS then out op aes_key (ans_res s, old) else
      call (TEE_MACInit op) (\<lambda>_.
      call (TEE_MACComputeFinal op dat 16) (\<lambda>m.
      wr (replicate 16 0) 0 (ans_data m) (\<lambda>mac.
      if ans_res m \<noteq> TEE_SUCCESS then out op aes_key (ans_res m, old) else
      call (TEE_AllocateTransientObject TEE_TYPE_AES 128) (\<lambda>k.
      let key = ans_handle k in
      if ans_res k \<noteq> TEE_SUCCESS then out op aes_key (ans_res k, key) else
      rd mac (ans_size m) (\<lambda>d.
      call (TEE_PopulateTransientObject key [RefAttr TEE_ATTR_SECRET_VALUE d]) (\<lambda>q.
      out op aes_key (ans_res q, key))))))))))))))"

section \<open>Message 1\<close>

text \<open>The digest has 32 bytes while its length variable starts at 256. The signing operation
  replaces the digest operation in the same variable.\<close>

definition append_ecdh_public_keys_signature ::
  "ra_params \<Rightarrow> ra_context_verifier \<Rightarrow> (TEE_Result \<times> ra_context_verifier) tee" where
  "append_ecdh_public_keys_signature p ctx =
     (let gv = ecdh_verifier_public_key (msg1_v ctx); ga = msg0_v ctx in
      call (TEE_AllocateOperation TEE_ALG_SHA256 TEE_MODE_DIGEST 0) (\<lambda>a.
      let op = ans_handle a in
      if ans_res a \<noteq> TEE_SUCCESS then free_op op (ans_res a, ctx) else
      rd (x_raw gv) (x_size gv) (\<lambda>d. call (TEE_DigestUpdate op d) (\<lambda>_.
      rd (y_raw gv) (y_size gv) (\<lambda>d. call (TEE_DigestUpdate op d) (\<lambda>_.
      rd (x_raw ga) (x_size ga) (\<lambda>d. call (TEE_DigestUpdate op d) (\<lambda>_.
      rd (y_raw ga) (y_size ga) (\<lambda>d. call (TEE_DigestDoFinal op d 256) (\<lambda>f.
      wr (replicate 32 0) 0 (ans_data f) (\<lambda>digest.
      if ans_res f \<noteq> TEE_SUCCESS then free_op op (ans_res f, ctx) else
      if ans_size f \<noteq> 32 then free_op op (TEE_ERROR_GENERIC, ctx) else
      call (TEE_ResetOperation op) (\<lambda>_.
      call (TEE_AllocateOperation TEE_ALG_ECDSA_P256 TEE_MODE_SIGN 256) (\<lambda>b.
      let op = ans_handle b in
      if ans_res b \<noteq> TEE_SUCCESS then free_op op (ans_res b, ctx) else
      call (TEE_SetOperationKey op (ecdsa_local_keypair_handle ctx)) (\<lambda>s.
      if ans_res s \<noteq> TEE_SUCCESS then free_op op (ans_res s, ctx) else
      call (TEE_AsymmetricSignDigest op digest (RA_SIGNATURE_SIZE p)) (\<lambda>v.
      wr (ecdh_signature (msg1_v ctx)) 0 (ans_data v) (\<lambda>sig.
      let ctx = ctx\<lparr>msg1_v := (msg1_v ctx)\<lparr>ecdh_signature := sig\<rparr>\<rparr> in
      if ans_res v \<noteq> TEE_SUCCESS then free_op op (ans_res v, ctx) else
      if ans_size v \<noteq> RA_SIGNATURE_SIZE p then free_op op (TEE_ERROR_GENERIC, ctx) else
      free_op op (ans_res v, ctx)))))))))))))))))"

definition append_mac :: "ra_context_verifier \<Rightarrow> (TEE_Result \<times> ra_context_verifier) tee" where
  "append_mac ctx =
     (let gv = ecdh_verifier_public_key (msg1_v ctx); kv = ecdsa_verifier_public_key (msg1_v ctx) in
      call (TEE_AllocateOperation TEE_ALG_AES_CMAC TEE_MODE_MAC 128) (\<lambda>a.
      let op = ans_handle a in
      if ans_res a \<noteq> TEE_SUCCESS then return (ans_res a, ctx) else
      call (TEE_SetOperationKey op (ecdh_shared_mac_key_v ctx)) (\<lambda>s.
      if ans_res s \<noteq> TEE_SUCCESS then return (ans_res s, ctx) else
      call (TEE_MACInit op) (\<lambda>_.
      rd (x_raw gv) (x_size gv) (\<lambda>d. call (TEE_MACUpdate op d) (\<lambda>_.
      rd (y_raw gv) (y_size gv) (\<lambda>d. call (TEE_MACUpdate op d) (\<lambda>_.
      rd (x_raw kv) (x_size kv) (\<lambda>d. call (TEE_MACUpdate op d) (\<lambda>_.
      rd (y_raw kv) (y_size kv) (\<lambda>d. call (TEE_MACUpdate op d) (\<lambda>_.
      call (TEE_MACComputeFinal op (ecdh_signature (msg1_v ctx)) 16) (\<lambda>m.
      wr (mac1 (msg1_v ctx)) 0 (ans_data m) (\<lambda>t.
      let ctx = ctx\<lparr>msg1_v := (msg1_v ctx)\<lparr>mac1 := t\<rparr>\<rparr> in
      if ans_res m \<noteq> TEE_SUCCESS then free_op op (ans_res m, ctx) else
      if ans_size m \<noteq> 16 then free_op op (TEE_ERROR_GENERIC, ctx) else
      free_op op (ans_res m, ctx)))))))))))))))"

section \<open>Message 2\<close>

definition store_msg2 :: "ra_params \<Rightarrow> ra_context_verifier \<Rightarrow> bytes \<Rightarrow> TEE_Result \<times> ra_context_verifier" where
  "store_msg2 p ctx buffer =
     (if length buffer < sizeof_msg2 p (sizeof_size_t p) then (TEE_ERROR_SHORT_BUFFER, ctx)
      else (TEE_SUCCESS, ctx\<lparr>msg2_v := dec_msg2 p (sizeof_size_t p) buffer\<rparr>))"

definition verify_mac_msg2 :: "ra_context_verifier \<Rightarrow> TEE_Result tee" where
  "verify_mac_msg2 ctx =
     (let ga = ecdh_local_public_key (msg2_v ctx) in
      call (TEE_AllocateOperation TEE_ALG_AES_CMAC TEE_MODE_MAC 128) (\<lambda>a.
      let op = ans_handle a in
      if ans_res a \<noteq> TEE_SUCCESS then free_op op (ans_res a) else
      call (TEE_SetOperationKey op (ecdh_shared_mac_key_v ctx)) (\<lambda>s.
      if ans_res s \<noteq> TEE_SUCCESS then free_op op (ans_res s) else
      call (TEE_MACInit op) (\<lambda>_.
      rd (x_raw ga) (x_size ga) (\<lambda>d. call (TEE_MACUpdate op d) (\<lambda>_.
      rd (y_raw ga) (y_size ga) (\<lambda>d. call (TEE_MACUpdate op d) (\<lambda>_.
      call (TEE_MACCompareFinal op (quote (msg2_v ctx)) (mac2 (msg2_v ctx))) (\<lambda>m.
      if ans_res m = TEE_ERROR_MAC_INVALID then free_op op (ans_res m) else
      if ans_res m \<noteq> TEE_SUCCESS then free_op op (ans_res m) else
      free_op op (ans_res m))))))))))"

definition verify_public_key_msg2_matches_msg0 :: "ra_context_verifier \<Rightarrow> TEE_Result tee" where
  "verify_public_key_msg2_matches_msg0 ctx =
     (let ga = msg0_v ctx; ga2 = ecdh_local_public_key (msg2_v ctx) in
      rd (x_raw ga) (x_size ga) (\<lambda>a. rd (x_raw ga2) (x_size ga) (\<lambda>b.
      if a \<noteq> b then return TEE_ERROR_SECURITY else
      rd (y_raw ga) (y_size ga) (\<lambda>a. rd (y_raw ga2) (y_size ga) (\<lambda>b.
      if a \<noteq> b then return TEE_ERROR_SECURITY else
      return TEE_SUCCESS)))))"

definition verify_quote_signature ::
  "ra_params \<Rightarrow> ra_context_verifier \<Rightarrow> (TEE_Result \<times> ra_context_verifier) tee" where
  "verify_quote_signature p ctx =
     (let q = quote (msg2_v ctx) in
      call (TEE_AllocateOperation TEE_ALG_SHA256 TEE_MODE_DIGEST 0) (\<lambda>a.
      let op = ans_handle a in
      if ans_res a \<noteq> TEE_SUCCESS then free_op op (ans_res a, ctx) else
      call (TEE_DigestUpdate op (quote_anchor p q)) (\<lambda>_.
      call (TEE_DigestUpdate op (quote_version p q)) (\<lambda>_.
      call (TEE_DigestUpdate op (quote_claim_hash p q)) (\<lambda>_.
      call (TEE_DigestDoFinal op (quote_attestation_key p q) 256) (\<lambda>f.
      wr (replicate 32 0) 0 (ans_data f) (\<lambda>digest.
      if ans_res f \<noteq> TEE_SUCCESS then free_op op (ans_res f, ctx) else
      if ans_size f \<noteq> 32 then free_op op (TEE_ERROR_GENERIC, ctx) else
      call (TEE_ResetOperation op) (\<lambda>_.
      call (TEE_AllocateOperation TEE_ALG_ECDSA_P256 TEE_MODE_VERIFY 256) (\<lambda>b.
      let op = ans_handle b in
      if ans_res b \<noteq> TEE_SUCCESS then free_op op (ans_res b, ctx) else
      call (TEE_SetOperationKey op (ecdsa_attester_public_key_handle ctx)) (\<lambda>s.
      if ans_res s \<noteq> TEE_SUCCESS then free_op op (ans_res s, ctx) else
      call (TEE_AsymmetricVerifyDigest op digest (quote_signature p q)) (\<lambda>v.
      if ans_res v = TEE_ERROR_SIGNATURE_INVALID then free_op op (ans_res v, ctx) else
      if ans_res v \<noteq> TEE_SUCCESS then free_op op (ans_res v, ctx) else
      free_op op (ans_res v, ctx\<lparr>is_quote_valid := True\<rparr>))))))))))))"

text \<open>A mismatch returns without freeing the operation.\<close>

definition verify_anchor :: "ra_params \<Rightarrow> ra_context_verifier \<Rightarrow> TEE_Result tee" where
  "verify_anchor p ctx =
     (let gv = ecdh_verifier_public_key (msg1_v ctx); ga = msg0_v ctx in
      call (TEE_AllocateOperation TEE_ALG_SHA256 TEE_MODE_DIGEST 0) (\<lambda>a.
      let op = ans_handle a in
      if ans_res a \<noteq> TEE_SUCCESS then free_op op (ans_res a) else
      rd (x_raw ga) (x_size ga) (\<lambda>d. call (TEE_DigestUpdate op d) (\<lambda>_.
      rd (y_raw ga) (y_size ga) (\<lambda>d. call (TEE_DigestUpdate op d) (\<lambda>_.
      rd (x_raw gv) (x_size gv) (\<lambda>d. call (TEE_DigestUpdate op d) (\<lambda>_.
      rd (y_raw gv) (y_size gv) (\<lambda>d. call (TEE_DigestDoFinal op d (RA_ANCHOR_SIZE p)) (\<lambda>f.
      wr (replicate (RA_ANCHOR_SIZE p) 0) 0 (ans_data f) (\<lambda>digest.
      if ans_res f \<noteq> TEE_SUCCESS then free_op op (ans_res f) else
      if ans_size f \<noteq> RA_ANCHOR_SIZE p then free_op op TEE_ERROR_GENERIC else
      rd (quote_anchor p (quote (msg2_v ctx))) (ans_size f) (\<lambda>anchor.
      if anchor \<noteq> digest then return TEE_ERROR_SECURITY else
      free_op op (ans_res f)))))))))))))"

section \<open>Message 3\<close>

definition allocate_msg3_v ::
  "ra_params \<Rightarrow> ra_context_verifier \<Rightarrow> nat \<Rightarrow> (TEE_Result \<times> ra_context_verifier) tee" where
  "allocate_msg3_v p ctx buffer_size =
     (let ctx = ctx\<lparr>msg3_size_v := sizeof_msg3 (sizeof_size_t p)\<rparr> in
      if buffer_size < msg3_size_v ctx then return (TEE_ERROR_SHORT_BUFFER, ctx) else
      call (TEE_Malloc (msg3_size_v ctx)) (\<lambda>m.
      return (TEE_SUCCESS, ctx\<lparr>msg3_v := ans_data m, msg3_ptr_v := ans_handle m\<rparr>)))"

text \<open>The writes through \<open>ctx->msg3\<close> go to the allocated header: the initialisation vector at 0, the
  tag at 32, the length of the content at 48. The ciphertext goes to the shared buffer directly.\<close>

definition encrypt_msg3 ::
  "ra_params \<Rightarrow> ra_context_verifier \<Rightarrow> bytes \<Rightarrow> bytes \<Rightarrow> nat \<Rightarrow> (TEE_Result \<times> ra_context_verifier \<times> bytes) tee" where
  "encrypt_msg3 p ctx buffer dat data_size =
     (let w = sizeof_size_t p; hdr = sizeof_msg3 w; room = length buffer - hdr in
      call (TEE_GenerateRandom 32) (\<lambda>r.
      wr (msg3_v ctx) 0 (ans_data r) (\<lambda>m3.
      let ctx = ctx\<lparr>msg3_v := m3\<rparr> in
      call (TEE_AllocateOperation TEE_ALG_AES_GCM TEE_MODE_ENCRYPT 128) (\<lambda>a.
      let op = ans_handle a in
      if ans_res a \<noteq> TEE_SUCCESS then free_op op (ans_res a, ctx, buffer) else
      call (TEE_SetOperationKey op (ecdh_shared_session_key_v ctx)) (\<lambda>s.
      if ans_res s \<noteq> TEE_SUCCESS then free_op op (ans_res s, ctx, buffer) else
      rd m3 32 (\<lambda>iv.
      call (TEE_AEInit op iv 128) (\<lambda>i.
      if ans_res i \<noteq> TEE_SUCCESS then free_op op (ans_res i, ctx, buffer) else
      rd dat data_size (\<lambda>d.
      call (TEE_AEEncryptFinal op d room 16) (\<lambda>f.
      wr buffer hdr (ans_data f) (\<lambda>buffer.
      wr m3 32 (ans_tag f) (\<lambda>m3.
      wr m3 48 (le_bytes w (ans_size f)) (\<lambda>m3.
      let ctx = ctx\<lparr>msg3_v := m3\<rparr> in
      if ans_res f = TEE_ERROR_SHORT_BUFFER then free_op op (ans_res f, ctx, buffer) else
      if ans_res f \<noteq> TEE_SUCCESS then free_op op (ans_res f, ctx, buffer) else
      rd m3 hdr (\<lambda>h.
      wr buffer 0 h (\<lambda>buffer.
      free_op op (ans_res f, ctx, buffer)))))))))))))))"

definition free_msg3 :: "ra_context_verifier \<Rightarrow> TEE_Result tee" where
  "free_msg3 ctx = call (TEE_Free (msg3_ptr_v ctx)) (\<lambda>_. return TEE_SUCCESS)"

section \<open>Entry points\<close>

definition import_attester_attestation_key ::
  "ra_context_verifier \<Rightarrow> (TEE_Result \<times> ra_context_verifier) tee" where
  "import_attester_attestation_key ctx =
     call (TEE_AllocateTransientObject TEE_TYPE_ECDSA_PUBLIC_KEY 256) (\<lambda>a.
     let ctx = ctx\<lparr>ecdsa_attester_public_key_handle := ans_handle a\<rparr> in
     if ans_res a \<noteq> TEE_SUCCESS then return (ans_res a, ctx) else
     let ctx = ctx\<lparr>ecdsa_attester_public_key_x_attr := length RA_IMX_TEST_PUBLIC_KEY_X,
                   ecdsa_attester_public_key_y_attr := length RA_IMX_TEST_PUBLIC_KEY_Y\<rparr> in
     call (TEE_PopulateTransientObject (ecdsa_attester_public_key_handle ctx)
       [RefAttr TEE_ATTR_ECC_PUBLIC_VALUE_X RA_IMX_TEST_PUBLIC_KEY_X,
        RefAttr TEE_ATTR_ECC_PUBLIC_VALUE_Y RA_IMX_TEST_PUBLIC_KEY_Y, CurveP256]) (\<lambda>b.
     if ans_res b \<noteq> TEE_SUCCESS then return (ans_res b, ctx) else
     return (TEE_SUCCESS, ctx)))"

definition generate_ecdsa_keypair :: "ra_context_verifier \<Rightarrow> (TEE_Result \<times> ra_context_verifier) tee" where
  "generate_ecdsa_keypair ctx =
     call (TEE_AllocateTransientObject TEE_TYPE_ECDSA_KEYPAIR 256) (\<lambda>a.
     let h = ans_handle a; ctx = ctx\<lparr>ecdsa_local_keypair_handle := h\<rparr> in
     if ans_res a \<noteq> TEE_SUCCESS then return (ans_res a, ctx) else
     call (TEE_GenerateKey h 256 [CurveP256]) (\<lambda>g.
     if ans_res g \<noteq> TEE_SUCCESS then return (ans_res g, ctx) else
     let pt = (ecdsa_verifier_public_key (msg1_v ctx))\<lparr>x_size := 32, y_size := 32\<rparr> in
     get_buffer_attribute h TEE_ATTR_ECC_PUBLIC_VALUE_X (x_raw pt) (x_size pt) (\<lambda>res x n.
     let pt = pt\<lparr>x_raw := x, x_size := n\<rparr>;
         ctx = ctx\<lparr>msg1_v := (msg1_v ctx)\<lparr>ecdsa_verifier_public_key := pt\<rparr>\<rparr> in
     if res \<noteq> TEE_SUCCESS then return (res, ctx) else
     get_buffer_attribute h TEE_ATTR_ECC_PUBLIC_VALUE_Y (y_raw pt) (y_size pt) (\<lambda>res y n.
     let pt = pt\<lparr>y_raw := y, y_size := n\<rparr>;
         ctx = ctx\<lparr>msg1_v := (msg1_v ctx)\<lparr>ecdsa_verifier_public_key := pt\<rparr>\<rparr> in
     if res \<noteq> TEE_SUCCESS then return (res, ctx) else
     return (TEE_SUCCESS, ctx)))))"

definition handle_msg0 ::
  "ra_params \<Rightarrow> ra_context_verifier \<Rightarrow> bytes \<Rightarrow> (TEE_Result \<times> ra_context_verifier) tee" where
  "handle_msg0 p ctx buffer =
     bind (generate_ecdh_keypair_v ctx) (\<lambda>(res, ctx).
     if res \<noteq> TEE_SUCCESS then return (res, ctx) else
     let (res, ctx) = store_msg0 p ctx buffer in
     if res \<noteq> TEE_SUCCESS then return (res, ctx) else
     bind (populate_attester_key ctx) (\<lambda>(res, ctx).
     if res \<noteq> TEE_SUCCESS then return (res, ctx) else
     bind (derive_shared_key_v p ctx) (\<lambda>(res, ctx).
     if res \<noteq> TEE_SUCCESS then return (res, ctx) else
     bind (derive_shared_mac_key_v p ctx RA_SHARED_MAC_DATA (ecdh_shared_mac_key_v ctx)) (\<lambda>(res, k).
     let ctx = ctx\<lparr>ecdh_shared_mac_key_v := k\<rparr> in
     if res \<noteq> TEE_SUCCESS then return (res, ctx) else
     bind (derive_shared_mac_key_v p ctx RA_SHARED_SESSION_DATA (ecdh_shared_session_key_v ctx)) (\<lambda>(res, k).
     let ctx = ctx\<lparr>ecdh_shared_session_key_v := k\<rparr> in
     if res \<noteq> TEE_SUCCESS then return (res, ctx) else
     return (TEE_SUCCESS, ctx))))))"

text \<open>The result pairs the shared buffer and \<open>*msg1_size\<close>, which keeps the caller's value on an
  error.\<close>

definition prepare_msg1 ::
  "ra_params \<Rightarrow> ra_context_verifier \<Rightarrow> bytes \<Rightarrow> nat \<Rightarrow> (TEE_Result \<times> ra_context_verifier \<times> bytes \<times> nat) tee" where
  "prepare_msg1 p ctx buffer msg1_size =
     (let w = sizeof_size_t p in
      if length buffer < sizeof_msg1 p w then return (TEE_ERROR_SHORT_BUFFER, ctx, buffer, msg1_size) else
      bind (append_ecdh_public_keys_signature p ctx) (\<lambda>(res, ctx).
      if res \<noteq> TEE_SUCCESS then return (res, ctx, buffer, msg1_size) else
      bind (append_mac ctx) (\<lambda>(res, ctx).
      if res \<noteq> TEE_SUCCESS then return (res, ctx, buffer, msg1_size) else
      wr buffer 0 (enc_msg1 p w (msg1_v ctx)) (\<lambda>buffer.
      return (TEE_SUCCESS, ctx, buffer, sizeof_msg1 p w)))))"

definition handle_msg2 ::
  "ra_params \<Rightarrow> ra_context_verifier \<Rightarrow> bytes \<Rightarrow> (TEE_Result \<times> ra_context_verifier) tee" where
  "handle_msg2 p ctx buffer =
     (let ctx = ctx\<lparr>is_quote_valid := False\<rparr>;
          (res, ctx) = store_msg2 p ctx buffer in
      if res \<noteq> TEE_SUCCESS then return (res, ctx) else
      bind (verify_mac_msg2 ctx) (\<lambda>res.
      if res \<noteq> TEE_SUCCESS then return (res, ctx) else
      bind (verify_public_key_msg2_matches_msg0 ctx) (\<lambda>res.
      if res \<noteq> TEE_SUCCESS then return (res, ctx) else
      bind (verify_quote_signature p ctx) (\<lambda>(res, ctx).
      if res \<noteq> TEE_SUCCESS then return (res, ctx) else
      bind (verify_anchor p ctx) (\<lambda>res.
      if res \<noteq> TEE_SUCCESS then return (res, ctx) else
      return (TEE_SUCCESS, ctx))))))"

text \<open>An encryption error returns before \<open>free_msg3\<close>. The two benchmark arguments are unused.\<close>

definition prepare_msg3 ::
  "ra_params \<Rightarrow> ra_context_verifier \<Rightarrow> bytes \<Rightarrow> bytes \<Rightarrow> nat \<Rightarrow> (TEE_Result \<times> ra_context_verifier \<times> bytes) tee" where
  "prepare_msg3 p ctx buffer dat data_size =
     bind (allocate_msg3_v p ctx (length buffer)) (\<lambda>(res, ctx).
     if res \<noteq> TEE_SUCCESS then return (res, ctx, buffer) else
     bind (encrypt_msg3 p ctx buffer dat data_size) (\<lambda>(res, ctx, buffer).
     if res \<noteq> TEE_SUCCESS then return (res, ctx, buffer) else
     bind (free_msg3 ctx) (\<lambda>res.
     if res \<noteq> TEE_SUCCESS then return (res, ctx, buffer) else
     return (TEE_SUCCESS, ctx, buffer))))"

definition dispose_ra_context :: "ra_context_verifier \<Rightarrow> TEE_Result tee" where
  "dispose_ra_context ctx =
     call (TEE_Free (secret_ptr ctx)) (\<lambda>_.
     call (TEE_FreeTransientObject (ecdsa_attester_public_key_handle ctx)) (\<lambda>_.
     call (TEE_FreeTransientObject (ecdh_attester_public_key_handle ctx)) (\<lambda>_.
     call (TEE_FreeTransientObject (ecdsa_local_keypair_handle ctx)) (\<lambda>_.
     call (TEE_FreeTransientObject (ecdh_local_keypair_handle_v ctx)) (\<lambda>_.
     call (TEE_FreeTransientObject (ecdh_shared_key_derivation_key_v ctx)) (\<lambda>_.
     call (TEE_FreeTransientObject (ecdh_shared_mac_key_v ctx)) (\<lambda>_.
     call (TEE_FreeTransientObject (ecdh_shared_session_key_v ctx)) (\<lambda>_.
     return TEE_SUCCESS))))))))"

end
