(* ===== verification/Tee_Params.thy ===== *)
theory Tee_Params
  imports Tee_Api
begin

text \<open>
  The parameters of a command as both trusted applications and their hosts use them. A parameter
  is a memory reference, whose size is the length of its bytes, or a pair of values; the type word
  says which of them the caller set. A host program ends with \<open>Inl\<close> of an exit status, where the
  code calls \<open>errx\<close> or \<open>exit\<close>, or goes on with \<open>Inr\<close>.
\<close>

unbundle bit_operations_syntax

section \<open>Parameters\<close>

record tee_param =
  memref :: bytes
  value_a :: u32
  value_b :: u32

definition no_param :: tee_param where
  "no_param = \<lparr>memref = [], value_a = 0, value_b = 0\<rparr>"

definition TEE_PARAM_TYPE_NONE :: u32 where "TEE_PARAM_TYPE_NONE = 0"
definition TEE_PARAM_TYPE_VALUE_INPUT :: u32 where "TEE_PARAM_TYPE_VALUE_INPUT = 1"
definition TEE_PARAM_TYPE_VALUE_OUTPUT :: u32 where "TEE_PARAM_TYPE_VALUE_OUTPUT = 2"
definition TEE_PARAM_TYPE_MEMREF_INPUT :: u32 where "TEE_PARAM_TYPE_MEMREF_INPUT = 5"
definition TEE_PARAM_TYPE_MEMREF_OUTPUT :: u32 where "TEE_PARAM_TYPE_MEMREF_OUTPUT = 6"
definition TEE_PARAM_TYPE_MEMREF_INOUT :: u32 where "TEE_PARAM_TYPE_MEMREF_INOUT = 7"

definition TEE_PARAM_TYPES :: "u32 \<Rightarrow> u32 \<Rightarrow> u32 \<Rightarrow> u32 \<Rightarrow> u32" where
  "TEE_PARAM_TYPES t0 t1 t2 t3 = t0 OR push_bit 4 t1 OR push_bit 8 t2 OR push_bit 12 t3"

lemmas param_type_defs = TEE_PARAM_TYPE_NONE_def TEE_PARAM_TYPE_VALUE_INPUT_def
  TEE_PARAM_TYPE_VALUE_OUTPUT_def TEE_PARAM_TYPE_MEMREF_INPUT_def TEE_PARAM_TYPE_MEMREF_OUTPUT_def
  TEE_PARAM_TYPE_MEMREF_INOUT_def TEE_PARAM_TYPES_def

section \<open>Host programs\<close>

text \<open>\<open>exec m k\<close> continues with the value of \<open>m\<close> unless the process has ended.\<close>

definition exec :: "(nat + 'a) tee \<Rightarrow> ('a \<Rightarrow> (nat + 'b) tee) \<Rightarrow> (nat + 'b) tee" where
  "exec m k = bind m (\<lambda>r. case r of Inl code \<Rightarrow> return (Inl code) | Inr x \<Rightarrow> k x)"

lemma wp_sum [wp_simps]:
  "wp (case r of Inl c \<Rightarrow> f c | Inr x \<Rightarrow> g x) env tr ob Q =
     (case r of Inl c \<Rightarrow> wp (f c) env tr ob Q | Inr x \<Rightarrow> wp (g x) env tr ob Q)"
  by (simp split: sum.splits)

lemma wp_execI:
  assumes "wp m env tr ob P"
    and "\<And>c tr'. P (Inl c) tr' \<Longrightarrow> Q (Inl c) tr'"
    and "\<And>x tr'. P (Inr x) tr' \<Longrightarrow> wp (k x) env tr' ob Q"
  shows "wp (exec m k) env tr ob Q"
  unfolding exec_def
  by (rule wp_bindI [OF assms(1)]) (auto simp: wp_simps split: sum.splits intro: assms(2,3))

lemma wp_wrI:
  "(off + length d \<le> length buf \<Longrightarrow> wp (k (splice buf off d)) env tr True Q) \<Longrightarrow> wp (wr buf off d k) env tr True Q"
  by (simp add: wp_wr)

lemma wp_rdI: "(n \<le> length buf \<Longrightarrow> wp (k (take n buf)) env tr True Q) \<Longrightarrow> wp (rd buf n k) env tr True Q"
  by (simp add: wp_rd)

definition char_byte :: "char \<Rightarrow> byte" where
  "char_byte c = of_nat (of_char c)"

text \<open>A string literal in memory, with its terminating zero.\<close>

definition c_string :: "string \<Rightarrow> bytes" where
  "c_string s = map char_byte s @ [0]"

end
