(* ===== verification/Verifier_Ta.thy ===== *)
theory Verifier_Ta
  imports Verifier Tee_Params
begin

text \<open>
  The entry points of the verifier's trusted application (\<open>vedliot_verifier/ta/main.c\<close>). The static
  context is passed and returned.
\<close>

section \<open>Command identifiers\<close>

definition VERIFIER_COMMAND_BOOTSTRAP_SECRET :: nat where "VERIFIER_COMMAND_BOOTSTRAP_SECRET = 0"
definition VERIFIER_COMMAND_HANDLE_MSG_0 :: nat where "VERIFIER_COMMAND_HANDLE_MSG_0 = 1"
definition VERIFIER_COMMAND_PREPARE_MSG_1 :: nat where "VERIFIER_COMMAND_PREPARE_MSG_1 = 2"
definition VERIFIER_COMMAND_HANDLE_MSG_2 :: nat where "VERIFIER_COMMAND_HANDLE_MSG_2 = 3"
definition VERIFIER_COMMAND_PREPARE_MSG_3 :: nat where "VERIFIER_COMMAND_PREPARE_MSG_3 = 4"

lemmas verifier_command_defs = VERIFIER_COMMAND_BOOTSTRAP_SECRET_def VERIFIER_COMMAND_HANDLE_MSG_0_def
  VERIFIER_COMMAND_PREPARE_MSG_1_def VERIFIER_COMMAND_HANDLE_MSG_2_def VERIFIER_COMMAND_PREPARE_MSG_3_def

section \<open>Sessions\<close>

text \<open>\<open>context_singleton\<close> has static storage: it starts as zeroes.\<close>

definition context_singleton :: "ra_params \<Rightarrow> ra_context_verifier" where
  "context_singleton p =
     \<lparr>secret = [], secret_ptr = 0, secret_size = 0,
      ecdsa_attester_public_key_x_attr = 0, ecdsa_attester_public_key_y_attr = 0,
      ecdsa_attester_public_key_handle = 0,
      ecdh_attester_public_key_x_attr = 0, ecdh_attester_public_key_y_attr = 0,
      ecdh_attester_public_key_handle = 0,
      ecdsa_local_keypair_handle = 0, ecdh_local_keypair_handle_v = 0,
      ecdh_shared_key_derivation_key_v = 0, ecdh_shared_mac_key_v = 0, ecdh_shared_session_key_v = 0,
      is_quote_valid = False, msg0_v = zero_point,
      msg1_v = \<lparr>ecdh_verifier_public_key = zero_point, ecdsa_verifier_public_key = zero_point,
                ecdh_signature = replicate (RA_SIGNATURE_SIZE p) 0, mac1 = replicate 16 0\<rparr>,
      msg2_v = \<lparr>ecdh_local_public_key = zero_point, quote = replicate (sizeof_ra_quote p) 0,
                mac2 = replicate 16 0\<rparr>,
      msg3_v = [], msg3_ptr_v = 0, msg3_size_v = 0\<rparr>"

definition TA_CreateEntryPoint :: TEE_Result where
  "TA_CreateEntryPoint = TEE_SUCCESS"

definition TA_OpenSessionEntryPoint ::
  "ra_context_verifier \<Rightarrow> u32 \<Rightarrow> (TEE_Result \<times> ra_context_verifier) tee" where
  "TA_OpenSessionEntryPoint ctx param_types =
     (if param_types \<noteq> TEE_PARAM_TYPES TEE_PARAM_TYPE_NONE TEE_PARAM_TYPE_NONE TEE_PARAM_TYPE_NONE TEE_PARAM_TYPE_NONE
      then return (TEE_ERROR_BAD_PARAMETERS, ctx) else
      bind (import_attester_attestation_key ctx) (\<lambda>(res, ctx).
      if res \<noteq> TEE_SUCCESS then return (res, ctx) else
      bind (generate_ecdsa_keypair ctx) (\<lambda>(res, ctx).
      if res \<noteq> TEE_SUCCESS then return (res, ctx) else
      return (TEE_SUCCESS, ctx))))"

definition TA_CloseSessionEntryPoint :: "ra_context_verifier \<Rightarrow> unit tee" where
  "TA_CloseSessionEntryPoint ctx = bind (dispose_ra_context ctx) (\<lambda>_. return ())"

section \<open>Commands\<close>

text \<open>The pointer of an earlier secret is overwritten; the allocation is not checked.\<close>

definition TA_ConfigureCustomSecret ::
  "ra_context_verifier \<Rightarrow> bytes \<Rightarrow> (TEE_Result \<times> ra_context_verifier) tee" where
  "TA_ConfigureCustomSecret ctx s =
     (let ctx = ctx\<lparr>secret_size := length s\<rparr> in
      call (TEE_Malloc (length s)) (\<lambda>m.
      wr (ans_data m) 0 s (\<lambda>mem.
      return (TEE_SUCCESS, ctx\<lparr>secret := mem, secret_ptr := ans_handle m\<rparr>))))"

text \<open>The local variable \<open>msg1_size\<close> is stored in the output value even when \<open>prepare_msg1\<close> did not
  assign it.\<close>

definition TA_InvokeCommandEntryPoint ::
  "ra_params \<Rightarrow> ra_context_verifier \<Rightarrow> nat \<Rightarrow> u32 \<Rightarrow> tee_param list \<Rightarrow>
     (TEE_Result \<times> ra_context_verifier \<times> tee_param list) tee" where
  "TA_InvokeCommandEntryPoint p ctx cmd_id param_types params =
     (if cmd_id = VERIFIER_COMMAND_BOOTSTRAP_SECRET then
        (if TEE_PARAM_TYPES TEE_PARAM_TYPE_MEMREF_INPUT TEE_PARAM_TYPE_NONE TEE_PARAM_TYPE_NONE TEE_PARAM_TYPE_NONE
            \<noteq> param_types then return (TEE_ERROR_BAD_PARAMETERS, ctx, params) else
         bind (TA_ConfigureCustomSecret ctx (memref (params ! 0))) (\<lambda>(res, ctx). return (res, ctx, params)))
      else if cmd_id = VERIFIER_COMMAND_HANDLE_MSG_0 then
        (if TEE_PARAM_TYPES TEE_PARAM_TYPE_MEMREF_INPUT TEE_PARAM_TYPE_NONE TEE_PARAM_TYPE_NONE TEE_PARAM_TYPE_NONE
            \<noteq> param_types then return (TEE_ERROR_BAD_PARAMETERS, ctx, params) else
         bind (handle_msg0 p ctx (memref (params ! 0))) (\<lambda>(res, ctx). return (res, ctx, params)))
      else if cmd_id = VERIFIER_COMMAND_PREPARE_MSG_1 then
        (if TEE_PARAM_TYPES TEE_PARAM_TYPE_MEMREF_OUTPUT TEE_PARAM_TYPE_VALUE_OUTPUT TEE_PARAM_TYPE_NONE TEE_PARAM_TYPE_NONE
            \<noteq> param_types then return (TEE_ERROR_BAD_PARAMETERS, ctx, params) else
         bind (prepare_msg1 p ctx (memref (params ! 0)) (uninit_size p)) (\<lambda>(res, ctx, buffer, msg1_size).
         return (res, ctx, params[0 := (params ! 0)\<lparr>memref := buffer\<rparr>,
                                  1 := (params ! 1)\<lparr>value_a := of_nat msg1_size\<rparr>])))
      else if cmd_id = VERIFIER_COMMAND_HANDLE_MSG_2 then
        (if TEE_PARAM_TYPES TEE_PARAM_TYPE_MEMREF_INPUT TEE_PARAM_TYPE_VALUE_OUTPUT TEE_PARAM_TYPE_MEMREF_OUTPUT TEE_PARAM_TYPE_NONE
            \<noteq> param_types then return (TEE_ERROR_BAD_PARAMETERS, ctx, params) else
         bind (handle_msg2 p ctx (memref (params ! 0))) (\<lambda>(res, ctx).
         return (res, ctx, params[1 := (params ! 1)\<lparr>value_a :=
           (if res = TEE_SUCCESS \<and> is_quote_valid ctx then 1 else 0)\<rparr>])))
      else if cmd_id = VERIFIER_COMMAND_PREPARE_MSG_3 then
        (if TEE_PARAM_TYPES TEE_PARAM_TYPE_MEMREF_OUTPUT TEE_PARAM_TYPE_MEMREF_OUTPUT TEE_PARAM_TYPE_NONE TEE_PARAM_TYPE_NONE
            \<noteq> param_types then return (TEE_ERROR_BAD_PARAMETERS, ctx, params) else
         bind (prepare_msg3 p ctx (memref (params ! 0)) (secret ctx) (secret_size ctx)) (\<lambda>(res, ctx, buffer).
         return (res, ctx, params[0 := (params ! 0)\<lparr>memref := buffer\<rparr>])))
      else return (TEE_ERROR_BAD_PARAMETERS, ctx, params))"

end
