(* ===== verification/Verifier_Host.thy ===== *)
theory Verifier_Host
  imports Verifier_Ta
begin

text \<open>
  The verifier's host program (\<open>vedliot_verifier/host/main.c\<close>): it opens a session with the trusted
  application, hands it a secret, accepts one connection and moves the four messages between the
  socket and the application. A host function ends with \<open>Inl\<close> of an exit status, where the code
  calls \<open>errx\<close> or \<open>exit\<close>, or returns with \<open>Inr\<close>. \<open>TEEC_InvokeCommand\<close> reaches the entry point of
  the application unless the client library itself reports an error. The messages under
  \<open>dprintf\<close> are compiled out; a panic of the application ends the whole run.
\<close>

definition SECRET_DATA :: string where
  "SECRET_DATA = ''Patience is a key element of success.''"

definition RA_AES_GCM_CIPHERTEXT_OVERHEAD :: nat where
  "RA_AES_GCM_CIPHERTEXT_OVERHEAD = 16"

section \<open>Commands of the application\<close>

definition invoke_command ::
  "ra_params \<Rightarrow> ra_context_verifier \<Rightarrow> nat \<Rightarrow> u32 \<Rightarrow> tee_param list \<Rightarrow>
     (TEE_Result \<times> ra_context_verifier \<times> tee_param list) tee" where
  "invoke_command p ta cmd_id param_types params =
     call (Host (TEEC_InvokeCommand cmd_id)) (\<lambda>a.
     if ans_res a \<noteq> TEE_SUCCESS then return (ans_res a, ta, params) else
     TA_InvokeCommandEntryPoint p ta cmd_id param_types params)"

definition prepare_tee_session :: "ra_context_verifier \<Rightarrow> (nat + ra_context_verifier) tee" where
  "prepare_tee_session ta =
     call (Host TEEC_InitializeContext) (\<lambda>a.
     if ans_res a \<noteq> TEE_SUCCESS then return (Inl 1) else
     call (Host TEEC_OpenSession) (\<lambda>a.
     if ans_res a \<noteq> TEE_SUCCESS then return (Inl 1) else
     bind (TA_OpenSessionEntryPoint ta
       (TEE_PARAM_TYPES TEE_PARAM_TYPE_NONE TEE_PARAM_TYPE_NONE TEE_PARAM_TYPE_NONE TEE_PARAM_TYPE_NONE)) (\<lambda>(res, ta).
     if res \<noteq> TEE_SUCCESS then return (Inl 1) else return (Inr ta))))"

definition bootstrap_secret :: "ra_params \<Rightarrow> ra_context_verifier \<Rightarrow> bytes \<Rightarrow> (nat + ra_context_verifier) tee" where
  "bootstrap_secret p ta s =
     bind (invoke_command p ta VERIFIER_COMMAND_BOOTSTRAP_SECRET
       (TEE_PARAM_TYPES TEE_PARAM_TYPE_MEMREF_INPUT TEE_PARAM_TYPE_NONE TEE_PARAM_TYPE_NONE TEE_PARAM_TYPE_NONE)
       [no_param\<lparr>memref := s\<rparr>, no_param, no_param, no_param]) (\<lambda>(res, ta, _).
     if res \<noteq> TEE_SUCCESS then return (Inl 1) else return (Inr ta))"

definition receive_msg0 :: "ra_params \<Rightarrow> ra_context_verifier \<Rightarrow> bytes \<Rightarrow> (nat + ra_context_verifier) tee" where
  "receive_msg0 p ta buffer =
     bind (invoke_command p ta VERIFIER_COMMAND_HANDLE_MSG_0
       (TEE_PARAM_TYPES TEE_PARAM_TYPE_MEMREF_INPUT TEE_PARAM_TYPE_NONE TEE_PARAM_TYPE_NONE TEE_PARAM_TYPE_NONE)
       [no_param\<lparr>memref := buffer\<rparr>, no_param, no_param, no_param]) (\<lambda>(res, ta, _).
     if res \<noteq> TEE_SUCCESS then return (Inl 1) else return (Inr ta))"

definition prepare_msg1_host ::
  "ra_params \<Rightarrow> ra_context_verifier \<Rightarrow> bytes \<Rightarrow> (nat + ra_context_verifier \<times> bytes \<times> nat) tee" where
  "prepare_msg1_host p ta buffer =
     bind (invoke_command p ta VERIFIER_COMMAND_PREPARE_MSG_1
       (TEE_PARAM_TYPES TEE_PARAM_TYPE_MEMREF_OUTPUT TEE_PARAM_TYPE_VALUE_OUTPUT TEE_PARAM_TYPE_NONE TEE_PARAM_TYPE_NONE)
       [no_param\<lparr>memref := buffer\<rparr>, no_param, no_param, no_param]) (\<lambda>(res, ta, params).
     if res \<noteq> TEE_SUCCESS then return (Inl 1) else
     return (Inr (ta, memref (params ! 0), unat (value_a (params ! 1)))))"

text \<open>The line printed for an invalid quote is only reached when the command succeeded with a
  zero value.\<close>

definition receive_msg2 ::
  "ra_params \<Rightarrow> ra_context_verifier \<Rightarrow> bytes \<Rightarrow> bytes \<Rightarrow> (nat + ra_context_verifier \<times> bytes) tee" where
  "receive_msg2 p ta buffer benchmark_buffer =
     bind (invoke_command p ta VERIFIER_COMMAND_HANDLE_MSG_2
       (TEE_PARAM_TYPES TEE_PARAM_TYPE_MEMREF_INPUT TEE_PARAM_TYPE_VALUE_OUTPUT TEE_PARAM_TYPE_MEMREF_OUTPUT TEE_PARAM_TYPE_NONE)
       [no_param\<lparr>memref := buffer\<rparr>, no_param, no_param\<lparr>memref := benchmark_buffer\<rparr>, no_param]) (\<lambda>(res, ta, params).
     if res \<noteq> TEE_SUCCESS then return (Inl 1) else
     bind (if value_a (params ! 1) \<noteq> 0 then return ()
           else call (Host (sys_printf (c_string ''The quote is NOT valid.''))) (\<lambda>_. return ())) (\<lambda>_.
     return (Inr (ta, memref (params ! 2)))))"

definition prepare_msg3_host ::
  "ra_params \<Rightarrow> ra_context_verifier \<Rightarrow> bytes \<Rightarrow> bytes \<Rightarrow> (nat + ra_context_verifier \<times> bytes \<times> bytes) tee" where
  "prepare_msg3_host p ta buffer benchmark_buffer =
     bind (invoke_command p ta VERIFIER_COMMAND_PREPARE_MSG_3
       (TEE_PARAM_TYPES TEE_PARAM_TYPE_MEMREF_OUTPUT TEE_PARAM_TYPE_MEMREF_OUTPUT TEE_PARAM_TYPE_NONE TEE_PARAM_TYPE_NONE)
       [no_param\<lparr>memref := buffer\<rparr>, no_param\<lparr>memref := benchmark_buffer\<rparr>, no_param, no_param]) (\<lambda>(res, ta, params).
     if res \<noteq> TEE_SUCCESS then return (Inl 1) else
     return (Inr (ta, memref (params ! 0), memref (params ! 1))))"

section \<open>The server\<close>

text \<open>The results of \<open>malloc\<close>, \<open>read\<close> and \<open>write\<close> are not checked; \<open>bzero\<close> of a failed allocation
  leaves the object. \<open>ssize\<close> is the host's \<open>secret_size\<close>.\<close>

definition handle_connection ::
  "ra_params \<Rightarrow> nat \<Rightarrow> handle \<Rightarrow> ra_context_verifier \<Rightarrow> (nat + ra_context_verifier) tee" where
  "handle_connection p ssize sockfd ta =
     (let w = sizeof_size_t p;
          buff_size = (ssize + sizeof_msg3 w + RA_AES_GCM_CIPHERTEXT_OVERHEAD) mod 256 ^ w in
      call (Host (sys_malloc buff_size)) (\<lambda>m.
      wr (ans_data m) 0 (replicate buff_size 0) (\<lambda>buff.
      call (Host (sys_malloc 256)) (\<lambda>bm.
      wr (ans_data bm) 0 (replicate 256 0) (\<lambda>benchmark_buffer.
      call (Host (sys_read sockfd buff_size)) (\<lambda>r.
      wr buff 0 (ans_data r) (\<lambda>buff.
      exec (receive_msg0 p ta buff) (\<lambda>ta.
      exec (prepare_msg1_host p ta buff) (\<lambda>(ta, buff, msg1_size).
      rd buff msg1_size (\<lambda>d.
      call (Host (sys_write sockfd d)) (\<lambda>_.
      call (Host (sys_read sockfd buff_size)) (\<lambda>r.
      wr buff 0 (ans_data r) (\<lambda>buff.
      exec (receive_msg2 p ta buff benchmark_buffer) (\<lambda>(ta, benchmark_buffer).
      exec (prepare_msg3_host p ta buff benchmark_buffer) (\<lambda>(ta, buff, benchmark_buffer).
      rd buff buff_size (\<lambda>d.
      call (Host (sys_write sockfd d)) (\<lambda>_.
      call (Host (sys_printf benchmark_buffer)) (\<lambda>_.
      call (Host (sys_free (ans_handle bm))) (\<lambda>_.
      call (Host (sys_free (ans_handle m))) (\<lambda>_.
      return (Inr ta)))))))))))))))))))))"

definition start_verifier_server ::
  "ra_params \<Rightarrow> nat \<Rightarrow> ra_context_verifier \<Rightarrow> (nat + ra_context_verifier) tee" where
  "start_verifier_server p ssize ta =
     call (Host sys_socket) (\<lambda>s.
     let sockfd = ans_handle s in
     if ans_res s \<noteq> TEE_SUCCESS
     then call (Host (sys_printf (c_string ''socket creation failed...''))) (\<lambda>_. return (Inl 0)) else
     call (Host (sys_setsockopt sockfd)) (\<lambda>_.
     call (Host (sys_bind sockfd 8080)) (\<lambda>b.
     if ans_res b \<noteq> TEE_SUCCESS
     then call (Host (sys_printf (c_string ''socket bind failed...''))) (\<lambda>_. return (Inl 0)) else
     call (Host (sys_listen sockfd 5)) (\<lambda>l.
     if ans_res l \<noteq> TEE_SUCCESS
     then call (Host (sys_printf (c_string ''Listen failed...''))) (\<lambda>_. return (Inl 1)) else
     call (Host (sys_accept sockfd)) (\<lambda>c.
     if ans_res c \<noteq> TEE_SUCCESS
     then call (Host (sys_printf (c_string ''server acccept failed...''))) (\<lambda>_. return (Inl 1)) else
     exec (handle_connection p ssize (ans_handle c) ta) (\<lambda>ta.
     call (Host (sys_close sockfd)) (\<lambda>_.
     return (Inr ta))))))))"

definition terminate_tee_session :: "ra_context_verifier \<Rightarrow> unit tee" where
  "terminate_tee_session ta =
     call (Host TEEC_CloseSession) (\<lambda>_.
     bind (TA_CloseSessionEntryPoint ta) (\<lambda>_.
     call (Host TEEC_FinalizeContext) (\<lambda>_. return ())))"

text \<open>\<open>custom\<close> is the size given on the command line, as \<open>atoi\<close> read it and \<open>size_t\<close> holds it;
  without it the built-in secret is used.\<close>

definition verifier_main :: "ra_params \<Rightarrow> nat option \<Rightarrow> nat tee" where
  "verifier_main p custom =
     bind (case custom of
             None \<Rightarrow> return (c_string SECRET_DATA, 0)
           | Some n \<Rightarrow> call (Host (sys_malloc n)) (\<lambda>m.
                       wr (ans_data m) 0 (replicate n (char_byte CHR ''A'')) (\<lambda>s. return (s, ans_handle m)))) (\<lambda>(s, ptr).
     bind (exec (prepare_tee_session (context_singleton p)) (\<lambda>ta.
           exec (bootstrap_secret p ta s) (\<lambda>ta.
           start_verifier_server p (length s) ta))) (\<lambda>r. case r of
       Inl code \<Rightarrow> return code
     | Inr ta \<Rightarrow>
         bind (terminate_tee_session ta) (\<lambda>_.
         if custom = None then return 0
         else call (Host (sys_free ptr)) (\<lambda>_. return 0))))"

end
