(* ===== verification/Honest.thy ===== *)
theory Honest
  imports Gp_Spec Tee_Params
begin

text \<open>
  Runs that must return. \<open>twp\<close> is the total version of \<open>wp\<close>: no panic, no access outside an
  object. An honest environment answers every call as documented, refuses none that can be served,
  and its network delivers a given byte stream. The private value of
  the session's ECDH key pair is given a name, so that the peer's messages can be said to fit it; other
  key pairs, such as the verifier's signing key, are not constrained. Against it the protocol steps are shown to
  succeed, not only to be right when they do.
\<close>

section \<open>Total weakest preconditions\<close>

definition twp :: "'a tee \<Rightarrow> env \<Rightarrow> trace \<Rightarrow> ('a \<Rightarrow> trace \<Rightarrow> bool) \<Rightarrow> bool" where
  "twp m env tr Q = (case m env tr of (Ret x, tr') \<Rightarrow> Q x tr' | _ \<Rightarrow> False)"

named_theorems twp_simps \<open>total weakest-precondition equations\<close>

lemma twp_return [twp_simps]: "twp (return x) env tr Q = Q x tr"
  by (simp add: twp_def return_def)

lemma twp_rd [twp_simps]:
  "twp (rd buf n k) env tr Q = (n \<le> length buf \<and> twp (k (take n buf)) env tr Q)"
  by (simp add: twp_def rd_def)

lemma twp_wr [twp_simps]:
  "twp (wr buf off d k) env tr Q = (off + length d \<le> length buf \<and> twp (k (splice buf off d)) env tr Q)"
  by (simp add: twp_def wr_def)

lemma twp_within [twp_simps]: "twp (within b k) env tr Q = (b \<and> twp k env tr Q)"
  by (simp add: twp_def within_def)

lemma twp_bind [twp_simps]: "twp (bind m k) env tr Q = twp m env tr (\<lambda>x tr'. twp (k x) env tr' Q)"
  by (auto simp: twp_def bind_def split: prod.splits outcome.splits)

lemma twp_if [twp_simps]:
  "twp (if b then m else n) env tr Q = (if b then twp m env tr Q else twp n env tr Q)"
  by simp

lemma twp_prod [twp_simps]:
  "twp (case p of (x, y) \<Rightarrow> m x y) env tr Q = (case p of (x, y) \<Rightarrow> twp (m x y) env tr Q)"
  by (simp split: prod.splits)

lemma twp_call: "env tr c = Some a \<Longrightarrow> twp (call c k) env tr Q = twp (k a) env ((c, a) # tr) Q"
  by (simp add: twp_def call_def)

lemma twp_mono: "twp m env tr Q \<Longrightarrow> (\<And>x tr'. Q x tr' \<Longrightarrow> R x tr') \<Longrightarrow> twp m env tr R"
  by (auto simp: twp_def split: prod.splits outcome.splits)

lemma twp_wp: "twp m env tr Q \<Longrightarrow> wp m env tr ob R \<Longrightarrow> twp m env tr (\<lambda>x tr'. Q x tr' \<and> R x tr')"
  by (auto simp: twp_def wp_def split: prod.splits outcome.splits)

lemma twp_bindI:
  "twp m env tr R \<Longrightarrow> (\<And>x tr'. R x tr' \<Longrightarrow> twp (k x) env tr' Q) \<Longrightarrow> twp (bind m k) env tr Q"
  by (auto simp: twp_bind intro: twp_mono)

lemma twpE:
  assumes "twp m env tr Q"
  obtains x tr' where "m env tr = (Ret x, tr')" "Q x tr'"
  using assms by (auto simp: twp_def split: prod.splits outcome.splits)

text \<open>A step that succeeds lets its caller continue.\<close>

lemma twp_stepI:
  assumes "twp m env tr (\<lambda>(res, x) tr'. res = TEE_SUCCESS \<and> R x tr')"
    and "\<And>x tr'. R x tr' \<Longrightarrow> twp (k x) env tr' Q"
  shows "twp (bind m (\<lambda>(res, x). if res \<noteq> TEE_SUCCESS then return (e res x) else k x)) env tr Q"
  by (rule twp_bindI [OF assms(1)]) (auto intro: assms(2))

lemma twp_checkI:
  assumes "twp m env tr (\<lambda>res tr'. res = TEE_SUCCESS \<and> R tr')"
    and "\<And>tr'. R tr' \<Longrightarrow> twp k env tr' Q"
  shows "twp (bind m (\<lambda>res. if res \<noteq> TEE_SUCCESS then return (e res) else k)) env tr Q"
  by (rule twp_bindI [OF assms(1)]) (auto intro: assms(2))

lemma twp_with:
  assumes "twp m env tr (\<lambda>(res, x) tr'. res = TEE_SUCCESS)"
    and "wp m env tr True (\<lambda>(res, x) tr'. res = TEE_SUCCESS \<longrightarrow> R x tr')"
  shows "twp m env tr (\<lambda>(res, x) tr'. res = TEE_SUCCESS \<and> R x tr')"
  by (rule twp_mono [OF twp_wp [OF assms]]) auto

lemma twp_with_check:
  assumes "twp m env tr (\<lambda>res tr'. res = TEE_SUCCESS)"
    and "wp m env tr True (\<lambda>res tr'. res = TEE_SUCCESS \<longrightarrow> R tr')"
  shows "twp m env tr (\<lambda>res tr'. res = TEE_SUCCESS \<and> R tr')"
  by (rule twp_mono [OF twp_wp [OF assms]]) auto

lemma twp_execI:
  assumes "twp m env tr (\<lambda>r tr'. \<exists>x. r = Inr x \<and> R x tr')"
    and "\<And>x tr'. R x tr' \<Longrightarrow> twp (k x) env tr' Q"
  shows "twp (exec m k) env tr Q"
  unfolding exec_def by (rule twp_bindI [OF assms(1)]) (auto intro: assms(2))

section \<open>Computations that a part of the trace does not see\<close>

text \<open>An observer reads some of the calls off a trace, such as the bytes from the network or the
  system calls of the host. A computation that makes none of these calls is silent for it.\<close>

definition silent :: "(trace \<Rightarrow> 'o) \<Rightarrow> 'a tee \<Rightarrow> bool" where
  "silent obs m \<longleftrightarrow> (\<forall>env tr. obs (snd (m env tr)) = obs tr)"

lemma wp_silent:
  "silent obs m \<Longrightarrow> wp m env tr ob Q \<Longrightarrow> wp m env tr ob (\<lambda>x tr'. Q x tr' \<and> obs tr' = obs tr)"
  unfolding silent_def wp_def by (auto split: prod.splits outcome.splits) (metis snd_conv)

lemma twp_silent: "silent obs m \<Longrightarrow> twp m env tr Q \<Longrightarrow> twp m env tr (\<lambda>x tr'. Q x tr' \<and> obs tr' = obs tr)"
  unfolding silent_def twp_def by (auto split: prod.splits outcome.splits) (metis snd_conv)

locale trace_observer =
  fixes obs :: "trace \<Rightarrow> 'o"
    and seen :: "tee_call \<Rightarrow> bool"
  assumes unseen: "\<not> seen c \<Longrightarrow> obs ((c, a) # tr) = obs tr"
begin

lemma silent_return: "silent obs (return x)"
  by (simp add: silent_def return_def)

lemma silent_bind: "silent obs m \<Longrightarrow> (\<And>x. silent obs (k x)) \<Longrightarrow> silent obs (bind m k)"
  by (auto simp: silent_def bind_def split: prod.splits outcome.splits) (metis snd_conv)+

lemma silent_call: "(\<And>a. silent obs (k a)) \<Longrightarrow> \<not> seen c \<Longrightarrow> silent obs (call c k)"
  by (auto simp: silent_def call_def unseen split: option.splits)

lemma silent_rd: "(\<And>d. silent obs (k d)) \<Longrightarrow> silent obs (rd b n k)"
  by (simp add: silent_def rd_def)

lemma silent_wr: "(\<And>d. silent obs (k d)) \<Longrightarrow> silent obs (wr b n d k)"
  by (simp add: silent_def wr_def)

lemma silent_within: "silent obs k \<Longrightarrow> silent obs (within b k)"
  by (simp add: silent_def within_def)

lemma silent_if: "silent obs m \<Longrightarrow> silent obs n \<Longrightarrow> silent obs (if b then m else n)"
  by simp

lemma silent_prod: "(\<And>x y. silent obs (k x y)) \<Longrightarrow> silent obs (case p of (x, y) \<Rightarrow> k x y)"
  by (simp split: prod.splits)

lemmas silent_intros = silent_return silent_bind silent_call silent_rd silent_wr silent_within silent_if silent_prod

end

section \<open>Honest environments\<close>

text \<open>The bytes received from the network, in the order of the calls.\<close>

primrec net_input :: "trace \<Rightarrow> bytes" where
  "net_input [] = []"
| "net_input (e # tr) = net_input tr @ (case fst e of
       tcp_recv _ _ \<Rightarrow> if ans_res (snd e) = TEE_SUCCESS then ans_data (snd e) else []
     | _ \<Rightarrow> [])"

definition is_recv :: "tee_call \<Rightarrow> bool" where
  "is_recv c = (case c of tcp_recv _ _ \<Rightarrow> True | _ \<Rightarrow> False)"

interpretation recv_observer: trace_observer net_input is_recv
  by unfold_locales (simp add: is_recv_def split: tee_call.splits)

text \<open>When a call can be served.\<close>

definition serviceable :: "crypto \<Rightarrow> trace \<Rightarrow> tee_call \<Rightarrow> bool" where
  "serviceable C tr c = (case c of
       TEE_GetObjectBufferAttribute h i n \<Rightarrow> length (key_attr C (obj_val tr h) i) \<le> n
     | TEE_DigestDoFinal h d n \<Rightarrow> length (sha256 C (op_acc (op_st tr h) @ d)) \<le> n
     | TEE_MACComputeFinal h d n \<Rightarrow>
         length (cmac C (key_attr C (op_key (op_st tr h)) TEE_ATTR_SECRET_VALUE) (op_acc (op_st tr h) @ d)) \<le> n
     | TEE_MACCompareFinal h d m \<Rightarrow>
         m = cmac C (key_attr C (op_key (op_st tr h)) TEE_ATTR_SECRET_VALUE) (op_acc (op_st tr h) @ d)
     | TEE_AsymmetricSignDigest h d n \<Rightarrow> length (ecdsa_sign C (priv_of (op_key (op_st tr h))) d) \<le> n
     | TEE_AsymmetricVerifyDigest h d s \<Rightarrow>
         ecdsa_ok C (key_attr C (op_key (op_st tr h)) TEE_ATTR_ECC_PUBLIC_VALUE_X)
                    (key_attr C (op_key (op_st tr h)) TEE_ATTR_ECC_PUBLIC_VALUE_Y) d s
     | TEE_AEEncryptFinal h d n t \<Rightarrow>
         length (fst (gcm_seal C (key_attr C (op_key (op_st tr h)) TEE_ATTR_SECRET_VALUE) (op_iv (op_st tr h)) d)) \<le> n
         \<and> length (snd (gcm_seal C (key_attr C (op_key (op_st tr h)) TEE_ATTR_SECRET_VALUE) (op_iv (op_st tr h)) d)) \<le> t
     | TEE_AEDecryptFinal h d n t \<Rightarrow>
         (case gcm_open C (key_attr C (op_key (op_st tr h)) TEE_ATTR_SECRET_VALUE) (op_iv (op_st tr h)) d t of
            None \<Rightarrow> False | Some p \<Rightarrow> length p \<le> n)
     | TEE_AsymmetricEncrypt _ _ _ \<Rightarrow> False
     | TEE_AsymmetricDecrypt _ _ _ \<Rightarrow> False
     | _ \<Rightarrow> True)"

text \<open>The type for which a key object was allocated last. A run of the attester and a run of the verifier
  generate one ECDH key pair each; the verifier also generates an ECDSA key pair.\<close>

primrec key_type :: "trace \<Rightarrow> handle \<Rightarrow> obj_type option" where
  "key_type [] h = None"
| "key_type (e # tr) h = (case fst e of
       TEE_AllocateTransientObject t _ \<Rightarrow>
         if ans_res (snd e) = TEE_SUCCESS \<and> ans_handle (snd e) = h then Some t else key_type tr h
     | _ \<Rightarrow> key_type tr h)"

definition served :: "crypto \<Rightarrow> bytes \<Rightarrow> bytes \<Rightarrow> trace \<Rightarrow> tee_call \<Rightarrow> tee_answer \<Rightarrow> bool" where
  "served C priv net tr c a \<longleftrightarrow> (serviceable C tr c \<longrightarrow> ans_res a = TEE_SUCCESS) \<and> (case c of
       tcp_recv _ n \<Rightarrow> ans_data a = take n (drop (length (net_input tr)) net)
     | TEE_Malloc n \<Rightarrow> ans_handle a \<noteq> 0
     | TEE_GenerateKey h _ _ \<Rightarrow> key_type tr h = Some TEE_TYPE_ECDH_KEYPAIR \<longrightarrow> ans_data a = priv
     | _ \<Rightarrow> True)"

definition honest :: "crypto \<Rightarrow> bytes \<Rightarrow> bytes \<Rightarrow> env \<Rightarrow> bool" where
  "honest C priv net env \<longleftrightarrow> gp_tee C env \<and> (\<forall>tr c. \<exists>a. env tr c = Some a \<and> served C priv net tr c a)"

lemma honest_gp_tee: "honest C priv net env \<Longrightarrow> gp_tee C env"
  by (simp add: honest_def)

lemma honest_callI:
  assumes "honest C priv net env"
    and "\<And>a. ans_ok C tr c a \<Longrightarrow> served C priv net tr c a \<Longrightarrow> twp (k a) env ((c, a) # tr) Q"
  shows "twp (call c k) env tr Q"
proof -
  obtain a where "env tr c = Some a" "served C priv net tr c a"
    using assms(1) by (auto simp: honest_def)
  then show ?thesis
    using assms by (simp add: twp_call gp_teeD [OF honest_gp_tee])
qed

lemmas honest_simps = gp_simps served_def serviceable_def

section \<open>The reference environment is honest\<close>

text \<open>Key pairs that are not for ECDH get another private value.\<close>

definition ref_priv :: "bytes \<Rightarrow> trace \<Rightarrow> tee_call \<Rightarrow> bytes" where
  "ref_priv priv tr c = (case c of
       TEE_GenerateKey h _ _ \<Rightarrow> if key_type tr h = Some TEE_TYPE_ECDH_KEYPAIR then priv else map ((+) 1) priv
     | _ \<Rightarrow> priv)"

definition ref_net_ans :: "crypto \<Rightarrow> bytes \<Rightarrow> bytes \<Rightarrow> trace \<Rightarrow> tee_call \<Rightarrow> tee_answer" where
  "ref_net_ans C priv net tr c = ref_ans C (ref_priv priv tr c) (drop (length (net_input tr)) net) tr c"

definition net_env :: "crypto \<Rightarrow> bytes \<Rightarrow> bytes \<Rightarrow> env" where
  "net_env C priv net tr c = Some (ref_net_ans C priv net tr c)"

lemma served_ref_net_ans: "served C priv net tr c (ref_net_ans C priv net tr c)"
  by (cases c)
    (auto simp: ref_net_ans_def ref_ans_def ref_priv_def served_def serviceable_def ok_def fits_def fresh_not_live
      split: prod.splits option.splits host_call.splits)

lemma honest_net_env: "honest C priv net (net_env C priv net)"
  using served_ref_net_ans ans_ok_ref_ans
  by (auto simp: honest_def gp_tee_def net_env_def ref_net_ans_def)

end
