(* ===== verification/Attester_Spec.thy ===== *)
theory Attester_Spec
  imports Attester Honest
begin

text \<open>
  What each step of the attester guarantees when it succeeds, against any environment that behaves
  as the API documents. Every lemma is a weakest-precondition fact about one definition of
  \<open>Attester\<close>; the theorem about the handshake composes them.
\<close>

text \<open>The bytes of a public key as the digests and MACs see them.\<close>

definition point_bytes :: "ec_point \<Rightarrow> bytes" where
  "point_bytes p = take (x_size p) (x_raw p) @ take (y_size p) (y_raw p)"

text \<open>The key schedule of the protocol: the key derivation key from the shared secret, and a key
  for each label.\<close>

definition kdk :: "crypto \<Rightarrow> bytes \<Rightarrow> bytes" where
  "kdk C secret = cmac C (replicate 16 0) secret"

definition label_key :: "crypto \<Rightarrow> bytes \<Rightarrow> bytes \<Rightarrow> bytes" where
  "label_key C label secret = cmac C (kdk C secret) label"

abbreviation secret_value :: "crypto \<Rightarrow> trace \<Rightarrow> handle \<Rightarrow> bytes" where
  "secret_value C tr h \<equiv> key_attr C (obj_val tr h) TEE_ATTR_SECRET_VALUE"

text \<open>A context field holds the public part of a key pair object.\<close>

definition fresh_key :: "crypto \<Rightarrow> keyval \<Rightarrow> ec_point \<Rightarrow> bool" where
  "fresh_key C v pt \<longleftrightarrow> v = KPriv (priv_of v) \<and> length (x_raw pt) = 32 \<and> length (y_raw pt) = 32
     \<and> x_size pt = length (pub_x C (priv_of v)) \<and> y_size pt = length (pub_y C (priv_of v))
     \<and> take (x_size pt) (x_raw pt) = pub_x C (priv_of v) \<and> take (y_size pt) (y_raw pt) = pub_y C (priv_of v)"

text \<open>The part of the context that the steps after message 1 leave alone.\<close>

definition session_frame :: "ra_context \<Rightarrow> ra_context \<Rightarrow> bool" where
  "session_frame ctx ctx' \<longleftrightarrow> msg0 ctx' = msg0 ctx \<and> msg1 ctx' = msg1 ctx
     \<and> ecdh_local_keypair_handle ctx' = ecdh_local_keypair_handle ctx
     \<and> ecdh_remote_public_key_x_attr ctx' = ecdh_remote_public_key_x_attr ctx
     \<and> ecdh_remote_public_key_y_attr ctx' = ecdh_remote_public_key_y_attr ctx"

section \<open>Digest and MAC checks\<close>

lemma generate_anchor_spec:
  assumes gp: "gp_tee C env"
  shows "wp (generate_anchor p ctx anchor n) env tr True (\<lambda>(res, a) tr'.
    (res = TEE_SUCCESS \<longrightarrow> keeps tr tr' \<and> n = RA_ANCHOR_SIZE p \<and>
     length (sha256 C (point_bytes (msg0 ctx) @ point_bytes (ecdh_verifier_public_key (msg1 ctx)))) = n \<and>
     a = splice anchor 0 (sha256 C (point_bytes (msg0 ctx) @ point_bytes (ecdh_verifier_public_key (msg1 ctx))))))"
  unfolding generate_anchor_def Let_def free_op_def
  by (auto intro!: gp_callI [OF gp] simp: wp_simps gp_simps point_bytes_def keeps_def)

lemma verify_msg1_mac_spec:
  assumes gp: "gp_tee C env"
  shows "wp (verify_msg1_mac ctx) env tr True (\<lambda>res tr'. (res = TEE_SUCCESS \<longrightarrow> keeps tr tr' \<and>
    mac1 (msg1 ctx) = cmac C (secret_value C tr (ecdh_shared_mac_key ctx))
      (point_bytes (ecdh_verifier_public_key (msg1 ctx)) @ point_bytes (ecdsa_verifier_public_key (msg1 ctx))
       @ ecdh_signature (msg1 ctx))))"
  unfolding verify_msg1_mac_def Let_def free_op_def
  by (auto intro!: gp_callI [OF gp] simp: wp_simps gp_simps point_bytes_def keeps_def)

lemma utils_print_byte_array_wp:
  assumes gp: "gp_tee C env"
    and k: "\<And>tr'. keeps tr tr' \<Longrightarrow> wp k env tr' True Q"
  shows "wp (utils_print_byte_array bs k) env tr True Q"
  unfolding utils_print_byte_array_def
  by (auto intro!: gp_callI [OF gp] k simp: wp_simps keeps_def obj_upd_def)

lemma rd_print_wp:
  assumes gp: "gp_tee C env"
    and k: "\<And>tr'. keeps tr tr' \<Longrightarrow> wp k env tr' True Q"
  shows "wp (rd_print buf n k) env tr True Q"
  unfolding rd_print_def by (auto intro!: utils_print_byte_array_wp [OF gp] k simp: wp_simps)

lemma dump_invalid_signature_wp:
  assumes gp: "gp_tee C env"
    and k: "\<And>tr'. keeps tr tr' \<Longrightarrow> wp k env tr' True Q"
  shows "wp (dump_invalid_signature p ctx digest k) env tr True Q"
  unfolding dump_invalid_signature_def Let_def
  by (intro rd_print_wp [OF gp] k) (simp add: keeps_def)

lemma verify_ecdh_public_key_signature_spec:
  assumes gp: "gp_tee C env"
  shows "wp (verify_ecdh_public_key_signature p ctx) env tr True (\<lambda>res tr'. (res = TEE_SUCCESS \<longrightarrow> keeps tr tr' \<and>
    ecdsa_ok C (key_attr C (obj_val tr (ecdsa_verifier_public_key_handle ctx)) TEE_ATTR_ECC_PUBLIC_VALUE_X)
      (key_attr C (obj_val tr (ecdsa_verifier_public_key_handle ctx)) TEE_ATTR_ECC_PUBLIC_VALUE_Y)
      (sha256 C (point_bytes (ecdh_verifier_public_key (msg1 ctx)) @ point_bytes (msg0 ctx)))
      (ecdh_signature (msg1 ctx))))"
  unfolding verify_ecdh_public_key_signature_def Let_def free_op_def
  by (auto intro!: gp_callI [OF gp] dump_invalid_signature_wp [OF gp]
      simp: wp_simps gp_simps point_bytes_def keeps_def)

section \<open>Keys\<close>

lemma generate_ecdh_keypair_spec:
  assumes gp: "gp_tee C env"
    and len: "length (x_raw (msg0 ctx)) = 32" "length (y_raw (msg0 ctx)) = 32"
  shows "wp (generate_ecdh_keypair ctx) env tr True (\<lambda>(res, ctx') tr'. res = TEE_SUCCESS \<longrightarrow>
    keeps tr tr' \<and> ecdh_local_keypair_handle ctx' \<in> live_objs tr'
      \<and> fresh_key C (obj_val tr' (ecdh_local_keypair_handle ctx')) (msg0 ctx'))"
  unfolding generate_ecdh_keypair_def Let_def get_buffer_attribute_def fresh_key_def
  by (auto intro!: gp_callI [OF gp] simp: wp_simps gp_simps keeps_def splice_0 len)

lemma import_verifier_attestation_key_spec:
  assumes gp: "gp_tee C env"
  shows "wp (import_verifier_attestation_key ctx) env tr True (\<lambda>(res, ctx') tr'. res = TEE_SUCCESS \<longrightarrow>
    keeps tr tr' \<and> session_frame ctx ctx' \<and> (let h = ecdsa_verifier_public_key_handle ctx' in h \<in> live_objs tr' \<and>
      key_attr C (obj_val tr' h) TEE_ATTR_ECC_PUBLIC_VALUE_X =
        take (x_size (ecdsa_verifier_public_key (msg1 ctx))) (x_raw (ecdsa_verifier_public_key (msg1 ctx))) \<and>
      key_attr C (obj_val tr' h) TEE_ATTR_ECC_PUBLIC_VALUE_Y =
        take (y_size (ecdsa_verifier_public_key (msg1 ctx))) (y_raw (ecdsa_verifier_public_key (msg1 ctx)))))"
  unfolding import_verifier_attestation_key_def Let_def session_frame_def
  by (auto intro!: gp_callI [OF gp] simp: wp_simps gp_simps keeps_def)

lemma derive_shared_mac_key_spec:
  assumes gp: "gp_tee C env"
    and l: "ecdh_shared_key_derivation_key ctx \<in> live_objs tr"
  shows "wp (derive_shared_mac_key p ctx dat old) env tr True (\<lambda>(res, k) tr'. res = TEE_SUCCESS \<longrightarrow>
    keeps tr tr' \<and> k \<in> live_objs tr' \<and> k \<notin> live_objs tr \<and>
    secret_value C tr' k = cmac C (secret_value C tr (ecdh_shared_key_derivation_key ctx)) dat)"
  using l
  unfolding derive_shared_mac_key_def Let_def get_buffer_attribute_def
  by (auto intro!: gp_callI [OF gp] simp: wp_simps gp_simps keeps_def splice_0)

lemma derive_shared_key_spec:
  assumes gp: "gp_tee C env"
    and l: "ecdh_local_keypair_handle ctx \<in> live_objs tr"
  shows "wp (derive_shared_key p ctx) env tr True (\<lambda>(res, ctx') tr'. res = TEE_SUCCESS \<longrightarrow>
    keeps tr tr' \<and> session_frame ctx ctx' \<and> (let h = ecdh_shared_key_derivation_key ctx' in h \<in> live_objs tr' \<and>
      secret_value C tr' h = kdk C (ecdh C (priv_of (obj_val tr (ecdh_local_keypair_handle ctx)))
        (take (ecdh_remote_public_key_x_attr ctx) (x_raw (ecdh_verifier_public_key (msg1 ctx))))
        (take (ecdh_remote_public_key_y_attr ctx) (y_raw (ecdh_verifier_public_key (msg1 ctx)))))))"
  using l
  unfolding derive_shared_key_def Let_def session_frame_def get_buffer_attribute_def derive_out_def
  by (auto intro!: gp_callI [OF gp] simp: wp_simps gp_simps keeps_def splice_0 kdk_def)

section \<open>Socket\<close>

lemma take_splice_append:
  "off + length d \<le> length buf \<Longrightarrow> take (off + length d) (splice buf off d) = take off buf @ d"
  by (simp add: splice_def)

lemma recv_join:
  assumes "t \<le> length dat" and eq: "take (t + length d) buf = take t dat @ d"
  shows "take t buf = take t dat"
    and "t + length d \<le> t' \<Longrightarrow> drop t (take t' buf) = d @ drop (t + length d) (take t' buf)"
proof -
  have t: "t = length (take t dat)" using assms by simp
  have "take t buf = take t (take (t + length d) buf)" by simp
  then show "take t buf = take t dat" unfolding eq using t by simp
  assume "t + length d \<le> t'"
  then have "take t' buf = take (t + length d) buf @ drop (t + length d) (take t' buf)"
    by (metis append_take_drop_id min.absorb1 take_take)
  then show "drop t (take t' buf) = d @ drop (t + length d) (take t' buf)"
    unfolding eq by (metis append.assoc append_eq_conv_conj t)
qed

text \<open>The last call asked the socket for bytes and got none.\<close>

definition peer_done :: "handle \<Rightarrow> trace \<Rightarrow> bool" where
  "peer_done s tr \<longleftrightarrow> (\<exists>k a tr'. tr = (tcp_recv s k, a) # tr' \<and> ans_data a = [])"

text \<open>The loop delivers exactly the bytes it received, in order, and on success stops only
  when enough bytes arrived or the peer sent nothing more.\<close>

lemma receive_socket_per_chunk_spec:
  "t \<le> length dat \<Longrightarrow>
   wp (receive_socket_per_chunk s c dat n t) env tr True (\<lambda>(res, buf, t') tr'.
     keeps tr tr' \<and> length buf = length dat \<and> t \<le> t' \<and> t' \<le> length dat
     \<and> take t buf = take t dat \<and> net_input tr' = net_input tr @ drop t (take t' buf)
     \<and> (res = TEE_SUCCESS \<longrightarrow> n \<le> t' \<or> (c = 0 \<and> tr' = tr) \<or> peer_done s tr'))"
proof (induction s c dat n t env tr rule: receive_socket_per_chunk.induct)
  case (1 s c dat n t env tr)
  show ?case
  proof (cases "0 < c \<and> t < n \<and> env tr (tcp_recv s c) \<noteq> None")
    case False
    then show ?thesis
      using "1.prems" by (subst receive_socket_per_chunk.simps) (auto simp: wp_def split: option.splits)
  next
    case True
    then obtain a where a: "env tr (tcp_recv s c) = Some a" "0 < c" "t < n" by auto
    let ?tr = "(tcp_recv s c, a) # tr" and ?dat = "splice dat t (ans_data a)"
    show ?thesis
    proof (cases "ans_res a = TEE_SUCCESS \<and> t + length (ans_data a) \<le> length dat")
      case False
      then show ?thesis
        using a "1.prems" by (subst receive_socket_per_chunk.simps) (auto simp: wp_def keeps_def obj_upd_def)
    next
      case ok: True
      have step: "wp (receive_socket_per_chunk s c dat n t) env tr True Q =
        wp (receive_socket_per_chunk s (length (ans_data a)) ?dat n (t + length (ans_data a))) env ?tr True Q" for Q
        using a ok by (simp add: wp_def receive_socket_per_chunk.simps [of s c dat n t env tr])
      have k: "keeps tr ?tr" by (simp add: keeps_def obj_upd_def)
      have "wp (receive_socket_per_chunk s (length (ans_data a)) ?dat n (t + length (ans_data a))) env ?tr True
        (\<lambda>(res, buf, t') tr'. keeps ?tr tr' \<and> length buf = length ?dat \<and> t + length (ans_data a) \<le> t' \<and> t' \<le> length ?dat
          \<and> take (t + length (ans_data a)) buf = take (t + length (ans_data a)) ?dat
          \<and> net_input tr' = net_input ?tr @ drop (t + length (ans_data a)) (take t' buf)
          \<and> (res = TEE_SUCCESS \<longrightarrow> n \<le> t' \<or> (length (ans_data a) = 0 \<and> tr' = ?tr) \<or> peer_done s tr'))"
        using "1.IH" a ok by auto
      then show ?thesis
        unfolding step
        by (rule wp_mono)
          (use ok "1.prems" in \<open>auto simp: take_splice_append peer_done_def keeps_trans [OF k]
            recv_join [OF "1.prems"]\<close>)
    qed
  qed
qed

section \<open>Messages 0 and 1\<close>

lemma establish_tcp_connection_spec:
  assumes gp: "gp_tee C env"
  shows "wp (establish_tcp_connection ctx host) env tr True (\<lambda>(res, ctx') tr'. res = TEE_SUCCESS \<longrightarrow>
    keeps tr tr' \<and> net_input tr' = net_input tr \<and> session_frame ctx ctx')"
  unfolding establish_tcp_connection_def Let_def
  by (auto intro!: gp_callI [OF gp] simp: wp_simps gp_simps keeps_def session_frame_def)

lemma send_msg0_spec:
  assumes gp: "gp_tee C env"
  shows "wp (send_msg0 ctx) env tr True (\<lambda>res tr'. res = TEE_SUCCESS \<longrightarrow>
    keeps tr tr' \<and> net_input tr' = net_input tr)"
  unfolding send_msg0_def by (auto intro!: gp_callI [OF gp] simp: wp_simps gp_simps keeps_def)

text \<open>The context after a successful \<open>receive_msg1\<close>: the message is what the network delivered.\<close>

definition received_msg1 :: "ra_params \<Rightarrow> ra_context \<Rightarrow> ra_context \<Rightarrow> bytes \<Rightarrow> bool" where
  "received_msg1 p ctx ctx' raw \<longleftrightarrow> length raw = sizeof_msg1 p 4 \<and> msg1 ctx' = dec_msg1 p 4 raw
     \<and> msg0 ctx' = msg0 ctx \<and> ecdh_local_keypair_handle ctx' = ecdh_local_keypair_handle ctx
     \<and> ecdh_remote_public_key_x_attr ctx' = x_size (ecdh_verifier_public_key (msg1 ctx'))
     \<and> ecdh_remote_public_key_y_attr ctx' = y_size (ecdh_verifier_public_key (msg1 ctx'))"

lemma receive_msg1_spec:
  "wp (receive_msg1 p ctx) env tr True (\<lambda>(res, ctx') tr'. res = TEE_SUCCESS \<longrightarrow>
     keeps tr tr' \<and> (\<exists>raw. net_input tr' = net_input tr @ raw \<and> received_msg1 p ctx ctx' raw))"
  unfolding receive_msg1_def Let_def received_msg1_def
  by (rule wp_bindI [OF receive_socket_per_chunk_spec]) (auto simp: wp_simps not_less)

definition trusted_key :: "ec_point \<Rightarrow> bytes \<Rightarrow> nat \<Rightarrow> bytes \<Rightarrow> nat \<Rightarrow> bool" where
  "trusted_key kv kx kx_size ky ky_size \<longleftrightarrow> kx_size = 0 \<and> ky_size = 0
     \<or> kx_size = 32 \<and> ky_size = 32 \<and> take 32 (x_raw kv) = take 32 kx \<and> take 32 (y_raw kv) = take 32 ky"

lemma verify_service_public_key_spec:
  "wp (verify_service_public_key ctx kx kx_size ky ky_size) env tr True (\<lambda>res tr'.
     (res = TEE_SUCCESS \<longrightarrow> tr' = tr \<and> trusted_key (ecdsa_verifier_public_key (msg1 ctx)) kx kx_size ky ky_size))"
  unfolding verify_service_public_key_def trusted_key_def by (simp add: wp_simps)

section \<open>The handshake\<close>

text \<open>What the attester knows after a successful handshake: the pinned key is the verifier's, its
  signature covers both session keys, the MAC of message 1 is right under the derived key, the two
  symmetric keys follow the schedule, and the anchor binds the two session keys.\<close>

definition handshake_ok ::
  "crypto \<Rightarrow> trace \<Rightarrow> ra_context \<Rightarrow> bytes \<Rightarrow> nat \<Rightarrow> bytes \<Rightarrow> nat \<Rightarrow> bytes \<Rightarrow> bytes \<Rightarrow> bool" where
  "handshake_ok C tr ctx kx kx_size ky ky_size anchor anchor' \<longleftrightarrow>
     (let ga = msg0 ctx; gv = ecdh_verifier_public_key (msg1 ctx); kv = ecdsa_verifier_public_key (msg1 ctx);
          own = obj_val tr (ecdh_local_keypair_handle ctx);
          secret = ecdh C (priv_of own) (take (x_size gv) (x_raw gv)) (take (y_size gv) (y_raw gv)) in
      trusted_key kv kx kx_size ky ky_size
      \<and> fresh_key C own ga
      \<and> ecdsa_ok C (take (x_size kv) (x_raw kv)) (take (y_size kv) (y_raw kv))
          (sha256 C (point_bytes gv @ point_bytes ga)) (ecdh_signature (msg1 ctx))
      \<and> secret_value C tr (ecdh_shared_mac_key ctx) = label_key C WASI_RA_SHARED_MAC_DATA secret
      \<and> secret_value C tr (ecdh_shared_session_key ctx) = label_key C WASI_RA_SHARED_SESSION_DATA secret
      \<and> mac1 (msg1 ctx) = cmac C (label_key C WASI_RA_SHARED_MAC_DATA secret)
          (point_bytes gv @ point_bytes kv @ ecdh_signature (msg1 ctx))
      \<and> anchor' = splice anchor 0 (sha256 C (point_bytes ga @ point_bytes gv)))"

text \<open>A step whose failure ends the caller with the step's result.\<close>

lemma wp_stepI:
  assumes "wp m env tr True (\<lambda>(res, x) tr'. res = TEE_SUCCESS \<longrightarrow> R x tr')"
    and "\<And>x tr'. R x tr' \<Longrightarrow> wp (k x) env tr' True Q"
    and "\<And>res x tr'. res \<noteq> TEE_SUCCESS \<Longrightarrow> Q (e res x) tr'"
  shows "wp (bind m (\<lambda>(res, x). if res \<noteq> TEE_SUCCESS then return (e res x) else k x)) env tr True Q"
  by (rule wp_bindI [OF assms(1)]) (auto simp: wp_simps intro: assms(2,3))

lemma wp_checkI:
  assumes "wp m env tr True (\<lambda>res tr'. res = TEE_SUCCESS \<longrightarrow> R tr')"
    and "\<And>tr'. R tr' \<Longrightarrow> wp k env tr' True Q"
    and "\<And>res tr'. res \<noteq> TEE_SUCCESS \<Longrightarrow> Q (e res) tr'"
  shows "wp (bind m (\<lambda>res. if res \<noteq> TEE_SUCCESS then return (e res) else k)) env tr True Q"
  by (rule wp_bindI [OF assms(1)]) (auto simp: wp_simps intro: assms(2,3))

text \<open>What holds after each step, in the order of the steps, for the attester's own key \<open>v\<close> and the
  received message \<open>m\<close>.\<close>

definition remote_secret :: "crypto \<Rightarrow> keyval \<Rightarrow> msg1_t \<Rightarrow> bytes" where
  "remote_secret C v m =
     (let gv = ecdh_verifier_public_key m in
      ecdh C (priv_of v) (take (x_size gv) (x_raw gv)) (take (y_size gv) (y_raw gv)))"

definition has_keypair :: "crypto \<Rightarrow> keyval \<Rightarrow> trace \<Rightarrow> ra_context \<Rightarrow> bool" where
  "has_keypair C v tr ctx \<longleftrightarrow> ecdh_local_keypair_handle ctx \<in> live_objs tr
     \<and> obj_val tr (ecdh_local_keypair_handle ctx) = v \<and> fresh_key C v (msg0 ctx)"

definition has_msg1 :: "crypto \<Rightarrow> keyval \<Rightarrow> msg1_t \<Rightarrow> trace \<Rightarrow> ra_context \<Rightarrow> bool" where
  "has_msg1 C v m tr ctx \<longleftrightarrow> has_keypair C v tr ctx \<and> msg1 ctx = m
     \<and> ecdh_remote_public_key_x_attr ctx = x_size (ecdh_verifier_public_key m)
     \<and> ecdh_remote_public_key_y_attr ctx = y_size (ecdh_verifier_public_key m)"

definition has_peer_key :: "crypto \<Rightarrow> keyval \<Rightarrow> msg1_t \<Rightarrow> trace \<Rightarrow> ra_context \<Rightarrow> bool" where
  "has_peer_key C v m tr ctx \<longleftrightarrow> has_msg1 C v m tr ctx
     \<and> (let k = obj_val tr (ecdsa_verifier_public_key_handle ctx); kv = ecdsa_verifier_public_key m in
        key_attr C k TEE_ATTR_ECC_PUBLIC_VALUE_X = take (x_size kv) (x_raw kv)
        \<and> key_attr C k TEE_ATTR_ECC_PUBLIC_VALUE_Y = take (y_size kv) (y_raw kv))"

definition signed_by_peer :: "crypto \<Rightarrow> keyval \<Rightarrow> msg1_t \<Rightarrow> bool" where
  "signed_by_peer C v m \<longleftrightarrow>
     (let gv = ecdh_verifier_public_key m; kv = ecdsa_verifier_public_key m in
      ecdsa_ok C (take (x_size kv) (x_raw kv)) (take (y_size kv) (y_raw kv))
        (sha256 C (point_bytes gv @ pub_x C (priv_of v) @ pub_y C (priv_of v))) (ecdh_signature m))"

definition has_kdk :: "crypto \<Rightarrow> keyval \<Rightarrow> msg1_t \<Rightarrow> trace \<Rightarrow> ra_context \<Rightarrow> bool" where
  "has_kdk C v m tr ctx \<longleftrightarrow> has_msg1 C v m tr ctx \<and> ecdh_shared_key_derivation_key ctx \<in> live_objs tr
     \<and> secret_value C tr (ecdh_shared_key_derivation_key ctx) = kdk C (remote_secret C v m)"

definition has_mac_key :: "crypto \<Rightarrow> keyval \<Rightarrow> msg1_t \<Rightarrow> trace \<Rightarrow> ra_context \<Rightarrow> bool" where
  "has_mac_key C v m tr ctx \<longleftrightarrow> has_kdk C v m tr ctx \<and> ecdh_shared_mac_key ctx \<in> live_objs tr
     \<and> secret_value C tr (ecdh_shared_mac_key ctx) = label_key C WASI_RA_SHARED_MAC_DATA (remote_secret C v m)"

definition has_keys :: "crypto \<Rightarrow> keyval \<Rightarrow> msg1_t \<Rightarrow> trace \<Rightarrow> ra_context \<Rightarrow> bool" where
  "has_keys C v m tr ctx \<longleftrightarrow> has_mac_key C v m tr ctx \<and> ecdh_shared_session_key ctx \<in> live_objs tr
     \<and> secret_value C tr (ecdh_shared_session_key ctx) =
         label_key C WASI_RA_SHARED_SESSION_DATA (remote_secret C v m)"

definition msg1_mac_ok :: "crypto \<Rightarrow> keyval \<Rightarrow> msg1_t \<Rightarrow> bool" where
  "msg1_mac_ok C v m \<longleftrightarrow> mac1 m = cmac C (label_key C WASI_RA_SHARED_MAC_DATA (remote_secret C v m))
     (point_bytes (ecdh_verifier_public_key m) @ point_bytes (ecdsa_verifier_public_key m) @ ecdh_signature m)"

lemmas stage_defs = has_keypair_def has_msg1_def has_peer_key_def has_kdk_def has_mac_key_def has_keys_def Let_def

lemma fresh_key_bytes: "fresh_key C v pt \<Longrightarrow> point_bytes pt = pub_x C (priv_of v) @ pub_y C (priv_of v)"
  by (metis fresh_key_def point_bytes_def)

lemma stage_keypair:
  assumes "gp_tee C env" "length (x_raw (msg0 ctx)) = 32" "length (y_raw (msg0 ctx)) = 32"
  shows "wp (generate_ecdh_keypair ctx) env tr True (\<lambda>(res, ctx') tr'. res = TEE_SUCCESS \<longrightarrow>
    has_keypair C (obj_val tr' (ecdh_local_keypair_handle ctx')) tr' ctx')"
  by (rule wp_mono [OF generate_ecdh_keypair_spec [OF assms]]) (auto simp: stage_defs)

lemma stage_connect:
  assumes "gp_tee C env" "has_keypair C v tr ctx"
  shows "wp (establish_tcp_connection ctx host) env tr True (\<lambda>(res, ctx') tr'. res = TEE_SUCCESS \<longrightarrow>
    has_keypair C v tr' ctx' \<and> net_input tr' = net_input tr)"
  by (rule wp_mono [OF establish_tcp_connection_spec [OF assms(1)]])
    (use assms(2) in \<open>auto simp: stage_defs keeps_def session_frame_def\<close>)

lemma stage_send:
  assumes "gp_tee C env" "has_keypair C v tr ctx"
  shows "wp (send_msg0 ctx) env tr True (\<lambda>res tr'. res = TEE_SUCCESS \<longrightarrow>
    has_keypair C v tr' ctx \<and> net_input tr' = net_input tr)"
  by (rule wp_mono [OF send_msg0_spec [OF assms(1)]]) (use assms(2) in \<open>auto simp: stage_defs keeps_def\<close>)

lemma stage_receive:
  assumes "has_keypair C v tr ctx"
  shows "wp (receive_msg1 p ctx) env tr True (\<lambda>(res, ctx') tr'. res = TEE_SUCCESS \<longrightarrow>
    has_msg1 C v (msg1 ctx') tr' ctx')"
  by (rule wp_mono [OF receive_msg1_spec]) (use assms in \<open>auto simp: stage_defs keeps_def received_msg1_def\<close>)

lemma stage_trust:
  assumes "has_msg1 C v m tr ctx"
  shows "wp (verify_service_public_key ctx kx kx_size ky ky_size) env tr True (\<lambda>res tr'. res = TEE_SUCCESS \<longrightarrow>
    has_msg1 C v m tr' ctx \<and> trusted_key (ecdsa_verifier_public_key m) kx kx_size ky ky_size)"
  by (rule wp_mono [OF verify_service_public_key_spec]) (use assms in \<open>auto simp: has_msg1_def\<close>)

lemma stage_import:
  assumes "gp_tee C env" "has_msg1 C v m tr ctx"
  shows "wp (import_verifier_attestation_key ctx) env tr True (\<lambda>(res, ctx') tr'. res = TEE_SUCCESS \<longrightarrow>
    has_peer_key C v m tr' ctx')"
  by (rule wp_mono [OF import_verifier_attestation_key_spec [OF assms(1)]])
    (use assms(2) in \<open>auto simp: stage_defs keeps_def session_frame_def\<close>)

lemma stage_signature:
  assumes "gp_tee C env" "has_peer_key C v m tr ctx"
  shows "wp (verify_ecdh_public_key_signature p ctx) env tr True (\<lambda>res tr'. res = TEE_SUCCESS \<longrightarrow>
    has_msg1 C v m tr' ctx \<and> signed_by_peer C v m)"
  by (rule wp_mono [OF verify_ecdh_public_key_signature_spec [OF assms(1)]])
    (use assms(2) in \<open>auto simp: stage_defs keeps_def signed_by_peer_def fresh_key_bytes\<close>)

lemma stage_kdk:
  assumes "gp_tee C env" "has_msg1 C v m tr ctx"
  shows "wp (derive_shared_key p ctx) env tr True (\<lambda>(res, ctx') tr'. res = TEE_SUCCESS \<longrightarrow> has_kdk C v m tr' ctx')"
  by (rule wp_mono [OF derive_shared_key_spec [OF assms(1)]])
    (use assms(2) in \<open>auto simp: stage_defs keeps_def session_frame_def remote_secret_def\<close>)

lemma stage_mac_key:
  assumes "gp_tee C env" "has_kdk C v m tr ctx"
  shows "wp (derive_shared_mac_key p ctx WASI_RA_SHARED_MAC_DATA old) env tr True (\<lambda>(res, k) tr'.
    res = TEE_SUCCESS \<longrightarrow> has_mac_key C v m tr' (ctx\<lparr>ecdh_shared_mac_key := k\<rparr>))"
  by (rule wp_mono [OF derive_shared_mac_key_spec [OF assms(1)]])
    (use assms(2) in \<open>auto simp: stage_defs keeps_def label_key_def\<close>)

lemma stage_session_key:
  assumes "gp_tee C env" "has_mac_key C v m tr ctx"
  shows "wp (derive_shared_mac_key p ctx WASI_RA_SHARED_SESSION_DATA old) env tr True (\<lambda>(res, k) tr'.
    res = TEE_SUCCESS \<longrightarrow> has_keys C v m tr' (ctx\<lparr>ecdh_shared_session_key := k\<rparr>))"
  by (rule wp_mono [OF derive_shared_mac_key_spec [OF assms(1)]])
    (use assms(2) in \<open>auto simp: stage_defs keeps_def label_key_def\<close>)

lemma stage_mac:
  assumes "gp_tee C env" "has_keys C v m tr ctx"
  shows "wp (verify_msg1_mac ctx) env tr True (\<lambda>res tr'. res = TEE_SUCCESS \<longrightarrow>
    has_keys C v m tr' ctx \<and> msg1_mac_ok C v m)"
  by (rule wp_mono [OF verify_msg1_mac_spec [OF assms(1)]])
    (use assms(2) in \<open>auto simp: stage_defs keeps_def msg1_mac_ok_def\<close>)

lemma stage_anchor:
  assumes "gp_tee C env" "has_keys C v m tr ctx"
  shows "wp (generate_anchor p ctx anchor n) env tr True (\<lambda>(res, a) tr'. res = TEE_SUCCESS \<longrightarrow>
    has_keys C v m tr' ctx
    \<and> a = splice anchor 0 (sha256 C (point_bytes (msg0 ctx) @ point_bytes (ecdh_verifier_public_key m))))"
  by (rule wp_mono [OF generate_anchor_spec [OF assms(1)]])
    (use assms(2-) in \<open>auto simp: stage_defs keeps_def\<close>)

lemma handshake_okI:
  assumes "has_keys C v m tr ctx" "trusted_key (ecdsa_verifier_public_key m) kx kx_size ky ky_size"
    "signed_by_peer C v m" "msg1_mac_ok C v m"
    "a = splice anchor 0 (sha256 C (point_bytes (msg0 ctx) @ point_bytes (ecdh_verifier_public_key m)))"
  shows "handshake_ok C tr ctx kx kx_size ky ky_size anchor a"
  using assms
  by (auto simp: handshake_ok_def stage_defs signed_by_peer_def msg1_mac_ok_def remote_secret_def fresh_key_bytes)

lemma ra_net_handshake_spec:
  assumes gp: "gp_tee C env"
  shows "wp (ra_net_handshake p host kx kx_size ky ky_size anchor anchor_size) env tr True
    (\<lambda>(res, ctx, anchor') tr'. res = TEE_SUCCESS \<longrightarrow>
      handshake_ok C tr' ctx kx kx_size ky ky_size anchor anchor')"
  unfolding ra_net_handshake_def alloc_ra_context_def Let_def prod.case
  apply (simp only: wp_if simp_thms if_False)
  apply (rule wp_stepI [OF stage_keypair [OF gp]], simp_all add: zero_point_def)
  apply (rule wp_stepI [OF stage_connect [OF gp]], assumption, simp_all)
  apply (rule wp_checkI [OF stage_send [OF gp]], blast, simp_all)
  apply (rule wp_stepI [OF stage_receive], blast, simp_all)
  apply (rule wp_checkI [OF stage_trust], assumption, simp_all)
  apply (rule wp_stepI [OF stage_import [OF gp]], blast, simp_all)
  apply (rule wp_checkI [OF stage_signature [OF gp]], assumption, simp_all)
  apply (rule wp_stepI [OF stage_kdk [OF gp]], blast, simp_all)
  apply (rule wp_stepI [OF stage_mac_key [OF gp]], assumption, simp_all)
  apply (rule wp_stepI [OF stage_session_key [OF gp]], assumption, simp_all)
  apply (rule wp_checkI [OF stage_mac [OF gp]], assumption, simp_all)
  apply (rule wp_stepI [OF stage_anchor [OF gp]], blast, simp_all)
  apply (auto simp: wp_return intro: handshake_okI)
  done

section \<open>Messages 2 and 3\<close>

text \<open>No MAC operation is refused.\<close>

definition mac_served :: "tee_call \<Rightarrow> tee_answer \<Rightarrow> bool" where
  "mac_served c a = (case c of
       TEE_AllocateOperation alg _ _ \<Rightarrow> alg = TEE_ALG_AES_CMAC \<longrightarrow> ans_res a = TEE_SUCCESS
     | TEE_SetOperationKey _ _ \<Rightarrow> ans_res a = TEE_SUCCESS
     | TEE_MACComputeFinal _ _ _ \<Rightarrow> ans_res a = TEE_SUCCESS
     | _ \<Rightarrow> True)"

definition mac_available :: "env \<Rightarrow> bool" where
  "mac_available env \<longleftrightarrow> (\<forall>tr c a. env tr c = Some a \<longrightarrow> mac_served c a)"

lemma mac_callI:
  assumes "gp_tee C env" "mac_available env"
    and "\<And>a. ans_ok C tr c a \<Longrightarrow> mac_served c a \<Longrightarrow> wp (k a) env ((c, a) # tr) ob Q"
  shows "wp (call c k) env tr ob Q"
  using assms by (simp add: wp_call gp_teeD mac_available_def)

text \<open>\<open>prepare_msg2\<close> reports success whatever its MAC operation answers. When the operation is not
  refused, the message is the attester's key, the quote and their MAC.\<close>

lemma prepare_msg2_success:
  "wp (prepare_msg2 ctx q) env tr True (\<lambda>(res, ctx') tr'. res = TEE_SUCCESS)"
  unfolding prepare_msg2_def Let_def free_op_def by (simp add: wp_simps wp_call)

definition protocol_msg2 :: "crypto \<Rightarrow> trace \<Rightarrow> ra_context \<Rightarrow> bytes \<Rightarrow> msg2_t" where
  "protocol_msg2 C tr ctx q =
     \<lparr>ecdh_local_public_key = msg0 ctx, quote = q,
      mac2 = cmac C (secret_value C tr (ecdh_shared_mac_key ctx)) (point_bytes (msg0 ctx) @ q)\<rparr>"

text \<open>Two messages that agree on the bytes that the length fields cover.\<close>

definition same_msg2 :: "msg2_t \<Rightarrow> msg2_t \<Rightarrow> bool" where
  "same_msg2 m m' \<longleftrightarrow> quote m = quote m' \<and> mac2 m = mac2 m'
     \<and> x_size (ecdh_local_public_key m) = x_size (ecdh_local_public_key m')
     \<and> y_size (ecdh_local_public_key m) = y_size (ecdh_local_public_key m')
     \<and> point_bytes (ecdh_local_public_key m) = point_bytes (ecdh_local_public_key m')"

lemma prepare_msg2_spec:
  assumes gp: "gp_tee C env" and mac: "mac_available env"
    and len: "length (quote (msg2 ctx)) = length q" "length (mac2 (msg2 ctx)) = 16"
      "\<And>k d. length (cmac C k d) = 16"
  shows "wp (prepare_msg2 ctx q) env tr True (\<lambda>(res, ctx') tr'.
    res = TEE_SUCCESS \<and> same_msg2 (msg2 ctx') (protocol_msg2 C tr ctx q))"
  unfolding prepare_msg2_def Let_def free_op_def same_msg2_def protocol_msg2_def
  by (auto intro!: mac_callI [OF gp mac] simp: wp_simps gp_simps mac_served_def point_bytes_def len splice_0)

definition opened_msg3 :: "crypto \<Rightarrow> nat \<Rightarrow> bytes \<Rightarrow> bytes \<Rightarrow> bytes option" where
  "opened_msg3 C w key m3 =
     (let h = dec_msg3 w m3 in
      gcm_open C key (iv h) (take (encrypted_content_size h) (drop (sizeof_msg3 w) m3)) (tag h))"

lemma decrypt_msg3_spec:
  assumes gp: "gp_tee C env"
  shows "wp (decrypt_msg3 p ctx dat n) env tr True (\<lambda>(res, dat', n') tr'. res = TEE_SUCCESS \<longrightarrow>
    net_input tr' = net_input tr \<and> (\<exists>d. opened_msg3 C (sizeof_size_t p) (secret_value C tr (ecdh_shared_session_key ctx)) (msg3 ctx) = Some d
      \<and> dat' = splice dat 0 d \<and> n' = length d \<and> n' \<le> length dat))"
  unfolding decrypt_msg3_def Let_def free_op_def opened_msg3_def
  by (auto intro!: gp_callI [OF gp] simp: wp_simps gp_simps keeps_def msg3_codec.dec_take)

lemma receive_msg3_spec:
  "wp (receive_msg3 ctx) env tr True (\<lambda>(res, ctx') tr'. res = TEE_SUCCESS \<longrightarrow>
     keeps tr tr' \<and> ecdh_shared_session_key ctx' = ecdh_shared_session_key ctx
     \<and> net_input tr' = net_input tr @ take (msg3_size ctx') (msg3 ctx'))"
  unfolding receive_msg3_def
  by (rule wp_bindI [OF receive_socket_per_chunk_spec]) (auto simp: wp_simps)

lemma allocate_msg3_spec:
  assumes gp: "gp_tee C env"
  shows "wp (allocate_msg3 p ctx n) env tr True (\<lambda>(res, ctx') tr'. res = TEE_SUCCESS \<longrightarrow>
    keeps tr tr' \<and> net_input tr' = net_input tr \<and> ecdh_shared_session_key ctx' = ecdh_shared_session_key ctx)"
  unfolding allocate_msg3_def Let_def
  by (auto intro!: gp_callI [OF gp] simp: wp_simps gp_simps keeps_def)

lemma ra_net_receive_data_spec:
  assumes gp: "gp_tee C env" and live: "ecdh_shared_session_key ctx \<in> live_objs tr"
  shows "wp (ra_net_receive_data p ctx dat n) env tr True (\<lambda>(res, ctx', dat', n') tr'. res = TEE_SUCCESS \<longrightarrow>
    net_input tr' = net_input tr @ take (msg3_size ctx') (msg3 ctx') \<and>
    (\<exists>d. opened_msg3 C (sizeof_size_t p) (secret_value C tr (ecdh_shared_session_key ctx)) (msg3 ctx') = Some d
      \<and> dat' = splice dat 0 d \<and> n' = length d \<and> n' \<le> length dat))"
  unfolding ra_net_receive_data_def
  apply (rule wp_stepI [OF allocate_msg3_spec [OF gp]])
   apply (rule wp_stepI [OF receive_msg3_spec])
    apply (rule wp_bindI [OF decrypt_msg3_spec [OF gp]])
    apply (use live in \<open>auto simp: wp_simps keeps_def\<close>)
  done

section \<open>Printing\<close>

lemma length_hex_text: "length (hex_text b) = 3"
  by (simp add: hex_text_def)

text \<open>A text of three characters fits at every cursor that leaves some room; the last one is cut.\<close>

lemma snprintf_at_room:
  assumes "length buf = 150" "cursor < 150"
  shows "\<exists>buf'. snprintf_at buf cursor (hex_text b) = Some buf' \<and> length buf' = 150"
proof -
  have "min (length (hex_text b)) (150 - cursor - 1) + 1 \<le> 150 - cursor"
    using assms by simp
  then have "cursor + length (take (150 - cursor - 1) (hex_text b) @ [0]) \<le> length buf"
    using assms by (simp add: min.commute)
  then show ?thesis
    using assms by (simp add: snprintf_at_def Let_def)
qed

lemma print_line_room:
  "length buf = 150 \<Longrightarrow> cursor + 3 * length bs \<le> 150 \<Longrightarrow>
   (print_line buf cursor bs = None) = (cursor + 3 * length bs = 150)"
proof (induction bs arbitrary: buf cursor)
  case Nil
  then show ?case by auto
next
  case (Cons b bs)
  then obtain buf' where "snprintf_at buf cursor (hex_text b) = Some buf'" "length buf' = 150"
    using snprintf_at_room [of buf cursor b] by auto
  then show ?case
    using Cons.IH [of buf' "cursor + 3"] Cons.prems by auto
qed

lemma print_lines_overflow:
  assumes "length buf = 150"
  shows "(print_lines buf bs = None) = (50 \<le> length bs)"
proof (cases "50 \<le> length bs")
  case True
  then have "print_line buf 0 (take 50 bs) = None"
    using print_line_room [OF assms, of 0 "take 50 bs"] by simp
  then show ?thesis
    using True by (subst print_lines.simps) auto
next
  case False
  then have "print_line buf 0 (take 50 bs) \<noteq> None"
    using print_line_room [OF assms, of 0 "take 50 bs"] by simp
  then obtain buf' where "print_line buf 0 (take 50 bs) = Some buf'"
    by auto
  then show ?thesis
    using False by (subst print_lines.simps) (simp add: print_lines.simps [of _ "[]"])
qed

end
