(* ===== verification/Verifier_Spec.thy ===== *)
theory Verifier_Spec
  imports Verifier Attester_Spec
begin

text \<open>
  What each step of the verifier guarantees when it succeeds, and the three entry points composed
  from them: the keys after message 0, the contents of message 1, and the checks behind a
  successful message 2. Message 0 leaves the flag for valid evidence as it was.
\<close>

section \<open>Keys\<close>

lemma generate_ecdh_keypair_v_spec:
  assumes gp: "gp_tee C env"
    and len: "length (x_raw (ecdh_verifier_public_key (msg1_v ctx))) = 32"
      "length (y_raw (ecdh_verifier_public_key (msg1_v ctx))) = 32"
  shows "wp (generate_ecdh_keypair_v ctx) env tr True (\<lambda>(res, ctx') tr'. res = TEE_SUCCESS \<longrightarrow>
    keeps tr tr' \<and> ecdh_local_keypair_handle_v ctx' \<in> live_objs tr'
      \<and> fresh_key C (obj_val tr' (ecdh_local_keypair_handle_v ctx')) (ecdh_verifier_public_key (msg1_v ctx'))
      \<and> ecdsa_verifier_public_key (msg1_v ctx') = ecdsa_verifier_public_key (msg1_v ctx)
      \<and> ecdh_signature (msg1_v ctx') = ecdh_signature (msg1_v ctx) \<and> mac1 (msg1_v ctx') = mac1 (msg1_v ctx)
      \<and> ecdsa_attester_public_key_handle ctx' = ecdsa_attester_public_key_handle ctx
      \<and> ecdsa_local_keypair_handle ctx' = ecdsa_local_keypair_handle ctx
      \<and> secret ctx' = secret ctx \<and> secret_size ctx' = secret_size ctx)"
  unfolding generate_ecdh_keypair_v_def Let_def get_buffer_attribute_def fresh_key_def
  by (auto intro!: gp_callI [OF gp] simp: wp_simps gp_simps keeps_def splice_0 len)

text \<open>The part of the context that the derivations leave alone.\<close>

definition verifier_frame :: "ra_context_verifier \<Rightarrow> ra_context_verifier \<Rightarrow> bool" where
  "verifier_frame ctx ctx' \<longleftrightarrow> msg0_v ctx' = msg0_v ctx \<and> msg1_v ctx' = msg1_v ctx
     \<and> ecdh_local_keypair_handle_v ctx' = ecdh_local_keypair_handle_v ctx
     \<and> ecdsa_local_keypair_handle ctx' = ecdsa_local_keypair_handle ctx
     \<and> ecdsa_attester_public_key_handle ctx' = ecdsa_attester_public_key_handle ctx
     \<and> secret ctx' = secret ctx \<and> secret_size ctx' = secret_size ctx"

lemma populate_attester_key_spec:
  assumes gp: "gp_tee C env"
  shows "wp (populate_attester_key ctx) env tr True (\<lambda>(res, ctx') tr'. res = TEE_SUCCESS \<longrightarrow>
    keeps tr tr' \<and> verifier_frame ctx ctx'
    \<and> ecdh_attester_public_key_x_attr ctx' = x_size (msg0_v ctx)
    \<and> ecdh_attester_public_key_y_attr ctx' = y_size (msg0_v ctx))"
  unfolding populate_attester_key_def Let_def verifier_frame_def
  by (auto intro!: gp_callI [OF gp] simp: wp_simps gp_simps keeps_def)

lemma derive_shared_key_v_spec:
  assumes gp: "gp_tee C env"
    and l: "ecdh_local_keypair_handle_v ctx \<in> live_objs tr"
  shows "wp (derive_shared_key_v p ctx) env tr True (\<lambda>(res, ctx') tr'. res = TEE_SUCCESS \<longrightarrow>
    keeps tr tr' \<and> verifier_frame ctx ctx' \<and> (let h = ecdh_shared_key_derivation_key_v ctx' in h \<in> live_objs tr' \<and>
      secret_value C tr' h = kdk C (ecdh C (priv_of (obj_val tr (ecdh_local_keypair_handle_v ctx)))
        (take (ecdh_attester_public_key_x_attr ctx) (x_raw (msg0_v ctx)))
        (take (ecdh_attester_public_key_y_attr ctx) (y_raw (msg0_v ctx))))))"
  using l
  unfolding derive_shared_key_v_def Let_def verifier_frame_def get_buffer_attribute_def derive_out_def
  by (auto intro!: gp_callI [OF gp] simp: wp_simps gp_simps keeps_def splice_0 kdk_def)

lemma derive_shared_mac_key_v_spec:
  assumes gp: "gp_tee C env"
    and l: "ecdh_shared_key_derivation_key_v ctx \<in> live_objs tr"
  shows "wp (derive_shared_mac_key_v p ctx dat old) env tr True (\<lambda>(res, k) tr'. res = TEE_SUCCESS \<longrightarrow>
    keeps tr tr' \<and> k \<in> live_objs tr' \<and> k \<notin> live_objs tr \<and>
    secret_value C tr' k = cmac C (secret_value C tr (ecdh_shared_key_derivation_key_v ctx)) dat)"
  using l
  unfolding derive_shared_mac_key_v_def Let_def get_buffer_attribute_def
  by (auto intro!: gp_callI [OF gp] simp: wp_simps gp_simps keeps_def splice_0)

section \<open>Message 0\<close>

text \<open>The verifier's view of the shared secret, and the keys it derives from it.\<close>

definition attester_secret :: "crypto \<Rightarrow> trace \<Rightarrow> ra_context_verifier \<Rightarrow> bytes" where
  "attester_secret C tr ctx =
     ecdh C (priv_of (obj_val tr (ecdh_local_keypair_handle_v ctx)))
       (take (x_size (msg0_v ctx)) (x_raw (msg0_v ctx))) (take (y_size (msg0_v ctx)) (y_raw (msg0_v ctx)))"

definition has_kdk_v :: "crypto \<Rightarrow> trace \<Rightarrow> ra_context_verifier \<Rightarrow> bool" where
  "has_kdk_v C tr ctx \<longleftrightarrow> ecdh_local_keypair_handle_v ctx \<in> live_objs tr
     \<and> fresh_key C (obj_val tr (ecdh_local_keypair_handle_v ctx)) (ecdh_verifier_public_key (msg1_v ctx))
     \<and> ecdh_shared_key_derivation_key_v ctx \<in> live_objs tr
     \<and> secret_value C tr (ecdh_shared_key_derivation_key_v ctx) = kdk C (attester_secret C tr ctx)"

definition has_mac_key_v :: "crypto \<Rightarrow> trace \<Rightarrow> ra_context_verifier \<Rightarrow> bool" where
  "has_mac_key_v C tr ctx \<longleftrightarrow> has_kdk_v C tr ctx \<and> ecdh_shared_mac_key_v ctx \<in> live_objs tr
     \<and> secret_value C tr (ecdh_shared_mac_key_v ctx) = label_key C RA_SHARED_MAC_DATA (attester_secret C tr ctx)"

definition has_keys_v :: "crypto \<Rightarrow> trace \<Rightarrow> ra_context_verifier \<Rightarrow> bool" where
  "has_keys_v C tr ctx \<longleftrightarrow> has_mac_key_v C tr ctx \<and> ecdh_shared_session_key_v ctx \<in> live_objs tr
     \<and> secret_value C tr (ecdh_shared_session_key_v ctx) = label_key C RA_SHARED_SESSION_DATA (attester_secret C tr ctx)"

lemmas stage_v_defs = has_kdk_v_def has_mac_key_v_def has_keys_v_def attester_secret_def

lemma stage_mac_key_v:
  assumes "gp_tee C env" "has_kdk_v C tr ctx"
  shows "wp (derive_shared_mac_key_v p ctx RA_SHARED_MAC_DATA old) env tr True (\<lambda>(res, k) tr'. res = TEE_SUCCESS \<longrightarrow>
    keeps tr tr' \<and> has_mac_key_v C tr' (ctx\<lparr>ecdh_shared_mac_key_v := k\<rparr>))"
  by (rule wp_mono [OF derive_shared_mac_key_v_spec [OF assms(1)]])
    (use assms(2) in \<open>auto simp: stage_v_defs keeps_def label_key_def\<close>)

lemma stage_session_key_v:
  assumes "gp_tee C env" "has_mac_key_v C tr ctx"
  shows "wp (derive_shared_mac_key_v p ctx RA_SHARED_SESSION_DATA old) env tr True (\<lambda>(res, k) tr'. res = TEE_SUCCESS \<longrightarrow>
    keeps tr tr' \<and> has_keys_v C tr' (ctx\<lparr>ecdh_shared_session_key_v := k\<rparr>))"
  by (rule wp_mono [OF derive_shared_mac_key_v_spec [OF assms(1)]])
    (use assms(2) in \<open>auto simp: stage_v_defs keeps_def label_key_def\<close>)

text \<open>The state of the context between sessions: the arrays of message 1 have their sizes.\<close>

definition wf_ctx_v :: "ra_params \<Rightarrow> ra_context_verifier \<Rightarrow> bool" where
  "wf_ctx_v p ctx \<longleftrightarrow> length (x_raw (ecdh_verifier_public_key (msg1_v ctx))) = 32
     \<and> length (y_raw (ecdh_verifier_public_key (msg1_v ctx))) = 32
     \<and> length (ecdh_signature (msg1_v ctx)) = RA_SIGNATURE_SIZE p \<and> length (mac1 (msg1_v ctx)) = 16"

definition msg0_frame :: "ra_context_verifier \<Rightarrow> ra_context_verifier \<Rightarrow> bool" where
  "msg0_frame ctx ctx' \<longleftrightarrow>
     ecdsa_verifier_public_key (msg1_v ctx') = ecdsa_verifier_public_key (msg1_v ctx)
     \<and> ecdh_signature (msg1_v ctx') = ecdh_signature (msg1_v ctx) \<and> mac1 (msg1_v ctx') = mac1 (msg1_v ctx)
     \<and> ecdsa_attester_public_key_handle ctx' = ecdsa_attester_public_key_handle ctx
     \<and> ecdsa_local_keypair_handle ctx' = ecdsa_local_keypair_handle ctx
     \<and> secret ctx' = secret ctx \<and> secret_size ctx' = secret_size ctx"

lemma handle_msg0_spec:
  assumes gp: "gp_tee C env" and wf: "wf_ctx_v p ctx"
  shows "wp (handle_msg0 p ctx buffer) env tr True (\<lambda>(res, ctx') tr'. res = TEE_SUCCESS \<longrightarrow>
    keeps tr tr' \<and> has_keys_v C tr' ctx' \<and> msg0_frame ctx ctx'
    \<and> sizeof_msg0 (sizeof_size_t p) \<le> length buffer \<and> msg0_v ctx' = dec_point (sizeof_size_t p) buffer)"
proof (cases "length buffer < sizeof_msg0 (sizeof_size_t p)")
  case True
  then show ?thesis
    unfolding handle_msg0_def
    by (intro wp_bindI [OF generate_ecdh_keypair_v_spec [OF gp]])
      (use wf in \<open>auto simp: wp_simps store_msg0_def wf_ctx_v_def\<close>)
next
  case False
  then show ?thesis
    unfolding handle_msg0_def store_msg0_def Let_def
    apply (simp only: if_False prod.case simp_thms)
    apply (rule wp_stepI [OF generate_ecdh_keypair_v_spec [OF gp]])
       apply (use wf in \<open>simp_all add: wf_ctx_v_def\<close>)
    apply (rule wp_stepI [OF populate_attester_key_spec [OF gp]])
     apply (rule wp_stepI [OF derive_shared_key_v_spec [OF gp]])
       apply (simp add: verifier_frame_def keeps_def)
      apply (rule wp_stepI [OF stage_mac_key_v [OF gp]])
        apply (simp add: stage_v_defs verifier_frame_def Let_def keeps_def)
       apply (rule wp_stepI [OF stage_session_key_v [OF gp]])
         apply blast
        apply (simp_all add: wp_return)
    apply (auto simp: verifier_frame_def msg0_frame_def keeps_def)
    done
qed

section \<open>Message 1\<close>

lemma append_ecdh_public_keys_signature_spec:
  assumes gp: "gp_tee C env"
    and len: "length (ecdh_signature (msg1_v ctx)) = RA_SIGNATURE_SIZE p"
  shows "wp (append_ecdh_public_keys_signature p ctx) env tr True (\<lambda>(res, ctx') tr'. res = TEE_SUCCESS \<longrightarrow>
    keeps tr tr' \<and> ctx' = ctx\<lparr>msg1_v := (msg1_v ctx)\<lparr>ecdh_signature :=
      ecdsa_sign C (priv_of (obj_val tr (ecdsa_local_keypair_handle ctx)))
        (sha256 C (point_bytes (ecdh_verifier_public_key (msg1_v ctx)) @ point_bytes (msg0_v ctx)))\<rparr>\<rparr>
    \<and> length (ecdh_signature (msg1_v ctx')) = RA_SIGNATURE_SIZE p)"
  unfolding append_ecdh_public_keys_signature_def Let_def free_op_def
  by (auto intro!: gp_callI [OF gp] simp: wp_simps gp_simps point_bytes_def keeps_def len)

lemma append_mac_spec:
  assumes gp: "gp_tee C env"
    and len: "length (mac1 (msg1_v ctx)) = 16"
  shows "wp (append_mac ctx) env tr True (\<lambda>(res, ctx') tr'. res = TEE_SUCCESS \<longrightarrow>
    keeps tr tr' \<and> ctx' = ctx\<lparr>msg1_v := (msg1_v ctx)\<lparr>mac1 :=
      cmac C (secret_value C tr (ecdh_shared_mac_key_v ctx))
        (point_bytes (ecdh_verifier_public_key (msg1_v ctx)) @ point_bytes (ecdsa_verifier_public_key (msg1_v ctx))
         @ ecdh_signature (msg1_v ctx))\<rparr>\<rparr>
    \<and> length (mac1 (msg1_v ctx')) = 16)"
  unfolding append_mac_def Let_def free_op_def
  by (auto intro!: gp_callI [OF gp] simp: wp_simps gp_simps point_bytes_def keeps_def len)

text \<open>Message 1 as the protocol defines it: the two public keys of the verifier, its signature over
  both session keys, and the MAC over the rest.\<close>

definition protocol_msg1 :: "crypto \<Rightarrow> trace \<Rightarrow> ra_context_verifier \<Rightarrow> msg1_t" where
  "protocol_msg1 C tr ctx =
     (let gv = ecdh_verifier_public_key (msg1_v ctx); kv = ecdsa_verifier_public_key (msg1_v ctx);
          sig = ecdsa_sign C (priv_of (obj_val tr (ecdsa_local_keypair_handle ctx)))
                  (sha256 C (point_bytes gv @ point_bytes (msg0_v ctx))) in
      \<lparr>ecdh_verifier_public_key = gv, ecdsa_verifier_public_key = kv, ecdh_signature = sig,
       mac1 = cmac C (secret_value C tr (ecdh_shared_mac_key_v ctx)) (point_bytes gv @ point_bytes kv @ sig)\<rparr>)"

lemma prepare_msg1_spec:
  assumes gp: "gp_tee C env" and wf: "wf_ctx_v p ctx"
    and live: "ecdh_shared_mac_key_v ctx \<in> live_objs tr"
  shows "wp (prepare_msg1 p ctx buffer n) env tr True (\<lambda>(res, ctx', buffer', n') tr'. res = TEE_SUCCESS \<longrightarrow>
    keeps tr tr' \<and> ctx' = ctx\<lparr>msg1_v := protocol_msg1 C tr ctx\<rparr>
    \<and> length (ecdh_signature (msg1_v ctx')) = RA_SIGNATURE_SIZE p \<and> length (mac1 (msg1_v ctx')) = 16
    \<and> buffer' = splice buffer 0 (enc_msg1 p (sizeof_size_t p) (msg1_v ctx'))
    \<and> n' = sizeof_msg1 p (sizeof_size_t p) \<and> n' \<le> length buffer)"
proof (cases "length buffer < sizeof_msg1 p (sizeof_size_t p)")
  case True
  then show ?thesis by (simp add: prepare_msg1_def wp_simps)
next
  case False
  then show ?thesis
    unfolding prepare_msg1_def Let_def
    apply (simp only: if_False)
    apply (rule wp_stepI [OF append_ecdh_public_keys_signature_spec [OF gp]])
      apply (use wf in \<open>simp add: wf_ctx_v_def\<close>)
     apply (rule wp_stepI [OF append_mac_spec [OF gp]])
       apply (use wf in \<open>simp add: wf_ctx_v_def\<close>)
      apply (use live in \<open>auto simp: wp_simps protocol_msg1_def Let_def keeps_def\<close>)
    done
qed

section \<open>Message 3\<close>

lemma msg3_header_image:
  assumes "length m = 48 + w" "length i = 32" "length t = 16"
  shows "splice (splice (splice m 0 i) 32 t) 48 (le_bytes w n) =
    enc_msg3 w \<lparr>iv = i, tag = t, encrypted_content_size = n\<rparr>"
  using assms by (simp add: splice_def enc_msg3_def)

lemma take_iv: "length i = 32 \<Longrightarrow> take 32 (splice m 0 i) = i"
  "length i = 32 \<Longrightarrow> take 32 (enc_msg3 w \<lparr>iv = i, tag = t, encrypted_content_size = n\<rparr>) = i"
  by (simp_all add: splice_0 enc_msg3_def)

text \<open>A sealed message 3: the header with a random vector, then the ciphertext of the content.\<close>

definition sealed_msg3 :: "crypto \<Rightarrow> nat \<Rightarrow> bytes \<Rightarrow> bytes \<Rightarrow> bytes \<Rightarrow> bytes \<Rightarrow> bytes \<Rightarrow> bool" where
  "sealed_msg3 C w key i content buffer buffer' \<longleftrightarrow>
     (let ct = fst (gcm_seal C key i content); t = snd (gcm_seal C key i content) in
      length i = 32 \<and> sizeof_msg3 w + length ct \<le> length buffer \<and>
      buffer' = splice (splice buffer (sizeof_msg3 w) ct) 0
        (enc_msg3 w \<lparr>iv = i, tag = t, encrypted_content_size = length ct\<rparr>))"

lemma length_enc_msg3: "length i = 32 \<Longrightarrow> length t = 16 \<Longrightarrow>
    length (enc_msg3 w \<lparr>iv = i, tag = t, encrypted_content_size = n\<rparr>) = sizeof_msg3 w"
  by (simp add: enc_msg3_def sizeof_msg3_def)

lemma prepare_msg3_spec:
  assumes gp: "gp_tee C env"
    and live: "ecdh_shared_session_key_v ctx \<in> live_objs tr"
    and tags: "\<And>k i d. length (snd (gcm_seal C k i d)) = 16"
  shows "wp (prepare_msg3 p ctx buffer dat n) env tr True (\<lambda>(res, ctx', buffer') tr'. res = TEE_SUCCESS \<longrightarrow>
    sealed_msg3 C (sizeof_size_t p) (secret_value C tr (ecdh_shared_session_key_v ctx))
      (take 32 (msg3_v ctx')) (take n dat) buffer buffer')"
  unfolding prepare_msg3_def allocate_msg3_v_def encrypt_msg3_def free_msg3_def free_op_def Let_def
  using live
  by (auto intro!: gp_callI [OF gp] simp: wp_simps gp_simps keeps_def sealed_msg3_def Let_def tags
      take_iv msg3_header_image length_enc_msg3 sizeof_msg3_def)

section \<open>Message 2\<close>

lemma verify_mac_msg2_spec:
  assumes gp: "gp_tee C env"
  shows "wp (verify_mac_msg2 ctx) env tr True (\<lambda>res tr'. res = TEE_SUCCESS \<longrightarrow> keeps tr tr' \<and>
    mac2 (msg2_v ctx) = cmac C (secret_value C tr (ecdh_shared_mac_key_v ctx))
      (point_bytes (ecdh_local_public_key (msg2_v ctx)) @ quote (msg2_v ctx)))"
  unfolding verify_mac_msg2_def Let_def free_op_def
  by (auto intro!: gp_callI [OF gp] simp: wp_simps gp_simps point_bytes_def keeps_def)

lemma verify_public_key_msg2_matches_msg0_spec:
  "wp (verify_public_key_msg2_matches_msg0 ctx) env tr True (\<lambda>res tr'. res = TEE_SUCCESS \<longrightarrow> tr' = tr \<and>
    take (x_size (msg0_v ctx)) (x_raw (ecdh_local_public_key (msg2_v ctx))) = take (x_size (msg0_v ctx)) (x_raw (msg0_v ctx)) \<and>
    take (y_size (msg0_v ctx)) (y_raw (ecdh_local_public_key (msg2_v ctx))) = take (y_size (msg0_v ctx)) (y_raw (msg0_v ctx)))"
  unfolding verify_public_key_msg2_matches_msg0_def Let_def by (simp add: wp_simps)

text \<open>The bytes that the attestation service signs.\<close>

definition quote_body :: "ra_params \<Rightarrow> bytes \<Rightarrow> bytes" where
  "quote_body p q = quote_anchor p q @ quote_version p q @ quote_claim_hash p q @ quote_attestation_key p q"

lemma verify_quote_signature_spec:
  assumes gp: "gp_tee C env"
  shows "wp (verify_quote_signature p ctx) env tr True (\<lambda>(res, ctx') tr'. res = TEE_SUCCESS \<longrightarrow>
    keeps tr tr' \<and> ctx' = ctx\<lparr>is_quote_valid := True\<rparr> \<and>
    ecdsa_ok C (key_attr C (obj_val tr (ecdsa_attester_public_key_handle ctx)) TEE_ATTR_ECC_PUBLIC_VALUE_X)
      (key_attr C (obj_val tr (ecdsa_attester_public_key_handle ctx)) TEE_ATTR_ECC_PUBLIC_VALUE_Y)
      (sha256 C (quote_body p (quote (msg2_v ctx)))) (quote_signature p (quote (msg2_v ctx))))"
  unfolding verify_quote_signature_def Let_def free_op_def quote_body_def
  by (auto intro!: gp_callI [OF gp] simp: wp_simps gp_simps keeps_def)

lemma verify_anchor_spec:
  assumes gp: "gp_tee C env"
  shows "wp (verify_anchor p ctx) env tr True (\<lambda>res tr'. res = TEE_SUCCESS \<longrightarrow> keeps tr tr' \<and>
    take (RA_ANCHOR_SIZE p) (quote_anchor p (quote (msg2_v ctx))) =
      sha256 C (point_bytes (msg0_v ctx) @ point_bytes (ecdh_verifier_public_key (msg1_v ctx))))"
  unfolding verify_anchor_def Let_def free_op_def
  by (auto intro!: gp_callI [OF gp] simp: wp_simps gp_simps point_bytes_def keeps_def)

text \<open>What the verifier knows after a successful \<open>handle_msg2\<close>.\<close>

definition evidence_ok :: "crypto \<Rightarrow> ra_params \<Rightarrow> trace \<Rightarrow> ra_context_verifier \<Rightarrow> bool" where
  "evidence_ok C p tr ctx \<longleftrightarrow>
     (let ga = msg0_v ctx; ga2 = ecdh_local_public_key (msg2_v ctx); q = quote (msg2_v ctx);
          k = obj_val tr (ecdsa_attester_public_key_handle ctx) in
      mac2 (msg2_v ctx) = cmac C (secret_value C tr (ecdh_shared_mac_key_v ctx)) (point_bytes ga2 @ q)
      \<and> take (x_size ga) (x_raw ga2) = take (x_size ga) (x_raw ga)
      \<and> take (y_size ga) (y_raw ga2) = take (y_size ga) (y_raw ga)
      \<and> ecdsa_ok C (key_attr C k TEE_ATTR_ECC_PUBLIC_VALUE_X) (key_attr C k TEE_ATTR_ECC_PUBLIC_VALUE_Y)
          (sha256 C (quote_body p q)) (quote_signature p q)
      \<and> take (RA_ANCHOR_SIZE p) (quote_anchor p q) =
          sha256 C (point_bytes ga @ point_bytes (ecdh_verifier_public_key (msg1_v ctx))))"

lemma handle_msg2_spec:
  assumes gp: "gp_tee C env"
    and live: "ecdsa_attester_public_key_handle ctx \<in> live_objs tr" "ecdh_shared_mac_key_v ctx \<in> live_objs tr"
  shows "wp (handle_msg2 p ctx buffer) env tr True (\<lambda>(res, ctx') tr'. res = TEE_SUCCESS \<longrightarrow>
    keeps tr tr' \<and> sizeof_msg2 p (sizeof_size_t p) \<le> length buffer
    \<and> ctx' = ctx\<lparr>is_quote_valid := True, msg2_v := dec_msg2 p (sizeof_size_t p) buffer\<rparr>
    \<and> evidence_ok C p tr' ctx')"
proof -
  let ?c = "ctx\<lparr>is_quote_valid := False, msg2_v := dec_msg2 p (sizeof_size_t p) buffer\<rparr>"
  show ?thesis
  proof (cases "length buffer < sizeof_msg2 p (sizeof_size_t p)")
    case True
    then show ?thesis
      by (simp add: handle_msg2_def store_msg2_def wp_simps)
  next
    case False
    have unf: "handle_msg2 p ctx buffer =
      bind (verify_mac_msg2 ?c) (\<lambda>res. if res \<noteq> TEE_SUCCESS then return (res, ?c) else
      bind (verify_public_key_msg2_matches_msg0 ?c) (\<lambda>res. if res \<noteq> TEE_SUCCESS then return (res, ?c) else
      bind (verify_quote_signature p ?c) (\<lambda>(res, ctx). if res \<noteq> TEE_SUCCESS then return (res, ctx) else
      bind (verify_anchor p ctx) (\<lambda>res. if res \<noteq> TEE_SUCCESS then return (res, ctx) else
      return (TEE_SUCCESS, ctx)))))"
      using False by (simp add: handle_msg2_def store_msg2_def Let_def)
    show ?thesis
      unfolding unf
      apply (rule wp_checkI [OF verify_mac_msg2_spec [OF gp]])
       apply (rule wp_checkI [OF verify_public_key_msg2_matches_msg0_spec])
        apply (rule wp_stepI [OF verify_quote_signature_spec [OF gp]])
         apply (rule wp_checkI [OF verify_anchor_spec [OF gp]])
      using False live by (auto simp: wp_return evidence_ok_def Let_def keeps_def)
  qed
qed

section \<open>Sessions\<close>

text \<open>The signing key of the session, and the attestation key that quotes are checked with.\<close>

definition session_open :: "crypto \<Rightarrow> trace \<Rightarrow> ra_context_verifier \<Rightarrow> bool" where
  "session_open C tr ctx \<longleftrightarrow> ecdsa_local_keypair_handle ctx \<in> live_objs tr
     \<and> fresh_key C (obj_val tr (ecdsa_local_keypair_handle ctx)) (ecdsa_verifier_public_key (msg1_v ctx))"

definition endorsed_session :: "crypto \<Rightarrow> trace \<Rightarrow> ra_context_verifier \<Rightarrow> bool" where
  "endorsed_session C tr ctx \<longleftrightarrow> ecdsa_attester_public_key_handle ctx \<in> live_objs tr
     \<and> key_attr C (obj_val tr (ecdsa_attester_public_key_handle ctx)) TEE_ATTR_ECC_PUBLIC_VALUE_X = RA_IMX_TEST_PUBLIC_KEY_X
     \<and> key_attr C (obj_val tr (ecdsa_attester_public_key_handle ctx)) TEE_ATTR_ECC_PUBLIC_VALUE_Y = RA_IMX_TEST_PUBLIC_KEY_Y"

lemma import_attester_attestation_key_spec:
  assumes gp: "gp_tee C env"
  shows "wp (import_attester_attestation_key ctx) env tr True (\<lambda>(res, ctx') tr'. res = TEE_SUCCESS \<longrightarrow>
    keeps tr tr' \<and> endorsed_session C tr' ctx' \<and> msg1_v ctx' = msg1_v ctx)"
  unfolding import_attester_attestation_key_def Let_def endorsed_session_def
  by (auto intro!: gp_callI [OF gp] simp: wp_simps gp_simps keeps_def)

lemma generate_ecdsa_keypair_spec:
  assumes gp: "gp_tee C env"
    and len: "length (x_raw (ecdsa_verifier_public_key (msg1_v ctx))) = 32"
      "length (y_raw (ecdsa_verifier_public_key (msg1_v ctx))) = 32"
  shows "wp (generate_ecdsa_keypair ctx) env tr True (\<lambda>(res, ctx') tr'. res = TEE_SUCCESS \<longrightarrow>
    keeps tr tr' \<and> session_open C tr' ctx'
    \<and> ecdsa_attester_public_key_handle ctx' = ecdsa_attester_public_key_handle ctx
    \<and> ecdh_verifier_public_key (msg1_v ctx') = ecdh_verifier_public_key (msg1_v ctx)
    \<and> ecdh_signature (msg1_v ctx') = ecdh_signature (msg1_v ctx) \<and> mac1 (msg1_v ctx') = mac1 (msg1_v ctx))"
  unfolding generate_ecdsa_keypair_def Let_def get_buffer_attribute_def session_open_def fresh_key_def
  by (auto intro!: gp_callI [OF gp] simp: wp_simps gp_simps keeps_def splice_0 len)

text \<open>What \<open>prepare_msg3\<close> leaves alone.\<close>

definition evidence_frame :: "ra_context_verifier \<Rightarrow> ra_context_verifier \<Rightarrow> bool" where
  "evidence_frame ctx ctx' \<longleftrightarrow> verifier_frame ctx ctx' \<and> msg2_v ctx' = msg2_v ctx
     \<and> is_quote_valid ctx' = is_quote_valid ctx
     \<and> ecdh_shared_key_derivation_key_v ctx' = ecdh_shared_key_derivation_key_v ctx
     \<and> ecdh_shared_mac_key_v ctx' = ecdh_shared_mac_key_v ctx
     \<and> ecdh_shared_session_key_v ctx' = ecdh_shared_session_key_v ctx"

lemma prepare_msg3_frame:
  assumes gp: "gp_tee C env"
  shows "wp (prepare_msg3 p ctx buffer dat n) env tr True (\<lambda>(res, ctx', buffer') tr'.
    keeps tr tr' \<and> evidence_frame ctx ctx' \<and> length buffer' = length buffer)"
  unfolding prepare_msg3_def allocate_msg3_v_def encrypt_msg3_def free_msg3_def free_op_def Let_def
    evidence_frame_def verifier_frame_def
  by (auto intro!: gp_callI [OF gp] simp: wp_simps gp_simps keeps_def)

section \<open>The flag of the application\<close>

lemma wp_callI: "(\<And>a t. wp (k a) env t True Q) \<Longrightarrow> wp (call c k) env tr True Q"
  by (auto simp: wp_def call_def split: option.splits)

lemma wp_derive_out: "wp (derive_out k op s r) env tr True (\<lambda>x _. x = r)"
  unfolding derive_out_def by (intro wp_callI) (simp add: wp_return)

text \<open>Computations that leave the flag for valid evidence as it is.\<close>

definition flag_kept :: "bool \<Rightarrow> (TEE_Result \<times> ra_context_verifier) tee \<Rightarrow> bool" where
  "flag_kept b m \<longleftrightarrow> (\<forall>env tr. wp m env tr True (\<lambda>(res, ctx) _. is_quote_valid ctx = b))"

lemma flag_kept_intros:
  "is_quote_valid ctx = b \<Longrightarrow> flag_kept b (return (res, ctx))"
  "(\<And>a. flag_kept b (k a)) \<Longrightarrow> flag_kept b (call c k)"
  "(\<And>x. flag_kept b (f x)) \<Longrightarrow> flag_kept b (rd buf n f)"
  "(\<And>x. flag_kept b (f x)) \<Longrightarrow> flag_kept b (wr buf n d f)"
  "flag_kept b m \<Longrightarrow> flag_kept b m' \<Longrightarrow> flag_kept b (if q then m else m')"
  "is_quote_valid ctx = b \<Longrightarrow> flag_kept b (derive_out h op s (res, ctx))"
  by (auto simp: flag_kept_def wp_return wp_rd wp_wr intro!: wp_callI wp_mono [OF wp_derive_out])

lemma flag_kept_bind:
  "flag_kept b m \<Longrightarrow> (\<And>res ctx. is_quote_valid ctx = b \<Longrightarrow> flag_kept b (k res ctx)) \<Longrightarrow> flag_kept b (bind m (\<lambda>(res, ctx). k res ctx))"
  unfolding flag_kept_def by (auto intro!: wp_bindI [of m _ _ _ "\<lambda>(res, ctx) _. is_quote_valid ctx = b"])

lemma flag_kept_any: "(\<And>res h. flag_kept b (k res h)) \<Longrightarrow> flag_kept b (bind m (\<lambda>(res, h). k res h))"
  unfolding flag_kept_def by (auto intro!: wp_bindI [OF wp_TrueI [of m _ _ "\<lambda>_ _. True"]])

lemma handle_msg0_flag: "flag_kept (is_quote_valid ctx) (handle_msg0 p ctx buffer)"
proof -
  have g: "is_quote_valid c = b \<Longrightarrow> flag_kept b (generate_ecdh_keypair_v c)" for c b
    unfolding generate_ecdh_keypair_v_def get_buffer_attribute_def Let_def
    by (intro flag_kept_intros) simp_all
  have q: "is_quote_valid c = b \<Longrightarrow> flag_kept b (populate_attester_key c)" for c b
    unfolding populate_attester_key_def Let_def by (intro flag_kept_intros) simp_all
  have d: "is_quote_valid c = b \<Longrightarrow> flag_kept b (derive_shared_key_v p c)" for c b
    unfolding derive_shared_key_v_def get_buffer_attribute_def Let_def by (intro flag_kept_intros) simp_all
  show ?thesis
    unfolding handle_msg0_def store_msg0_def Let_def if_distrib [of "case_prod _"] prod.case
    by (intro flag_kept_bind flag_kept_any flag_kept_intros g q d) simp_all
qed

end
