(* ===== verification/Server_Spec.thy ===== *)
theory Server_Spec
  imports Verifier_Host Verifier_Spec
begin

text \<open>
  The verifier as a whole: the commands of the trusted application, driven by its host over a
  socket. The main result is about \<open>handle_connection\<close>: what the host writes first is message 1 of the
  session, and the second message leaves the host only after the application accepted the evidence.
\<close>

section \<open>Computations that stay inside the application\<close>

text \<open>The host calls of a trace, each with the trace before it.\<close>

primrec host_events :: "trace \<Rightarrow> ((tee_call \<times> tee_answer) \<times> trace) list" where
  "host_events [] = []"
| "host_events (e # tr) = (case fst e of Host _ \<Rightarrow> (e, tr) # host_events tr | _ \<Rightarrow> host_events tr)"

definition is_host :: "tee_call \<Rightarrow> bool" where
  "is_host c = (case c of Host _ \<Rightarrow> True | _ \<Rightarrow> False)"

interpretation host_observer: trace_observer host_events is_host
  by unfold_locales (simp add: is_host_def split: tee_call.splits)

abbreviation quiet :: "'a tee \<Rightarrow> bool" where
  "quiet \<equiv> silent host_events"

lemma quiet_handle_msg0: "quiet (handle_msg0 p ctx buffer)"
  unfolding handle_msg0_def generate_ecdh_keypair_v_def populate_attester_key_def derive_shared_key_v_def
    derive_shared_mac_key_v_def store_msg0_def get_buffer_attribute_def derive_out_def Let_def
  by (intro host_observer.silent_intros) (simp_all add: is_host_def)

lemma quiet_prepare_msg1: "quiet (prepare_msg1 p ctx buffer n)"
  unfolding prepare_msg1_def append_ecdh_public_keys_signature_def append_mac_def free_op_def Let_def
  by (intro host_observer.silent_intros) (simp_all add: is_host_def)

lemma quiet_handle_msg2: "quiet (handle_msg2 p ctx buffer)"
  unfolding handle_msg2_def verify_mac_msg2_def verify_public_key_msg2_matches_msg0_def
    verify_quote_signature_def verify_anchor_def store_msg2_def free_op_def Let_def
  by (intro host_observer.silent_intros) (simp_all add: is_host_def)

lemma quiet_prepare_msg3: "quiet (prepare_msg3 p ctx buffer dat n)"
  unfolding prepare_msg3_def allocate_msg3_v_def encrypt_msg3_def free_msg3_def free_op_def Let_def
  by (intro host_observer.silent_intros) (simp_all add: is_host_def)

lemma quiet_configure: "quiet (TA_ConfigureCustomSecret ctx s)"
  unfolding TA_ConfigureCustomSecret_def Let_def by (intro host_observer.silent_intros) (simp_all add: is_host_def)

lemma quiet_command: "quiet (TA_InvokeCommandEntryPoint p ctx cmd types params)"
  unfolding TA_InvokeCommandEntryPoint_def
  by (intro host_observer.silent_intros quiet_configure quiet_handle_msg0 quiet_prepare_msg1 quiet_handle_msg2 quiet_prepare_msg3)

text \<open>The parameter types that each command expects.\<close>

definition command_types :: "nat \<Rightarrow> u32 option" where
  "command_types cmd =
     (if cmd = VERIFIER_COMMAND_BOOTSTRAP_SECRET \<or> cmd = VERIFIER_COMMAND_HANDLE_MSG_0 then
        Some (TEE_PARAM_TYPES TEE_PARAM_TYPE_MEMREF_INPUT TEE_PARAM_TYPE_NONE TEE_PARAM_TYPE_NONE TEE_PARAM_TYPE_NONE)
      else if cmd = VERIFIER_COMMAND_PREPARE_MSG_1 then
        Some (TEE_PARAM_TYPES TEE_PARAM_TYPE_MEMREF_OUTPUT TEE_PARAM_TYPE_VALUE_OUTPUT TEE_PARAM_TYPE_NONE TEE_PARAM_TYPE_NONE)
      else if cmd = VERIFIER_COMMAND_HANDLE_MSG_2 then
        Some (TEE_PARAM_TYPES TEE_PARAM_TYPE_MEMREF_INPUT TEE_PARAM_TYPE_VALUE_OUTPUT TEE_PARAM_TYPE_MEMREF_OUTPUT TEE_PARAM_TYPE_NONE)
      else if cmd = VERIFIER_COMMAND_PREPARE_MSG_3 then
        Some (TEE_PARAM_TYPES TEE_PARAM_TYPE_MEMREF_OUTPUT TEE_PARAM_TYPE_MEMREF_OUTPUT TEE_PARAM_TYPE_NONE TEE_PARAM_TYPE_NONE)
      else None)"

section \<open>The session\<close>

lemma TA_OpenSessionEntryPoint_spec:
  assumes gp: "gp_tee C env" and wf: "wf_ctx_v p ctx"
    and len: "length (x_raw (ecdsa_verifier_public_key (msg1_v ctx))) = 32"
      "length (y_raw (ecdsa_verifier_public_key (msg1_v ctx))) = 32"
  shows "wp (TA_OpenSessionEntryPoint ctx types) env tr True (\<lambda>(res, ctx') tr'. res = TEE_SUCCESS \<longrightarrow>
    endorsed_session C tr' ctx' \<and> session_open C tr' ctx' \<and> wf_ctx_v p ctx')"
proof (cases "types = TEE_PARAM_TYPES TEE_PARAM_TYPE_NONE TEE_PARAM_TYPE_NONE TEE_PARAM_TYPE_NONE TEE_PARAM_TYPE_NONE")
  case True
  show ?thesis
    unfolding TA_OpenSessionEntryPoint_def
    using True apply simp
    apply (rule wp_stepI [OF import_attester_attestation_key_spec [OF gp]])
     apply (rule wp_stepI [OF generate_ecdsa_keypair_spec [OF gp]])
        apply (use len wf in \<open>simp_all add: wp_return\<close>)
    apply (auto simp: endorsed_session_def wf_ctx_v_def keeps_def)
    done
next
  case False
  then show ?thesis by (simp add: TA_OpenSessionEntryPoint_def wp_simps)
qed

section \<open>Messages through the host\<close>

text \<open>The data written to sockets, in order.\<close>

primrec sock_writes :: "trace \<Rightarrow> bytes list" where
  "sock_writes [] = []"
| "sock_writes (e # tr) = sock_writes tr @ (case fst e of Host (sys_write _ d) \<Rightarrow> [d] | _ \<Rightarrow> [])"

text \<open>The same with the trace at the moment of each write.\<close>

primrec sock_sent :: "trace \<Rightarrow> (trace \<times> bytes) list" where
  "sock_sent [] = []"
| "sock_sent (e # tr) = sock_sent tr @ (case fst e of Host (sys_write _ d) \<Rightarrow> [(tr, d)] | _ \<Rightarrow> [])"

lemma sock_writes_sent: "sock_writes tr = map snd (sock_sent tr)"
  by (induction tr) (auto split: tee_call.splits host_call.splits)

lemma sock_sent_nil: "sock_sent tr = [] \<longleftrightarrow> sock_writes tr = []"
  by (simp add: sock_writes_sent)

lemma sock_sent_host:
  "sock_sent tr = concat (map (\<lambda>(e, t). case fst e of Host (sys_write _ d) \<Rightarrow> [(t, d)] | _ \<Rightarrow> []) (rev (host_events tr)))"
  by (induction tr) (auto split: tee_call.splits host_call.splits)

lemma sock_sent_cong: "host_events tr' = host_events tr \<Longrightarrow> sock_sent tr' = sock_sent tr"
  by (simp add: sock_sent_host)

lemma sock_writes_cong: "host_events tr' = host_events tr \<Longrightarrow> sock_writes tr' = sock_writes tr"
  by (simp add: sock_writes_sent sock_sent_host)

text \<open>The data read from sockets, in order.\<close>

primrec sock_received :: "trace \<Rightarrow> bytes list" where
  "sock_received [] = []"
| "sock_received (e # tr) = sock_received tr @ (case fst e of Host (sys_read _ _) \<Rightarrow> [ans_data (snd e)] | _ \<Rightarrow> [])"

lemma sock_received_host:
  "sock_received tr = concat (map (\<lambda>(e, t). case fst e of Host (sys_read _ _) \<Rightarrow> [ans_data (snd e)] | _ \<Rightarrow> []) (rev (host_events tr)))"
  by (induction tr) (auto split: tee_call.splits host_call.splits)

abbreviation same_socket :: "trace \<Rightarrow> trace \<Rightarrow> bool" where
  "same_socket tr tr' \<equiv> sock_sent tr' = sock_sent tr \<and> sock_received tr' = sock_received tr"

lemma same_socket_cong: "host_events tr' = host_events tr \<Longrightarrow> same_socket tr tr'"
  by (simp add: sock_sent_host sock_received_host)

text \<open>A command of the application, once the client library passed it on.\<close>

lemma wp_invoke:
  assumes gp: "gp_tee C env"
    and ta: "\<And>a. wp (TA_InvokeCommandEntryPoint p ta cmd types params) env ((Host (TEEC_InvokeCommand cmd), a) # tr) True
      (\<lambda>(res, x) tr'. res = TEE_SUCCESS \<longrightarrow> R x tr')"
  shows "wp (invoke_command p ta cmd types params) env tr True
    (\<lambda>(res, x) tr'. same_socket tr tr' \<and> (res = TEE_SUCCESS \<longrightarrow> R x tr'))"
  unfolding invoke_command_def
  apply (rule gp_callI [OF gp])
  apply (simp add: wp_simps)
  apply (intro conjI impI wp_mono [OF wp_silent [OF quiet_command ta]])
  apply (auto dest!: same_socket_cong [where tr = "(Host (TEEC_InvokeCommand cmd), a) # tr" for a, simplified])
  done

text \<open>The part of the trace that a connection relies on is the live objects, which host calls do not
  touch.\<close>

lemma keeps_host: "keeps tr ((Host c, a) # tr)"
  by (simp add: keeps_def obj_upd_def)

definition session_ok :: "crypto \<Rightarrow> ra_params \<Rightarrow> trace \<Rightarrow> ra_context_verifier \<Rightarrow> bool" where
  "session_ok C p tr ctx \<longleftrightarrow> endorsed_session C tr ctx \<and> session_open C tr ctx \<and> wf_ctx_v p ctx"

lemma session_ok_keeps: "session_ok C p tr ctx \<Longrightarrow> keeps tr tr' \<Longrightarrow> session_ok C p tr' ctx"
  by (auto simp: session_ok_def endorsed_session_def session_open_def keeps_def)

definition same_secret :: "ra_context_verifier \<Rightarrow> ra_context_verifier \<Rightarrow> bool" where
  "same_secret ctx ctx' \<longleftrightarrow> secret ctx' = secret ctx \<and> secret_size ctx' = secret_size ctx"

text \<open>A host function that issues one command and stops the process if it fails.\<close>

lemma wp_commandI:
  assumes gp: "gp_tee C env"
    and ta: "\<And>c a. wp (TA_InvokeCommandEntryPoint p ta cmd types params) env ((Host c, a) # tr) True
      (\<lambda>(res, ta', params') tr'. res = TEE_SUCCESS \<longrightarrow> R ta' params' tr')"
    and k: "\<And>ta' params' tr'. R ta' params' tr' \<Longrightarrow> same_socket tr tr' \<Longrightarrow> wp (k ta' params') env tr' True Q"
    and e: "\<And>tr'. same_socket tr tr' \<Longrightarrow> Q (Inl 1) tr'"
  shows "wp (bind (invoke_command p ta cmd types params)
      (\<lambda>(res, ta', params'). if res \<noteq> TEE_SUCCESS then return (Inl 1) else k ta' params')) env tr True Q"
proof -
  have t: "wp (TA_InvokeCommandEntryPoint p ta cmd types params) env ((Host c, a) # tr) True
      (\<lambda>(res, x) tr'. res = TEE_SUCCESS \<longrightarrow> R (fst x) (snd x) tr')" for c a
    by (rule wp_mono [OF ta]) auto
  show ?thesis
    by (rule wp_bindI [OF wp_invoke [OF gp t]]) (auto simp: wp_simps intro: k e)
qed

lemmas invoke_simps = TA_InvokeCommandEntryPoint_def verifier_command_defs wp_simps

lemma receive_msg0_spec:
  assumes gp: "gp_tee C env" and ok: "session_ok C p tr ta"
  shows "wp (receive_msg0 p ta buffer) env tr True (\<lambda>r tr'. same_socket tr tr' \<and>
    (case r of Inl _ \<Rightarrow> True | Inr ta' \<Rightarrow> session_ok C p tr' ta' \<and> has_keys_v C tr' ta' \<and> same_secret ta ta'))"
proof -
  have h0: "wp (handle_msg0 p ta buffer) env ((Host c, a) # tr) True (\<lambda>(res, ta') tr'. res = TEE_SUCCESS \<longrightarrow>
      session_ok C p tr' ta' \<and> has_keys_v C tr' ta' \<and> same_secret ta ta')" for c a
    by (rule wp_mono [OF handle_msg0_spec [OF gp]])
      (use ok in \<open>auto simp: session_ok_def endorsed_session_def session_open_def wf_ctx_v_def msg0_frame_def same_secret_def
        has_keys_v_def has_mac_key_v_def has_kdk_v_def fresh_key_def keeps_def obj_upd_def\<close>)
  show ?thesis
    unfolding receive_msg0_def
    by (rule wp_commandI [OF gp, where R = "\<lambda>ta' params' tr'. session_ok C p tr' ta' \<and> has_keys_v C tr' ta' \<and> same_secret ta ta'"])
      (auto simp: invoke_simps intro: wp_mono [OF h0])
qed

lemma length_enc_msg1_arrays:
  assumes "length (x_raw (ecdh_verifier_public_key m)) = 32" "length (y_raw (ecdh_verifier_public_key m)) = 32"
    "length (x_raw (ecdsa_verifier_public_key m)) = 32" "length (y_raw (ecdsa_verifier_public_key m)) = 32"
    "length (ecdh_signature m) = RA_SIGNATURE_SIZE p" "length (mac1 m) = 16"
  shows "length (enc_msg1 p w m) = sizeof_msg1 p w"
  using assms by (simp add: enc_msg1_def enc_point_def sizeof_msg1_def body_msg1_def sizeof_msg0_def)

text \<open>Message 1 of the session, as the host writes it: its image, whose size passes through a 32-bit value of
  the command.\<close>

definition greeting :: "crypto \<Rightarrow> ra_params \<Rightarrow> trace \<Rightarrow> ra_context_verifier \<Rightarrow> bytes \<Rightarrow> bool" where
  "greeting C p tr ctx m \<longleftrightarrow> session_ok C p tr ctx \<and> has_keys_v C tr ctx
     \<and> m = take (sizeof_msg1 p (sizeof_size_t p) mod 2 ^ 32) (enc_msg1 p (sizeof_size_t p) (protocol_msg1 C tr ctx))"

definition image_sent :: "crypto \<Rightarrow> ra_params \<Rightarrow> trace \<Rightarrow> ra_context_verifier \<Rightarrow> bytes \<Rightarrow> bytes \<Rightarrow> bool" where
  "image_sent C p tr ctx buffer buffer' \<longleftrightarrow> length buffer' = length buffer
     \<and> buffer' = splice buffer 0 (enc_msg1 p (sizeof_size_t p) (protocol_msg1 C tr ctx))"

lemma protocol_msg1_again:
  assumes "keeps tr tr'" "session_ok C p tr ctx" "has_keys_v C tr ctx"
  shows "protocol_msg1 C tr' (ctx\<lparr>msg1_v := protocol_msg1 C tr ctx\<rparr>) = protocol_msg1 C tr ctx"
  using assms by (auto simp: protocol_msg1_def Let_def session_ok_def session_open_def stage_v_defs keeps_def)

lemma protocol_msg1_frame:
  assumes "keeps tr tr'" "session_ok C p tr ctx" "has_keys_v C tr ctx" "verifier_frame ctx ctx'"
    and "ecdh_shared_mac_key_v ctx' = ecdh_shared_mac_key_v ctx"
  shows "protocol_msg1 C tr' ctx' = protocol_msg1 C tr ctx"
  using assms by (auto simp: protocol_msg1_def Let_def session_ok_def session_open_def stage_v_defs keeps_def verifier_frame_def)

lemma greeting_keeps:
  assumes "greeting C p tr ctx m" "keeps tr tr'" "verifier_frame ctx ctx'"
    and "ecdh_shared_key_derivation_key_v ctx' = ecdh_shared_key_derivation_key_v ctx"
    and "ecdh_shared_mac_key_v ctx' = ecdh_shared_mac_key_v ctx"
    and "ecdh_shared_session_key_v ctx' = ecdh_shared_session_key_v ctx"
  shows "greeting C p tr' ctx' m"
proof -
  have g: "session_ok C p tr ctx" "has_keys_v C tr ctx"
    using assms(1) by (simp_all add: greeting_def)
  then have "session_ok C p tr' ctx'" "has_keys_v C tr' ctx'"
    using assms(2-) by (auto simp: session_ok_def endorsed_session_def session_open_def wf_ctx_v_def stage_v_defs
        keeps_def verifier_frame_def)
  then show ?thesis
    using assms(1) protocol_msg1_frame [OF assms(2) g assms(3,5)] by (simp add: greeting_def)
qed

lemma greeting_host: "greeting C p tr ctx m \<Longrightarrow> greeting C p ((Host c, a) # tr) ctx m"
  by (rule greeting_keeps [OF _ keeps_host]) (simp_all add: verifier_frame_def)

lemma sent_msg1:
  assumes ok: "session_ok C p tr ta" "has_keys_v C tr ta" and k: "keeps tr tr'"
    and m: "length (ecdh_signature (protocol_msg1 C tr ta)) = RA_SIGNATURE_SIZE p" "length (mac1 (protocol_msg1 C tr ta)) = 16"
    and b: "sizeof_msg1 p (sizeof_size_t p) \<le> length buffer"
  shows "session_ok C p tr' (ta\<lparr>msg1_v := protocol_msg1 C tr ta\<rparr>) \<and> has_keys_v C tr' (ta\<lparr>msg1_v := protocol_msg1 C tr ta\<rparr>)
    \<and> same_secret ta (ta\<lparr>msg1_v := protocol_msg1 C tr ta\<rparr>)
    \<and> image_sent C p tr' (ta\<lparr>msg1_v := protocol_msg1 C tr ta\<rparr>) buffer (splice buffer 0 (enc_msg1 p (sizeof_size_t p) (protocol_msg1 C tr ta)))
    \<and> greeting C p tr' (ta\<lparr>msg1_v := protocol_msg1 C tr ta\<rparr>)
        (take (unat (of_nat (sizeof_msg1 p (sizeof_size_t p)) :: u32))
          (splice buffer 0 (enc_msg1 p (sizeof_size_t p) (protocol_msg1 C tr ta))))"
proof -
  let ?w = "sizeof_size_t p" and ?m = "protocol_msg1 C tr ta"
  have s: "session_ok C p tr' (ta\<lparr>msg1_v := ?m\<rparr>)" "has_keys_v C tr' (ta\<lparr>msg1_v := ?m\<rparr>)"
    using ok k m by (auto simp: session_ok_def endorsed_session_def session_open_def wf_ctx_v_def stage_v_defs
      fresh_key_def keeps_def protocol_msg1_def Let_def)
  have l: "length (enc_msg1 p ?w ?m) = sizeof_msg1 p ?w"
    using ok m by (intro length_enc_msg1_arrays)
      (auto simp: protocol_msg1_def Let_def session_ok_def wf_ctx_v_def session_open_def fresh_key_def)
  have "take (sizeof_msg1 p ?w mod 2 ^ 32) (splice buffer 0 (enc_msg1 p ?w ?m)) = take (sizeof_msg1 p ?w mod 2 ^ 32) (enc_msg1 p ?w ?m)"
    using l by (simp add: splice_def)
  then show ?thesis
    using s l b protocol_msg1_again [OF k ok] by (simp add: greeting_def image_sent_def same_secret_def unat_of_nat)
qed

lemma prepare_msg1_host_spec:
  assumes gp: "gp_tee C env" and ok: "session_ok C p tr ta" and keys: "has_keys_v C tr ta"
  shows "wp (prepare_msg1_host p ta buffer) env tr True (\<lambda>r tr'. same_socket tr tr' \<and>
    (case r of Inl _ \<Rightarrow> True | Inr (ta', buffer', n) \<Rightarrow> session_ok C p tr' ta' \<and> has_keys_v C tr' ta'
       \<and> same_secret ta ta' \<and> image_sent C p tr' ta' buffer buffer' \<and> greeting C p tr' ta' (take n buffer')))"
proof -
  let ?w = "sizeof_size_t p"
  have host_ok: "session_ok C p ((Host c, a) # tr) ta" and host_keys: "has_keys_v C ((Host c, a) # tr) ta" for c a
    using session_ok_keeps [OF ok keeps_host] keys by (auto simp: stage_v_defs obj_upd_def)
  have p1: "wp (prepare_msg1 p ta buffer n) env ((Host c, a) # tr) True (\<lambda>(res, ta', buffer', n') tr'.
      res = TEE_SUCCESS \<longrightarrow> session_ok C p tr' ta' \<and> has_keys_v C tr' ta' \<and> same_secret ta ta' \<and> image_sent C p tr' ta' buffer buffer'
      \<and> greeting C p tr' ta' (take (unat (of_nat n' :: u32)) buffer'))" for c a n
  proof (rule wp_mono [OF prepare_msg1_spec [OF gp]])
    show "wf_ctx_v p ta" "ecdh_shared_mac_key_v ta \<in> live_objs ((Host c, a) # tr)"
      using ok keys by (auto simp: session_ok_def stage_v_defs)
  qed (use sent_msg1 [OF host_ok host_keys] in auto)
  show ?thesis
    unfolding prepare_msg1_host_def
    by (rule wp_commandI [OF gp, where R = "\<lambda>ta' params' tr'. session_ok C p tr' ta' \<and> has_keys_v C tr' ta'
          \<and> same_secret ta ta' \<and> image_sent C p tr' ta' buffer (memref (params' ! 0))
          \<and> greeting C p tr' ta' (take (unat (value_a (params' ! 1))) (memref (params' ! 0)))"])
      (auto simp: invoke_simps intro!: wp_mono [OF p1])
qed

text \<open>The application has accepted the evidence: the flag is set and the checks behind it hold, with
  the built-in attestation key.\<close>

definition attested :: "crypto \<Rightarrow> ra_params \<Rightarrow> trace \<Rightarrow> ra_context_verifier \<Rightarrow> bool" where
  "attested C p tr ctx \<longleftrightarrow> session_ok C p tr ctx \<and> has_keys_v C tr ctx \<and> is_quote_valid ctx \<and> evidence_ok C p tr ctx"

lemma receive_msg2_spec:
  assumes gp: "gp_tee C env" and ok: "session_ok C p tr ta" and keys: "has_keys_v C tr ta"
  shows "wp (receive_msg2 p ta buffer bench) env tr True (\<lambda>r tr'. same_socket tr tr' \<and>
    (case r of Inl _ \<Rightarrow> True | Inr (ta', bench') \<Rightarrow> attested C p tr' ta' \<and> same_secret ta ta'
       \<and> (\<forall>m. greeting C p tr ta m \<longrightarrow> greeting C p tr' ta' m)))"
proof -
  have keep: "keeps ((Host c, a) # tr) t \<Longrightarrow> evidence_ok C p t (ta\<lparr>is_quote_valid := True, msg2_v := m2\<rparr>) \<Longrightarrow>
      attested C p t (ta\<lparr>is_quote_valid := True, msg2_v := m2\<rparr>)" for c a t m2
    using ok keys by (auto simp: attested_def session_ok_def endorsed_session_def session_open_def wf_ctx_v_def
      stage_v_defs keeps_def obj_upd_def)
  have greet: "keeps ((Host c, a) # tr) t \<Longrightarrow> greeting C p tr ta m \<Longrightarrow>
      greeting C p t (ta\<lparr>is_quote_valid := True, msg2_v := m2\<rparr>) m" for c a t m m2
    by (rule greeting_keeps [OF _ keeps_trans [OF keeps_host]]) (simp_all add: verifier_frame_def)
  have h2: "wp (handle_msg2 p ta buffer) env ((Host c, a) # tr) True (\<lambda>(res, ta') tr'. res = TEE_SUCCESS \<longrightarrow>
      attested C p tr' ta' \<and> same_secret ta ta' \<and> (\<forall>m. greeting C p tr ta m \<longrightarrow> greeting C p tr' ta' m))" for c a
  proof (rule wp_mono [OF handle_msg2_spec [OF gp]])
    show "ecdsa_attester_public_key_handle ta \<in> live_objs ((Host c, a) # tr)"
      "ecdh_shared_mac_key_v ta \<in> live_objs ((Host c, a) # tr)"
      using ok keys by (auto simp: session_ok_def endorsed_session_def stage_v_defs)
  qed (use keep greet in \<open>auto simp: same_secret_def\<close>)
  show ?thesis
    unfolding receive_msg2_def
    by (rule wp_commandI [OF gp, where R = "\<lambda>ta' params' tr'. attested C p tr' ta' \<and> same_secret ta ta'
          \<and> (\<forall>m. greeting C p tr ta m \<longrightarrow> greeting C p tr' ta' m) \<and> value_a (params' ! 1) = 1"])
      (auto simp: invoke_simps attested_def intro!: wp_mono [OF h2])
qed

lemma attested_keeps:
  "attested C p tr ctx \<Longrightarrow> keeps tr tr' \<Longrightarrow> evidence_frame ctx ctx' \<Longrightarrow> attested C p tr' ctx'"
  by (auto simp: attested_def session_ok_def endorsed_session_def session_open_def wf_ctx_v_def stage_v_defs
      evidence_ok_def Let_def keeps_def evidence_frame_def verifier_frame_def)

text \<open>What message 3 carries: the secret of the application, sealed under the session key, in place of the
  first bytes of the buffer.\<close>

definition released :: "crypto \<Rightarrow> ra_params \<Rightarrow> trace \<Rightarrow> ra_context_verifier \<Rightarrow> bytes \<Rightarrow> bytes \<Rightarrow> bool" where
  "released C p tr ctx buffer m3 \<longleftrightarrow> (\<exists>i.
     sealed_msg3 C (sizeof_size_t p) (secret_value C tr (ecdh_shared_session_key_v ctx)) i
       (take (secret_size ctx) (secret ctx)) buffer m3)"

lemma released_keeps:
  "released C p tr ctx b m \<Longrightarrow> keeps tr tr' \<Longrightarrow> evidence_frame ctx ctx' \<Longrightarrow>
   ecdh_shared_session_key_v ctx \<in> live_objs tr \<Longrightarrow> released C p tr' ctx' b m"
  by (auto simp: released_def keeps_def evidence_frame_def verifier_frame_def)

lemma attested_session_key: "attested C p tr ctx \<Longrightarrow> ecdh_shared_session_key_v ctx \<in> live_objs tr"
  by (simp add: attested_def stage_v_defs)

lemma prepare_msg3_host_spec:
  assumes gp: "gp_tee C env" and sz: "\<And>k i d. length (snd (gcm_seal C k i d)) = 16"
    and ok: "attested C p tr ta"
  shows "wp (prepare_msg3_host p ta buffer bench) env tr True (\<lambda>r tr'. same_socket tr tr' \<and>
    (case r of Inl _ \<Rightarrow> True | Inr (ta', buffer', bench') \<Rightarrow> attested C p tr' ta' \<and> length buffer' = length buffer
       \<and> same_secret ta ta' \<and> released C p tr' ta' buffer buffer' \<and> (\<forall>m. greeting C p tr ta m \<longrightarrow> greeting C p tr' ta' m)))"
proof -
  note l = attested_session_key [OF ok]
  have l': "ecdh_shared_session_key_v ta \<in> live_objs ((Host c, a) # tr)" for c a
    using l by simp
  have p3: "wp (prepare_msg3 p ta buffer (secret ta) (secret_size ta)) env ((Host c, a) # tr) True (\<lambda>(res, ta', buffer') tr'.
      res = TEE_SUCCESS \<longrightarrow> attested C p tr' ta' \<and> length buffer' = length buffer
      \<and> same_secret ta ta' \<and> released C p tr' ta' buffer buffer' \<and> (\<forall>m. greeting C p tr ta m \<longrightarrow> greeting C p tr' ta' m))" for c a
  proof (rule wp_mono [OF wp_conj [OF prepare_msg3_frame [OF gp] prepare_msg3_spec [OF gp l' sz]]], clarsimp, intro conjI)
    fix ta' buffer' tr'
    assume k: "keeps ((Host c, a) # tr) tr'" and f: "evidence_frame ta ta'"
      and s: "sealed_msg3 C (sizeof_size_t p) (key_attr C (obj_upd (Host c) a (ecdh_shared_session_key_v ta) (obj_val tr (ecdh_shared_session_key_v ta)))
         TEE_ATTR_SECRET_VALUE) (take 32 (msg3_v ta')) (take (secret_size ta) (secret ta)) buffer buffer'"
    have k: "keeps tr tr'"
      by (rule keeps_trans [OF keeps_host k])
    show "attested C p tr' ta'"
      by (rule attested_keeps [OF ok k f])
    show "same_secret ta ta'"
      using f by (simp add: evidence_frame_def verifier_frame_def same_secret_def)
    have "released C p tr ta buffer buffer'"
      using s by (auto simp: released_def obj_upd_def)
    then show "released C p tr' ta' buffer buffer'"
      by (rule released_keeps [OF _ k f l])
    show "\<forall>m. greeting C p tr ta m \<longrightarrow> greeting C p tr' ta' m"
      using f by (auto intro!: greeting_keeps [OF _ k] simp: evidence_frame_def)
  qed
  show ?thesis
    unfolding prepare_msg3_host_def
    by (rule wp_commandI [OF gp, where R = "\<lambda>ta' params' tr'. attested C p tr' ta'
          \<and> length (memref (params' ! 0)) = length buffer \<and> same_secret ta ta' \<and> released C p tr' ta' buffer (memref (params' ! 0))
          \<and> (\<forall>m. greeting C p tr ta m \<longrightarrow> greeting C p tr' ta' m)"])
      (auto simp: invoke_simps intro!: wp_mono [OF p3])
qed

text \<open>The shared buffer when message 3 is prepared: cleared, then overwritten by what the first read returned,
  by message 1 and by what the second read returned.\<close>

definition buff_size :: "ra_params \<Rightarrow> nat \<Rightarrow> nat" where
  "buff_size p n = (n + sizeof_msg3 (sizeof_size_t p) + RA_AES_GCM_CIPHERTEXT_OVERHEAD) mod 256 ^ sizeof_size_t p"

definition connection_buffer :: "crypto \<Rightarrow> ra_params \<Rightarrow> nat \<Rightarrow> bytes \<Rightarrow> trace \<Rightarrow> ra_context_verifier \<Rightarrow> bytes \<Rightarrow> bytes" where
  "connection_buffer C p n r0 t1 ctx r2 =
     splice (splice (splice (replicate (buff_size p n) 0) 0 r0) 0 (enc_msg1 p (sizeof_size_t p) (protocol_msg1 C t1 ctx))) 0 r2"

text \<open>One connection. What the host writes first is message 1 of the session. If the host comes to the end,
  exactly one more message was written, and when it was, the application had accepted the evidence for
  the session of that message 1; the second message is the sealed secret, followed by bytes that message 1 and
  the peer left in the buffer. If the host stops before, at most message 1 was written.\<close>

definition connection_post ::
  "crypto \<Rightarrow> ra_params \<Rightarrow> nat \<Rightarrow> ra_context_verifier \<Rightarrow> trace \<Rightarrow> nat + ra_context_verifier \<Rightarrow> trace \<Rightarrow> bool" where
  "connection_post C p n ta tr r tr' \<longleftrightarrow> (case r of
       Inl _ \<Rightarrow> sock_sent tr' = sock_sent tr
         \<or> (\<exists>t1 ta1 m1. sock_sent tr' = sock_sent tr @ [(t1, m1)] \<and> greeting C p t1 ta1 m1)
     | Inr ta' \<Rightarrow> (\<exists>t1 ta1 m1 t3 m3 r0 r2. sock_sent tr' = sock_sent tr @ [(t1, m1), (t3, m3)]
         \<and> sock_received t3 = sock_received tr @ [r0, r2] \<and> greeting C p t1 ta1 m1 \<and> greeting C p t3 ta' m1
         \<and> attested C p t3 ta' \<and> same_secret ta ta' \<and> released C p t3 ta' (connection_buffer C p n r0 t1 ta1 r2) m3))"

lemma malloc_room: "ans_ok C tr (Host (sys_malloc n)) a \<Longrightarrow> n \<le> length (ans_data a) \<Longrightarrow> length (ans_data a) = n"
  by (auto simp: ans_ok_def split: if_splits)

lemma connection_postI:
  assumes "sock_sent tr' = sock_sent tr @ [(t1, m1), (t3, m3)]" "sock_received t3 = sock_received tr @ [r0, r2]"
    and "greeting C p t1 ta1 m1" "greeting C p t3 ta' m1" "attested C p t3 ta'" "same_secret ta ta'"
    and "released C p t3 ta' (connection_buffer C p n r0 t1 ta1 r2) m3"
  shows "connection_post C p n ta tr (Inr ta') tr'"
  unfolding connection_post_def sum.case using assms by (intro exI conjI)

lemma handle_connection_spec:
  assumes gp: "gp_tee C env" and sz: "\<And>k i d. length (snd (gcm_seal C k i d)) = 16"
    and ok: "session_ok C p tr ta"
  shows "wp (handle_connection p n fd ta) env tr True (connection_post C p n ta tr)"
proof -
  have host: "session_ok C p t x \<Longrightarrow> session_ok C p ((Host c, a) # t) x" for t c a x
    by (rule session_ok_keeps [OF _ keeps_host])
  have host_keys: "has_keys_v C t x \<Longrightarrow> has_keys_v C ((Host c, a) # t) x" for t c a x
    by (auto simp: stage_v_defs obj_upd_def)
  show ?thesis
    unfolding handle_connection_def Let_def
    apply (rule gp_callI [OF gp] wp_wrI)+
    apply (rule wp_execI [OF receive_msg0_spec [OF gp]], intro host ok)
     apply (simp add: connection_post_def)
    apply (rule wp_execI [OF prepare_msg1_host_spec [OF gp]], simp, simp)
     apply (simp add: connection_post_def)
    apply (clarsimp split: prod.splits)
    apply (rule gp_callI [OF gp] wp_wrI wp_rdI)+
    apply (rule wp_execI [OF receive_msg2_spec [OF gp]], intro host, assumption, intro host_keys, assumption)
     apply (fastforce simp: connection_post_def)
    apply (clarsimp split: prod.splits)
    apply (rule wp_execI [OF prepare_msg3_host_spec [OF gp sz]], assumption)
     apply (fastforce simp: connection_post_def)
    apply (clarsimp split: prod.splits)
    apply (rule gp_callI [OF gp] wp_wrI wp_rdI)+
    apply (simp add: wp_return malloc_room buff_size_def [symmetric])
    subgoal for a aa ab x tr' t1 ta1 b1 n1 ac ad t2 ta2 t3 ta3 b3
      by (rule connection_postI [where ?t1.0 = t1 and ?ta1.0 = ta1 and ?t3.0 = t3 and ?r0.0 = "ans_data ab" and ?r2.0 = "ans_data ad"])
        (auto simp: malloc_room same_secret_def image_sent_def connection_buffer_def intro!: greeting_host)
    done
qed

section \<open>The whole program\<close>

lemma quiet_open: "quiet (TA_OpenSessionEntryPoint ctx types)"
  unfolding TA_OpenSessionEntryPoint_def import_attester_attestation_key_def generate_ecdsa_keypair_def
    get_buffer_attribute_def Let_def
  by (intro host_observer.silent_intros) (simp_all add: is_host_def)

lemma wp_quiet_writes:
  "quiet m \<Longrightarrow> wp m env tr ob Q \<Longrightarrow> wp m env tr ob (\<lambda>x tr'. Q x tr' \<and> same_socket tr tr')"
  by (rule wp_mono [OF wp_silent [of host_events]]) (auto dest: same_socket_cong)

lemma wf_singleton: "wf_ctx_v p (context_singleton p)"
  "length (x_raw (ecdsa_verifier_public_key (msg1_v (context_singleton p)))) = 32"
  "length (y_raw (ecdsa_verifier_public_key (msg1_v (context_singleton p)))) = 32"
  by (simp_all add: wf_ctx_v_def context_singleton_def zero_point_def)

lemma prepare_tee_session_spec:
  assumes gp: "gp_tee C env"
  shows "wp (prepare_tee_session (context_singleton p)) env tr True (\<lambda>r tr'. same_socket tr tr' \<and>
    (case r of Inl _ \<Rightarrow> True | Inr ta \<Rightarrow> session_ok C p tr' ta))"
  unfolding prepare_tee_session_def
  apply (rule gp_callI [OF gp], simp add: wp_simps, intro impI)
  apply (rule gp_callI [OF gp], simp add: wp_simps, intro impI)
  apply (rule wp_mono [OF wp_quiet_writes [OF quiet_open TA_OpenSessionEntryPoint_spec [OF gp wf_singleton]]])
  apply (auto simp: session_ok_def)
  done

lemma bootstrap_secret_spec:
  assumes gp: "gp_tee C env" and ok: "session_ok C p tr ta"
  shows "wp (bootstrap_secret p ta s) env tr True (\<lambda>r tr'. same_socket tr tr' \<and>
    (case r of Inl _ \<Rightarrow> True | Inr ta' \<Rightarrow> session_ok C p tr' ta' \<and> secret ta' = s \<and> secret_size ta' = length s))"
proof -
  have c: "wp (TA_ConfigureCustomSecret ta s) env ((Host c, a) # tr) True (\<lambda>(res, ta') tr'.
      session_ok C p tr' ta' \<and> secret ta' = s \<and> secret_size ta' = length s)" for c a
    unfolding TA_ConfigureCustomSecret_def Let_def
    using ok by (auto intro!: gp_callI [OF gp] simp: wp_simps gp_simps session_ok_def endorsed_session_def
        session_open_def wf_ctx_v_def split: if_splits)
  show ?thesis
    unfolding bootstrap_secret_def
    by (rule wp_commandI [OF gp, where R = "\<lambda>ta' params' tr'. session_ok C p tr' ta' \<and> secret ta' = s \<and> secret_size ta' = length s"])
      (auto simp: invoke_simps intro!: wp_mono [OF c])
qed

text \<open>What the socket sees of a server with secret \<open>s\<close>: nothing; message 1 of a session; or message 1 and the
  sealed secret, the latter only when the application had accepted the evidence for that session. The bytes after the
  sealed secret are those that the two reads of the connection and message 1 left in the buffer.\<close>

definition server_post :: "crypto \<Rightarrow> ra_params \<Rightarrow> bytes \<Rightarrow> trace \<Rightarrow> bool" where
  "server_post C p s tr \<longleftrightarrow> sock_sent tr = []
     \<or> (\<exists>t1 ta1 m1. sock_sent tr = [(t1, m1)] \<and> greeting C p t1 ta1 m1)
     \<or> (\<exists>t1 ta1 m1 t3 ta m3 r0 r2. sock_sent tr = [(t1, m1), (t3, m3)] \<and> sock_received t3 = [r0, r2]
         \<and> greeting C p t1 ta1 m1 \<and> greeting C p t3 ta m1 \<and> attested C p t3 ta \<and> secret ta = s \<and> secret_size ta = length s
         \<and> released C p t3 ta (connection_buffer C p (length s) r0 t1 ta1 r2) m3)"

lemma server_post_silent: "sock_sent tr = [] \<Longrightarrow> server_post C p s tr"
  by (simp add: server_post_def)

lemma server_post_more:
  "server_post C p s tr \<Longrightarrow> sock_sent (es @ tr) = sock_sent tr \<Longrightarrow> server_post C p s (es @ tr)"
  by (simp add: server_post_def)

lemma server_post_event:
  "server_post C p s tr \<Longrightarrow> (case fst e of Host (sys_write _ _) \<Rightarrow> False | _ \<Rightarrow> True) \<Longrightarrow> server_post C p s (e # tr)"
  by (rule server_post_more [of _ _ _ _ "[e]", simplified]) (auto split: tee_call.splits host_call.splits)

lemma connection_post_server:
  "connection_post C p (length s) ta tr r tr' \<Longrightarrow> same_socket [] tr \<Longrightarrow> secret ta = s \<Longrightarrow> secret_size ta = length s \<Longrightarrow>
   server_post C p s tr'"
  by (fastforce simp: connection_post_def server_post_def same_secret_def split: sum.splits)

lemma start_verifier_server_spec:
  assumes gp: "gp_tee C env" and sz: "\<And>k i d. length (snd (gcm_seal C k i d)) = 16"
    and ok: "session_ok C p tr ta" "secret ta = s" "secret_size ta = length s" and w: "same_socket [] tr"
  shows "wp (start_verifier_server p (length s) ta) env tr True (\<lambda>r tr'. server_post C p s tr')"
proof -
  have host: "session_ok C p t x \<Longrightarrow> session_ok C p ((Host c, a) # t) x" for t c a x
    by (rule session_ok_keeps [OF _ keeps_host])
  have h: "wp (handle_connection p (length s) fd ta) env tr' True (\<lambda>r tr''. server_post C p s tr'')"
    if "session_ok C p tr' ta" "same_socket [] tr'" for tr' fd
    by (rule wp_mono [OF handle_connection_spec [OF gp sz that(1)]])
      (rule connection_post_server [OF _ that(2) ok(2,3)])
  have close: "wp (exec (handle_connection p (length s) fd ta) (\<lambda>ta. call (Host (sys_close sock)) (\<lambda>_. return (Inr ta))))
      env tr' True (\<lambda>r tr''. server_post C p s tr'')"
    if "session_ok C p tr' ta" "same_socket [] tr'" for tr' fd sock
    by (rule wp_execI [OF h [OF that]]) (auto intro!: gp_callI [OF gp] server_post_event simp: wp_simps)
  show ?thesis
    unfolding start_verifier_server_def Let_def
    by (auto intro!: gp_callI [OF gp] close host ok server_post_silent simp: wp_simps w)
qed

lemma terminate_tee_session_spec:
  assumes gp: "gp_tee C env" and ok: "server_post C p s tr"
  shows "wp (terminate_tee_session ta) env tr True (\<lambda>r tr'. server_post C p s tr')"
  unfolding terminate_tee_session_def TA_CloseSessionEntryPoint_def dispose_ra_context_def
  by (auto intro!: gp_callI [OF gp] server_post_event ok simp: wp_simps)

text \<open>The secret of a run: the built-in one, or as many letters A as the command line asks for.\<close>

definition main_secret :: "nat option \<Rightarrow> bytes" where
  "main_secret custom = (case custom of None \<Rightarrow> c_string SECRET_DATA | Some n \<Rightarrow> replicate n (char_byte CHR ''A''))"

lemma verifier_main_spec:
  assumes gp: "gp_tee C env" and sz: "\<And>k i d. length (snd (gcm_seal C k i d)) = 16"
  shows "wp (verifier_main p custom) env [] True (\<lambda>code tr'. server_post C p (main_secret custom) tr')"
proof -
  have run: "wp (bind (exec (prepare_tee_session (context_singleton p)) (\<lambda>ta.
           exec (bootstrap_secret p ta s) (\<lambda>ta. start_verifier_server p (length s) ta))) k) env tr True
      (\<lambda>code tr'. server_post C p s tr')"
    if k: "\<And>r tr'. server_post C p s tr' \<Longrightarrow> wp (k r) env tr' True (\<lambda>code tr'. server_post C p s tr')"
      and w: "same_socket [] tr" for s tr and k :: "nat + ra_context_verifier \<Rightarrow> nat tee"
    apply (rule wp_bindI [where R = "\<lambda>r tr'. server_post C p s tr'"])
     apply (rule wp_execI [OF prepare_tee_session_spec [OF gp]])
      apply (simp add: server_post_silent w)
     apply (rule wp_execI [OF bootstrap_secret_spec [OF gp]], simp)
      apply (simp add: server_post_silent w)
     apply (rule start_verifier_server_spec [OF gp sz], simp_all add: w k)
    done
  have mem: "length buf = n \<Longrightarrow> splice buf 0 (replicate n x) = replicate n x" for buf n x
    by simp
  have finish: "wp (case r of Inl code \<Rightarrow> return code | Inr ta \<Rightarrow> bind (terminate_tee_session ta) (\<lambda>_.
         if custom = None then return 0 else call (Host (sys_free ptr)) (\<lambda>_. return 0))) env tr' True
      (\<lambda>code tr'. server_post C p s tr')" if "server_post C p s tr'" for r tr' s ptr
    by (cases r)
      (auto simp: wp_simps that intro!: wp_mono [OF terminate_tee_session_spec [OF gp that]]
        gp_callI [OF gp] server_post_event)
  have whole: "wp (bind (exec (prepare_tee_session (context_singleton p)) (\<lambda>ta.
           exec (bootstrap_secret p ta s) (\<lambda>ta. start_verifier_server p (length s) ta))) (\<lambda>r. case r of
         Inl code \<Rightarrow> return code
       | Inr ta \<Rightarrow> bind (terminate_tee_session ta) (\<lambda>_.
           if custom = None then return 0 else call (Host (sys_free ptr)) (\<lambda>_. return 0)))) env tr True
      (\<lambda>code tr'. server_post C p s tr')" if "same_socket [] tr" for s ptr tr
    by (rule run [OF finish that])
  show ?thesis
  proof (cases custom)
    case None
    then show ?thesis
      unfolding verifier_main_def main_secret_def using whole [of "[]" _ 0]
      by (simp only: option.case wp_bind wp_return prod.case sock_sent.simps sock_received.simps simp_thms)
  next
    case (Some n)
    have "wp (call (Host (sys_malloc n)) (\<lambda>m. wr (ans_data m) 0 (replicate n (char_byte CHR ''A'')) (\<lambda>s. return (s, ans_handle m))))
        env [] True (\<lambda>(s, ptr) tr. s = replicate n (char_byte CHR ''A'') \<and> same_socket [] tr)"
      by (auto intro!: gp_callI [OF gp] simp: wp_simps malloc_room)
    then show ?thesis
      unfolding verifier_main_def main_secret_def Some option.case
      by (rule wp_bindI) (use whole Some in \<open>auto simp del: length_replicate\<close>)
  qed
qed

end
