(* ===== verification/Attester_Honest.thy ===== *)
theory Attester_Honest
  imports Attester_Spec
begin

text \<open>
  The attester against an honest environment: every step returns, stays inside its buffers and
  succeeds, so the handshake completes whenever the network delivers a message 1 that passes the
  checks.
\<close>

text \<open>The sizes of the primitives' results, as their standards fix them.\<close>

definition crypto_sizes :: "crypto \<Rightarrow> ra_params \<Rightarrow> bool" where
  "crypto_sizes C p \<longleftrightarrow> (\<forall>m. length (sha256 C m) = 32) \<and> (\<forall>k m. length (cmac C k m) = 16)
     \<and> (\<forall>d. length (pub_x C d) = 32) \<and> (\<forall>d. length (pub_y C d) = 32)
     \<and> (\<forall>d x y. length (ecdh C d x y) = 32) \<and> (\<forall>d h. length (ecdsa_sign C d h) = RA_SIGNATURE_SIZE p)
     \<and> (\<forall>k i d. length (fst (gcm_seal C k i d)) = length d)
     \<and> (\<forall>k i d. length (snd (gcm_seal C k i d)) = 16) \<and> RA_ANCHOR_SIZE p = 32"

lemma crypto_sizesD:
  assumes "crypto_sizes C p"
  shows "length (sha256 C m) = 32" "length (cmac C k m) = 16" "length (pub_x C d) = 32"
    "length (pub_y C d) = 32" "length (ecdh C d x y) = 32" "length (ecdsa_sign C d h) = RA_SIGNATURE_SIZE p"
    "length (snd (gcm_seal C k i d)) = 16" "RA_ANCHOR_SIZE p = 32" "length (fst (gcm_seal C k i d)) = length d"
  using assms by (simp_all add: crypto_sizes_def)

definition in_bounds :: "ec_point \<Rightarrow> bool" where
  "in_bounds pt \<longleftrightarrow> x_size pt \<le> length (x_raw pt) \<and> y_size pt \<le> length (y_raw pt)"

lemma generate_ecdh_keypair_total:
  assumes h: "honest C priv net env" and sz: "crypto_sizes C p"
    and len: "length (x_raw (msg0 ctx)) = 32" "length (y_raw (msg0 ctx)) = 32" "x_size (msg0 ctx) = 32" "y_size (msg0 ctx) = 32"
  shows "twp (generate_ecdh_keypair ctx) env tr (\<lambda>(res, ctx') tr'. res = TEE_SUCCESS
    \<and> net_input tr' = net_input tr \<and> obj_val tr' (ecdh_local_keypair_handle ctx') = KPriv priv)"
  unfolding generate_ecdh_keypair_def Let_def get_buffer_attribute_def
  by (simp add: twp_simps honest_simps len crypto_sizesD [OF sz] | rule honest_callI [OF h])+

lemma establish_tcp_connection_total:
  assumes h: "honest C priv net env"
  shows "twp (establish_tcp_connection ctx host) env tr (\<lambda>(res, ctx') tr'. res = TEE_SUCCESS)"
  unfolding establish_tcp_connection_def Let_def
  by (simp add: twp_simps honest_simps | rule honest_callI [OF h])+

lemma send_msg0_total:
  assumes h: "honest C priv net env"
  shows "twp (send_msg0 ctx) env tr (\<lambda>res tr'. res = TEE_SUCCESS)"
  unfolding send_msg0_def by (simp add: twp_simps honest_simps | rule honest_callI [OF h])+

lemma import_verifier_attestation_key_total:
  assumes h: "honest C priv net env" and b: "in_bounds (ecdsa_verifier_public_key (msg1 ctx))"
  shows "twp (import_verifier_attestation_key ctx) env tr (\<lambda>(res, ctx') tr'. res = TEE_SUCCESS)"
  unfolding import_verifier_attestation_key_def Let_def
  by (simp add: twp_simps honest_simps b [unfolded in_bounds_def] | rule honest_callI [OF h])+

lemma verify_ecdh_public_key_signature_total:
  assumes h: "honest C priv net env" and sz: "crypto_sizes C p"
    and b: "in_bounds (ecdh_verifier_public_key (msg1 ctx))" "in_bounds (msg0 ctx)"
    and ok: "ecdsa_ok C (key_attr C (obj_val tr (ecdsa_verifier_public_key_handle ctx)) TEE_ATTR_ECC_PUBLIC_VALUE_X)
      (key_attr C (obj_val tr (ecdsa_verifier_public_key_handle ctx)) TEE_ATTR_ECC_PUBLIC_VALUE_Y)
      (sha256 C (point_bytes (ecdh_verifier_public_key (msg1 ctx)) @ point_bytes (msg0 ctx)))
      (ecdh_signature (msg1 ctx))"
  shows "twp (verify_ecdh_public_key_signature p ctx) env tr (\<lambda>res tr'. res = TEE_SUCCESS)"
  unfolding verify_ecdh_public_key_signature_def Let_def free_op_def
  by (simp add: twp_simps honest_simps point_bytes_def crypto_sizesD [OF sz] b [unfolded in_bounds_def]
      ok [unfolded point_bytes_def append_assoc] | rule honest_callI [OF h])+

lemma derive_shared_key_total:
  assumes h: "honest C priv net env" and sz: "crypto_sizes C p"
    and b: "ecdh_remote_public_key_x_attr ctx \<le> length (x_raw (ecdh_verifier_public_key (msg1 ctx)))"
      "ecdh_remote_public_key_y_attr ctx \<le> length (y_raw (ecdh_verifier_public_key (msg1 ctx)))"
  shows "twp (derive_shared_key p ctx) env tr (\<lambda>(res, ctx') tr'. res = TEE_SUCCESS)"
  unfolding derive_shared_key_def Let_def get_buffer_attribute_def derive_out_def
  by (simp add: twp_simps honest_simps crypto_sizesD [OF sz] b | rule honest_callI [OF h])+

lemma derive_shared_mac_key_total:
  assumes h: "honest C priv net env" and sz: "crypto_sizes C p"
    and l: "ecdh_shared_key_derivation_key ctx \<in> live_objs tr"
      "length (secret_value C tr (ecdh_shared_key_derivation_key ctx)) \<le> 32"
  shows "twp (derive_shared_mac_key p ctx dat old) env tr (\<lambda>(res, k) tr'. res = TEE_SUCCESS)"
  using l unfolding derive_shared_mac_key_def Let_def get_buffer_attribute_def
  by (auto intro!: honest_callI [OF h] simp: twp_simps honest_simps crypto_sizesD [OF sz])

lemma verify_msg1_mac_total:
  assumes h: "honest C priv net env"
    and b: "in_bounds (ecdh_verifier_public_key (msg1 ctx))" "in_bounds (ecdsa_verifier_public_key (msg1 ctx))"
    and ok: "mac1 (msg1 ctx) = cmac C (secret_value C tr (ecdh_shared_mac_key ctx))
      (point_bytes (ecdh_verifier_public_key (msg1 ctx)) @ point_bytes (ecdsa_verifier_public_key (msg1 ctx))
       @ ecdh_signature (msg1 ctx))"
  shows "twp (verify_msg1_mac ctx) env tr (\<lambda>res tr'. res = TEE_SUCCESS)"
  unfolding verify_msg1_mac_def Let_def free_op_def
  by (simp add: twp_simps honest_simps point_bytes_def b [unfolded in_bounds_def]
      ok [unfolded point_bytes_def append_assoc] | rule honest_callI [OF h])+

lemma generate_anchor_total:
  assumes h: "honest C priv net env" and sz: "crypto_sizes C p"
    and b: "in_bounds (ecdh_verifier_public_key (msg1 ctx))" "in_bounds (msg0 ctx)"
    and len: "length anchor = 32"
  shows "twp (generate_anchor p ctx anchor 32) env tr (\<lambda>(res, a) tr'. res = TEE_SUCCESS)"
  unfolding generate_anchor_def Let_def free_op_def crypto_sizesD(8) [OF sz]
  by (simp add: twp_simps honest_simps crypto_sizesD(1) [OF sz] len b [unfolded in_bounds_def] | rule honest_callI [OF h])+

lemma verify_service_public_key_total:
  assumes "trusted_key (ecdsa_verifier_public_key (msg1 ctx)) kx kx_size ky ky_size"
    and "kx_size \<le> length kx" "ky_size \<le> length ky"
    and "length (x_raw (ecdsa_verifier_public_key (msg1 ctx))) = 32"
      "length (y_raw (ecdsa_verifier_public_key (msg1 ctx))) = 32"
  shows "twp (verify_service_public_key ctx kx kx_size ky ky_size) env tr (\<lambda>res tr'. res = TEE_SUCCESS)"
  using assms by (cases "kx_size = 0 \<and> ky_size = 0")
    (simp_all add: verify_service_public_key_def trusted_key_def twp_simps)

lemma receive_socket_per_chunk_total:
  assumes h: "honest C priv net env" and n: "0 < n" "length (net_input tr) + n \<le> length net"
  shows "twp (receive_socket_per_chunk s n (replicate n 0) n 0) env tr (\<lambda>(res, buf, t) tr'.
    res = TEE_SUCCESS \<and> t = n \<and> buf = take n (drop (length (net_input tr)) net))"
proof -
  obtain a where a: "env tr (tcp_recv s n) = Some a" "served C priv net tr (tcp_recv s n) a"
    using h by (auto simp: honest_def)
  then show ?thesis
    using n by (simp add: twp_def receive_socket_per_chunk.simps served_def serviceable_def)
qed

lemma receive_msg1_total:
  assumes h: "honest C priv net env" and n: "length (net_input tr) + sizeof_msg1 p 4 \<le> length net"
  shows "twp (receive_msg1 p ctx) env tr (\<lambda>(res, ctx') tr'. res = TEE_SUCCESS
    \<and> msg1 ctx' = dec_msg1 p 4 (drop (length (net_input tr)) net))"
proof -
  have pos: "0 < sizeof_msg1 p 4" by (simp add: sizeof_msg1_def body_msg1_def)
  show ?thesis
    unfolding receive_msg1_def Let_def
    by (rule twp_bindI [OF receive_socket_per_chunk_total [OF h pos n]])
      (auto simp: twp_simps msg1_codec.dec_take)
qed

lemma fresh_key_bounds: "fresh_key C v pt \<Longrightarrow> crypto_sizes C p \<Longrightarrow> in_bounds pt"
  by (simp add: fresh_key_def in_bounds_def crypto_sizes_def)

text \<open>A message 1 that passes every check of an attester with the given private value.\<close>

definition acceptable :: "crypto \<Rightarrow> bytes \<Rightarrow> bytes \<Rightarrow> nat \<Rightarrow> bytes \<Rightarrow> nat \<Rightarrow> msg1_t \<Rightarrow> bool" where
  "acceptable C priv kx kx_size ky ky_size m \<longleftrightarrow>
     (let gv = ecdh_verifier_public_key m; kv = ecdsa_verifier_public_key m;
          secret = ecdh C priv (take (x_size gv) (x_raw gv)) (take (y_size gv) (y_raw gv)) in
      in_bounds gv \<and> in_bounds kv \<and> trusted_key kv kx kx_size ky ky_size
      \<and> ecdsa_ok C (take (x_size kv) (x_raw kv)) (take (y_size kv) (y_raw kv))
          (sha256 C (point_bytes gv @ pub_x C priv @ pub_y C priv)) (ecdh_signature m)
      \<and> mac1 m = cmac C (label_key C WASI_RA_SHARED_MAC_DATA secret)
          (point_bytes gv @ point_bytes kv @ ecdh_signature m))"

lemma acceptableD:
  assumes "acceptable C priv kx kx_size ky ky_size m" "priv_of v = priv"
  shows "in_bounds (ecdh_verifier_public_key m)" "in_bounds (ecdsa_verifier_public_key m)"
    "trusted_key (ecdsa_verifier_public_key m) kx kx_size ky ky_size" "signed_by_peer C v m" "msg1_mac_ok C v m"
  using assms
  by (auto simp: acceptable_def signed_by_peer_def msg1_mac_ok_def remote_secret_def Let_def)

lemma keypair_bounds: "has_keypair C v tr ctx \<Longrightarrow> crypto_sizes C p \<Longrightarrow> in_bounds (msg0 ctx)"
  by (auto simp: has_keypair_def intro: fresh_key_bounds)

text \<open>The steps once more, each of them now sure to succeed.\<close>

lemma total_keypair:
  assumes h: "honest C priv net env" and sz: "crypto_sizes C p"
    and len: "length (x_raw (msg0 ctx)) = 32" "length (y_raw (msg0 ctx)) = 32" "x_size (msg0 ctx) = 32" "y_size (msg0 ctx) = 32"
  shows "twp (generate_ecdh_keypair ctx) env tr (\<lambda>(res, ctx') tr'. res = TEE_SUCCESS
    \<and> has_keypair C (KPriv priv) tr' ctx' \<and> net_input tr' = net_input tr)"
  by (rule twp_mono [OF twp_wp [OF generate_ecdh_keypair_total [OF h sz len]
        stage_keypair [OF honest_gp_tee [OF h] len(1,2)]]]) auto

lemma total_connect:
  assumes h: "honest C priv net env" and k: "has_keypair C v tr ctx"
  shows "twp (establish_tcp_connection ctx host) env tr (\<lambda>(res, ctx') tr'. res = TEE_SUCCESS
    \<and> has_keypair C v tr' ctx' \<and> net_input tr' = net_input tr)"
  by (rule twp_with [OF establish_tcp_connection_total [OF h] stage_connect [OF honest_gp_tee [OF h] k]])

lemma total_send:
  assumes h: "honest C priv net env" and k: "has_keypair C v tr ctx"
  shows "twp (send_msg0 ctx) env tr (\<lambda>res tr'. res = TEE_SUCCESS
    \<and> has_keypair C v tr' ctx \<and> net_input tr' = net_input tr)"
  by (rule twp_with_check [OF send_msg0_total [OF h] stage_send [OF honest_gp_tee [OF h] k]])

lemma total_receive:
  assumes h: "honest C priv net env" and k: "has_keypair C v tr ctx"
    and n: "length (net_input tr) + sizeof_msg1 p 4 \<le> length net"
  shows "twp (receive_msg1 p ctx) env tr (\<lambda>(res, ctx') tr'. res = TEE_SUCCESS
    \<and> has_msg1 C v (dec_msg1 p 4 (drop (length (net_input tr)) net)) tr' ctx')"
  by (rule twp_mono [OF twp_wp [OF receive_msg1_total [OF h n] stage_receive [OF k]]]) auto

lemma total_trust:
  assumes k: "has_msg1 C v m tr ctx" and t: "trusted_key (ecdsa_verifier_public_key m) kx kx_size ky ky_size"
    and len: "kx_size \<le> length kx" "ky_size \<le> length ky"
      "length (x_raw (ecdsa_verifier_public_key m)) = 32" "length (y_raw (ecdsa_verifier_public_key m)) = 32"
  shows "twp (verify_service_public_key ctx kx kx_size ky ky_size) env tr (\<lambda>res tr'. res = TEE_SUCCESS \<and> has_msg1 C v m tr' ctx)"
proof (rule twp_with_check [OF verify_service_public_key_total])
  show "wp (verify_service_public_key ctx kx kx_size ky ky_size) env tr True (\<lambda>res tr'. res = TEE_SUCCESS \<longrightarrow> has_msg1 C v m tr' ctx)"
    by (rule wp_mono [OF stage_trust [OF k]]) simp
qed (use k t len in \<open>auto simp: has_msg1_def\<close>)

lemma total_import:
  assumes h: "honest C priv net env" and k: "has_msg1 C v m tr ctx" and b: "in_bounds (ecdsa_verifier_public_key m)"
  shows "twp (import_verifier_attestation_key ctx) env tr (\<lambda>(res, ctx') tr'. res = TEE_SUCCESS \<and> has_peer_key C v m tr' ctx')"
  by (rule twp_with [OF import_verifier_attestation_key_total [OF h] stage_import [OF honest_gp_tee [OF h] k]])
    (use k b in \<open>simp add: has_msg1_def\<close>)

lemma total_signature:
  assumes h: "honest C priv net env" and sz: "crypto_sizes C p" and k: "has_peer_key C v m tr ctx"
    and b: "in_bounds (ecdh_verifier_public_key m)" and s: "signed_by_peer C v m"
  shows "twp (verify_ecdh_public_key_signature p ctx) env tr (\<lambda>res tr'. res = TEE_SUCCESS \<and> has_msg1 C v m tr' ctx)"
proof (rule twp_with_check [OF verify_ecdh_public_key_signature_total [OF h sz]])
  show "in_bounds (ecdh_verifier_public_key (msg1 ctx))" "in_bounds (msg0 ctx)"
    using k b keypair_bounds [OF _ sz] by (auto simp: stage_defs)
  show "wp (verify_ecdh_public_key_signature p ctx) env tr True (\<lambda>res tr'. res = TEE_SUCCESS \<longrightarrow> has_msg1 C v m tr' ctx)"
    by (rule wp_mono [OF stage_signature [OF honest_gp_tee [OF h] k]]) simp
qed (use k s in \<open>auto simp: stage_defs signed_by_peer_def fresh_key_bytes\<close>)

lemma total_kdk:
  assumes h: "honest C priv net env" and sz: "crypto_sizes C p" and k: "has_msg1 C v m tr ctx"
    and b: "in_bounds (ecdh_verifier_public_key m)"
  shows "twp (derive_shared_key p ctx) env tr (\<lambda>(res, ctx') tr'. res = TEE_SUCCESS \<and> has_kdk C v m tr' ctx')"
  using k b
  by (intro twp_with [OF derive_shared_key_total [OF h sz] stage_kdk [OF honest_gp_tee [OF h]]])
    (auto simp: has_msg1_def in_bounds_def)

lemma total_mac_key:
  assumes h: "honest C priv net env" and sz: "crypto_sizes C p" and k: "has_kdk C v m tr ctx"
  shows "twp (derive_shared_mac_key p ctx WASI_RA_SHARED_MAC_DATA old) env tr (\<lambda>(res, k) tr'.
    res = TEE_SUCCESS \<and> has_mac_key C v m tr' (ctx\<lparr>ecdh_shared_mac_key := k\<rparr>))"
  using k
  by (intro twp_with [OF derive_shared_mac_key_total [OF h sz] stage_mac_key [OF honest_gp_tee [OF h]]])
    (auto simp: has_kdk_def kdk_def crypto_sizesD [OF sz])

lemma total_session_key:
  assumes h: "honest C priv net env" and sz: "crypto_sizes C p" and k: "has_mac_key C v m tr ctx"
  shows "twp (derive_shared_mac_key p ctx WASI_RA_SHARED_SESSION_DATA old) env tr (\<lambda>(res, k) tr'.
    res = TEE_SUCCESS \<and> has_keys C v m tr' (ctx\<lparr>ecdh_shared_session_key := k\<rparr>))"
  using k
  by (intro twp_with [OF derive_shared_mac_key_total [OF h sz] stage_session_key [OF honest_gp_tee [OF h]]])
    (auto simp: has_mac_key_def has_kdk_def kdk_def crypto_sizesD [OF sz])

lemma total_mac:
  assumes h: "honest C priv net env" and k: "has_keys C v m tr ctx" and ok: "msg1_mac_ok C v m"
    and b: "in_bounds (ecdh_verifier_public_key m)" "in_bounds (ecdsa_verifier_public_key m)"
  shows "twp (verify_msg1_mac ctx) env tr (\<lambda>res tr'. res = TEE_SUCCESS \<and> has_keys C v m tr' ctx)"
proof (rule twp_with_check [OF verify_msg1_mac_total [OF h]])
  show "wp (verify_msg1_mac ctx) env tr True (\<lambda>res tr'. res = TEE_SUCCESS \<longrightarrow> has_keys C v m tr' ctx)"
    by (rule wp_mono [OF stage_mac [OF honest_gp_tee [OF h] k]]) simp
qed (use k b ok in \<open>auto simp: stage_defs msg1_mac_ok_def\<close>)

lemma total_anchor:
  assumes h: "honest C priv net env" and sz: "crypto_sizes C p" and k: "has_keys C v m tr ctx"
    and b: "in_bounds (ecdh_verifier_public_key m)" and len: "length anchor = 32"
  shows "twp (generate_anchor p ctx anchor 32) env tr (\<lambda>(res, a) tr'. res = TEE_SUCCESS
    \<and> has_keys C v m tr' ctx
    \<and> a = splice anchor 0 (sha256 C (point_bytes (msg0 ctx) @ point_bytes (ecdh_verifier_public_key m))))"
  by (rule twp_with [OF generate_anchor_total [OF h sz] stage_anchor [OF honest_gp_tee [OF h] k]])
    (use k b len keypair_bounds [OF _ sz] in \<open>auto simp: stage_defs\<close>)

text \<open>The handshake completes against an honest environment whose network delivers an acceptable
  message 1.\<close>

lemma ra_net_handshake_total:
  assumes h: "honest C priv net env" and sz: "crypto_sizes C p"
    and n: "sizeof_msg1 p 4 \<le> length net"
    and m: "m = dec_msg1 p 4 net" and acc: "acceptable C priv kx kx_size ky ky_size m"
    and len: "kx_size \<le> length kx" "ky_size \<le> length ky" "length anchor = 32"
    and tr: "net_input tr = []"
  shows "twp (ra_net_handshake p host kx kx_size ky ky_size anchor 32) env tr
    (\<lambda>(res, ctx, anchor') tr'. res = TEE_SUCCESS \<and> has_keys C (KPriv priv) m tr' ctx
      \<and> anchor' = sha256 C (point_bytes (msg0 ctx) @ point_bytes (ecdh_verifier_public_key m)))"
proof -
  note gp = honest_gp_tee [OF h]
  note acc = acceptableD [OF acc, of "KPriv priv", simplified]
  have wf: "length (x_raw (ecdsa_verifier_public_key m)) = 32" "length (y_raw (ecdsa_verifier_public_key m)) = 32"
    using msg1_codec.wf_dec [OF n] by (simp_all add: m wf_msg1_def wf_point_def)
  show ?thesis
    unfolding ra_net_handshake_def alloc_ra_context_def Let_def prod.case
    apply (simp only: twp_if simp_thms if_False)
    apply (rule twp_stepI [OF total_keypair [OF h sz]], simp_all add: zero_point_def tr)
    apply (rule twp_stepI [OF total_connect [OF h]], blast, simp_all)
    apply (rule twp_checkI [OF total_send [OF h]], blast, simp_all)
    apply (rule twp_stepI [OF total_receive [OF h]], blast, simp_all add: n flip: m)
    apply (rule twp_checkI [OF total_trust], assumption, simp_all add: acc len wf)
    apply (rule twp_stepI [OF total_import [OF h]], assumption, simp_all add: acc)
    apply (rule twp_checkI [OF total_signature [OF h sz]], assumption, simp_all add: acc)
    apply (rule twp_stepI [OF total_kdk [OF h sz]], assumption, simp_all add: acc)
    apply (rule twp_stepI [OF total_mac_key [OF h sz]], assumption)
    apply (rule twp_stepI [OF total_session_key [OF h sz]], assumption)
    apply (rule twp_checkI [OF total_mac [OF h]], assumption, simp_all add: acc)
    apply (rule twp_mono [OF twp_bindI [OF total_anchor [OF h sz]]], assumption, simp_all add: acc len)
    apply (auto simp: twp_simps len crypto_sizesD [OF sz])
    done
qed

section \<open>Messages 2 and 3\<close>

text \<open>A buffer that is large enough takes in everything the peer still sends.\<close>

lemma receive_all_total:
  assumes h: "honest C priv net env"
  shows "0 < c \<Longrightarrow> length dat = n \<Longrightarrow> t + length (drop (length (net_input tr)) net) \<le> n \<Longrightarrow>
    twp (receive_socket_per_chunk s c dat n t) env tr (\<lambda>(res, buf, t') tr'. res = TEE_SUCCESS
      \<and> t' = t + length (drop (length (net_input tr)) net) \<and> length buf = n
      \<and> take t' buf = take t dat @ drop (length (net_input tr)) net)"
proof (induction "length net - length (net_input tr)" arbitrary: c dat t tr rule: less_induct)
  case less
  let ?rem = "drop (length (net_input tr)) net"
  obtain a where a: "env tr (tcp_recv s c) = Some a" "served C priv net tr (tcp_recv s c) a"
    using h by (auto simp: honest_def)
  then have d: "ans_res a = TEE_SUCCESS" "ans_data a = take c ?rem"
    by (simp_all add: served_def serviceable_def)
  have room: "t + length (take c ?rem) \<le> length dat"
    using less.prems by simp
  have unf: "twp (receive_socket_per_chunk s c dat n t) env tr Q =
    twp (receive_socket_per_chunk s (length (take c ?rem)) (splice dat t (take c ?rem)) n (t + length (take c ?rem)))
      env ((tcp_recv s c, a) # tr) Q" if "t < n" for Q
    using that less.prems a(1) d room
    by (simp add: twp_def receive_socket_per_chunk.simps [of s c dat n t env tr])
  show ?case
  proof (cases "t < n")
    case False
    then show ?thesis
      using less.prems by (simp add: twp_def receive_socket_per_chunk.simps [of s c dat n t env tr])
  next
    case t: True
    show ?thesis
    proof (cases "?rem = []")
      case True
      then show ?thesis
        using less.prems t unfolding unf [OF t] by (simp add: twp_def receive_socket_per_chunk.simps splice_def)
    next
      case False
      let ?tr = "(tcp_recv s c, a) # tr" and ?d = "take c ?rem"
      have "length net - length (net_input ?tr) < length net - length (net_input tr)"
        using False less.prems d by simp
      moreover have "0 < length ?d" using False less.prems by simp
      moreover have "length (splice dat t ?d) = n" using less.prems room by simp
      moreover have "t + length ?d + length (drop (length (net_input ?tr)) net) \<le> n"
        using less.prems d by simp
      ultimately have "twp (receive_socket_per_chunk s (length ?d) (splice dat t ?d) n (t + length ?d)) env ?tr
        (\<lambda>(res, buf, t') tr'. res = TEE_SUCCESS
          \<and> t' = t + length ?d + length (drop (length (net_input ?tr)) net) \<and> length buf = n
          \<and> take t' buf = take (t + length ?d) (splice dat t ?d) @ drop (length (net_input ?tr)) net)"
        by (intro less.hyps)
      moreover have "take t dat @ ?d @ drop (length (net_input ?tr)) net = take t dat @ ?rem"
      proof -
        have "drop (length (net_input ?tr)) net = drop c ?rem"
          using d by (cases "c \<le> length ?rem") (simp_all add: add.commute)
        then show ?thesis by (simp only: append_take_drop_id)
      qed
      moreover have "t + length ?d + length (drop (length (net_input ?tr)) net) = t + length ?rem"
        using d by (simp add: min_def)
      ultimately show ?thesis
        unfolding unf [OF t] take_splice_append [OF room] append_assoc by (simp only:)
    qed
  qed
qed

lemma receive_msg3_total:
  assumes h: "honest C priv net env" and len: "length (msg3 ctx) = msg3_size ctx"
    and fit: "length (drop (length (net_input tr)) net) \<le> msg3_size ctx"
  shows "twp (receive_msg3 ctx) env tr (\<lambda>(res, ctx') tr'. res = TEE_SUCCESS
    \<and> (\<exists>junk. msg3 ctx' = drop (length (net_input tr)) net @ junk)
    \<and> ecdh_shared_session_key ctx' = ecdh_shared_session_key ctx)"
  unfolding receive_msg3_def
  apply (rule twp_bindI [OF receive_all_total [OF h _ len]])
    apply (use fit in \<open>auto simp: twp_simps\<close>)
  apply (metis append_take_drop_id)
  done

lemma decrypt_msg3_total:
  assumes h: "honest C priv net env"
    and hdr: "sizeof_msg3 (sizeof_size_t p) \<le> length m3"
      "sizeof_msg3 (sizeof_size_t p) + encrypted_content_size (dec_msg3 (sizeof_size_t p) m3) \<le> length m3"
    and m: "msg3 ctx = m3 @ junk"
    and o: "opened_msg3 C (sizeof_size_t p) (secret_value C tr (ecdh_shared_session_key ctx)) m3 = Some d"
    and d: "length d \<le> n" "length dat = n"
  shows "twp (decrypt_msg3 p ctx dat n) env tr (\<lambda>(res, dat', n') tr'. res = TEE_SUCCESS
    \<and> dat' = splice dat 0 d \<and> n' = length d)"
proof -
  let ?w = "sizeof_size_t p"
  have dec: "dec_msg3 ?w (take (sizeof_msg3 ?w) (msg3 ctx)) = dec_msg3 ?w m3"
    unfolding m using hdr by (simp add: msg3_codec.dec_take)
  have ct: "take (encrypted_content_size (dec_msg3 ?w m3)) (drop (sizeof_msg3 ?w) (msg3 ctx)) =
    take (encrypted_content_size (dec_msg3 ?w m3)) (drop (sizeof_msg3 ?w) m3)"
    unfolding m using hdr by simp
  have len: "sizeof_msg3 ?w \<le> length (msg3 ctx)"
    "encrypted_content_size (dec_msg3 ?w m3) \<le> length (msg3 ctx) - sizeof_msg3 ?w"
    unfolding m using hdr by simp_all
  show ?thesis
    unfolding decrypt_msg3_def Let_def free_op_def
    using o d len
    by (auto intro!: honest_callI [OF h] simp: twp_simps honest_simps dec ct opened_msg3_def Let_def)
qed


text \<open>The attester obtains the content of a message 3 that opens under its session key and fits the
  buffer it allocates for the caller's data.\<close>

lemma ra_net_receive_data_total:
  assumes h: "honest C priv net env" and m: "m3 = drop (length (net_input tr)) net"
    and live: "ecdh_shared_session_key ctx \<in> live_objs tr"
    and o: "opened_msg3 C (sizeof_size_t p) (secret_value C tr (ecdh_shared_session_key ctx)) m3 = Some d"
    and hdr: "sizeof_msg3 (sizeof_size_t p) + encrypted_content_size (dec_msg3 (sizeof_size_t p) m3) \<le> length m3"
    and d: "length d \<le> n" "length dat = n"
    and fit: "length m3 \<le> sizeof_msg3 (sizeof_size_t p) + n + 16"
      "sizeof_msg3 (sizeof_size_t p) + n + 16 < 256 ^ sizeof_size_t p"
  shows "twp (ra_net_receive_data p ctx dat n) env tr (\<lambda>(res, ctx', dat', n') tr'. res = TEE_SUCCESS
    \<and> dat' = splice dat 0 d \<and> n' = length d)"
proof -
  have alloc: "twp (allocate_msg3 p ctx n) env tr (\<lambda>(res, ctx') tr'. res = TEE_SUCCESS \<and> (keeps tr tr'
      \<and> net_input tr' = net_input tr \<and> msg3_size ctx' = sizeof_msg3 (sizeof_size_t p) + n + 16
      \<and> length (msg3 ctx') = msg3_size ctx' \<and> ecdh_shared_session_key ctx' = ecdh_shared_session_key ctx))"
    unfolding allocate_msg3_def Let_def
    using fit by (auto intro!: honest_callI [OF h] simp: twp_simps honest_simps keeps_def)
  have hdr': "sizeof_msg3 (sizeof_size_t p) \<le> length m3" using hdr by simp
  show ?thesis
    unfolding ra_net_receive_data_def
    apply (rule twp_stepI [OF alloc], elim conjE)
    apply (rule twp_stepI [where R = "\<lambda>ctx' tr'. (\<exists>junk. msg3 ctx' = m3 @ junk) \<and> keeps tr tr'
        \<and> ecdh_shared_session_key ctx' = ecdh_shared_session_key ctx"])
     apply (rule twp_mono [OF twp_wp [OF receive_msg3_total [OF h] receive_msg3_spec]])
       apply (assumption, use fit m in simp)
     apply (auto simp: m intro: keeps_trans)[1]
    apply (elim conjE exE)
    apply (rule twp_mono [OF twp_bindI [OF decrypt_msg3_total [OF h hdr' hdr _ _ d]]])
       apply (assumption, use o live in \<open>simp add: keeps_def\<close>)
     apply (auto simp: twp_simps)
    done
qed

end
