(* ===== verification/Verifier_Honest.thy ===== *)
theory Verifier_Honest
  imports Verifier_Spec Attester_Honest
begin

text \<open>
  The verifier against an honest environment: the entry points return and succeed on messages that
  pass their checks, and a message 0 that declares too large a coordinate is read beyond its end.
\<close>

lemma generate_ecdh_keypair_v_total:
  assumes h: "honest C priv net env" and sz: "crypto_sizes C p"
    and len: "length (x_raw (ecdh_verifier_public_key (msg1_v ctx))) = 32"
      "length (y_raw (ecdh_verifier_public_key (msg1_v ctx))) = 32"
  shows "twp (generate_ecdh_keypair_v ctx) env tr (\<lambda>(res, ctx') tr'. res = TEE_SUCCESS
    \<and> obj_val tr' (ecdh_local_keypair_handle_v ctx') = KPriv priv)"
  unfolding generate_ecdh_keypair_v_def Let_def get_buffer_attribute_def
  by (simp add: twp_simps honest_simps len crypto_sizesD [OF sz] | rule honest_callI [OF h])+

lemma populate_attester_key_total:
  assumes h: "honest C priv net env" and b: "in_bounds (msg0_v ctx)"
  shows "twp (populate_attester_key ctx) env tr (\<lambda>(res, ctx') tr'. res = TEE_SUCCESS)"
  unfolding populate_attester_key_def Let_def
  by (simp add: twp_simps honest_simps b [unfolded in_bounds_def] | rule honest_callI [OF h])+

lemma derive_shared_key_v_total:
  assumes h: "honest C priv net env" and sz: "crypto_sizes C p"
    and b: "ecdh_attester_public_key_x_attr ctx \<le> length (x_raw (msg0_v ctx))"
      "ecdh_attester_public_key_y_attr ctx \<le> length (y_raw (msg0_v ctx))"
  shows "twp (derive_shared_key_v p ctx) env tr (\<lambda>(res, ctx') tr'. res = TEE_SUCCESS)"
  unfolding derive_shared_key_v_def Let_def get_buffer_attribute_def derive_out_def
  by (simp add: twp_simps honest_simps crypto_sizesD [OF sz] b | rule honest_callI [OF h])+

lemma derive_shared_mac_key_v_total:
  assumes h: "honest C priv net env" and sz: "crypto_sizes C p"
    and l: "ecdh_shared_key_derivation_key_v ctx \<in> live_objs tr"
      "length (secret_value C tr (ecdh_shared_key_derivation_key_v ctx)) \<le> 32"
  shows "twp (derive_shared_mac_key_v p ctx dat old) env tr (\<lambda>(res, k) tr'. res = TEE_SUCCESS)"
  using l unfolding derive_shared_mac_key_v_def Let_def get_buffer_attribute_def
  by (auto intro!: honest_callI [OF h] simp: twp_simps honest_simps crypto_sizesD [OF sz])

lemma append_ecdh_public_keys_signature_total:
  assumes h: "honest C priv net env" and sz: "crypto_sizes C p"
    and b: "in_bounds (ecdh_verifier_public_key (msg1_v ctx))" "in_bounds (msg0_v ctx)"
    and len: "length (ecdh_signature (msg1_v ctx)) = RA_SIGNATURE_SIZE p"
  shows "twp (append_ecdh_public_keys_signature p ctx) env tr (\<lambda>(res, ctx') tr'. res = TEE_SUCCESS)"
  unfolding append_ecdh_public_keys_signature_def Let_def free_op_def
  by (simp add: twp_simps honest_simps b [unfolded in_bounds_def] len crypto_sizesD [OF sz] | rule honest_callI [OF h])+

lemma append_mac_total:
  assumes h: "honest C priv net env" and sz: "crypto_sizes C p"
    and b: "in_bounds (ecdh_verifier_public_key (msg1_v ctx))" "in_bounds (ecdsa_verifier_public_key (msg1_v ctx))"
    and len: "length (mac1 (msg1_v ctx)) = 16"
  shows "twp (append_mac ctx) env tr (\<lambda>(res, ctx') tr'. res = TEE_SUCCESS)"
  unfolding append_mac_def Let_def free_op_def
  by (simp add: twp_simps honest_simps b [unfolded in_bounds_def] len crypto_sizesD [OF sz] | rule honest_callI [OF h])+

lemma verify_mac_msg2_total:
  assumes h: "honest C priv net env" and b: "in_bounds (ecdh_local_public_key (msg2_v ctx))"
    and ok: "mac2 (msg2_v ctx) = cmac C (secret_value C tr (ecdh_shared_mac_key_v ctx))
      (point_bytes (ecdh_local_public_key (msg2_v ctx)) @ quote (msg2_v ctx))"
  shows "twp (verify_mac_msg2 ctx) env tr (\<lambda>res tr'. res = TEE_SUCCESS)"
  unfolding verify_mac_msg2_def Let_def free_op_def
  by (simp add: twp_simps honest_simps b [unfolded in_bounds_def]
      ok [unfolded point_bytes_def append_assoc] | rule honest_callI [OF h])+

lemma verify_quote_signature_total:
  assumes h: "honest C priv net env" and sz: "crypto_sizes C p"
    and ok: "ecdsa_ok C (key_attr C (obj_val tr (ecdsa_attester_public_key_handle ctx)) TEE_ATTR_ECC_PUBLIC_VALUE_X)
      (key_attr C (obj_val tr (ecdsa_attester_public_key_handle ctx)) TEE_ATTR_ECC_PUBLIC_VALUE_Y)
      (sha256 C (quote_body p (quote (msg2_v ctx)))) (quote_signature p (quote (msg2_v ctx)))"
  shows "twp (verify_quote_signature p ctx) env tr (\<lambda>(res, ctx') tr'. res = TEE_SUCCESS)"
  unfolding verify_quote_signature_def Let_def free_op_def
  by (simp add: twp_simps honest_simps crypto_sizesD [OF sz] ok [unfolded quote_body_def] | rule honest_callI [OF h])+

lemma verify_anchor_total:
  assumes h: "honest C priv net env" and sz: "crypto_sizes C p"
    and b: "in_bounds (msg0_v ctx)" "in_bounds (ecdh_verifier_public_key (msg1_v ctx))"
    and q: "32 \<le> length (quote_anchor p (quote (msg2_v ctx)))"
    and ok: "take 32 (quote_anchor p (quote (msg2_v ctx))) =
      sha256 C (point_bytes (msg0_v ctx) @ point_bytes (ecdh_verifier_public_key (msg1_v ctx)))"
  shows "twp (verify_anchor p ctx) env tr (\<lambda>res tr'. res = TEE_SUCCESS)"
  unfolding verify_anchor_def Let_def free_op_def crypto_sizesD(8) [OF sz]
  by (simp add: twp_simps honest_simps b [unfolded in_bounds_def] q ok [unfolded point_bytes_def append_assoc]
      crypto_sizesD(1) [OF sz] | rule honest_callI [OF h])+

text \<open>The sizes that message 0 declares are not compared with the size of its arrays.\<close>

lemma populate_overrun:
  assumes h: "honest C priv net env" and b: "length (x_raw (msg0_v ctx)) < x_size (msg0_v ctx) \<or> length (y_raw (msg0_v ctx)) < y_size (msg0_v ctx)"
  shows "fst (populate_attester_key ctx env tr) = Oob"
proof -
  obtain a where "env tr (TEE_AllocateTransientObject TEE_TYPE_ECDH_PUBLIC_KEY 256) = Some a" "ans_res a = TEE_SUCCESS"
    using h by (fastforce simp: honest_def served_def serviceable_def)
  then show ?thesis
    using b by (auto simp: populate_attester_key_def Let_def call_def rd_def)
qed

section \<open>Entry points\<close>

lemma handle_msg0_total:
  assumes h: "honest C priv net env" and sz: "crypto_sizes C p" and wf: "wf_ctx_v p ctx"
    and b: "sizeof_msg0 (sizeof_size_t p) \<le> length buffer" "in_bounds (dec_point (sizeof_size_t p) buffer)"
  shows "twp (handle_msg0 p ctx buffer) env tr (\<lambda>(res, ctx') tr'. res = TEE_SUCCESS
    \<and> obj_val tr' (ecdh_local_keypair_handle_v ctx') = KPriv priv)"
proof -
  note gp = honest_gp_tee [OF h]
  have len: "length (x_raw (ecdh_verifier_public_key (msg1_v ctx))) = 32"
    "length (y_raw (ecdh_verifier_public_key (msg1_v ctx))) = 32"
    using wf by (simp_all add: wf_ctx_v_def)
  have st: "store_msg0 p c buffer = (TEE_SUCCESS, c\<lparr>msg0_v := dec_point (sizeof_size_t p) buffer\<rparr>)" for c
    using b by (simp add: store_msg0_def)
  have gen: "twp (generate_ecdh_keypair_v ctx) env tr (\<lambda>(res, ctx') tr'. res = TEE_SUCCESS
      \<and> (obj_val tr' (ecdh_local_keypair_handle_v ctx') = KPriv priv
        \<and> ecdh_local_keypair_handle_v ctx' \<in> live_objs tr'
        \<and> fresh_key C (KPriv priv) (ecdh_verifier_public_key (msg1_v ctx'))))"
    by (rule twp_mono [OF twp_wp [OF generate_ecdh_keypair_v_total [OF h sz len] generate_ecdh_keypair_v_spec [OF gp len]]]) auto
  show ?thesis
    unfolding handle_msg0_def st Let_def prod.case
    apply (rule twp_stepI [OF gen])
    apply (simp only: simp_thms if_False)
    apply (rule twp_stepI [OF twp_with [OF populate_attester_key_total [OF h] populate_attester_key_spec [OF gp]]])
     apply (simp add: b)
    apply (rule twp_stepI [OF twp_with [OF derive_shared_key_v_total [OF h sz] derive_shared_key_v_spec [OF gp]]])
       apply (use b(2) in \<open>simp_all add: verifier_frame_def keeps_def in_bounds_def\<close>)
    apply (rule twp_stepI [OF twp_with [OF derive_shared_mac_key_v_total [OF h sz] stage_mac_key_v [OF gp]]])
       apply (simp_all add: stage_v_defs Let_def kdk_def crypto_sizesD [OF sz] keeps_def)
    apply (rule twp_bindI [OF twp_wp [OF derive_shared_mac_key_v_total [OF h sz] derive_shared_mac_key_v_spec [OF gp]]])
       apply (auto simp: twp_simps kdk_def crypto_sizesD [OF sz] keeps_def)
    done
qed

lemma prepare_msg1_total:
  assumes h: "honest C priv net env" and sz: "crypto_sizes C p" and wf: "wf_ctx_v p ctx"
    and b: "in_bounds (ecdh_verifier_public_key (msg1_v ctx))" "in_bounds (msg0_v ctx)"
      "in_bounds (ecdsa_verifier_public_key (msg1_v ctx))"
    and len: "sizeof_msg1 p (sizeof_size_t p) \<le> length buffer"
      "length (x_raw (ecdsa_verifier_public_key (msg1_v ctx))) = 32"
      "length (y_raw (ecdsa_verifier_public_key (msg1_v ctx))) = 32"
  shows "twp (prepare_msg1 p ctx buffer n) env tr (\<lambda>(res, ctx', buffer', n') tr'. res = TEE_SUCCESS)"
proof -
  note gp = honest_gp_tee [OF h]
  have w: "length (ecdh_signature (msg1_v ctx)) = RA_SIGNATURE_SIZE p" "length (mac1 (msg1_v ctx)) = 16"
    "length (x_raw (ecdh_verifier_public_key (msg1_v ctx))) = 32"
    "length (y_raw (ecdh_verifier_public_key (msg1_v ctx))) = 32"
    using wf by (simp_all add: wf_ctx_v_def)
  show ?thesis
    using len unfolding prepare_msg1_def Let_def
    apply (simp only: not_less [symmetric] if_False)
    apply (rule twp_stepI [OF twp_with [OF append_ecdh_public_keys_signature_total [OF h sz b(1,2) w(1)]
              append_ecdh_public_keys_signature_spec [OF gp w(1)]]])
    apply (rule twp_stepI [OF twp_with [OF append_mac_total [OF h sz] append_mac_spec [OF gp]]])
       apply (use b w in \<open>simp_all add: twp_simps\<close>)
    apply (simp add: enc_msg1_def enc_point_def sizeof_msg1_def body_msg1_def sizeof_msg0_def not_less)
    done
qed

lemma handle_msg2_total:
  assumes h: "honest C priv net env" and sz: "crypto_sizes C p"
    and live: "ecdsa_attester_public_key_handle ctx \<in> live_objs tr" "ecdh_shared_mac_key_v ctx \<in> live_objs tr"
    and len: "sizeof_msg2 p (sizeof_size_t p) \<le> length buffer"
    and m: "m = dec_msg2 p (sizeof_size_t p) buffer"
    and b: "in_bounds (msg0_v ctx)" "in_bounds (ecdh_verifier_public_key (msg1_v ctx))"
      "in_bounds (ecdh_local_public_key m)" "x_size (msg0_v ctx) \<le> 32" "y_size (msg0_v ctx) \<le> 32"
      "32 \<le> length (quote_anchor p (quote m))"
    and ok: "evidence_ok C p tr (ctx\<lparr>msg2_v := m\<rparr>)"
  shows "twp (handle_msg2 p ctx buffer) env tr (\<lambda>(res, ctx') tr'. res = TEE_SUCCESS)"
proof -
  note gp = honest_gp_tee [OF h]
  have pt: "length (x_raw (ecdh_local_public_key m)) = 32" "length (y_raw (ecdh_local_public_key m)) = 32"
    using msg2_codec.wf_dec [OF len] by (simp_all add: m wf_msg2_def wf_point_def)
  have st: "store_msg2 p c buffer = (TEE_SUCCESS, c\<lparr>msg2_v := m\<rparr>)" for c
    using len by (simp add: store_msg2_def m)
  show ?thesis
    unfolding handle_msg2_def st Let_def prod.case
    apply (simp only: simp_thms if_False)
    apply (rule twp_checkI [OF twp_with_check [OF verify_mac_msg2_total [OF h] verify_mac_msg2_spec [OF gp]]])
      apply (use b ok in \<open>simp_all add: evidence_ok_def Let_def\<close>)
    apply (rule twp_bindI [of _ _ _ "\<lambda>res tr'. res = TEE_SUCCESS \<and> keeps tr tr'"])
     apply (simp add: verify_public_key_msg2_matches_msg0_def Let_def twp_simps pt in_bounds_def)
    apply clarsimp
    apply (rule twp_stepI [OF twp_with [OF verify_quote_signature_total [OF h sz] verify_quote_signature_spec [OF gp]]])
     apply (use live in \<open>simp add: keeps_def\<close>)
    apply (rule twp_bindI [OF verify_anchor_total [OF h sz]])
        apply (simp_all add: crypto_sizesD [OF sz] twp_simps)
    done
qed

lemma prepare_msg3_total:
  assumes h: "honest C priv net env" and sz: "crypto_sizes C p"
    and live: "ecdh_shared_session_key_v ctx \<in> live_objs tr"
    and len: "n \<le> length dat" "sizeof_msg3 (sizeof_size_t p) + n \<le> length buffer"
  shows "twp (prepare_msg3 p ctx buffer dat n) env tr (\<lambda>(res, ctx', buffer') tr'. res = TEE_SUCCESS)"
  using live len
  unfolding prepare_msg3_def allocate_msg3_v_def encrypt_msg3_def free_msg3_def free_op_def Let_def
  by (auto intro!: honest_callI [OF h] simp: twp_simps honest_simps crypto_sizesD [OF sz] sizeof_msg3_def)

end
