(* ===== verification/Protocol.thy ===== *)
theory Protocol
  imports Verifier_Honest
begin

text \<open>
  The two sides together: what one side sends is what the other accepts, both derive the same keys,
  and the content of message 3 arrives. The laws of the primitives that make this true are stated
  as \<open>crypto_laws\<close>; \<open>toy_crypto\<close> is a choice of primitives that satisfies them, for the concrete
  instances of the theorems.
\<close>

section \<open>Laws of the primitives\<close>

definition crypto_laws :: "crypto \<Rightarrow> bool" where
  "crypto_laws C \<longleftrightarrow> (\<forall>d h. ecdsa_ok C (pub_x C d) (pub_y C d) h (ecdsa_sign C d h))
     \<and> (\<forall>a b. ecdh C a (pub_x C b) (pub_y C b) = ecdh C b (pub_x C a) (pub_y C a))
     \<and> (\<forall>k i d. gcm_open C k i (fst (gcm_seal C k i d)) (snd (gcm_seal C k i d)) = Some d)"

text \<open>The public key of a private value, as the messages carry it.\<close>

definition point_of :: "crypto \<Rightarrow> bytes \<Rightarrow> ec_point" where
  "point_of C d = \<lparr>x_raw = pub_x C d, x_size = 32, y_raw = pub_y C d, y_size = 32\<rparr>"

lemma fresh_key_point_of:
  assumes "crypto_sizes C p" "fresh_key C v pt"
  shows "pt = point_of C (priv_of v)"
  using assms by (auto simp: fresh_key_def point_of_def crypto_sizesD [OF assms(1)])

lemma point_of_simps:
  assumes "crypto_sizes C p"
  shows "wf_point 4 (point_of C d)" "in_bounds (point_of C d)"
    "point_bytes (point_of C d) = pub_x C d @ pub_y C d"
    "take (x_size (point_of C d)) (x_raw (point_of C d)) = pub_x C d"
    "take (y_size (point_of C d)) (y_raw (point_of C d)) = pub_y C d"
  using assms by (simp_all add: point_of_def wf_point_def in_bounds_def point_bytes_def crypto_sizesD)

lemma same_labels: "WASI_RA_SHARED_MAC_DATA = RA_SHARED_MAC_DATA"
  "WASI_RA_SHARED_SESSION_DATA = RA_SHARED_SESSION_DATA"
  by (simp_all add: WASI_RA_SHARED_MAC_DATA_def RA_SHARED_MAC_DATA_def WASI_RA_SHARED_SESSION_DATA_def
      RA_SHARED_SESSION_DATA_def)

section \<open>Message 1 of the verifier is acceptable to the attester\<close>

lemma shared_secret:
  assumes "crypto_laws C" "crypto_sizes C p" "has_keys_v C tr ctx" "msg0_v ctx = point_of C priv"
    and "ecdh_verifier_public_key m = ecdh_verifier_public_key (msg1_v ctx)"
  shows "remote_secret C (KPriv priv) m = attester_secret C tr ctx"
proof -
  have "fresh_key C (obj_val tr (ecdh_local_keypair_handle_v ctx)) (ecdh_verifier_public_key (msg1_v ctx))"
    using assms(3) by (simp add: stage_v_defs)
  from fresh_key_point_of [OF assms(2) this] show ?thesis
    using assms(1,4,5)
    by (simp add: remote_secret_def attester_secret_def Let_def point_of_simps [OF assms(2)] crypto_laws_def)
qed

lemma protocol_msg1_acceptable:
  assumes laws: "crypto_laws C" and sz: "crypto_sizes C p" and k: "has_keys_v C tr ctx"
    and o: "session_open C tr ctx" and ga: "msg0_v ctx = point_of C priv"
    and t: "trusted_key (ecdsa_verifier_public_key (msg1_v ctx)) kx kx_size ky ky_size"
  shows "acceptable C priv kx kx_size ky ky_size (protocol_msg1 C tr ctx)"
proof -
  let ?m = "protocol_msg1 C tr ctx"
  have gv: "ecdh_verifier_public_key ?m = point_of C (priv_of (obj_val tr (ecdh_local_keypair_handle_v ctx)))"
    using k fresh_key_point_of [OF sz] by (simp add: protocol_msg1_def Let_def stage_v_defs)
  have kv: "ecdsa_verifier_public_key ?m = point_of C (priv_of (obj_val tr (ecdsa_local_keypair_handle ctx)))"
    using o fresh_key_point_of [OF sz] by (simp add: protocol_msg1_def Let_def session_open_def)
  have kv': "ecdsa_verifier_public_key (msg1_v ctx) = ecdsa_verifier_public_key ?m"
    and gv': "ecdh_verifier_public_key (msg1_v ctx) = ecdh_verifier_public_key ?m"
    by (simp_all add: protocol_msg1_def Let_def)
  have sig: "ecdh_signature ?m = ecdsa_sign C (priv_of (obj_val tr (ecdsa_local_keypair_handle ctx)))
      (sha256 C (point_bytes (ecdh_verifier_public_key ?m) @ pub_x C priv @ pub_y C priv))"
    by (simp add: protocol_msg1_def Let_def ga point_of_simps [OF sz])
  have mac: "mac1 ?m = cmac C (label_key C WASI_RA_SHARED_MAC_DATA (remote_secret C (KPriv priv) ?m))
      (point_bytes (ecdh_verifier_public_key ?m) @ point_bytes (ecdsa_verifier_public_key ?m) @ ecdh_signature ?m)"
    using k unfolding shared_secret [OF laws sz k ga gv' [symmetric]]
    by (simp add: protocol_msg1_def Let_def stage_v_defs same_labels)
  have "remote_secret C (KPriv priv) ?m = ecdh C priv (take (x_size (ecdh_verifier_public_key ?m)) (x_raw (ecdh_verifier_public_key ?m)))
      (take (y_size (ecdh_verifier_public_key ?m)) (y_raw (ecdh_verifier_public_key ?m)))"
    by (simp add: remote_secret_def Let_def)
  then show ?thesis
    using laws t mac unfolding acceptable_def Let_def kv'
    by (simp add: kv gv sig point_of_simps [OF sz] crypto_laws_def)
qed

section \<open>Message 3\<close>

lemma opened_sealed_msg3:
  assumes laws: "crypto_laws C" and sz: "crypto_sizes C p"
    and s: "sealed_msg3 C w key i content buffer buffer'" and n: "length content < 256 ^ w"
  shows "opened_msg3 C w key (buffer' @ rest) = Some content"
proof -
  define ct where "ct = fst (gcm_seal C key i content)"
  define t where "t = snd (gcm_seal C key i content)"
  define hd where "hd = \<lparr>iv = i, tag = t, encrypted_content_size = length ct\<rparr>"
  have len: "length ct = length content" "length t = 16" "length i = 32"
    using s by (simp_all add: ct_def t_def crypto_sizesD [OF sz] sealed_msg3_def Let_def)
  have wf: "wf_msg3 w hd"
    using n by (simp add: wf_msg3_def hd_def len)
  have hdr: "length (enc_msg3 w hd) = sizeof_msg3 w"
    by (rule msg3_codec.length_enc [OF wf])
  have b: "buffer' = enc_msg3 w hd @ ct @ drop (sizeof_msg3 w + length ct) buffer" "sizeof_msg3 w + length ct \<le> length buffer"
    using s hdr by (simp_all add: sealed_msg3_def Let_def splice_def ct_def t_def hd_def)
  have "dec_msg3 w (buffer' @ rest) = hd"
    unfolding b(1) append_assoc by (rule msg3_codec.dec_enc_append [OF wf])
  moreover have "take (length ct) (drop (sizeof_msg3 w) (buffer' @ rest)) = ct"
    unfolding b(1) by (simp add: hdr)
  ultimately show ?thesis
    using laws by (simp add: opened_msg3_def Let_def hd_def crypto_laws_def ct_def t_def)
qed

section \<open>A concrete choice of primitives\<close>

definition pad :: "nat \<Rightarrow> bytes \<Rightarrow> bytes" where
  "pad n d = take n (d @ replicate n 0)"

definition xor_bytes :: "bytes \<Rightarrow> bytes \<Rightarrow> bytes" where
  "xor_bytes a b = map2 (\<lambda>x y. Bit_Operations.xor x y) a b"

definition toy_crypto :: crypto where
  "toy_crypto =
     \<lparr>sha256 = pad 32, cmac = (\<lambda>k m. pad 16 (k @ m)), pub_x = pad 32, pub_y = pad 32,
      ecdh = (\<lambda>d x y. pad 32 (xor_bytes (pad 32 d) x)),
      ecdsa_sign = (\<lambda>d h. pad 32 d @ pad 32 h), ecdsa_ok = (\<lambda>x y h s. s = x @ pad 32 h),
      gcm_seal = (\<lambda>k i d. (d, pad 16 k)), gcm_open = (\<lambda>k i c t. if t = pad 16 k then Some c else None)\<rparr>"

definition toy_params :: ra_params where
  "toy_params = \<lparr>sizeof_size_t = 4, RA_SIGNATURE_SIZE = 64, RA_ANCHOR_SIZE = 32, sizeof_ra_quote = 224,
     quote_anchor = take 32, quote_version = (\<lambda>q. take 32 (drop 32 q)),
     quote_claim_hash = (\<lambda>q. take 32 (drop 64 q)), quote_attestation_key = (\<lambda>q. take 64 (drop 96 q)),
     quote_signature = (\<lambda>q. take 64 (drop 160 q)), uninit_handle = 0, uninit_size = 0\<rparr>"

lemma length_pad [simp]: "length (pad n d) = n"
  by (simp add: pad_def)

lemma toy_sizes: "crypto_sizes toy_crypto toy_params"
  by (simp add: crypto_sizes_def toy_crypto_def toy_params_def)

lemma xor_bytes_commute: "xor_bytes a b = xor_bytes b a"
  by (simp add: xor_bytes_def zip_commute [of a b] xor.commute case_prod_beta comp_def)

lemma toy_laws: "crypto_laws toy_crypto"
  by (simp add: crypto_laws_def toy_crypto_def xor_bytes_commute)

end
