(* ===== verification/Server_Honest.thy ===== *)
theory Server_Honest
  imports Server_Spec Protocol
begin

text \<open>
  The server completes: against an honest application environment, and a host whose system calls
  succeed, a connection on which an attester sends a key and then acceptable evidence ends with
  message 3. A buffer that is too small for message 1 ends the server instead; the built-in secret
  leads to such a buffer.
\<close>

section \<open>The host's system calls\<close>

primrec sock_reads :: "trace \<Rightarrow> nat" where
  "sock_reads [] = 0"
| "sock_reads (e # tr) = (case fst e of Host (sys_read _ _) \<Rightarrow> Suc (sock_reads tr) | _ \<Rightarrow> sock_reads tr)"

lemma sock_reads_host:
  "sock_reads tr = length (filter (\<lambda>(e, _). case fst e of Host (sys_read _ _) \<Rightarrow> True | _ \<Rightarrow> False) (host_events tr))"
  by (induction tr) (auto split: tee_call.splits host_call.splits)

lemma sock_reads_cong: "host_events tr' = host_events tr \<Longrightarrow> sock_reads tr' = sock_reads tr"
  by (simp add: sock_reads_host)

text \<open>No call fails, and the reads deliver the given messages in turn.\<close>

definition host_served :: "(nat \<Rightarrow> bytes) \<Rightarrow> trace \<Rightarrow> host_call \<Rightarrow> tee_answer \<Rightarrow> bool" where
  "host_served msgs tr h a \<longleftrightarrow> ans_res a = TEE_SUCCESS \<and> (case h of
       sys_read _ n \<Rightarrow> ans_data a = take n (msgs (sock_reads tr))
     | sys_malloc n \<Rightarrow> ans_handle a \<noteq> 0
     | _ \<Rightarrow> True)"

definition host_serves :: "(nat \<Rightarrow> bytes) \<Rightarrow> env \<Rightarrow> bool" where
  "host_serves msgs env \<longleftrightarrow> (\<forall>tr h a. env tr (Host h) = Some a \<longrightarrow> host_served msgs tr h a)"

lemma host_callI:
  assumes h: "honest C priv net env" and s: "host_serves msgs env"
    and k: "\<And>a. ans_ok C tr (Host c) a \<Longrightarrow> host_served msgs tr c a \<Longrightarrow> twp (k a) env ((Host c, a) # tr) Q"
  shows "twp (call (Host c) k) env tr Q"
proof -
  obtain a where "env tr (Host c) = Some a"
    using h by (auto simp: honest_def)
  then show ?thesis
    using s gp_teeD [OF honest_gp_tee [OF h]] by (simp add: twp_call host_serves_def k)
qed

lemma twp_commandI:
  assumes h: "honest C priv net env" and s: "host_serves msgs env"
    and ta: "\<And>c a. twp (TA_InvokeCommandEntryPoint p ta cmd types params) env ((Host c, a) # tr)
      (\<lambda>(res, ta', params') tr'. res = TEE_SUCCESS \<and> R ta' params' tr')"
    and k: "\<And>ta' params' tr'. R ta' params' tr' \<Longrightarrow> sock_reads tr' = sock_reads tr \<Longrightarrow> twp (k ta' params') env tr' Q"
  shows "twp (bind (invoke_command p ta cmd types params)
      (\<lambda>(res, ta', params'). if res \<noteq> TEE_SUCCESS then return (Inl 1) else k ta' params')) env tr Q"
  unfolding invoke_command_def twp_bind
  apply (rule host_callI [OF h s])
  apply (simp add: host_served_def)
  apply (rule twp_mono [OF twp_silent [OF quiet_command ta]])
  apply (auto dest!: sock_reads_cong [where tr = "(Host (TEEC_InvokeCommand cmd), a) # tr" for a, simplified] intro: k)
  done

section \<open>Acceptable evidence\<close>

text \<open>A message 2 that passes every check of a verifier with the given private value, after message 0
  brought the key \<open>ga\<close>.\<close>

definition acceptable_evidence :: "crypto \<Rightarrow> ra_params \<Rightarrow> bytes \<Rightarrow> ec_point \<Rightarrow> msg2_t \<Rightarrow> bool" where
  "acceptable_evidence C p priv ga m \<longleftrightarrow>
     (let ga2 = ecdh_local_public_key m; q = quote m;
          secret = ecdh C priv (take (x_size ga) (x_raw ga)) (take (y_size ga) (y_raw ga)) in
      in_bounds ga \<and> in_bounds ga2 \<and> x_size ga \<le> 32 \<and> y_size ga \<le> 32 \<and> 32 \<le> length (quote_anchor p q)
      \<and> mac2 m = cmac C (label_key C RA_SHARED_MAC_DATA secret) (point_bytes ga2 @ q)
      \<and> take (x_size ga) (x_raw ga2) = take (x_size ga) (x_raw ga)
      \<and> take (y_size ga) (y_raw ga2) = take (y_size ga) (y_raw ga)
      \<and> ecdsa_ok C RA_IMX_TEST_PUBLIC_KEY_X RA_IMX_TEST_PUBLIC_KEY_Y (sha256 C (quote_body p q)) (quote_signature p q)
      \<and> take 32 (quote_anchor p q) = sha256 C (point_bytes ga @ pub_x C priv @ pub_y C priv))"

text \<open>The state of the application between the messages, for the verifier's private value.\<close>

definition ready :: "crypto \<Rightarrow> ra_params \<Rightarrow> bytes \<Rightarrow> bytes \<Rightarrow> ec_point \<Rightarrow> trace \<Rightarrow> ra_context_verifier \<Rightarrow> bool" where
  "ready C p sec priv ga tr ta \<longleftrightarrow> session_ok C p tr ta \<and> has_keys_v C tr ta \<and> msg0_v ta = ga
     \<and> obj_val tr (ecdh_local_keypair_handle_v ta) = KPriv priv
     \<and> secret ta = sec \<and> secret_size ta = length sec"

lemma evidence_acceptable:
  assumes sz: "crypto_sizes C p" and r: "ready C p sec priv ga tr ta" and e: "acceptable_evidence C p priv ga m"
  shows "evidence_ok C p tr (ta\<lparr>msg2_v := m\<rparr>)"
proof -
  have "fresh_key C (KPriv priv) (ecdh_verifier_public_key (msg1_v ta))"
    using r by (auto simp: ready_def stage_v_defs)
  then have "point_bytes (ecdh_verifier_public_key (msg1_v ta)) = pub_x C priv @ pub_y C priv"
    using fresh_key_bytes by fastforce
  then show ?thesis
    using r e by (auto simp: evidence_ok_def acceptable_evidence_def Let_def ready_def stage_v_defs
        session_ok_def endorsed_session_def crypto_sizesD [OF sz])
qed

lemma receive_msg0_total:
  assumes h: "honest C priv net env" and s: "host_serves msgs env" and sz: "crypto_sizes C p"
    and ok: "session_ok C p tr ta" "secret ta = sec" "secret_size ta = length sec"
    and b: "sizeof_msg0 (sizeof_size_t p) \<le> length buffer" "in_bounds (dec_point (sizeof_size_t p) buffer)"
  shows "twp (receive_msg0 p ta buffer) env tr (\<lambda>r tr'. \<exists>ta'. r = Inr ta'
    \<and> (ready C p sec priv (dec_point (sizeof_size_t p) buffer) tr' ta' \<and> sock_reads tr' = sock_reads tr))"
proof -
  have wf: "wf_ctx_v p ta" using ok by (simp add: session_ok_def)
  have h0: "twp (handle_msg0 p ta buffer) env ((Host c, a) # tr) (\<lambda>(res, ta') tr'. res = TEE_SUCCESS \<and>
      ready C p sec priv (dec_point (sizeof_size_t p) buffer) tr' ta')" for c a
    by (rule twp_mono [OF twp_wp [OF handle_msg0_total [OF h sz wf b] handle_msg0_spec [OF honest_gp_tee [OF h] wf]]])
      (use ok in \<open>auto simp: ready_def session_ok_def endorsed_session_def session_open_def wf_ctx_v_def msg0_frame_def
        has_keys_v_def has_mac_key_v_def has_kdk_v_def fresh_key_def keeps_def obj_upd_def\<close>)
  show ?thesis
    unfolding receive_msg0_def
    by (rule twp_commandI [OF h s, where R = "\<lambda>ta' params' tr'. ready C p sec priv (dec_point (sizeof_size_t p) buffer) tr' ta'"])
      (auto simp: TA_InvokeCommandEntryPoint_def verifier_command_defs twp_simps intro: twp_mono [OF h0])
qed

lemma readyD:
  assumes "ready C p sec priv ga tr ta" "crypto_sizes C p"
  shows "wf_ctx_v p ta" "in_bounds (ecdh_verifier_public_key (msg1_v ta))"
    "in_bounds (ecdsa_verifier_public_key (msg1_v ta))"
    "length (x_raw (ecdsa_verifier_public_key (msg1_v ta))) = 32"
    "length (y_raw (ecdsa_verifier_public_key (msg1_v ta))) = 32"
    "ecdh_shared_mac_key_v ta \<in> live_objs tr" "ecdsa_attester_public_key_handle ta \<in> live_objs tr"
    "ecdh_shared_session_key_v ta \<in> live_objs tr"
  using assms
  by (auto simp: ready_def session_ok_def session_open_def endorsed_session_def stage_v_defs fresh_key_def
      in_bounds_def crypto_sizesD [OF assms(2)])

lemma ready_host: "ready C p sec priv ga tr ta \<Longrightarrow> ready C p sec priv ga ((Host c, a) # tr) ta"
  by (auto simp: ready_def session_ok_def session_open_def endorsed_session_def stage_v_defs obj_upd_def)

lemma unat_u32_le: "unat (of_nat n :: u32) \<le> n"
  by (simp add: unat_of_nat)

lemma prepare_msg1_host_total:
  assumes h: "honest C priv net env" and s: "host_serves msgs env" and sz: "crypto_sizes C p"
    and r: "ready C p sec priv ga tr ta" and ga: "in_bounds ga"
    and len: "sizeof_msg1 p (sizeof_size_t p) \<le> length buffer"
  shows "twp (prepare_msg1_host p ta buffer) env tr (\<lambda>r tr'. \<exists>x. r = Inr x \<and> (case x of (ta', buffer', n) \<Rightarrow>
    ready C p sec priv ga tr' ta' \<and> length buffer' = length buffer \<and> n \<le> length buffer \<and> sock_reads tr' = sock_reads tr))"
proof -
  note rd = readyD [OF r sz]
  have p1: "twp (prepare_msg1 p ta buffer k) env ((Host c, a) # tr) (\<lambda>(res, ta', buffer', n) tr'. res = TEE_SUCCESS
      \<and> ready C p sec priv ga tr' ta' \<and> length buffer' = length buffer \<and> n \<le> length buffer)" for c a k
  proof (rule twp_mono [OF twp_wp [OF prepare_msg1_total [OF h sz] prepare_msg1_spec [OF honest_gp_tee [OF h]]]])
    show "in_bounds (msg0_v ta)" using r ga by (simp add: ready_def)
    show "ecdh_shared_mac_key_v ta \<in> live_objs ((Host c, a) # tr)" using rd by simp
  qed (use rd len r in \<open>auto simp: ready_def session_ok_def endorsed_session_def session_open_def wf_ctx_v_def
      stage_v_defs fresh_key_def keeps_def obj_upd_def length_enc_msg1_arrays protocol_msg1_def Let_def\<close>)
  show ?thesis
    unfolding prepare_msg1_host_def
    by (rule twp_commandI [OF h s, where R = "\<lambda>ta' params' tr'. ready C p sec priv ga tr' ta'
          \<and> length (memref (params' ! 0)) = length buffer \<and> unat (value_a (params' ! 1)) \<le> length buffer"])
      (auto simp: TA_InvokeCommandEntryPoint_def verifier_command_defs twp_simps
        intro!: twp_mono [OF p1] order_trans [OF unat_u32_le])
qed

lemma receive_msg2_total:
  assumes h: "honest C priv net env" and s: "host_serves msgs env" and sz: "crypto_sizes C p"
    and r: "ready C p sec priv ga tr ta"
    and len: "sizeof_msg2 p (sizeof_size_t p) \<le> length buffer"
    and e: "acceptable_evidence C p priv ga (dec_msg2 p (sizeof_size_t p) buffer)"
  shows "twp (receive_msg2 p ta buffer bench) env tr (\<lambda>r tr'. \<exists>x. r = Inr x \<and> (case x of (ta', bench') \<Rightarrow>
    ecdh_shared_session_key_v ta' \<in> live_objs tr' \<and> secret ta' = secret ta \<and> secret_size ta' = secret_size ta))"
proof -
  note rd = readyD [OF r sz]
  have ev: "evidence_ok C p ((Host c, a) # tr) (ta\<lparr>msg2_v := dec_msg2 p (sizeof_size_t p) buffer\<rparr>)" for c a
    by (rule evidence_acceptable [OF sz ready_host [OF r] e])
  have h2: "twp (handle_msg2 p ta buffer) env ((Host c, a) # tr) (\<lambda>(res, ta') tr'. res = TEE_SUCCESS
      \<and> is_quote_valid ta' \<and> ecdh_shared_session_key_v ta' \<in> live_objs tr'
      \<and> secret ta' = secret ta \<and> secret_size ta' = secret_size ta)" for c a
  proof (rule twp_mono [OF twp_wp [OF handle_msg2_total [OF h sz _ _ len refl _ _ _ _ _ _ ev] handle_msg2_spec [OF honest_gp_tee [OF h]]]])
  qed (use rd r e in \<open>auto simp: acceptable_evidence_def Let_def ready_def keeps_def\<close>)
  show ?thesis
    unfolding receive_msg2_def
    by (rule twp_commandI [OF h s, where R = "\<lambda>ta' params' tr'. ecdh_shared_session_key_v ta' \<in> live_objs tr'
          \<and> secret ta' = secret ta \<and> secret_size ta' = secret_size ta \<and> value_a (params' ! 1) = 1"])
      (auto simp: TA_InvokeCommandEntryPoint_def verifier_command_defs twp_simps intro!: twp_mono [OF h2])
qed

lemma prepare_msg3_host_total:
  assumes h: "honest C priv net env" and s: "host_serves msgs env" and sz: "crypto_sizes C p"
    and live: "ecdh_shared_session_key_v ta \<in> live_objs tr"
    and len: "secret_size ta \<le> length (secret ta)" "sizeof_msg3 (sizeof_size_t p) + secret_size ta \<le> length buffer"
  shows "twp (prepare_msg3_host p ta buffer bench) env tr (\<lambda>r tr'. \<exists>x. r = Inr x \<and> (case x of (ta', buffer', bench') \<Rightarrow>
    length buffer' = length buffer))"
proof -
  have p3: "twp (prepare_msg3 p ta buffer (secret ta) (secret_size ta)) env ((Host c, a) # tr)
      (\<lambda>(res, ta', buffer') tr'. res = TEE_SUCCESS \<and> length buffer' = length buffer)" for c a
    by (rule twp_mono [OF twp_wp [OF prepare_msg3_total [OF h sz _ len] prepare_msg3_frame [OF honest_gp_tee [OF h]]]])
      (use live in auto)
  show ?thesis
    unfolding prepare_msg3_host_def
    by (rule twp_commandI [OF h s, where R = "\<lambda>ta' params' tr'. length (memref (params' ! 0)) = length buffer"])
      (auto simp: TA_InvokeCommandEntryPoint_def verifier_command_defs twp_simps intro!: twp_mono [OF p3])
qed

text \<open>The size of the buffer that carries all messages of a connection.\<close>

definition buff_room :: "ra_params \<Rightarrow> nat \<Rightarrow> nat" where
  "buff_room p n = n + sizeof_msg3 (sizeof_size_t p) + RA_AES_GCM_CIPHERTEXT_OVERHEAD"

lemma handle_connection_total:
  assumes h: "honest C priv net env" and s: "host_serves msgs env" and sz: "crypto_sizes C p"
    and ok: "session_ok C p tr ta" "secret ta = sec" "secret_size ta = length sec" and r: "sock_reads tr = 0"
    and room: "buff_room p (length sec) < 256 ^ sizeof_size_t p"
      "sizeof_msg1 p (sizeof_size_t p) \<le> buff_room p (length sec)"
      "sizeof_msg2 p (sizeof_size_t p) \<le> buff_room p (length sec)"
    and m: "sizeof_msg0 (sizeof_size_t p) \<le> length (msgs 0)" "sizeof_msg2 p (sizeof_size_t p) \<le> length (msgs (Suc 0))"
    and e: "acceptable_evidence C p priv (dec_point (sizeof_size_t p) (msgs 0)) (dec_msg2 p (sizeof_size_t p) (msgs (Suc 0)))"
  shows "twp (handle_connection p (length sec) fd ta) env tr (\<lambda>r tr'. \<exists>ta'. r = Inr ta')"
proof -
  let ?ga = "dec_point (sizeof_size_t p) (msgs 0)"
  have gb: "in_bounds ?ga" using e by (simp add: acceptable_evidence_def Let_def)
  have m0: "sizeof_msg0 (sizeof_size_t p) \<le> buff_room p (length sec)" using room by (simp add: sizeof_msg2_def body_msg2_def)
  have m3: "sizeof_msg3 (sizeof_size_t p) + length sec \<le> buff_room p (length sec)" by (simp add: buff_room_def)
  have host: "session_ok C p t x \<Longrightarrow> session_ok C p ((Host c, a) # t) x" for t c a x
    by (rule session_ok_keeps [OF _ keeps_host])
  have rd0: "dec_point (sizeof_size_t p) (splice buf 0 (take (buff_room p (length sec)) (msgs 0))) = ?ga" for buf
    by (rule point_codec.dec_received [OF m(1) m0])
  have rd1: "dec_msg2 p (sizeof_size_t p) (splice buf 0 (take (buff_room p (length sec)) (msgs (Suc 0))))
      = dec_msg2 p (sizeof_size_t p) (msgs (Suc 0))" for buf
    by (rule msg2_codec.dec_received [OF m(2) room(3)])
  have bse: "(length sec + sizeof_msg3 (sizeof_size_t p) + RA_AES_GCM_CIPHERTEXT_OVERHEAD) mod 256 ^ sizeof_size_t p
      = buff_room p (length sec)"
    using room by (simp add: buff_room_def)
  show ?thesis
    unfolding handle_connection_def Let_def bse
    apply (rule host_callI [OF h s], simp add: twp_simps gp_simps host_served_def)
    apply (rule host_callI [OF h s], simp add: twp_simps gp_simps host_served_def)
    apply (rule host_callI [OF h s], simp add: twp_simps gp_simps host_served_def r)
    apply (rule twp_execI [OF receive_msg0_total [OF h s sz]], simp_all add: host ok rd0 gb m0, elim conjE)
    apply (rule twp_execI [OF prepare_msg1_host_total [OF h s sz _ gb]], assumption, simp add: room)
    apply (clarsimp simp: twp_simps)
    apply (rule host_callI [OF h s], simp add: twp_simps gp_simps host_served_def)
    apply (rule host_callI [OF h s], simp add: twp_simps gp_simps host_served_def r)
    apply (rule twp_execI [OF receive_msg2_total [OF h s sz]], intro ready_host, assumption, simp_all add: room rd1 e)
    apply (simp add: split_beta, elim conjE)
    apply (rule twp_execI [OF prepare_msg3_host_total [OF h s sz]], assumption)
      apply (simp_all add: m3 ready_def)
    apply (clarsimp simp: twp_simps)
    apply (rule host_callI [OF h s])+
    apply (simp add: twp_return)
    done
qed

section \<open>The whole program completes\<close>

lemma TA_OpenSessionEntryPoint_total:
  assumes h: "honest C priv net env" and sz: "crypto_sizes C p"
  shows "twp (TA_OpenSessionEntryPoint (context_singleton p)
      (TEE_PARAM_TYPES TEE_PARAM_TYPE_NONE TEE_PARAM_TYPE_NONE TEE_PARAM_TYPE_NONE TEE_PARAM_TYPE_NONE)) env tr
      (\<lambda>(res, ta) tr'. res = TEE_SUCCESS \<and> session_ok C p tr' ta)"
proof -
  have "twp (TA_OpenSessionEntryPoint (context_singleton p)
      (TEE_PARAM_TYPES TEE_PARAM_TYPE_NONE TEE_PARAM_TYPE_NONE TEE_PARAM_TYPE_NONE TEE_PARAM_TYPE_NONE)) env tr
      (\<lambda>(res, ta) tr'. res = TEE_SUCCESS)"
    unfolding TA_OpenSessionEntryPoint_def import_attester_attestation_key_def generate_ecdsa_keypair_def
      get_buffer_attribute_def Let_def
    by (auto intro!: honest_callI [OF h] simp: twp_simps honest_simps crypto_sizesD [OF sz] context_singleton_def
        zero_point_def)
  then show ?thesis
    unfolding session_ok_def
    by (rule twp_with [OF _ TA_OpenSessionEntryPoint_spec [OF honest_gp_tee [OF h] wf_singleton]])
qed

lemma twp_quiet_host:
  "quiet m \<Longrightarrow> twp m env tr Q \<Longrightarrow>
   twp m env tr (\<lambda>x tr'. Q x tr' \<and> sock_reads tr' = sock_reads tr \<and> sock_writes tr' = sock_writes tr)"
  by (rule twp_mono [OF twp_silent [of host_events]])
    (auto dest: sock_reads_cong sock_writes_cong)

lemma prepare_tee_session_total:
  assumes h: "honest C priv net env" and s: "host_serves msgs env" and sz: "crypto_sizes C p"
  shows "twp (prepare_tee_session (context_singleton p)) env tr (\<lambda>r tr'. \<exists>ta. r = Inr ta \<and>
    (session_ok C p tr' ta \<and> sock_reads tr' = sock_reads tr \<and> sock_writes tr' = sock_writes tr))"
  unfolding prepare_tee_session_def
  apply (rule host_callI [OF h s], simp add: twp_simps host_served_def)
  apply (rule host_callI [OF h s], simp add: twp_simps host_served_def)
  apply (rule twp_mono [OF twp_quiet_host [OF quiet_open TA_OpenSessionEntryPoint_total [OF h sz]]])
  apply auto
  done

lemma bootstrap_secret_total:
  assumes h: "honest C priv net env" and s: "host_serves msgs env" and ok: "session_ok C p tr ta"
  shows "twp (bootstrap_secret p ta sec) env tr (\<lambda>r tr'. \<exists>ta'. r = Inr ta' \<and>
    (session_ok C p tr' ta' \<and> secret ta' = sec \<and> secret_size ta' = length sec \<and> sock_reads tr' = sock_reads tr
     \<and> sock_writes tr' = sock_writes tr))"
proof -
  have c: "twp (TA_ConfigureCustomSecret ta sec) env ((Host c, a) # tr) (\<lambda>(res, ta') tr'. res = TEE_SUCCESS \<and>
      session_ok C p tr' ta' \<and> secret ta' = sec \<and> secret_size ta' = length sec)" for c a
    unfolding TA_ConfigureCustomSecret_def Let_def
    using ok by (auto intro!: honest_callI [OF h] simp: twp_simps honest_simps session_ok_def endorsed_session_def
        session_open_def wf_ctx_v_def)
  have "twp (bootstrap_secret p ta sec) env tr (\<lambda>r tr'. \<exists>ta'. r = Inr ta' \<and>
    (session_ok C p tr' ta' \<and> secret ta' = sec \<and> secret_size ta' = length sec \<and> sock_reads tr' = sock_reads tr))"
    unfolding bootstrap_secret_def
    by (rule twp_commandI [OF h s, where R = "\<lambda>ta' params' tr'. session_ok C p tr' ta' \<and> secret ta' = sec \<and> secret_size ta' = length sec"])
      (auto simp: TA_InvokeCommandEntryPoint_def verifier_command_defs twp_simps intro!: twp_mono [OF c])
  from twp_wp [OF this bootstrap_secret_spec [OF honest_gp_tee [OF h] ok]] show ?thesis
    by (rule twp_mono) (auto simp: sock_writes_sent)
qed

text \<open>The conditions on the sizes under which a connection can carry its messages, and a peer that
  sends a key and acceptable evidence.\<close>

definition roomy :: "ra_params \<Rightarrow> bytes \<Rightarrow> bool" where
  "roomy p sec \<longleftrightarrow> buff_room p (length sec) < 256 ^ sizeof_size_t p
     \<and> sizeof_msg1 p (sizeof_size_t p) \<le> buff_room p (length sec)
     \<and> sizeof_msg2 p (sizeof_size_t p) \<le> buff_room p (length sec)"

definition good_peer :: "crypto \<Rightarrow> ra_params \<Rightarrow> bytes \<Rightarrow> (nat \<Rightarrow> bytes) \<Rightarrow> bool" where
  "good_peer C p priv msgs \<longleftrightarrow> sizeof_msg0 (sizeof_size_t p) \<le> length (msgs 0)
     \<and> sizeof_msg2 p (sizeof_size_t p) \<le> length (msgs (Suc 0))
     \<and> acceptable_evidence C p priv (dec_point (sizeof_size_t p) (msgs 0)) (dec_msg2 p (sizeof_size_t p) (msgs (Suc 0)))"

lemma start_verifier_server_total:
  assumes h: "honest C priv net env" and s: "host_serves msgs env" and sz: "crypto_sizes C p"
    and ok: "session_ok C p tr ta" "secret ta = sec" "secret_size ta = length sec" and r: "sock_reads tr = 0"
    and room: "roomy p sec" and peer: "good_peer C p priv msgs"
  shows "twp (start_verifier_server p (length sec) ta) env tr (\<lambda>r tr'. \<exists>ta'. r = Inr ta' \<and>
    length (sock_writes tr') = length (sock_writes tr) + 2)"
proof -
  have host: "session_ok C p t x \<Longrightarrow> session_ok C p ((Host c, a) # t) x" for t c a x
    by (rule session_ok_keeps [OF _ keeps_host])
  have hc: "twp (handle_connection p (length sec) fd ta) env tr' (\<lambda>r tr''. \<exists>ta'. r = Inr ta' \<and>
      length (sock_writes tr'') = length (sock_writes tr') + 2)"
    if "session_ok C p tr' ta" "sock_reads tr' = 0" for fd tr'
    by (rule twp_mono [OF twp_wp [OF handle_connection_total [OF h s sz that(1) ok(2,3) that(2)]
        handle_connection_spec [OF honest_gp_tee [OF h] crypto_sizesD(7) [OF sz] that(1)]]])
      (use room peer in \<open>auto simp: roomy_def good_peer_def connection_post_def sock_writes_sent\<close>)
  show ?thesis
    unfolding start_verifier_server_def Let_def
    apply (rule host_callI [OF h s], simp add: twp_simps host_served_def)
    apply (rule host_callI [OF h s])
    apply (rule host_callI [OF h s], simp add: twp_simps host_served_def)
    apply (rule host_callI [OF h s], simp add: twp_simps host_served_def)
    apply (rule host_callI [OF h s], simp add: twp_simps host_served_def)
    apply (rule twp_execI [OF hc], intro host ok, simp add: r)
    apply (rule host_callI [OF h s], simp add: twp_return)
    done
qed

lemma terminate_tee_session_total:
  assumes h: "honest C priv net env" and s: "host_serves msgs env"
  shows "twp (terminate_tee_session ta) env tr (\<lambda>r tr'. sock_writes tr' = sock_writes tr)"
  unfolding terminate_tee_session_def TA_CloseSessionEntryPoint_def dispose_ra_context_def
  by (auto intro!: honest_callI [OF h] simp: twp_simps)

lemma verifier_main_total:
  assumes h: "honest C priv net env" and s: "host_serves msgs env" and sz: "crypto_sizes C p"
    and room: "roomy p (main_secret custom)" and peer: "good_peer C p priv msgs"
  shows "twp (verifier_main p custom) env [] (\<lambda>code tr'. code = 0 \<and> length (sock_writes tr') = 2)"
proof -
  have run: "twp (exec (prepare_tee_session (context_singleton p)) (\<lambda>ta.
      exec (bootstrap_secret p ta sec) (\<lambda>ta. start_verifier_server p (length sec) ta))) env tr
      (\<lambda>r tr'. \<exists>ta'. r = Inr ta' \<and> length (sock_writes tr') = 2)"
    if "roomy p sec" "sock_reads tr = 0" "sock_writes tr = []" for sec tr
    apply (rule twp_execI [OF prepare_tee_session_total [OF h s sz]], elim conjE)
    apply (rule twp_execI [OF bootstrap_secret_total [OF h s]], assumption, elim conjE)
    apply (rule twp_mono [OF start_verifier_server_total [OF h s sz]], assumption+, simp add: that, rule that, rule peer)
    apply (simp add: that)
    done
  show ?thesis
  proof (cases custom)
    case None
    then show ?thesis
      unfolding verifier_main_def using room
      by (auto intro!: twp_mono [OF run] twp_mono [OF terminate_tee_session_total [OF h s]]
          simp: twp_simps main_secret_def)
  next
    case (Some n)
    have a: "twp (call (Host (sys_malloc n)) (\<lambda>m. wr (ans_data m) 0 (replicate n (char_byte CHR ''A'')) (\<lambda>s. return (s, ans_handle m))))
        env [] (\<lambda>(s, ptr) tr. s = replicate n (char_byte CHR ''A'') \<and> sock_reads tr = 0 \<and> sock_writes tr = [])"
      by (rule host_callI [OF h s]) (simp add: twp_simps gp_simps host_served_def)
    show ?thesis
      unfolding verifier_main_def Some option.case
      apply (rule twp_bindI [OF a])
      apply (clarsimp simp del: length_replicate)
      apply (rule twp_bindI [OF run])
        apply (use room Some in \<open>simp_all add: main_secret_def\<close>)
      apply clarsimp
      apply (rule twp_bindI [OF terminate_tee_session_total [OF h s]])
      apply (rule host_callI [OF h s])
      apply (simp add: twp_return)
      done
  qed
qed

section \<open>A buffer that is too small\<close>

lemma prepare_msg1_host_short:
  assumes gp: "gp_tee C env" and n: "length buffer < sizeof_msg1 p (sizeof_size_t p)"
  shows "wp (prepare_msg1_host p ta buffer) env tr True (\<lambda>r tr'. r = Inl 1 \<and> sock_writes tr' = sock_writes tr)"
  unfolding prepare_msg1_host_def
  by (rule wp_commandI [OF gp, where R = "\<lambda>ta' params' tr'. False"])
    (use n in \<open>auto simp: invoke_simps prepare_msg1_def sock_writes_sent\<close>)

lemma handle_connection_short:
  assumes gp: "gp_tee C env" and ok: "session_ok C p tr ta"
    and n: "buff_room p n < sizeof_msg1 p (sizeof_size_t p)"
  shows "wp (handle_connection p n fd ta) env tr True (\<lambda>r tr'. r = Inl 1 \<and> sock_writes tr' = sock_writes tr)"
proof -
  have host: "session_ok C p t x \<Longrightarrow> session_ok C p ((Host c, a) # t) x" for t c a x
    by (rule session_ok_keeps [OF _ keeps_host])
  have short: "ans_ok C t (Host (sys_malloc (buff_room p n mod k))) a \<Longrightarrow> length (ans_data a) < sizeof_msg1 p (sizeof_size_t p)" for t a k
    using n le_less_trans [OF mod_less_eq_dividend n] by (simp add: ans_ok_def)
  have code: "wp (receive_msg0 p ta buffer) env tr' True (\<lambda>r t. sock_writes t = sock_writes tr' \<and> (\<forall>c. r = Inl c \<longrightarrow> c = 1))" for buffer tr'
    unfolding receive_msg0_def
    by (rule wp_commandI [OF gp, where R = "\<lambda>ta' params' tr'. True"]) (auto simp: invoke_simps wp_TrueI sock_writes_sent)
  show ?thesis
    unfolding handle_connection_def Let_def buff_room_def [symmetric]
    apply (rule gp_callI [OF gp] wp_wrI)+
    apply (rule wp_execI [OF code], simp)
    apply (rule wp_execI [OF prepare_msg1_host_short [OF gp]])
      apply (auto dest: short)
    done
qed

lemma default_secret_short: "buff_room p (length (c_string SECRET_DATA)) < sizeof_msg1 p (sizeof_size_t p)"
  by (simp add: buff_room_def c_string_def SECRET_DATA_def sizeof_defs RA_AES_GCM_CIPHERTEXT_OVERHEAD_def)

lemma verifier_main_default_silent:
  assumes gp: "gp_tee C env"
  shows "wp (verifier_main p None) env [] True (\<lambda>code tr'. sock_writes tr' = [])"
proof -
  have host: "session_ok C p t x \<Longrightarrow> session_ok C p ((Host c, a) # t) x" for t c a x
    by (rule session_ok_keeps [OF _ keeps_host])
  have hc: "wp (exec (handle_connection p (length (c_string SECRET_DATA)) fd ta) k) env tr True
      (\<lambda>r tr'. (\<exists>c. r = Inl c) \<and> sock_writes tr' = sock_writes tr)" if "session_ok C p tr ta" for fd ta tr k
    by (rule wp_execI [OF handle_connection_short [OF gp that default_secret_short]]) auto
  have srv: "wp (start_verifier_server p (length (c_string SECRET_DATA)) ta) env tr True
      (\<lambda>r tr'. (\<exists>c. r = Inl c) \<and> sock_writes tr' = sock_writes tr)" if "session_ok C p tr ta" for ta tr
    unfolding start_verifier_server_def Let_def
    by (auto intro!: gp_callI [OF gp] wp_mono [OF hc] host that simp: wp_simps)
  have "wp (exec (prepare_tee_session (context_singleton p)) (\<lambda>ta. exec (bootstrap_secret p ta (c_string SECRET_DATA))
      (\<lambda>ta. start_verifier_server p (length (c_string SECRET_DATA)) ta))) env [] True
      (\<lambda>r tr'. (\<exists>c. r = Inl c) \<and> sock_writes tr' = [])"
    apply (rule wp_execI [OF prepare_tee_session_spec [OF gp]], simp add: sock_writes_sent)
    apply (rule wp_execI [OF bootstrap_secret_spec [OF gp]], simp, simp add: sock_writes_sent)
    apply (rule wp_mono [OF srv])
     apply (auto simp: sock_writes_sent)
    done
  then show ?thesis
    unfolding verifier_main_def option.case wp_bind wp_return prod.case
    by (rule wp_mono) (auto simp: wp_return)
qed

text \<open>Even when nothing fails, a server with the built-in secret ends with status 1.\<close>

lemma prepare_msg1_host_short_total:
  assumes h: "honest C priv net env" and s: "host_serves msgs env"
    and n: "length buffer < sizeof_msg1 p (sizeof_size_t p)"
  shows "twp (prepare_msg1_host p ta buffer) env tr (\<lambda>r tr'. r = Inl 1)"
  unfolding prepare_msg1_host_def invoke_command_def twp_bind
  by (rule host_callI [OF h s])
    (use n in \<open>simp add: host_served_def TA_InvokeCommandEntryPoint_def verifier_command_defs twp_simps prepare_msg1_def\<close>)

lemma handle_connection_short_total:
  assumes h: "honest C priv net env" and s: "host_serves msgs env" and sz: "crypto_sizes C p"
    and ok: "session_ok C p tr ta" "secret ta = sec" "secret_size ta = length sec" and r: "sock_reads tr = 0"
    and room: "buff_room p n < 256 ^ sizeof_size_t p" "buff_room p n < sizeof_msg1 p (sizeof_size_t p)"
    and m: "sizeof_msg0 (sizeof_size_t p) \<le> buff_room p n" "sizeof_msg0 (sizeof_size_t p) \<le> length (msgs 0)"
      "in_bounds (dec_point (sizeof_size_t p) (msgs 0))"
  shows "twp (handle_connection p n fd ta) env tr (\<lambda>r tr'. r = Inl 1)"
proof -
  have host: "session_ok C p t x \<Longrightarrow> session_ok C p ((Host c, a) # t) x" for t c a x
    by (rule session_ok_keeps [OF _ keeps_host])
  have bse: "(n + sizeof_msg3 (sizeof_size_t p) + RA_AES_GCM_CIPHERTEXT_OVERHEAD) mod 256 ^ sizeof_size_t p = buff_room p n"
    using room by (simp add: buff_room_def)
  have rd0: "dec_point (sizeof_size_t p) (splice buf 0 (take (buff_room p n) (msgs 0))) = dec_point (sizeof_size_t p) (msgs 0)" for buf
    by (rule point_codec.dec_received [OF m(2,1)])
  show ?thesis
    unfolding handle_connection_def Let_def bse
    apply (rule host_callI [OF h s], simp add: twp_simps gp_simps host_served_def)
    apply (rule host_callI [OF h s], simp add: twp_simps gp_simps host_served_def)
    apply (rule host_callI [OF h s], simp add: twp_simps gp_simps host_served_def r)
    apply (rule twp_execI [OF receive_msg0_total [OF h s sz]], simp_all add: host ok rd0 m)
    apply (simp add: exec_def)
    apply (rule twp_bindI [OF prepare_msg1_host_short_total [OF h s]])
     apply (simp_all add: room twp_return)
    done
qed

lemma default_room:
  assumes "0 < sizeof_size_t p" "sizeof_size_t p \<le> 38"
  shows "buff_room p (length (c_string SECRET_DATA)) < 256 ^ sizeof_size_t p"
    "sizeof_msg0 (sizeof_size_t p) \<le> buff_room p (length (c_string SECRET_DATA))"
proof -
  have b: "buff_room p (length (c_string SECRET_DATA)) = 102 + sizeof_size_t p"
    by (simp add: buff_room_def c_string_def SECRET_DATA_def sizeof_defs RA_AES_GCM_CIPHERTEXT_OVERHEAD_def)
  have "(256 :: nat) ^ 1 \<le> 256 ^ sizeof_size_t p"
    using assms by (intro power_increasing) simp_all
  then show "buff_room p (length (c_string SECRET_DATA)) < 256 ^ sizeof_size_t p"
    using assms b by simp
  show "sizeof_msg0 (sizeof_size_t p) \<le> buff_room p (length (c_string SECRET_DATA))"
    using assms b by (simp add: sizeof_msg0_def)
qed

lemma verifier_main_default_total:
  assumes h: "honest C priv net env" and s: "host_serves msgs env" and sz: "crypto_sizes C p"
    and w: "0 < sizeof_size_t p" "sizeof_size_t p \<le> 38"
    and m: "sizeof_msg0 (sizeof_size_t p) \<le> length (msgs 0)" "in_bounds (dec_point (sizeof_size_t p) (msgs 0))"
  shows "twp (verifier_main p None) env [] (\<lambda>code tr'. code = 1)"
proof -
  let ?sec = "c_string SECRET_DATA"
  have host: "session_ok C p t x \<Longrightarrow> session_ok C p ((Host c, a) # t) x" for t c a x
    by (rule session_ok_keeps [OF _ keeps_host])
  have hc: "twp (exec (handle_connection p (length ?sec) fd ta) k) env tr (\<lambda>r tr'. r = Inl (Suc 0))"
    if "session_ok C p tr ta" "secret ta = ?sec" "secret_size ta = length ?sec" "sock_reads tr = 0"
    for fd ta tr and k :: "ra_context_verifier \<Rightarrow> (nat + ra_context_verifier) tee"
    unfolding exec_def
    by (rule twp_bindI [OF handle_connection_short_total [OF h s sz that default_room(1) [OF w] default_secret_short
          default_room(2) [OF w] m]]) (simp add: twp_return)
  have srv: "twp (start_verifier_server p (length ?sec) ta) env tr (\<lambda>r tr'. r = Inl 1)"
    if "session_ok C p tr ta" "secret ta = ?sec" "secret_size ta = length ?sec" "sock_reads tr = 0" for ta tr
    unfolding start_verifier_server_def Let_def
    apply (rule host_callI [OF h s], simp add: twp_simps host_served_def)
    apply (rule host_callI [OF h s])
    apply (rule host_callI [OF h s], simp add: twp_simps host_served_def)
    apply (rule host_callI [OF h s], simp add: twp_simps host_served_def)
    apply (rule host_callI [OF h s], simp add: twp_simps host_served_def)
    apply (rule hc)
       apply (simp_all add: host that)
    done
  have "twp (exec (prepare_tee_session (context_singleton p)) (\<lambda>ta. exec (bootstrap_secret p ta ?sec)
      (\<lambda>ta. start_verifier_server p (length ?sec) ta))) env [] (\<lambda>r tr'. r = Inl 1)"
    apply (rule twp_execI [OF prepare_tee_session_total [OF h s sz]], elim conjE)
    apply (rule twp_execI [OF bootstrap_secret_total [OF h s]], assumption, elim conjE)
    apply (rule srv)
       apply simp_all
    done
  then show ?thesis
    unfolding verifier_main_def option.case twp_bind twp_return prod.case
    by (rule twp_mono) (auto simp: twp_return)
qed

section \<open>An environment with a host\<close>

definition server_env :: "crypto \<Rightarrow> bytes \<Rightarrow> (nat \<Rightarrow> bytes) \<Rightarrow> env" where
  "server_env C priv msgs tr c = (case c of
       Host (sys_read _ n) \<Rightarrow> Some (ok 0 (take n (msgs (sock_reads tr))) [])
     | _ \<Rightarrow> net_env C priv [] tr c)"

lemma server_env_cases:
  obtains fd n where "c = Host (sys_read fd n)" "server_env C priv msgs tr c = Some (ok 0 (take n (msgs (sock_reads tr))) [])"
  | "server_env C priv msgs tr c = net_env C priv [] tr c"
proof (cases "\<exists>fd n. c = Host (sys_read fd n)")
  case True
  then show thesis
    using that(1) by (auto simp: server_env_def)
next
  case False
  then have "server_env C priv msgs tr c = net_env C priv [] tr c"
    by (auto simp: server_env_def split: tee_call.splits host_call.splits)
  then show thesis
    by (rule that(2))
qed

lemma server_env_honest: "honest C priv [] (server_env C priv msgs)"
  unfolding honest_def gp_tee_def
proof (intro conjI allI impI)
  fix tr c a
  assume a: "server_env C priv msgs tr c = Some a"
  show "ans_ok C tr c a"
  proof (rule server_env_cases [of c C priv msgs tr])
    assume "server_env C priv msgs tr c = net_env C priv [] tr c"
    then show ?thesis
      using a gp_teeD [OF honest_gp_tee [OF honest_net_env]] by simp
  qed (use a in \<open>auto simp: ans_ok_def ok_def\<close>)
next
  fix tr c
  show "\<exists>a. server_env C priv msgs tr c = Some a \<and> served C priv [] tr c a"
  proof (rule server_env_cases [of c C priv msgs tr])
    assume "server_env C priv msgs tr c = net_env C priv [] tr c"
    then show ?thesis
      using honest_net_env [of C priv "[]"] by (simp add: honest_def)
  qed (auto simp: served_def serviceable_def ok_def)
qed

lemma server_env_serves: "host_serves msgs (server_env C priv msgs)"
  using fresh_not_live(3)
  by (auto simp: host_serves_def host_served_def server_env_def net_env_def ref_net_ans_def ref_ans_def ok_def
      split: host_call.splits)

end
