(* ===== verification/Exchange.thy ===== *)
theory Exchange
  imports Server_Honest
begin

text \<open>
  The exchange between an attester and a verifier, each against its own environment: the messages of
  one side are accepted by the other. \<open>paired\<close> relates the contexts of the two sides after message
  1; the theorems show that message 1 establishes it, that message 2 is then accepted, and that
  message 3 carries the secret to the attester.
\<close>

section \<open>What the handshake leaves alone\<close>

text \<open>The fields for message 2 keep their sizes from the allocation of the context on.\<close>

lemma generate_ecdh_keypair_msg2:
  "wp (generate_ecdh_keypair ctx) env tr True (\<lambda>(res, ctx') tr'. msg2 ctx' = msg2 ctx)"
  unfolding generate_ecdh_keypair_def get_buffer_attribute_def Let_def by (simp add: wp_simps wp_call)

lemma establish_tcp_connection_msg2:
  "wp (establish_tcp_connection ctx host) env tr True (\<lambda>(res, ctx') tr'. msg2 ctx' = msg2 ctx)"
  unfolding establish_tcp_connection_def Let_def by (simp add: wp_simps wp_call)

lemma receive_msg1_msg2: "wp (receive_msg1 p ctx) env tr True (\<lambda>(res, ctx') tr'. msg2 ctx' = msg2 ctx)"
  unfolding receive_msg1_def Let_def
  by (rule wp_bindI [where R = "\<lambda>_ _. True"]) (auto simp: wp_simps wp_TrueI)

lemma import_verifier_attestation_key_msg2:
  "wp (import_verifier_attestation_key ctx) env tr True (\<lambda>(res, ctx') tr'. msg2 ctx' = msg2 ctx)"
  unfolding import_verifier_attestation_key_def Let_def by (simp add: wp_simps wp_call)

lemma derive_shared_key_msg2: "wp (derive_shared_key p ctx) env tr True (\<lambda>(res, ctx') tr'. msg2 ctx' = msg2 ctx)"
  unfolding derive_shared_key_def get_buffer_attribute_def derive_out_def Let_def by (simp add: wp_simps wp_call)

lemma msg2_stepI:
  assumes "wp m env tr True (\<lambda>(res, ctx') tr'. msg2 ctx' = msg2 ctx)" "msg2 ctx = c"
    and "\<And>x tr'. msg2 x = c \<Longrightarrow> wp (k x) env tr' True (\<lambda>(res, ctx, a) tr'. msg2 ctx = c)"
  shows "wp (bind m (\<lambda>(res, x). if res \<noteq> TEE_SUCCESS then return (res, x, a) else k x)) env tr True
    (\<lambda>(res, ctx, a) tr'. msg2 ctx = c)"
  by (rule wp_bindI [OF assms(1)]) (use assms(2,3) in \<open>auto simp: wp_simps\<close>)

lemma msg2_checkI:
  assumes "msg2 ctx = c" "\<And>tr'. wp k env tr' True (\<lambda>(res, ctx, a) tr'. msg2 ctx = c)"
  shows "wp (bind m (\<lambda>res. if res \<noteq> TEE_SUCCESS then return (res, ctx, a) else k)) env tr True
    (\<lambda>(res, ctx, a) tr'. msg2 ctx = c)"
  by (rule wp_bindI [where R = "\<lambda>_ _. True"]) (auto simp: wp_simps wp_TrueI assms)

lemma msg2_keyI:
  assumes "\<And>x. msg2 (f x) = c" "\<And>x tr'. wp (k x) env tr' True (\<lambda>(res, ctx, a) tr'. msg2 ctx = c)"
  shows "wp (bind m (\<lambda>(res, x). if res \<noteq> TEE_SUCCESS then return (res, f x, a x) else k x)) env tr True
    (\<lambda>(res, ctx, a) tr'. msg2 ctx = c)"
  by (rule wp_bindI [where R = "\<lambda>_ _. True"]) (auto simp: wp_simps wp_TrueI assms)

lemma ra_net_handshake_msg2:
  "wp (ra_net_handshake p host kx kx_size ky ky_size anchor n) env tr True
     (\<lambda>(res, ctx, a) tr'. msg2 ctx = msg2 (zero_ra_context p))"
  unfolding ra_net_handshake_def alloc_ra_context_def Let_def prod.case
  apply (simp only: wp_if simp_thms if_False)
  apply (rule msg2_stepI [OF generate_ecdh_keypair_msg2], simp)
  apply (rule msg2_stepI [OF establish_tcp_connection_msg2], simp)
  apply (rule msg2_checkI, simp)
  apply (rule msg2_stepI [OF receive_msg1_msg2], simp)
  apply (rule msg2_checkI, simp)
  apply (rule msg2_stepI [OF import_verifier_attestation_key_msg2], simp)
  apply (rule msg2_checkI, simp)
  apply (rule msg2_stepI [OF derive_shared_key_msg2], simp)
  apply (rule msg2_keyI, simp)
  apply (rule msg2_keyI, simp)
  apply (rule msg2_checkI, simp)
  apply (rule msg2_keyI, simp)
  apply (simp add: wp_return)
  done

section \<open>Both sides after message 1\<close>

text \<open>The attester (trace and context) and the verifier's application (trace and context) share the
  attester's key, the verifier's key and hence the derived keys, and the buffers of the attester's
  message 2 have their sizes.\<close>

definition paired ::
  "crypto \<Rightarrow> ra_params \<Rightarrow> bytes \<Rightarrow> trace \<Rightarrow> ra_context \<Rightarrow> trace \<Rightarrow> ra_context_verifier \<Rightarrow> bool" where
  "paired C p priv trA ctx trV ta \<longleftrightarrow>
     has_keys C (KPriv priv) (msg1 ctx) trA ctx \<and> has_keys_v C trV ta \<and> session_ok C p trV ta
     \<and> msg0_v ta = msg0 ctx
     \<and> ecdh_verifier_public_key (msg1 ctx) = ecdh_verifier_public_key (msg1_v ta)
     \<and> length (quote (msg2 ctx)) = sizeof_ra_quote p \<and> length (mac2 (msg2 ctx)) = 16
     \<and> length (x_raw (ecdh_local_public_key (msg2 ctx))) = 32 \<and> length (y_raw (ecdh_local_public_key (msg2 ctx))) = 32"

lemma paired_point:
  assumes "crypto_sizes C p" "paired C p priv trA ctx trV ta"
  shows "msg0 ctx = point_of C priv"
  using assms fresh_key_point_of [of C p "KPriv priv" "msg0 ctx"] by (simp add: paired_def stage_defs)

text \<open>Both sides hold the same MAC key and the same session key.\<close>

lemma paired_keys:
  assumes laws: "crypto_laws C" and sz: "crypto_sizes C p" and k: "paired C p priv trA ctx trV ta"
  shows "secret_value C trA (ecdh_shared_mac_key ctx) = secret_value C trV (ecdh_shared_mac_key_v ta)"
    and "secret_value C trA (ecdh_shared_session_key ctx) = secret_value C trV (ecdh_shared_session_key_v ta)"
proof -
  have "remote_secret C (KPriv priv) (msg1 ctx) = attester_secret C trV ta"
    using k paired_point [OF sz k] by (intro shared_secret [OF laws sz]) (auto simp: paired_def)
  then show "secret_value C trA (ecdh_shared_mac_key ctx) = secret_value C trV (ecdh_shared_mac_key_v ta)"
    and "secret_value C trA (ecdh_shared_session_key ctx) = secret_value C trV (ecdh_shared_session_key_v ta)"
    using k by (auto simp: paired_def has_keys_def has_mac_key_def has_keys_v_def has_mac_key_v_def same_labels)
qed

lemma wf_protocol_msg1:
  assumes sz: "crypto_sizes C p" and k: "has_keys_v C tr ta" and o: "session_open C tr ta"
  shows "wf_msg1 p 4 (protocol_msg1 C tr ta)"
proof -
  have "ecdh_verifier_public_key (msg1_v ta) = point_of C (priv_of (obj_val tr (ecdh_local_keypair_handle_v ta)))"
    "ecdsa_verifier_public_key (msg1_v ta) = point_of C (priv_of (obj_val tr (ecdsa_local_keypair_handle ta)))"
    using k o fresh_key_point_of [OF sz] by (simp_all add: stage_v_defs session_open_def)
  then show ?thesis
    by (simp add: wf_msg1_def protocol_msg1_def Let_def point_of_simps [OF sz] crypto_sizesD [OF sz])
qed

section \<open>Message 1 is accepted\<close>

lemma handle_msg0_session:
  assumes gp: "gp_tee C env" and ok: "session_ok C p tr ta"
  shows "wp (handle_msg0 p ta buffer) env tr True (\<lambda>(res, ta') tr'. res = TEE_SUCCESS \<longrightarrow>
    session_ok C p tr' ta' \<and> has_keys_v C tr' ta' \<and> msg0_frame ta ta'
    \<and> msg0_v ta' = dec_point (sizeof_size_t p) buffer)"
  by (rule wp_mono [OF handle_msg0_spec [OF gp]])
    (use ok in \<open>auto simp: session_ok_def endorsed_session_def session_open_def wf_ctx_v_def msg0_frame_def
      has_keys_v_def has_mac_key_v_def has_kdk_v_def fresh_key_def keeps_def\<close>)

lemma prepare_msg1_session:
  assumes gp: "gp_tee C env" and ok: "session_ok C p tr ta" and keys: "has_keys_v C tr ta"
  shows "wp (prepare_msg1 p ta buffer n) env tr True (\<lambda>(res, ta', buffer', n') tr'. res = TEE_SUCCESS \<longrightarrow>
    session_ok C p tr' ta' \<and> has_keys_v C tr' ta' \<and> ta' = ta\<lparr>msg1_v := protocol_msg1 C tr ta\<rparr>
    \<and> buffer' = splice buffer 0 (enc_msg1 p (sizeof_size_t p) (protocol_msg1 C tr ta))
    \<and> n' = sizeof_msg1 p (sizeof_size_t p) \<and> n' \<le> length buffer)"
proof (rule wp_mono [OF prepare_msg1_spec [OF gp]])
  show "wf_ctx_v p ta" "ecdh_shared_mac_key_v ta \<in> live_objs tr"
    using ok keys by (auto simp: session_ok_def stage_v_defs)
qed (use ok keys in \<open>auto simp: session_ok_def endorsed_session_def session_open_def wf_ctx_v_def stage_v_defs
    fresh_key_def keeps_def protocol_msg1_def Let_def\<close>)

lemma handshake_pairs:
  assumes laws: "crypto_laws C" and sz: "crypto_sizes C p" and w: "sizeof_size_t p = 4"
    and gp: "gp_tee C envV" and ok: "session_ok C p trV ta"
    and r0: "handle_msg0 p ta (enc_point 4 (point_of C priv)) envV trV = (Ret (TEE_SUCCESS, ta1), t1)"
    and r1: "prepare_msg1 p ta1 buffer n envV t1 = (Ret (TEE_SUCCESS, ta2, out, n2), t2)"
    and h: "honest C priv (take n2 out @ rest) envA" and tr: "net_input trA = []"
    and trust: "trusted_key (ecdsa_verifier_public_key (msg1_v ta)) kx kx_size ky ky_size"
    and len: "kx_size \<le> length kx" "ky_size \<le> length ky" "length anchor = 32"
  shows "twp (ra_net_handshake p host kx kx_size ky ky_size anchor 32) envA trA (\<lambda>(res, ctx, anchor') trA'.
    res = TEE_SUCCESS \<and> paired C p priv trA' ctx t2 ta2
    \<and> anchor' = sha256 C (point_bytes (msg0_v ta2) @ point_bytes (ecdh_verifier_public_key (msg1_v ta2))))"
proof -
  define m where "m = protocol_msg1 C t1 ta1"
  have wfp: "wf_point 4 (point_of C priv)" by (rule point_of_simps [OF sz])
  have s1: "session_ok C p t1 ta1" "has_keys_v C t1 ta1" "msg0_frame ta ta1" "msg0_v ta1 = point_of C priv"
    using wpD [OF handle_msg0_session [OF gp ok] r0] point_codec.dec_enc [OF wfp] by (auto simp: w)
  have s2: "session_ok C p t2 ta2" "has_keys_v C t2 ta2" "ta2 = ta1\<lparr>msg1_v := m\<rparr>"
    "out = splice buffer 0 (enc_msg1 p 4 m)" "n2 = sizeof_msg1 p 4" "n2 \<le> length buffer"
    using wpD [OF prepare_msg1_session [OF gp s1(1,2)] r1] by (auto simp: w m_def)
  have open1: "session_open C t1 ta1" using s1 by (simp add: session_ok_def)
  have wf: "wf_msg1 p 4 m"
    unfolding m_def by (rule wf_protocol_msg1 [OF sz s1(2) open1])
  have net: "take n2 out = enc_msg1 p 4 m"
    using msg1_codec.length_enc [OF wf] s2 by (simp add: splice_0)
  have dec: "m = dec_msg1 p 4 (take n2 out @ rest)" "sizeof_msg1 p 4 \<le> length (take n2 out @ rest)"
    using msg1_codec.dec_enc_append [OF wf] msg1_codec.length_enc [OF wf] by (simp_all add: net)
  have acc: "acceptable C priv kx kx_size ky ky_size m"
    unfolding m_def
    by (rule protocol_msg1_acceptable [OF laws sz s1(2) open1 s1(4)]) (use trust s1(3) in \<open>simp add: msg0_frame_def\<close>)
  have gv: "ecdh_verifier_public_key m = ecdh_verifier_public_key (msg1_v ta2)"
    by (simp add: s2(3))
  have pt: "msg0 ctx = point_of C priv" if "has_keys C (KPriv priv) m t ctx" for t ctx
    using that fresh_key_point_of [OF sz, of "KPriv priv" "msg0 ctx"] by (simp add: stage_defs)
  have m0: "msg0_v ta2 = point_of C priv"
    by (simp add: s2(3) s1(4))
  have pair: "paired C p priv t ctx t2 ta2" if "has_keys C (KPriv priv) m t ctx" "msg2 ctx = msg2 (zero_ra_context p)" for t ctx
  proof -
    have "msg1 ctx = m" using that(1) by (simp add: has_keys_def has_mac_key_def has_kdk_def has_msg1_def)
    then show ?thesis
      using that s2(1,2) m0 gv pt [OF that(1)] by (simp add: paired_def zero_ra_context_def zero_point_def)
  qed
  show ?thesis
    using twp_wp [OF ra_net_handshake_total [OF h sz dec(2,1) acc len tr] ra_net_handshake_msg2]
    by (rule twp_mono) (use gv m0 pt pair in auto)
qed

section \<open>Message 2 is accepted\<close>

text \<open>The messages sent through the attester's socket, in order.\<close>

primrec net_output :: "trace \<Rightarrow> bytes list" where
  "net_output [] = []"
| "net_output (e # tr) = net_output tr @ (case fst e of tcp_send _ d \<Rightarrow> [d] | _ \<Rightarrow> [])"

text \<open>A quote of the attestation service for the given anchor.\<close>

definition good_quote :: "crypto \<Rightarrow> ra_params \<Rightarrow> bytes \<Rightarrow> bytes \<Rightarrow> bool" where
  "good_quote C p anchor q \<longleftrightarrow> length q = sizeof_ra_quote p \<and> 32 \<le> length (quote_anchor p q)
     \<and> take 32 (quote_anchor p q) = anchor
     \<and> ecdsa_ok C RA_IMX_TEST_PUBLIC_KEY_X RA_IMX_TEST_PUBLIC_KEY_Y (sha256 C (quote_body p q)) (quote_signature p q)"

lemma prepare_msg2_total:
  assumes h: "honest C priv net env" and sz: "crypto_sizes C p" and pt: "msg0 ctx = point_of C priv"
    and live: "ecdh_shared_mac_key ctx \<in> live_objs tr"
    and len: "length (quote (msg2 ctx)) = length q" "length (mac2 (msg2 ctx)) = 16"
      "length (x_raw (ecdh_local_public_key (msg2 ctx))) = 32" "length (y_raw (ecdh_local_public_key (msg2 ctx))) = 32"
  shows "twp (prepare_msg2 ctx q) env tr (\<lambda>(res, ctx') tr'. res = TEE_SUCCESS
    \<and> (ctx' = ctx\<lparr>msg2 := protocol_msg2 C tr ctx q\<rparr> \<and> keeps tr tr' \<and> net_output tr' = net_output tr))"
  unfolding prepare_msg2_def Let_def free_op_def protocol_msg2_def
  using live
  by (auto intro!: honest_callI [OF h] simp: twp_simps honest_simps pt point_of_def point_bytes_def len keeps_def
      crypto_sizesD [OF sz])

lemma ra_net_send_quote_total:
  assumes h: "honest C priv net env" and sz: "crypto_sizes C p" and k: "paired C p priv tr ctx trV ta"
    and q: "length q = sizeof_ra_quote p"
  shows "twp (ra_net_send_quote p ctx q) env tr (\<lambda>(res, ctx') tr'. res = TEE_SUCCESS
    \<and> (ctx' = ctx\<lparr>msg2 := protocol_msg2 C tr ctx q\<rparr> \<and> keeps tr tr'
    \<and> net_output tr' = net_output tr @ [enc_msg2 p (sizeof_size_t p) (protocol_msg2 C tr ctx q)]))"
proof -
  note pt = paired_point [OF sz k]
  have l: "ecdh_shared_mac_key ctx \<in> live_objs tr" "length (quote (msg2 ctx)) = length q" "length (mac2 (msg2 ctx)) = 16"
    "length (x_raw (ecdh_local_public_key (msg2 ctx))) = 32" "length (y_raw (ecdh_local_public_key (msg2 ctx))) = 32"
    using k q by (auto simp: paired_def stage_defs)
  show ?thesis
    unfolding ra_net_send_quote_def send_msg2_def
    apply (rule twp_stepI [OF prepare_msg2_total [OF h sz pt l]])
    apply (auto intro!: honest_callI [OF h] simp: twp_simps honest_simps keeps_def)
    done
qed

lemma paired_sent:
  assumes "paired C p priv trA ctx trV ta" "keeps trA trA'" "length q = sizeof_ra_quote p" "crypto_sizes C p"
  shows "paired C p priv trA' (ctx\<lparr>msg2 := protocol_msg2 C trA ctx q\<rparr>) trV ta"
proof -
  note pt = paired_point [OF assms(4,1)]
  show ?thesis
    using assms(1-3)
    by (auto simp: paired_def stage_defs keeps_def protocol_msg2_def point_of_def pt crypto_sizesD [OF assms(4)])
qed

lemma msg2_accepted:
  assumes laws: "crypto_laws C" and sz: "crypto_sizes C p" and w: "sizeof_size_t p = 4"
    and h: "honest C privV net env" and k: "paired C p priv trA ctx tr ta"
    and q: "good_quote C p (sha256 C (point_bytes (msg0_v ta) @ point_bytes (ecdh_verifier_public_key (msg1_v ta)))) q"
  shows "twp (handle_msg2 p ta (enc_msg2 p 4 (protocol_msg2 C trA ctx q))) env tr (\<lambda>(res, ta') tr'.
    res = TEE_SUCCESS \<and> is_quote_valid ta' \<and> paired C p priv trA ctx tr' ta'
    \<and> secret ta' = secret ta \<and> secret_size ta' = secret_size ta)"
proof -
  let ?m = "protocol_msg2 C trA ctx q"
  note pt = paired_point [OF sz k]
  have v: "has_keys_v C tr ta" "session_ok C p tr ta" "msg0_v ta = point_of C priv"
    using k pt by (simp_all add: paired_def)
  have live: "ecdsa_attester_public_key_handle ta \<in> live_objs tr" "ecdh_shared_mac_key_v ta \<in> live_objs tr"
    using v by (auto simp: session_ok_def endorsed_session_def stage_v_defs)
  have wf: "wf_msg2 p 4 ?m"
    using q by (simp add: wf_msg2_def protocol_msg2_def pt point_of_simps [OF sz] crypto_sizesD [OF sz] good_quote_def)
  have dec: "?m = dec_msg2 p (sizeof_size_t p) (enc_msg2 p 4 ?m)" "sizeof_msg2 p (sizeof_size_t p) \<le> length (enc_msg2 p 4 ?m)"
    using msg2_codec.dec_enc [OF wf] msg2_codec.length_enc [OF wf] by (simp_all add: w)
  have gv: "in_bounds (ecdh_verifier_public_key (msg1_v ta))"
    using v(1) by (auto simp: stage_v_defs intro: fresh_key_bounds [OF _ sz])
  have ev: "evidence_ok C p tr (ta\<lparr>msg2_v := ?m\<rparr>)"
    using q v paired_keys(1) [OF laws sz k]
    by (simp add: evidence_ok_def protocol_msg2_def Let_def good_quote_def pt session_ok_def endorsed_session_def
        crypto_sizesD [OF sz])
  have tot: "twp (handle_msg2 p ta (enc_msg2 p 4 ?m)) env tr (\<lambda>(res, ta') tr'. res = TEE_SUCCESS)"
    using q by (intro handle_msg2_total [OF h sz live dec(2) dec(1) _ gv _ _ _ _ ev])
      (simp_all add: v(3) pt protocol_msg2_def point_of_simps [OF sz] good_quote_def, simp_all add: point_of_def)
  show ?thesis
    by (rule twp_mono [OF twp_wp [OF tot handle_msg2_spec [OF honest_gp_tee [OF h] live]]])
      (use k in \<open>auto simp: paired_def session_ok_def endorsed_session_def session_open_def wf_ctx_v_def stage_v_defs keeps_def\<close>)
qed

section \<open>Message 3 delivers the secret\<close>

lemma secret_delivered:
  assumes laws: "crypto_laws C" and sz: "crypto_sizes C p"
    and hV: "honest C privV netV envV" and k: "paired C p priv trA ctx trV ta"
    and buf: "length buffer = buff_room p n" "buff_room p n < 256 ^ sizeof_size_t p" and n: "n = length sec"
  shows "twp (prepare_msg3 p ta buffer sec n) envV trV (\<lambda>(res, ta', out) trV'. res = TEE_SUCCESS
    \<and> (\<forall>envA. honest C priv (net_input trA @ out) envA \<longrightarrow>
         twp (ra_net_receive_data p ctx (replicate n 0) n) envA trA (\<lambda>(res, ctx', dat, size) trA'.
           res = TEE_SUCCESS \<and> dat = sec \<and> size = length sec)))"
proof -
  let ?w = "sizeof_size_t p"
  have gp: "gp_tee C envV" by (rule honest_gp_tee [OF hV])
  have live: "ecdh_shared_session_key_v ta \<in> live_objs trV" "ecdh_shared_session_key ctx \<in> live_objs trA"
    using k by (auto simp: paired_def stage_defs stage_v_defs)
  have tags: "length (snd (gcm_seal C kk i d)) = 16" for kk i d by (rule crypto_sizesD [OF sz])
  have lenb: "sizeof_msg3 ?w + n \<le> length buffer" "length sec < 256 ^ ?w" "n \<le> length sec"
    using buf n by (auto simp: buff_room_def)
  have recv: "twp (ra_net_receive_data p ctx (replicate n 0) n) envA trA (\<lambda>(res, ctx', dat, size) trA'.
      res = TEE_SUCCESS \<and> dat = sec \<and> size = length sec)"
    if s: "sealed_msg3 C ?w (secret_value C trV (ecdh_shared_session_key_v ta)) i (take n sec) buffer out"
      and h: "honest C priv (net_input trA @ out) envA" and len: "length out = length buffer" for envA out i
  proof -
    have key: "secret_value C trV (ecdh_shared_session_key_v ta) = secret_value C trA (ecdh_shared_session_key ctx)"
      using paired_keys(2) [OF laws sz k] by simp
    have o: "opened_msg3 C ?w (secret_value C trA (ecdh_shared_session_key ctx)) out = Some sec"
      using opened_sealed_msg3 [OF laws sz s, of "[]"] lenb n by (simp add: key)
    define hd where "hd = \<lparr>iv = i, tag = snd (gcm_seal C (secret_value C trA (ecdh_shared_session_key ctx)) i sec),
      encrypted_content_size = length sec\<rparr>"
    have wf: "wf_msg3 ?w hd"
      using s lenb by (simp add: hd_def wf_msg3_def sealed_msg3_def Let_def tags)
    have out: "\<exists>r. out = enc_msg3 ?w hd @ r"
      using s n by (auto simp: sealed_msg3_def Let_def hd_def splice_0 key crypto_sizesD [OF sz])
    have size: "encrypted_content_size (dec_msg3 ?w out) = n"
      using out msg3_codec.dec_enc_append [OF wf] n by (auto simp: hd_def)
    have "twp (ra_net_receive_data p ctx (replicate n 0) n) envA trA (\<lambda>(res, ctx', dat, m) trA'.
      res = TEE_SUCCESS \<and> dat = splice (replicate n 0) 0 sec \<and> m = length sec)"
      by (rule ra_net_receive_data_total [OF h _ live(2) o])
        (use lenb buf n len size in \<open>simp_all add: buff_room_def RA_AES_GCM_CIPHERTEXT_OVERHEAD_def\<close>)
    then show ?thesis by (rule twp_mono) (use n in auto)
  qed
  show ?thesis
    by (rule twp_mono [OF twp_wp [OF prepare_msg3_total [OF hV sz live(1) lenb(3,1)]
        wp_conj [OF prepare_msg3_spec [OF gp live(1) tags] prepare_msg3_frame [OF gp]]]]) (auto intro: recv)
qed

end
