(* ===== verification/Scenario.thy ===== *)
theory Scenario
  imports Exchange
begin

text \<open>
  A concrete exchange with the simple primitives of \<open>toy_crypto\<close>: the private values, the quote and
  the messages of an attester, and the session of a verifier. The theorems of the development are
  instantiated with it.
\<close>

definition toy_attester :: bytes where
  "toy_attester = replicate 32 7"

definition toy_verifier :: bytes where
  "toy_verifier = replicate 32 9"

definition toy_quote :: "bytes \<Rightarrow> bytes" where
  "toy_quote anchor = anchor @ replicate 128 0 @ RA_IMX_TEST_PUBLIC_KEY_X @ anchor"

lemma length_imx_keys: "length RA_IMX_TEST_PUBLIC_KEY_X = 32" "length RA_IMX_TEST_PUBLIC_KEY_Y = 32"
  by (simp_all add: RA_IMX_TEST_PUBLIC_KEY_X_def RA_IMX_TEST_PUBLIC_KEY_Y_def)

lemma pad_id: "length d = n \<Longrightarrow> pad n d = d"
  by (simp add: pad_def)

lemma pad_prefix: "length a = n \<Longrightarrow> pad n (a @ b) = a"
  by (simp add: pad_def)

lemma toy_quote_good:
  assumes "length anchor = 32"
  shows "good_quote toy_crypto toy_params anchor (toy_quote anchor)"
  using assms by (simp add: good_quote_def toy_quote_def toy_params_def toy_crypto_def quote_body_def length_imx_keys
      pad_prefix pad_id)

text \<open>What the attester of the scenario sends: its key, and evidence for it.\<close>

definition toy_msg2 :: msg2_t where
  "toy_msg2 =
     (let ga = point_of toy_crypto toy_attester;
          secret = ecdh toy_crypto toy_verifier (pub_x toy_crypto toy_attester) (pub_y toy_crypto toy_attester);
          q = toy_quote (sha256 toy_crypto (point_bytes ga @ pub_x toy_crypto toy_verifier @ pub_y toy_crypto toy_verifier)) in
      \<lparr>ecdh_local_public_key = ga, quote = q,
       mac2 = cmac toy_crypto (label_key toy_crypto RA_SHARED_MAC_DATA secret) (point_bytes ga @ q)\<rparr>)"

definition toy_msgs :: "nat \<Rightarrow> bytes" where
  "toy_msgs i = (if i = 0 then enc_point 4 (point_of toy_crypto toy_attester) else enc_msg2 toy_params 4 toy_msg2)"

lemma toy_width: "sizeof_size_t toy_params = 4"
  by (simp add: toy_params_def)

lemma wf_toy_msg2: "wf_msg2 toy_params 4 toy_msg2"
  using toy_quote_good [of "sha256 toy_crypto d" for d]
  by (simp add: wf_msg2_def toy_msg2_def Let_def point_of_simps [OF toy_sizes] crypto_sizesD [OF toy_sizes] good_quote_def)

lemma toy_evidence: "acceptable_evidence toy_crypto toy_params toy_verifier (point_of toy_crypto toy_attester) toy_msg2"
  using toy_quote_good [of "sha256 toy_crypto d" for d]
  by (simp add: acceptable_evidence_def toy_msg2_def Let_def point_of_simps [OF toy_sizes] crypto_sizesD [OF toy_sizes] good_quote_def)
    (simp add: point_of_def)

lemma toy_peer: "good_peer toy_crypto toy_params toy_verifier toy_msgs"
  using toy_evidence point_codec.length_enc [OF point_of_simps(1) [OF toy_sizes]]
    msg2_codec.length_enc [OF wf_toy_msg2] point_codec.dec_enc [OF point_of_simps(1) [OF toy_sizes]]
    msg2_codec.dec_enc [OF wf_toy_msg2]
  by (simp add: good_peer_def toy_msgs_def toy_width)

lemma toy_roomy: "300 \<le> n \<Longrightarrow> n < 1000000 \<Longrightarrow> roomy toy_params (main_secret (Some n))"
  by (simp add: roomy_def main_secret_def buff_room_def sizeof_defs toy_params_def RA_AES_GCM_CIPHERTEXT_OVERHEAD_def
      tail_pad_def align_up_def)

abbreviation toy_server :: env where
  "toy_server \<equiv> server_env toy_crypto toy_verifier toy_msgs"

lemma toy_gp: "gp_tee toy_crypto toy_server"
  by (rule honest_gp_tee [OF server_env_honest])

lemma toy_tags: "\<forall>k i d. length (snd (gcm_seal toy_crypto k i d)) = 16"
  using crypto_sizesD(7) [OF toy_sizes] by blast

text \<open>The verifier's session, and its application after message 1.\<close>

lemma toy_session:
  obtains ta tr where "session_ok toy_crypto toy_params tr ta"
  using that TA_OpenSessionEntryPoint_total [OF server_env_honest [of toy_crypto toy_verifier toy_msgs] toy_sizes, of "[]"]
  by (auto elim!: twpE)

lemma toy_msg1_run:
  assumes ok: "session_ok toy_crypto toy_params tr ta"
  obtains ta1 t1 ta2 out n2 t2 where
    "handle_msg0 toy_params ta (enc_point 4 (point_of toy_crypto toy_attester)) toy_server tr = (Ret (TEE_SUCCESS, ta1), t1)"
    "prepare_msg1 toy_params ta1 (replicate 400 0) 0 toy_server t1 = (Ret (TEE_SUCCESS, ta2, out, n2), t2)"
proof -
  have wf: "wf_ctx_v toy_params ta" using ok by (simp add: session_ok_def)
  have pt: "dec_point 4 (enc_point 4 (point_of toy_crypto toy_attester)) = point_of toy_crypto toy_attester"
    "length (enc_point 4 (point_of toy_crypto toy_attester)) = sizeof_msg0 4"
    using point_codec.dec_enc [OF point_of_simps(1) [OF toy_sizes]]
      point_codec.length_enc [OF point_of_simps(1) [OF toy_sizes]] by auto
  have "twp (handle_msg0 toy_params ta (enc_point 4 (point_of toy_crypto toy_attester))) toy_server tr
      (\<lambda>(res, ta1) t1. res = TEE_SUCCESS)"
    by (rule twp_mono [OF handle_msg0_total [OF server_env_honest toy_sizes wf]])
      (auto simp: toy_width pt point_of_simps [OF toy_sizes])
  then obtain ta1 t1 where r0:
    "handle_msg0 toy_params ta (enc_point 4 (point_of toy_crypto toy_attester)) toy_server tr = (Ret (TEE_SUCCESS, ta1), t1)"
    by (auto elim!: twpE)
  have s1: "session_ok toy_crypto toy_params t1 ta1" "has_keys_v toy_crypto t1 ta1" "msg0_v ta1 = point_of toy_crypto toy_attester"
    using wpD [OF handle_msg0_session [OF toy_gp ok] r0] by (auto simp: toy_width pt)
  have r: "ready toy_crypto toy_params (secret ta1) (priv_of (obj_val t1 (ecdh_local_keypair_handle_v ta1)))
      (point_of toy_crypto toy_attester) t1 (ta1\<lparr>secret_size := length (secret ta1)\<rparr>)"
    using s1 by (auto simp: ready_def session_ok_def endorsed_session_def session_open_def wf_ctx_v_def stage_v_defs fresh_key_def)
  note rd = readyD [OF r toy_sizes, simplified]
  have "twp (prepare_msg1 toy_params ta1 (replicate 400 0) 0) toy_server t1 (\<lambda>(res, ta2, out, n2) t2. res = TEE_SUCCESS)"
    by (rule prepare_msg1_total [OF server_env_honest toy_sizes])
      (use s1 rd in \<open>auto simp: session_ok_def point_of_simps [OF toy_sizes] sizeof_defs toy_params_def tail_pad_def align_up_def\<close>)
  then show thesis
    using that r0 by (auto elim!: twpE)
qed

text \<open>An attester that received message 1 of that session.\<close>

lemma toy_handshake_run:
  obtains net ctx anchor trA trV ta where
    "ra_net_handshake toy_params ''verifier'' [] 0 [] 0 (replicate 32 0) 32 (net_env toy_crypto toy_attester net) []
       = (Ret (TEE_SUCCESS, ctx, anchor), trA)"
    "paired toy_crypto toy_params toy_attester trA ctx trV ta"
proof (rule toy_session)
  fix tr ta
  assume ok: "session_ok toy_crypto toy_params tr ta"
  show thesis
  proof (rule toy_msg1_run [OF ok])
    fix ta1 t1 ta2 out n2 t2
    assume r: "handle_msg0 toy_params ta (enc_point 4 (point_of toy_crypto toy_attester)) toy_server tr = (Ret (TEE_SUCCESS, ta1), t1)"
      "prepare_msg1 toy_params ta1 (replicate 400 0) 0 toy_server t1 = (Ret (TEE_SUCCESS, ta2, out, n2), t2)"
    have "twp (ra_net_handshake toy_params ''verifier'' [] 0 [] 0 (replicate 32 0) 32)
      (net_env toy_crypto toy_attester (take n2 out @ [])) [] (\<lambda>(res, ctx, anchor) trA.
        res = TEE_SUCCESS \<and> paired toy_crypto toy_params toy_attester trA ctx t2 ta2)"
      by (rule twp_mono [OF handshake_pairs [OF toy_laws toy_sizes toy_width toy_gp ok r honest_net_env]])
        (auto simp: trusted_key_def)
    then show thesis
      using that by (auto elim!: twpE)
  qed
qed

text \<open>The first message that this verifier sends, as the attester receives it.\<close>

lemma toy_acceptable:
  obtains net where "sizeof_msg1 toy_params 4 \<le> length net"
    "acceptable toy_crypto toy_attester [] 0 [] 0 (dec_msg1 toy_params 4 net)"
proof (rule toy_session)
  fix tr ta
  assume ok: "session_ok toy_crypto toy_params tr ta"
  show thesis
  proof (rule toy_msg1_run [OF ok])
    fix ta1 t1 ta2 out n2 t2
    assume r0: "handle_msg0 toy_params ta (enc_point 4 (point_of toy_crypto toy_attester)) toy_server tr = (Ret (TEE_SUCCESS, ta1), t1)"
    have s1: "session_ok toy_crypto toy_params t1 ta1" "has_keys_v toy_crypto t1 ta1" "msg0_v ta1 = point_of toy_crypto toy_attester"
      using wpD [OF handle_msg0_session [OF toy_gp ok] r0] point_codec.dec_enc [OF point_of_simps(1) [OF toy_sizes]]
      by (auto simp: toy_width)
    then have o: "session_open toy_crypto t1 ta1" by (simp add: session_ok_def)
    have wf: "wf_msg1 toy_params 4 (protocol_msg1 toy_crypto t1 ta1)"
      by (rule wf_protocol_msg1 [OF toy_sizes s1(2) o])
    have "acceptable toy_crypto toy_attester [] 0 [] 0 (protocol_msg1 toy_crypto t1 ta1)"
      by (rule protocol_msg1_acceptable [OF toy_laws toy_sizes s1(2) o s1(3)]) (simp add: trusted_key_def)
    then show thesis
      using that [of "enc_msg1 toy_params 4 (protocol_msg1 toy_crypto t1 ta1)"] msg1_codec.dec_enc [OF wf]
        msg1_codec.length_enc [OF wf] by simp
  qed
qed

text \<open>A TEE that refuses every MAC operation.\<close>

definition no_mac_env :: env where
  "no_mac_env tr c =
     (if c = TEE_AllocateOperation TEE_ALG_AES_CMAC TEE_MODE_MAC 128 then Some (err TEE_ERROR_GENERIC)
      else ref_env toy_crypto [] [] tr c)"

end
