(* ===== verification/Tz_Platform.thy ===== *)
theory Tz_Platform
  imports Gp_Spec
begin

text \<open>
  The platform layer of the WebAssembly runtime for TrustZone
  (\<open>core/shared/platform/linux-trustzone\<close>): memory, the capture of the standard output in a buffer
  shared with the normal world, byte order, time, and the POSIX calls that are only stubs. The
  target has 64-bit \<open>size_t\<close> and 32-bit \<open>int\<close>. Log messages are not modelled.
\<close>

unbundle bit_operations_syntax

section \<open>Memory\<close>

definition PAGE_SIZE :: u64 where
  "PAGE_SIZE = 4 * 1024"

definition MMAP_PROT_READ :: u32 where "MMAP_PROT_READ = 1"
definition MMAP_PROT_WRITE :: u32 where "MMAP_PROT_WRITE = 2"
definition MMAP_PROT_EXEC :: u32 where "MMAP_PROT_EXEC = 4"

definition BIT :: "nat \<Rightarrow> u32" where
  "BIT nr = push_bit nr 1"

definition TEE_MATTR_PR :: u32 where "TEE_MATTR_PR = BIT 4"
definition TEE_MATTR_PW :: u32 where "TEE_MATTR_PW = BIT 5"
definition TEE_MATTR_PX :: u32 where "TEE_MATTR_PX = BIT 6"
definition TEE_MATTR_UR :: u32 where "TEE_MATTR_UR = BIT 7"
definition TEE_MATTR_UW :: u32 where "TEE_MATTR_UW = BIT 8"
definition TEE_MATTR_UX :: u32 where "TEE_MATTR_UX = BIT 9"

lemmas mattr_defs = BIT_def TEE_MATTR_PR_def TEE_MATTR_PW_def TEE_MATTR_PX_def TEE_MATTR_UR_def
  TEE_MATTR_UW_def TEE_MATTR_UX_def MMAP_PROT_READ_def MMAP_PROT_WRITE_def MMAP_PROT_EXEC_def

text \<open>The argument of \<open>os_malloc\<close> is an \<open>unsigned\<close>: a \<open>size_t\<close> passed to it is reduced.\<close>

definition os_malloc :: "u64 \<Rightarrow> (tee_answer \<Rightarrow> 'a tee) \<Rightarrow> 'a tee" where
  "os_malloc sz = call (TEE_Malloc (unat (ucast sz :: u32)))"

definition os_realloc :: "handle \<Rightarrow> u64 \<Rightarrow> (handle \<Rightarrow> 'a tee) \<Rightarrow> 'a tee" where
  "os_realloc ptr sz k = call (Map (TEE_Realloc ptr (unat (ucast sz :: u32)))) (\<lambda>a. k (ans_handle a))"

definition os_free :: "handle \<Rightarrow> 'a tee \<Rightarrow> 'a tee" where
  "os_free ptr k = call (TEE_Free ptr) (\<lambda>_. k)"

definition os_mremap :: "handle \<Rightarrow> u64 \<Rightarrow> u64 \<Rightarrow> handle tee" where
  "os_mremap old_addr old_size new_size =
     call (Map (tee_remap (unat new_size) old_addr)) (\<lambda>a. return (ans_handle a))"

definition mprot_of :: "u32 \<Rightarrow> u32" where
  "mprot_of prot =
     (let m = 0;
          m = (if prot AND MMAP_PROT_READ \<noteq> 0 then m OR (TEE_MATTR_UR OR TEE_MATTR_PR) else m);
          m = (if prot AND MMAP_PROT_WRITE \<noteq> 0 then m OR (TEE_MATTR_UW OR TEE_MATTR_PW) else m);
          m = (if prot AND MMAP_PROT_EXEC \<noteq> 0 then m OR (TEE_MATTR_UX OR TEE_MATTR_PX) else m) in m)"

definition os_mprotect :: "handle \<Rightarrow> u64 \<Rightarrow> u32 \<Rightarrow> int tee" where
  "os_mprotect addr sz prot =
     call (Map (tee_mprotect addr (unat sz) (unat (mprot_of prot)))) (\<lambda>a.
     return (if ans_res a = TEE_SUCCESS then 0 else -1))"

definition aligned_size :: "u64 \<Rightarrow> u64" where
  "aligned_size sz = (sz + PAGE_SIZE - 1) AND NOT (PAGE_SIZE - 1)"

text \<open>A null handle is the null pointer; \<open>file\<close> is an \<open>int\<close>, and a valid handle is not negative.\<close>

definition os_mmap :: "u64 \<Rightarrow> u32 \<Rightarrow> int \<Rightarrow> handle tee" where
  "os_mmap sz prot file =
     (if -1 < file then return 0 else
      let n = aligned_size sz in
      if 0xFFFFFFFF \<le> n then return 0 else
      call (Map (tee_map_zi (unat n))) (\<lambda>m.
      let ret = ans_handle m in
      if ret = 0 then return 0 else
      if prot \<noteq> 0 then
        bind (os_mprotect ret n prot) (\<lambda>r.
        if r \<noteq> 0 then call (Map (tee_unmap ret (unat n))) (\<lambda>_. return 0) else return ret)
      else return ret))"

definition os_munmap :: "handle \<Rightarrow> u64 \<Rightarrow> unit tee" where
  "os_munmap addr sz = call (Map (tee_unmap addr (unat (aligned_size sz)))) (\<lambda>_. return ())"

text \<open>\<open>strcpy\<close>: the loop stops after it copied a zero; \<open>None\<close> leaves an array.\<close>

fun strcpy_at :: "nat \<Rightarrow> bytes \<Rightarrow> bytes \<Rightarrow> bytes option" where
  "strcpy_at i dest [] = None"
| "strcpy_at i dest (c # src) =
     (if i < length dest then (if c = 0 then Some (dest[i := c]) else strcpy_at (Suc i) (dest[i := c]) src) else None)"

definition strcpy :: "bytes \<Rightarrow> bytes \<Rightarrow> bytes option" where
  "strcpy dest src = strcpy_at 0 dest src"

section \<open>The captured output\<close>

text \<open>\<open>output_buffer\<close> points into memory of the normal world: \<open>out_mem\<close> is that memory and
  \<open>out_pos\<close> the offset of the pointer.\<close>

record tz_state =
  out_mem :: bytes
  out_pos :: nat
  output_buffer_size :: u64

definition watz_set_output_buffer :: "tz_state \<Rightarrow> bytes \<Rightarrow> u32 \<Rightarrow> tz_state" where
  "watz_set_output_buffer tz buffer buffer_size =
     tz\<lparr>out_mem := buffer, out_pos := 0, output_buffer_size := ucast buffer_size\<rparr>"

fun count_chars :: "bytes list \<Rightarrow> u64" where
  "count_chars [] = 0"
| "count_chars (v # iov) = of_nat (length v) + count_chars iov"

fun gather :: "bytes list \<Rightarrow> bytes \<Rightarrow> nat \<Rightarrow> (bytes \<Rightarrow> 'a tee) \<Rightarrow> 'a tee" where
  "gather [] buffer off k = k buffer"
| "gather (v # iov) buffer off k = wr buffer off v (\<lambda>buffer'. gather iov buffer' (off + length v) k)"

definition store_output :: "tz_state \<Rightarrow> bytes \<Rightarrow> u64 \<Rightarrow> tz_state tee" where
  "store_output tz buffer nchars =
     (if nchars < output_buffer_size tz
      then rd buffer (unat nchars) (\<lambda>d. wr (drop (out_pos tz) (out_mem tz)) 0 d (\<lambda>rest.
           return (tz\<lparr>out_mem := take (out_pos tz) (out_mem tz) @ rest,
                      out_pos := out_pos tz + unat nchars,
                      output_buffer_size := output_buffer_size tz - nchars\<rparr>)))
      else return tz)"

text \<open>The gathered text is also printed with \<open>os_printf\<close>, which only reads it.\<close>

definition writev :: "tz_state \<Rightarrow> int \<Rightarrow> bytes list \<Rightarrow> (int \<times> tz_state) tee" where
  "writev tz fd iov =
     (if fd = 1 \<or> fd = 2 then
        let nchars = count_chars iov in
        os_malloc nchars (\<lambda>m.
        gather iov (ans_data m) 0 (\<lambda>buffer.
        bind (store_output tz buffer nchars) (\<lambda>tz.
        os_free (ans_handle m) (return (sint nchars, tz)))))
      else return (-1, tz))"

section \<open>Files and threads\<close>

text \<open>The other calls of \<open>tz_file.c\<close>, \<open>tz_socket.c\<close>, \<open>tz_thread.c\<close>, \<open>tz_pthread.c\<close>, \<open>tz_string.c\<close>
  and \<open>tz_time.c\<close> do nothing. \<open>fcntl\<close> and \<open>fstat\<close> know the three standard descriptors.\<close>

definition F_GETFL :: int where "F_GETFL = 3"

definition fcntl :: "int \<Rightarrow> int \<Rightarrow> int" where
  "fcntl fd cmd = (if fd < 3 \<and> cmd = F_GETFL then 0x8002 else -1)"

definition fstat :: "int \<Rightarrow> u32 \<Rightarrow> int \<times> u32" where
  "fstat fd st_mode = (if fd < 3 then (0, 0x2190) else (-1, st_mode))"

datatype file_call = close | closedir | fdatasync | fdopendir | fstatat | fsync | ftruncate | getrandom | ioctl
  | isatty | linkat | lseek | mkdirat | open_file | openat | poll | posix_fallocate | preadv | pwritev | readdir
  | readlinkat | readv | realpath | renameat | rewinddir | sched_yield | seekdir | symlinkat | telldir | unlinkat

text \<open>The value a stub returns; the pointers are null, two stubs return nothing.\<close>

datatype stub_result = IntResult int | NullResult | VoidResult

definition file_stub :: "file_call \<Rightarrow> stub_result" where
  "file_stub c = (case c of
       fdopendir \<Rightarrow> NullResult
     | readdir \<Rightarrow> NullResult
     | realpath \<Rightarrow> NullResult
     | rewinddir \<Rightarrow> VoidResult
     | seekdir \<Rightarrow> VoidResult
     | _ \<Rightarrow> IntResult (-1))"

datatype sync_call = os_cond_destroy | os_cond_init | os_mutex_destroy | os_mutex_init | os_mutex_lock
  | os_mutex_unlock | os_self_thread | os_thread_get_stack_boundary | os_rwlock_init | os_rwlock_rdlock
  | os_rwlock_wrlock | os_rwlock_unlock | os_rwlock_destroy | os_thread_jit_write_protect_np

definition sync_stub :: "sync_call \<Rightarrow> stub_result" where
  "sync_stub c = (case c of
       os_self_thread \<Rightarrow> NullResult
     | os_thread_get_stack_boundary \<Rightarrow> NullResult
     | os_thread_jit_write_protect_np \<Rightarrow> VoidResult
     | _ \<Rightarrow> IntResult 0)"

section \<open>Byte order\<close>

text \<open>The memory of a number is its little-endian image on the target.\<close>

definition is_little_endian :: bool where
  "is_little_endian = (hd (le_bytes 8 0x01020304) = 0x04)"

definition swap32 :: "bytes \<Rightarrow> bytes" where
  "swap32 d = (let d = d[0 := d ! 3, 3 := d ! 0] in d[1 := d ! 2, 2 := d ! 1])"

definition swap16 :: "bytes \<Rightarrow> bytes" where
  "swap16 d = d[0 := d ! 1, 1 := d ! 0]"

definition htonl :: "u32 \<Rightarrow> u32" where
  "htonl v = (if is_little_endian then of_nat (le_value (swap32 (le_bytes 4 (unat v)))) else v)"

definition ntohl :: "u32 \<Rightarrow> u32" where
  "ntohl v = htonl v"

definition htons :: "u16 \<Rightarrow> u16" where
  "htons v = (if is_little_endian then of_nat (le_value (swap16 (le_bytes 2 (unat v)))) else v)"

section \<open>Time\<close>

text \<open>The time of the normal world, as the extended API returns it.\<close>

record tee_time =
  seconds :: u32
  millis :: u32
  nanos :: u32

definition tee_time_to_ms :: "tee_time \<Rightarrow> u32" where
  "tee_time_to_ms t = seconds t * 1000 + millis t"

definition os_time_get_boot_microsecond :: "tee_time \<Rightarrow> u64" where
  "os_time_get_boot_microsecond t = ucast (tee_time_to_ms t * 1000)"

definition CLOCK_MONOTONIC :: int where "CLOCK_MONOTONIC = 1"

definition clock_gettime :: "int \<Rightarrow> tee_time \<Rightarrow> u32 \<times> u32 \<Rightarrow> int \<times> u32 \<times> u32" where
  "clock_gettime clock_id t tp = (if clock_id \<noteq> CLOCK_MONOTONIC then (-1, tp) else (0, seconds t, nanos t))"

end
