(* ===== verification/Watz_Ta.thy ===== *)
theory Watz_Ta
  imports Tz_Platform Tee_Params
begin

text \<open>
  The trusted application that runs WebAssembly (\<open>watz/ta/main.c\<close>, \<open>watz/ta/wasm.c\<close>): its commands,
  the set-up and tear-down of the runtime and the RSA functions that it can export to the
  application. The runtime is reached through the calls \<open>Wamr\<close>; it is the environment that answers
  them. Three things come from outside and are parameters: the memory that the normal world shares
  with the application, whose contents may change between any two calls (\<open>shm\<close>), the writes that
  a WebAssembly application makes while it runs (\<open>app\<close>) and whether the RSA functions were
  compiled in (\<open>openssl\<close>).
\<close>

section \<open>Shared memory\<close>

definition shm_read :: "(trace \<Rightarrow> bytes) \<Rightarrow> nat \<Rightarrow> (bytes \<Rightarrow> 'a tee) \<Rightarrow> 'a tee" where
  "shm_read shm n k env tr = rd (shm tr) n k env tr"

section \<open>State\<close>

text \<open>\<open>wasm_bytecode\<close> always points into the shared memory.\<close>

record wamr_context =
  wasm_bytecode :: "trace \<Rightarrow> bytes"
  wasm_bytecode_size :: nat
  wasm_bytecode_hash :: bytes
  heap_buf :: handle
  ctx_heap_size :: nat
  wasm_module :: handle
  module_inst :: handle
  native_symbols_size :: nat
  ctx_initial_linear_memory_size :: nat

record watz_state =
  heap_size :: u32
  initial_linear_memory_size :: u32
  singleton_wamr_context :: "wamr_context option"
  platform :: tz_state

definition RA_HASH_SIZE :: nat where "RA_HASH_SIZE = 256"

definition sizeof_NativeSymbol :: nat where "sizeof_NativeSymbol = 32"

section \<open>RSA for the application\<close>

text \<open>The runtime has checked that \<open>key\<close> is a buffer of \<open>key_size\<close> bytes of the application.\<close>

definition Host_GenerateKey :: "bytes \<Rightarrow> (TEE_Result \<times> bytes) tee" where
  "Host_GenerateKey key =
     (let key_size = length key in
      call (TEE_AllocateTransientObject TEE_TYPE_RSA_KEYPAIR key_size) (\<lambda>a.
      if ans_res a \<noteq> TEE_SUCCESS then return (ans_res a, key) else
      let local_key = ans_handle a in
      call (TEE_GenerateKey local_key key_size []) (\<lambda>g.
      if ans_res g \<noteq> TEE_SUCCESS then
        call (TEE_FreeTransientObject local_key) (\<lambda>_. return (ans_res g, key))
      else
        wr key 0 (le_bytes 8 local_key) (\<lambda>key. return (TEE_SUCCESS, key)))))"

definition strlen :: "bytes \<Rightarrow> nat" where
  "strlen s = length (takeWhile (\<lambda>c. c \<noteq> 0) s)"

text \<open>The common part of both functions: an operation of the given mode with the key set, which is
  freed at the label \<open>out\<close>. \<open>run\<close> is the call in between.\<close>

definition with_rsa_operation :: "handle \<Rightarrow> mode \<Rightarrow> 'b \<Rightarrow> (handle \<Rightarrow> (TEE_Result \<times> 'b) tee) \<Rightarrow> (TEE_Result \<times> 'b) tee" where
  "with_rsa_operation local_key md unchanged run =
     (if local_key = 0 then return (TEE_ERROR_BAD_STATE, unchanged) else
      call (TEE_GetObjectInfo1 local_key) (\<lambda>info.
      if ans_res info \<noteq> TEE_SUCCESS then return (ans_res info, unchanged) else
      call (TEE_AllocateOperation TEE_ALG_RSAES_PKCS1_V1_5 md (ans_size info)) (\<lambda>a.
      if ans_res a \<noteq> TEE_SUCCESS then return (ans_res a, unchanged) else
      let op = ans_handle a in
      call (TEE_SetOperationKey op local_key) (\<lambda>s.
      bind (if ans_res s \<noteq> TEE_SUCCESS then return (ans_res s, unchanged) else run op) (\<lambda>r.
      call (TEE_FreeOperation op) (\<lambda>_. return r))))))"

text \<open>\<open>src\<close> is the text up to its terminating zero. \<open>destLen\<close> is the length of \<open>destData\<close>; the call
  is given the value stored in \<open>requestedLen\<close> as the capacity of the destination.\<close>

definition Host_Encrypt :: "handle \<Rightarrow> bytes \<Rightarrow> bytes \<Rightarrow> bytes \<Rightarrow> (TEE_Result \<times> bytes \<times> bytes) tee" where
  "Host_Encrypt key src destData requestedLen =
     with_rsa_operation key TEE_MODE_ENCRYPT (destData, requestedLen) (\<lambda>op.
       rd src (strlen src + 1) (\<lambda>_.
       rd requestedLen 4 (\<lambda>len.
       call (TEE_AsymmetricEncrypt op (take (strlen src) src) (le_value len)) (\<lambda>e.
       wr destData 0 (ans_data e) (\<lambda>destData.
       wr requestedLen 0 (le_bytes 4 (ans_size e)) (\<lambda>requestedLen.
       return (ans_res e, destData, requestedLen)))))))"

definition Host_Decrypt :: "handle \<Rightarrow> bytes \<Rightarrow> bytes \<Rightarrow> bytes \<Rightarrow> (TEE_Result \<times> bytes \<times> bytes) tee" where
  "Host_Decrypt key src dest requestedLen =
     with_rsa_operation key TEE_MODE_DECRYPT (dest, requestedLen) (\<lambda>op.
       rd requestedLen 4 (\<lambda>len.
       call (TEE_AsymmetricDecrypt op src (le_value len)) (\<lambda>e.
       wr dest 0 (ans_data e) (\<lambda>dest.
       wr requestedLen 0 (le_bytes 4 (ans_size e)) (\<lambda>requestedLen.
       return (ans_res e, dest, requestedLen))))))"

section \<open>The runtime\<close>

definition TA_SetOutputBuffer :: "tz_state \<Rightarrow> bytes \<Rightarrow> u64 \<Rightarrow> tz_state" where
  "TA_SetOutputBuffer tz output_buffer buffer_size =
     watz_set_output_buffer tz output_buffer (ucast buffer_size)"

text \<open>The capacity passed for the hash is its size in bits.\<close>

definition TA_HashWasmBytecode :: "wamr_context \<Rightarrow> (TEE_Result \<times> wamr_context) tee" where
  "TA_HashWasmBytecode ctx =
     call (TEE_AllocateOperation TEE_ALG_SHA256 TEE_MODE_DIGEST 0) (\<lambda>a.
     let op = ans_handle a in
     bind (if ans_res a \<noteq> TEE_SUCCESS then return (ans_res a, ctx) else
       shm_read (wasm_bytecode ctx) (wasm_bytecode_size ctx) (\<lambda>code.
       call (TEE_DigestDoFinal op code 256) (\<lambda>d.
       wr (wasm_bytecode_hash ctx) 0 (ans_data d) (\<lambda>h.
       let ctx = ctx\<lparr>wasm_bytecode_hash := h\<rparr> in
       if ans_res d \<noteq> TEE_SUCCESS then return (ans_res d, ctx) else
       if ans_size d \<noteq> 256 div 8 then return (TEE_ERROR_GENERIC, ctx) else
       return (TEE_SUCCESS, ctx))))) (\<lambda>r.
     call (TEE_FreeOperation (if ans_res a \<noteq> TEE_SUCCESS then 0 else op)) (\<lambda>_. return r)))"

definition STACK_SIZE :: nat where "STACK_SIZE = 8092"

definition TA_InitializeWamrRuntime ::
  "watz_state \<Rightarrow> wamr_context \<Rightarrow> bytes list \<Rightarrow> (TEE_Result \<times> wamr_context \<times> watz_state) tee" where
  "TA_InitializeWamrRuntime st context argv =
     (let heap_size = ctx_initial_linear_memory_size context in
      call (Wamr (wasm_runtime_full_init (heap_buf context) (ctx_heap_size context)
        (native_symbols_size context div sizeof_NativeSymbol))) (\<lambda>i.
      if ans_res i \<noteq> TEE_SUCCESS then return (TEE_ERROR_GENERIC, context, st) else
      shm_read (wasm_bytecode context) (wasm_bytecode_size context) (\<lambda>code.
      call (Wamr (wasm_runtime_load code)) (\<lambda>l.
      let context = context\<lparr>wasm_module := ans_handle l\<rparr> in
      if wasm_module context = 0 then return (TEE_ERROR_GENERIC, context, st) else
      call (Wamr (wasm_runtime_set_wasi_args (wasm_module context) argv)) (\<lambda>_.
      call (Wamr (wasm_runtime_instantiate (wasm_module context) STACK_SIZE heap_size)) (\<lambda>n.
      let context = context\<lparr>module_inst := ans_handle n\<rparr> in
      if module_inst context = 0 then return (TEE_ERROR_GENERIC, context, st) else
      return (TEE_SUCCESS, context, st\<lparr>singleton_wamr_context := Some context\<rparr>)))))))"

text \<open>The application writes with \<open>writev\<close> while it runs; the runtime then reports whether it ended
  without an exception.\<close>

fun run_writes :: "tz_state \<Rightarrow> (int \<times> bytes list) list \<Rightarrow> tz_state tee" where
  "run_writes tz [] = return tz"
| "run_writes tz ((fd, iov) # ws) = bind (writev tz fd iov) (\<lambda>(_, tz). run_writes tz ws)"

type_synonym wasm_app = "trace \<Rightarrow> (int \<times> bytes list) list"

definition TA_ExecuteWamrRuntime :: "wasm_app \<Rightarrow> watz_state \<Rightarrow> wamr_context \<Rightarrow> (TEE_Result \<times> watz_state) tee" where
  "TA_ExecuteWamrRuntime app st context env tr =
     bind (run_writes (platform st) (app tr)) (\<lambda>tz'.
     call (Wamr (wasm_application_execute_main (module_inst context))) (\<lambda>a.
     let st = st\<lparr>platform := tz'\<rparr> in
     if ans_res a \<noteq> TEE_SUCCESS then return (TEE_ERROR_GENERIC, st) else return (TEE_SUCCESS, st))) env tr"

definition TA_TearDownWamrRuntime :: "watz_state \<Rightarrow> wamr_context \<Rightarrow> watz_state tee" where
  "TA_TearDownWamrRuntime st context =
     (let st = st\<lparr>singleton_wamr_context := None\<rparr>;
          unload = (\<lambda>k. if wasm_module context \<noteq> 0 then call (Wamr (wasm_runtime_unload (wasm_module context))) (\<lambda>_. k) else k);
          destroy = call (Wamr wasm_runtime_destroy) (\<lambda>_. return st) in
      if module_inst context \<noteq> 0
      then call (Wamr (wasm_runtime_deinstantiate (module_inst context))) (\<lambda>_. unload destroy)
      else unload destroy)"

section \<open>Commands\<close>

definition COMMAND_RUN_WASM :: nat where "COMMAND_RUN_WASM = 0"
definition COMMAND_CONFIGURE_HEAP :: nat where "COMMAND_CONFIGURE_HEAP = 1"
definition COMMAND_CONFIGURE_LINEAR_MEMORY :: nat where "COMMAND_CONFIGURE_LINEAR_MEMORY = 2"

lemmas watz_command_defs = COMMAND_RUN_WASM_def COMMAND_CONFIGURE_HEAP_def COMMAND_CONFIGURE_LINEAR_MEMORY_def

definition TA_SetHeapSize :: "watz_state \<Rightarrow> u32 \<Rightarrow> TEE_Result \<times> watz_state" where
  "TA_SetHeapSize st sz = (TEE_SUCCESS, st\<lparr>heap_size := sz\<rparr>)"

definition TA_SetLinearMemory :: "watz_state \<Rightarrow> u32 \<Rightarrow> TEE_Result \<times> watz_state" where
  "TA_SetLinearMemory st sz = (TEE_SUCCESS, st\<lparr>initial_linear_memory_size := sz\<rparr>)"

text \<open>The local \<open>context\<close> of \<open>TA_RunWasm\<close>. The copy of the bytecode in secure memory is not used.\<close>

definition init_context :: "bool \<Rightarrow> watz_state \<Rightarrow> handle \<Rightarrow> (trace \<Rightarrow> bytes) \<Rightarrow> nat \<Rightarrow> wamr_context" where
  "init_context openssl st global_heap_buf shm code_size =
     \<lparr>wasm_bytecode = shm, wasm_bytecode_size = code_size,
      wasm_bytecode_hash = replicate (RA_HASH_SIZE div 8) 0,
      heap_buf = global_heap_buf, ctx_heap_size = unat (heap_size st), wasm_module = 0, module_inst = 0,
      native_symbols_size = (if openssl then 3 * sizeof_NativeSymbol else 0),
      ctx_initial_linear_memory_size = unat (initial_linear_memory_size st)\<rparr>"

text \<open>The initialisation, and the execution if it succeeded; both continue at the label \<open>error\<close>.\<close>

definition run_context :: "wasm_app \<Rightarrow> watz_state \<Rightarrow> wamr_context \<Rightarrow> bytes list \<Rightarrow> (TEE_Result \<times> wamr_context \<times> watz_state) tee" where
  "run_context app st context argv =
     bind (TA_InitializeWamrRuntime st context argv) (\<lambda>(result, context, st).
     if result \<noteq> TEE_SUCCESS then return (result, context, st) else
     bind (TA_ExecuteWamrRuntime app st context) (\<lambda>(result, st). return (result, context, st)))"

definition TA_RunWasm ::
  "bool \<Rightarrow> wasm_app \<Rightarrow> watz_state \<Rightarrow> (trace \<Rightarrow> bytes) \<Rightarrow> nat \<Rightarrow> bytes option \<Rightarrow> bytes \<Rightarrow> (TEE_Result \<times> watz_state) tee" where
  "TA_RunWasm openssl app st shm code_size arg_buff output_buffer =
     call (TEE_Malloc (unat (heap_size st))) (\<lambda>g.
     call (TEE_Malloc code_size) (\<lambda>t.
     shm_read shm code_size (\<lambda>code.
     wr (ans_data t) 0 code (\<lambda>_.
     let st = st\<lparr>platform := TA_SetOutputBuffer (platform st) output_buffer (of_nat (length output_buffer))\<rparr>;
         context = init_context openssl st (ans_handle g) shm code_size;
         argv = (case arg_buff of None \<Rightarrow> [[]] | Some arg \<Rightarrow> [[], arg]) in
     bind (run_context app st context argv) (\<lambda>(result, context, st).
     bind (TA_TearDownWamrRuntime st context) (\<lambda>st.
     call (TEE_Free (ans_handle g)) (\<lambda>_.
     call (TEE_Free (ans_handle t)) (\<lambda>_.
     return (result, st)))))))))"

definition TA_CreateEntryPoint_w :: TEE_Result where
  "TA_CreateEntryPoint_w = TEE_SUCCESS"

definition TA_OpenSessionEntryPoint_w :: "u32 \<Rightarrow> TEE_Result" where
  "TA_OpenSessionEntryPoint_w param_types =
     (if param_types \<noteq> TEE_PARAM_TYPES TEE_PARAM_TYPE_NONE TEE_PARAM_TYPE_NONE TEE_PARAM_TYPE_NONE TEE_PARAM_TYPE_NONE
      then TEE_ERROR_BAD_PARAMETERS else TEE_SUCCESS)"

text \<open>A memory reference may be null. The bytes of the first reference are the length of the
  bytecode only: its contents are those of the shared memory. \<open>TA_RunWasm\<close> takes the length as a \<open>uint32_t\<close>.\<close>

record watz_param = tee_param +
  null_ref :: bool

definition TA_InvokeCommandEntryPoint_w ::
  "bool \<Rightarrow> wasm_app \<Rightarrow> watz_state \<Rightarrow> (trace \<Rightarrow> bytes) \<Rightarrow> nat \<Rightarrow> u32 \<Rightarrow> watz_param list \<Rightarrow>
     (TEE_Result \<times> watz_state \<times> watz_param list) tee" where
  "TA_InvokeCommandEntryPoint_w openssl app st shm cmd_id param_types params =
     (if cmd_id = COMMAND_RUN_WASM then
        if TEE_PARAM_TYPES TEE_PARAM_TYPE_MEMREF_INPUT TEE_PARAM_TYPE_MEMREF_INPUT
             TEE_PARAM_TYPE_MEMREF_INOUT TEE_PARAM_TYPE_MEMREF_INOUT \<noteq> param_types
        then return (TEE_ERROR_BAD_PARAMETERS, st, params) else
        bind (TA_RunWasm openssl app st shm (length (memref (params ! 0)) mod 2 ^ 32)
          (if null_ref (params ! 1) then None else Some (memref (params ! 1))) (memref (params ! 2))) (\<lambda>(res, st).
        return (res, st, params[2 := (params ! 2)\<lparr>memref := out_mem (platform st)\<rparr>]))
      else if cmd_id = COMMAND_CONFIGURE_HEAP then
        if TEE_PARAM_TYPES TEE_PARAM_TYPE_VALUE_INPUT TEE_PARAM_TYPE_NONE TEE_PARAM_TYPE_NONE TEE_PARAM_TYPE_NONE \<noteq> param_types
        then return (TEE_ERROR_BAD_PARAMETERS, st, params) else
        (case TA_SetHeapSize st (value_a (params ! 0)) of (res, st) \<Rightarrow> return (res, st, params))
      else if cmd_id = COMMAND_CONFIGURE_LINEAR_MEMORY then
        if TEE_PARAM_TYPES TEE_PARAM_TYPE_VALUE_INPUT TEE_PARAM_TYPE_NONE TEE_PARAM_TYPE_NONE TEE_PARAM_TYPE_NONE \<noteq> param_types
        then return (TEE_ERROR_BAD_PARAMETERS, st, params) else
        (case TA_SetLinearMemory st (value_a (params ! 0)) of (res, st) \<Rightarrow> return (res, st, params))
      else return (TEE_ERROR_BAD_PARAMETERS, st, params))"

end
