(* ===== verification/Watz_Host.thy ===== *)
theory Watz_Host
  imports Watz_Ta
begin

text \<open>
  The program of the normal world that starts a WebAssembly application (\<open>watz/host/main.c\<close>). It
  allocates the buffers for the output, configures the trusted application, reads the bytecode from
  a file, runs it and prints what was captured. \<open>normal_world\<close> is a parameter: what the memory that
  holds the bytecode contains during the command.
\<close>

section \<open>Numbers on the command line\<close>

definition is_space :: "char \<Rightarrow> bool" where
  "is_space c \<longleftrightarrow> c = CHR '' '' \<or> (9 \<le> (of_char c :: nat) \<and> (of_char c :: nat) \<le> 13)"

definition is_digit :: "char \<Rightarrow> bool" where
  "is_digit c \<longleftrightarrow> 48 \<le> (of_char c :: nat) \<and> (of_char c :: nat) \<le> 57"

definition digits_value :: "string \<Rightarrow> int" where
  "digits_value s = foldl (\<lambda>n c. 10 * n + (of_char c - 48)) 0 (takeWhile is_digit s)"

definition atoi :: "string \<Rightarrow> int" where
  "atoi s = (case dropWhile is_space s of
       [] \<Rightarrow> 0
     | c # t \<Rightarrow> if c = CHR ''-'' then - digits_value t else if c = CHR ''+'' then digits_value t else digits_value (c # t))"

section \<open>State\<close>

text \<open>A buffer is the object \<open>malloc\<close> returned, empty if it returned null.\<close>

record tee_ctx =
  output_buffer :: bytes
  output_ptr :: handle
  ctx_output_buffer_size :: nat
  benchmark_buffer :: bytes
  benchmark_ptr :: handle
  benchmark_buffer_size :: nat

definition allocate_buffers :: "nat \<Rightarrow> tee_ctx tee" where
  "allocate_buffers buffers_size =
     call (Host (sys_malloc buffers_size)) (\<lambda>out.
     call (Host (sys_malloc buffers_size)) (\<lambda>b.
     return \<lparr>output_buffer = ans_data out, output_ptr = ans_handle out, ctx_output_buffer_size = buffers_size,
             benchmark_buffer = ans_data b, benchmark_ptr = ans_handle b, benchmark_buffer_size = buffers_size\<rparr>))"

definition free_buffers :: "tee_ctx \<Rightarrow> tee_ctx tee" where
  "free_buffers ctx =
     call (Host (sys_free (output_ptr ctx))) (\<lambda>_.
     call (Host (sys_free (benchmark_ptr ctx))) (\<lambda>_.
     return (ctx\<lparr>ctx_output_buffer_size := 0, benchmark_buffer_size := 0\<rparr>)))"

section \<open>Session and commands\<close>

definition prepare_tee_session_w :: "(nat + unit) tee" where
  "prepare_tee_session_w =
     call (Host TEEC_InitializeContext) (\<lambda>a.
     if ans_res a \<noteq> TEE_SUCCESS then return (Inl 1) else
     call (Host TEEC_OpenSession) (\<lambda>a.
     if ans_res a \<noteq> TEE_SUCCESS then return (Inl 1) else
     if TA_OpenSessionEntryPoint_w
          (TEE_PARAM_TYPES TEE_PARAM_TYPE_NONE TEE_PARAM_TYPE_NONE TEE_PARAM_TYPE_NONE TEE_PARAM_TYPE_NONE) \<noteq> TEE_SUCCESS
     then return (Inl 1) else return (Inr ())))"

definition invoke_command_w ::
  "bool \<Rightarrow> wasm_app \<Rightarrow> watz_state \<Rightarrow> (trace \<Rightarrow> bytes) \<Rightarrow> nat \<Rightarrow> u32 \<Rightarrow> watz_param list \<Rightarrow>
     (TEE_Result \<times> watz_state \<times> watz_param list) tee" where
  "invoke_command_w openssl app ta shm cmd_id param_types params =
     call (Host (TEEC_InvokeCommand cmd_id)) (\<lambda>a.
     if ans_res a \<noteq> TEE_SUCCESS then return (ans_res a, ta, params) else
     TA_InvokeCommandEntryPoint_w openssl app ta shm cmd_id param_types params)"

definition watz_ref :: "bytes \<Rightarrow> watz_param" where
  "watz_ref d = \<lparr>memref = d, value_a = 0, value_b = 0, null_ref = False\<rparr>"

definition null_param :: watz_param where
  "null_param = \<lparr>memref = [], value_a = 0, value_b = 0, null_ref = True\<rparr>"

text \<open>Both configuration commands print a message on failure and go on.\<close>

definition configure :: "string \<Rightarrow> nat \<Rightarrow> bool \<Rightarrow> wasm_app \<Rightarrow> watz_state \<Rightarrow> u32 \<Rightarrow> watz_state tee" where
  "configure msg cmd_id openssl app ta sz =
     bind (invoke_command_w openssl app ta (\<lambda>_. []) cmd_id
       (TEE_PARAM_TYPES TEE_PARAM_TYPE_VALUE_INPUT TEE_PARAM_TYPE_NONE TEE_PARAM_TYPE_NONE TEE_PARAM_TYPE_NONE)
       [null_param\<lparr>value_a := sz\<rparr>, null_param, null_param, null_param]) (\<lambda>(res, ta, _).
     if res \<noteq> TEE_SUCCESS then call (Host (sys_printf (c_string msg))) (\<lambda>_. return ta) else return ta)"

definition configure_heap_size :: "bool \<Rightarrow> wasm_app \<Rightarrow> watz_state \<Rightarrow> u32 \<Rightarrow> watz_state tee" where
  "configure_heap_size = configure ''The heap size of WaTZ cannot be configured.'' COMMAND_CONFIGURE_HEAP"

definition configure_linear_memory :: "bool \<Rightarrow> wasm_app \<Rightarrow> watz_state \<Rightarrow> u32 \<Rightarrow> watz_state tee" where
  "configure_linear_memory =
     configure ''The initial_linear_memory of the Wasm-binary cannot be configured.'' COMMAND_CONFIGURE_LINEAR_MEMORY"

section \<open>Running an application\<close>

text \<open>\<open>ftell\<close> returns a \<open>long\<close>, which is \<open>-1\<close> after an error; it is converted to \<open>size_t\<close> where a size is
  expected. The results of \<open>fseek\<close>, \<open>malloc\<close> and \<open>fread\<close> are not checked.\<close>

definition file_length :: "tee_answer \<Rightarrow> nat" where
  "file_length a = (if ans_res a = TEE_SUCCESS then ans_size a else 2 ^ 64 - 1)"

definition start_wasm ::
  "bool \<Rightarrow> wasm_app \<Rightarrow> (bytes \<Rightarrow> trace \<Rightarrow> bytes) \<Rightarrow> watz_state \<Rightarrow> tee_ctx \<Rightarrow> string \<Rightarrow> string option \<Rightarrow>
     (nat + bool \<times> watz_state \<times> tee_ctx) tee" where
  "start_wasm openssl app normal_world ta ctx wasm_path arg =
     call (Host (sys_fopen wasm_path)) (\<lambda>f.
     let wasm_file = ans_handle f in
     if wasm_file = 0 then
       call (Host (sys_printf (c_string ''ERROR: the file cannot be opened.''))) (\<lambda>_. return (Inr (False, ta, ctx)))
     else
     call (Host (sys_fseek_end wasm_file)) (\<lambda>_.
     call (Host (sys_ftell wasm_file)) (\<lambda>l.
     let wasm_file_length = file_length l in
     call (Host (sys_ftell wasm_file)) (\<lambda>l2.
     call (Host (sys_malloc (file_length l2))) (\<lambda>m.
     call (Host (sys_rewind wasm_file)) (\<lambda>_.
     call (Host (sys_fread wasm_file wasm_file_length)) (\<lambda>r.
     wr (ans_data m) 0 (ans_data r) (\<lambda>wasm_bytecode.
     call (Host (sys_fclose wasm_file)) (\<lambda>_.
     rd wasm_bytecode wasm_file_length (\<lambda>code.
     rd (output_buffer ctx) (ctx_output_buffer_size ctx) (\<lambda>out.
     rd (benchmark_buffer ctx) (benchmark_buffer_size ctx) (\<lambda>bench.
     bind (invoke_command_w openssl app ta (normal_world code) COMMAND_RUN_WASM
       (TEE_PARAM_TYPES TEE_PARAM_TYPE_MEMREF_INPUT TEE_PARAM_TYPE_MEMREF_INPUT
          TEE_PARAM_TYPE_MEMREF_INOUT TEE_PARAM_TYPE_MEMREF_INOUT)
       [watz_ref code, (case arg of None \<Rightarrow> null_param | Some a \<Rightarrow> watz_ref (map char_byte a)),
        watz_ref out, watz_ref bench]) (\<lambda>(res, ta, params).
     if res \<noteq> TEE_SUCCESS then return (Inl 1) else
     return (Inr (True, ta, ctx\<lparr>output_buffer := memref (params ! 2), benchmark_buffer := memref (params ! 3)\<rparr>)))))))))))))))"

definition terminate_tee_session_w :: "unit tee" where
  "terminate_tee_session_w =
     call (Host TEEC_CloseSession) (\<lambda>_. call (Host TEEC_FinalizeContext) (\<lambda>_. return ()))"

text \<open>\<open>%s\<close> reads up to the first zero: without one it leaves the buffer.\<close>

definition rd_string :: "bytes \<Rightarrow> (bytes \<Rightarrow> 'a tee) \<Rightarrow> 'a tee" where
  "rd_string b k = within (0 \<in> set b) (k (takeWhile (\<lambda>c. c \<noteq> 0) b))"

definition print_buffers :: "tee_ctx \<Rightarrow> unit tee" where
  "print_buffers ctx =
     rd_string (benchmark_buffer ctx) (\<lambda>b.
     rd_string (output_buffer ctx) (\<lambda>out.
     call (Host (sys_printf (b @ out))) (\<lambda>_. return ())))"

text \<open>\<open>main\<close> after the arguments were read and the buffers allocated.\<close>

definition run_session ::
  "bool \<Rightarrow> wasm_app \<Rightarrow> (bytes \<Rightarrow> trace \<Rightarrow> bytes) \<Rightarrow> watz_state \<Rightarrow> tee_ctx \<Rightarrow> u32 \<Rightarrow> u32 \<Rightarrow> string \<Rightarrow> string option \<Rightarrow>
     (nat + bool) tee" where
  "run_session openssl app normal_world ta ctx heap initial_linear_memory wasm_path arg =
     exec prepare_tee_session_w (\<lambda>_.
     bind (configure_heap_size openssl app ta heap) (\<lambda>ta.
     bind (configure_linear_memory openssl app ta initial_linear_memory) (\<lambda>ta.
     exec (start_wasm openssl app normal_world ta ctx wasm_path arg) (\<lambda>(success, ta, ctx).
     bind terminate_tee_session_w (\<lambda>_.
     bind (print_buffers ctx) (\<lambda>_.
     bind (free_buffers ctx) (\<lambda>_.
     return (Inr success))))))))"

definition watz_main :: "bool \<Rightarrow> wasm_app \<Rightarrow> (bytes \<Rightarrow> trace \<Rightarrow> bytes) \<Rightarrow> watz_state \<Rightarrow> string list \<Rightarrow> nat tee" where
  "watz_main openssl app normal_world ta argv =
     (if length argv < 4 then
        call (Host (sys_printf (c_string ''ERROR: The number of arguments does not match.''))) (\<lambda>_.
        call (Host (sys_printf (c_string ''SYNTAX: heap_size initial_linear_memory wasm_path [wasm_arg]''))) (\<lambda>_.
        return 1))
      else
        bind (allocate_buffers (5 * 1024)) (\<lambda>ctx.
        bind (run_session openssl app normal_world ta ctx (of_int (atoi (argv ! 1))) (of_int (atoi (argv ! 2))) (argv ! 3)
               (if 4 < length argv then Some (argv ! 4) else None)) (\<lambda>r. case r of
            Inl code \<Rightarrow> return code
          | Inr success \<Rightarrow> return (if success then 0 else 1))))"

end
