(* ===== verification/Tz_Spec.thy ===== *)
theory Tz_Spec
  imports Tz_Platform Honest
begin

text \<open>
  What the platform layer guarantees: page rounding and its wrap-around, mappings that end when they should,
  the protection bits, the capture of the output as the greedy choice of the writes that fit, byte
  order and the range of the clock.
\<close>

section \<open>Page sizes\<close>

lemma page_mask: "x AND NOT (PAGE_SIZE - 1) = push_bit 12 (drop_bit 12 x)"
proof -
  have "PAGE_SIZE - 1 = mask 12"
    by (simp add: PAGE_SIZE_def mask_eq_exp_minus_1)
  then show ?thesis
    by (auto intro!: bit_eqI simp: bit_simps)
qed

lemma unat_u64_less: "unat (x :: u64) < 2 ^ 64"
  using unsigned_less [of x] by simp

lemma unat_page_floor: "unat (push_bit 12 (drop_bit 12 (x :: u64))) = unat x div 4096 * 4096"
proof -
  have "unat x div 4096 * 4096 < 2 ^ 64"
    using unat_u64_less [of x] div_times_less_eq_dividend [of "unat x" 4096] by linarith
  then show ?thesis
    by (simp add: push_bit_eq_mult drop_bit_eq_div unat_word_ariths unat_div)
qed

lemma aligned_size_exact:
  assumes "unat sz + 4095 < 2 ^ 64"
  shows "unat (aligned_size sz) = align_up 4096 (unat sz)"
proof -
  have "unat (sz + PAGE_SIZE - 1) = unat sz + 4095"
    using assms by (simp add: PAGE_SIZE_def unat_add_lem [THEN iffD1] flip: add_diff_eq)
  then show ?thesis
    unfolding aligned_size_def page_mask unat_page_floor by (simp add: align_up_def)
qed

text \<open>A size in the last page of the address space is rounded to zero.\<close>

lemma aligned_size_wraps:
  assumes "2 ^ 64 \<le> unat sz + 4095"
  shows "aligned_size sz = 0"
proof -
  have "unat (sz + PAGE_SIZE - 1) = (unat sz + 4095) mod 2 ^ 64"
    by (simp add: PAGE_SIZE_def unat_word_ariths flip: add_diff_eq)
  also have "\<dots> = unat sz + 4095 - 2 ^ 64"
    using assms unat_u64_less [of sz] by (simp add: mod_if)
  finally have "unat (sz + PAGE_SIZE - 1) div 4096 = 0"
    using unat_u64_less [of sz] by simp
  then show ?thesis
    unfolding aligned_size_def page_mask by (simp add: unat_page_floor flip: unat_eq_0)
qed

section \<open>Protection\<close>

lemma prot_flags:
  "prot AND MMAP_PROT_READ \<noteq> 0 \<longleftrightarrow> bit prot 0"
  "prot AND MMAP_PROT_WRITE \<noteq> 0 \<longleftrightarrow> bit prot 1"
  "prot AND MMAP_PROT_EXEC \<noteq> 0 \<longleftrightarrow> bit prot 2"
  using and_exp_eq_0_iff_not_bit [of prot 0] and_exp_eq_0_iff_not_bit [of prot 1] and_exp_eq_0_iff_not_bit [of prot 2]
  by (simp_all add: MMAP_PROT_READ_def MMAP_PROT_WRITE_def MMAP_PROT_EXEC_def)

lemma mprot_step:
  "bit (if b then m OR (BIT k OR BIT l) else m) i \<longleftrightarrow> bit m i \<or> b \<and> (i = k \<or> i = l) \<and> i < 32"
  by (auto simp: BIT_def bit_simps)

lemma mprot_of_bits:
  "bit (mprot_of prot) i \<longleftrightarrow>
     (i = 4 \<or> i = 7) \<and> bit prot 0 \<or> (i = 5 \<or> i = 8) \<and> bit prot 1 \<or> (i = 6 \<or> i = 9) \<and> bit prot 2"
  unfolding mprot_of_def Let_def TEE_MATTR_PR_def TEE_MATTR_PW_def TEE_MATTR_PX_def TEE_MATTR_UR_def
    TEE_MATTR_UW_def TEE_MATTR_UX_def mprot_step prot_flags
  by auto

section \<open>Mappings\<close>

text \<open>The mappings that are alive, as pairs of an address and a size in whole pages. A mapping ends only if the
  call names its size and reports success; a remapping that succeeds replaces the block at the old address.\<close>

primrec mappings :: "trace \<Rightarrow> (handle \<times> nat) set" where
  "mappings [] = {}"
| "mappings (e # tr) = (case fst e of
       Map (tee_map_zi n) \<Rightarrow>
         if ans_handle (snd e) = 0 then mappings tr else insert (ans_handle (snd e), align_up 4096 n) (mappings tr)
     | Map (tee_remap n old) \<Rightarrow>
         if ans_handle (snd e) = 0 then mappings tr
         else insert (ans_handle (snd e), align_up 4096 n) {b \<in> mappings tr. fst b \<noteq> old}
     | Map (tee_unmap h n) \<Rightarrow>
         if ans_res (snd e) = TEE_SUCCESS then mappings tr - {(h, align_up 4096 n)} else mappings tr
     | _ \<Rightarrow> mappings tr)"

text \<open>What is assumed of the kernel: a new block is not at an address that is mapped.\<close>

definition blocks_fresh :: "env \<Rightarrow> bool" where
  "blocks_fresh env \<longleftrightarrow> (\<forall>tr n a. env tr (Map (tee_map_zi n)) = Some a \<longrightarrow> ans_handle a \<notin> fst ` mappings tr)"

text \<open>The last call was to end a mapping, and was refused.\<close>

definition unmap_refused :: "trace \<Rightarrow> handle \<Rightarrow> nat \<Rightarrow> bool" where
  "unmap_refused tr h n \<longleftrightarrow> (\<exists>a t. tr = (Map (tee_unmap h n), a) # t \<and> ans_res a \<noteq> TEE_SUCCESS)"

lemma align_up_idem [simp]: "align_up 4096 (align_up 4096 n) = align_up 4096 n"
  by (simp add: align_up_def)

lemma aligned_size_pages [simp]: "align_up 4096 (unat (aligned_size sz)) = unat (aligned_size sz)"
proof (cases "unat sz + 4095 < 2 ^ 64")
  case True
  then show ?thesis by (simp add: aligned_size_exact)
next
  case False
  then have "aligned_size sz = 0" by (intro aligned_size_wraps) simp
  then show ?thesis by (simp add: align_up_def)
qed

lemma blocks_freshD:
  assumes "blocks_fresh env" "env tr (Map (tee_map_zi n)) = Some a"
  shows "(ans_handle a, k) \<notin> mappings tr"
  using assms by (force simp: blocks_fresh_def)

lemma os_mmap_spec:
  assumes fresh: "blocks_fresh env"
  shows "wp (os_mmap sz prot file) env tr False (\<lambda>ret tr'.
    (ret = 0 \<longrightarrow> mappings tr' = mappings tr
       \<or> (\<exists>h. unmap_refused tr' h (unat (aligned_size sz)) \<and> mappings tr' = insert (h, unat (aligned_size sz)) (mappings tr))) \<and>
    (ret \<noteq> 0 \<longrightarrow> file < 0 \<and> unat (aligned_size sz) < 2 ^ 32 - 1
      \<and> mappings tr' = insert (ret, unat (aligned_size sz)) (mappings tr)))"
proof -
  have small: "\<not> 0xFFFFFFFF \<le> n \<Longrightarrow> unat n < 4294967295" for n :: u64
    by (simp add: not_le word_less_nat_alt)
  show ?thesis
    unfolding os_mmap_def os_mprotect_def Let_def
    by (auto simp: wp_simps wp_call small unmap_refused_def dest: blocks_freshD [OF fresh])
qed

section \<open>Captured output\<close>

lemma splice_splice:
  "off + length v \<le> length b \<Longrightarrow> splice (splice b off v) (off + length v) w = splice b off (v @ w)"
  by (simp add: splice_def ac_simps)

lemma count_chars_concat: "count_chars iov = of_nat (length (concat iov))"
  by (induction iov) simp_all

text \<open>Copying the pieces one after the other is one copy of their concatenation.\<close>

lemma gather_wr: "off \<le> length buffer \<Longrightarrow> gather iov buffer off k = wr buffer off (concat iov) k"
proof (induction iov arbitrary: buffer off)
  case Nil
  then show ?case by (auto simp: wr_def splice_def)
next
  case (Cons v iov)
  then show ?case by (intro ext) (simp add: wr_def splice_splice)
qed

text \<open>The room that is left stays inside the memory of the normal world.\<close>

definition tz_inv :: "tz_state \<Rightarrow> bool" where
  "tz_inv tz \<longleftrightarrow> out_pos tz + unat (output_buffer_size tz) \<le> length (out_mem tz)"

text \<open>The contract of the capture: the text so far and the room left. A text that does not leave at
  least one byte free is dropped.\<close>

type_synonym capture = "bytes \<times> nat"

definition put :: "capture \<Rightarrow> bytes \<Rightarrow> capture" where
  "put c d = (if length d < snd c then (fst c @ d, snd c - length d) else c)"

definition captured :: "tz_state \<Rightarrow> capture" where
  "captured tz = (take (out_pos tz) (out_mem tz), unat (output_buffer_size tz))"

lemma put_room: "length (fst (put c d)) + snd (put c d) = length (fst c) + snd c"
  by (simp add: put_def)

lemma put_last_byte: "0 < snd c \<Longrightarrow> 0 < snd (put c d)"
  by (simp add: put_def)

definition printed :: "tz_state \<Rightarrow> bytes \<Rightarrow> tz_state" where
  "printed tz d =
     (if length d < unat (output_buffer_size tz)
      then tz\<lparr>out_mem := splice (out_mem tz) (out_pos tz) d, out_pos := out_pos tz + length d,
              output_buffer_size := output_buffer_size tz - of_nat (length d)\<rparr>
      else tz)"

lemma printed_inv:
  assumes "tz_inv tz"
  shows "tz_inv (printed tz d)"
    and "captured (printed tz d) = put (captured tz) d"
    and "length (out_mem (printed tz d)) = length (out_mem tz)"
    and "drop (out_pos (printed tz d)) (out_mem (printed tz d)) = drop (out_pos (printed tz d)) (out_mem tz)"
proof -
  have size: "unat (output_buffer_size tz - of_nat (length d)) = unat (output_buffer_size tz) - length d"
    if "length d < unat (output_buffer_size tz)"
    using that unat_u64_less [of "output_buffer_size tz"]
    by (simp add: unat_sub word_le_nat_alt unat_of_nat)
  show "tz_inv (printed tz d)" "captured (printed tz d) = put (captured tz) d"
    "length (out_mem (printed tz d)) = length (out_mem tz)"
    "drop (out_pos (printed tz d)) (out_mem (printed tz d)) = drop (out_pos (printed tz d)) (out_mem tz)"
    using assms by (auto simp: tz_inv_def printed_def captured_def put_def size splice_def min_def)
qed

lemma unat_chars: "n < 2 ^ 64 \<Longrightarrow> unat (of_nat n :: u64) = n"
  by (simp add: unat_of_nat)

lemma store_output_printed:
  assumes "tz_inv tz" "length d < 2 ^ 64"
  shows "store_output tz (d @ e) (of_nat (length d)) = return (printed tz d)"
proof -
  have "unat (of_nat (length d) :: u64) = length d"
    using assms(2) by (rule unat_chars)
  then show ?thesis
    using assms(1)
    by (intro ext) (auto simp: store_output_def rd_def wr_def printed_def tz_inv_def splice_def return_def
      word_less_nat_alt add.commute)
qed

lemma gathered:
  assumes "tz_inv tz" "length buffer < 2 ^ 32"
  shows "gather iov buffer 0 (\<lambda>b. bind (store_output tz b (of_nat (length (concat iov)))) k)
    = within (length (concat iov) \<le> length buffer) (k (printed tz (concat iov)))"
proof (cases "length (concat iov) \<le> length buffer")
  case True
  then have "length (concat iov) < 2 ^ 64" using assms(2) by simp
  then show ?thesis using True assms(1)
    by (intro ext) (simp add: gather_wr wr_def within_def splice_0 store_output_printed bind_def return_def)
qed (intro ext, simp add: gather_wr wr_def within_def)

lemma malloc_u32: "unat (ucast (x :: u64) :: u32) < 2 ^ 32"
  using unsigned_less [of "ucast x :: u32"] by simp

lemma writev_spec:
  assumes gp: "gp_tee C env" and inv: "tz_inv tz"
  shows "wp (writev tz fd iov) env tr True (\<lambda>(n, tz') tr'.
    if fd = 1 \<or> fd = 2 then n = int (length (concat iov)) \<and> tz' = printed tz (concat iov) else n = -1 \<and> tz' = tz)"
proof (cases "fd = 1 \<or> fd = 2")
  case True
  have len: "length (ans_data m) < 2 ^ 32" if "ans_ok C tr (TEE_Malloc (unat (ucast (of_nat (length (concat iov)) :: u64) :: u32))) m" for m
    using that malloc_u32 [of "of_nat (length (concat iov))"] by (simp add: ans_ok_def)
  have sint: "sint (of_nat n :: u64) = int n" if "n < 2 ^ 32" for n
    using that by (subst signed_of_nat) (simp add: signed_take_bit_int_eq_self)
  show ?thesis
    using True unfolding writev_def os_malloc_def Let_def count_chars_concat
    apply (simp add: wp_simps)
    apply (rule gp_callI [OF gp])
    subgoal for m
      using len [of m] by (simp add: gathered inv wp_simps os_free_def wp_call sint)
    done
qed (simp add: writev_def wp_simps)

lemma writev_total:
  assumes hon: "honest C priv net env" and inv: "tz_inv tz" and small: "length (concat iov) < 2 ^ 31" and fd: "fd = 1 \<or> fd = 2"
  shows "twp (writev tz fd iov) env tr (\<lambda>(n, tz') tr'.
    n = int (length (concat iov)) \<and> tz' = printed tz (concat iov))"
proof -
  have room: "length (ans_data m) = length (concat iov)"
    if "ans_ok C tr (TEE_Malloc (unat (ucast (of_nat (length (concat iov)) :: u64) :: u32))) m" "ans_handle m \<noteq> 0" for m
    using that small by (simp add: ans_ok_def unsigned_ucast_eq unat_chars take_bit_nat_eq_self)
  have sint: "sint (of_nat n :: u64) = int n" if "n < 2 ^ 31" for n
    using that by (subst signed_of_nat) (simp add: signed_take_bit_int_eq_self)
  show ?thesis
    using fd unfolding writev_def os_malloc_def Let_def count_chars_concat
    apply (simp add: twp_simps)
    apply (rule honest_callI [OF hon])
    subgoal for m
      using room [of m] small
      by (auto simp: served_def gathered inv twp_simps os_free_def sint intro!: honest_callI [OF hon])
    done
qed

section \<open>Byte order and time\<close>

lemma swap32_rev:
  assumes "length d = 4"
  shows "swap32 d = rev d"
proof -
  obtain b0 b1 b2 b3 where "d = [b0, b1, b2, b3]"
    using assms by (auto simp: length_Suc_conv numeral_eq_Suc)
  then show ?thesis by (simp add: swap32_def Let_def)
qed

lemma length_swap32 [simp]: "length (swap32 d) = length d"
  by (simp add: swap32_def Let_def)

lemma htonl_htonl: "htonl (htonl v) = v"
proof -
  let ?d = "swap32 (le_bytes 4 (unat v))"
  have "le_value ?d < 2 ^ 32"
    using le_value_bound [of ?d] by simp
  then have "unat (of_nat (le_value ?d) :: u32) = le_value ?d"
    by (simp add: unat_of_nat)
  moreover have "le_bytes 4 (le_value ?d) = ?d"
    using le_bytes_le_value [of ?d] by simp
  moreover have "le_value (le_bytes 4 (unat v)) = unat v"
    using unsigned_less [of v] by (intro le_value_le_bytes) simp
  ultimately show ?thesis
    by (simp add: htonl_def swap32_rev)
qed

lemma little_endian: is_little_endian
  using le_bytes.simps(2) [of 7 "0x01020304"] by (simp add: is_little_endian_def)

text \<open>The most significant byte goes first.\<close>

lemma htonl_bytes: "le_bytes 4 (unat (htonl v)) = rev (le_bytes 4 (unat v))"
proof -
  let ?d = "swap32 (le_bytes 4 (unat v))"
  have "le_value ?d < 2 ^ 32"
    using le_value_bound [of ?d] by simp
  then have "le_bytes 4 (unat (htonl v)) = ?d"
    using le_bytes_le_value [of ?d] by (simp add: htonl_def little_endian unat_of_nat)
  also have "\<dots> = rev (le_bytes 4 (unat v))"
    by (simp add: swap32_rev)
  finally show ?thesis .
qed

text \<open>The microseconds are computed with 32 bits.\<close>

lemma boot_microsecond_wraps:
  "unat (os_time_get_boot_microsecond t) = (unat (seconds t) * 1000 + unat (millis t)) * 1000 mod 2 ^ 32"
proof -
  have "unat (tee_time_to_ms t * 1000) < 2 ^ 32"
    using unsigned_less [of "tee_time_to_ms t * 1000"] by simp
  then have "unat (os_time_get_boot_microsecond t) = unat (tee_time_to_ms t * 1000)"
    by (simp add: os_time_get_boot_microsecond_def unsigned_ucast_eq take_bit_nat_eq_self)
  also have "\<dots> = (unat (seconds t) * 1000 + unat (millis t)) * 1000 mod 2 ^ 32"
    by (simp add: tee_time_to_ms_def unat_word_ariths mod_simps)
  finally show ?thesis .
qed

section \<open>Strings\<close>

text \<open>\<open>strcpy\<close> stays inside its objects exactly when the source has a terminator and the
  destination room for the text and the terminator.\<close>

lemma strcpy_at:
  assumes "0 \<notin> set s"
  shows "strcpy_at i dest (s @ 0 # rest) = (if i + length s < length dest then Some (splice dest i (s @ [0])) else None)"
  using assms
proof (induction s arbitrary: i dest)
  case Nil
  then show ?case by (simp add: splice_def upd_conv_take_nth_drop)
next
  case (Cons c s)
  then have "strcpy_at (Suc i) (dest[i := c]) (s @ 0 # rest) =
      (if i + length (c # s) < length dest then Some (splice (dest[i := c]) (Suc i) (s @ [0])) else None)"
    by simp
  moreover have "splice (dest[i := c]) (Suc i) (s @ [0]) = splice dest i (c # s @ [0])" if "i < length dest"
    using that by (simp add: splice_def take_Suc_conv_app_nth)
  ultimately show ?case
    using Cons.prems by simp
qed

lemma strcpy_unterminated: "0 \<notin> set s \<Longrightarrow> strcpy_at i dest s = None"
  by (induction s arbitrary: i dest) auto

end
