(* ===== verification/Watz_Spec.thy ===== *)
theory Watz_Spec
  imports Watz_Ta Tz_Spec
begin

text \<open>
  Properties of the trusted application that runs WebAssembly. A balance counts for every handle how
  often it was acquired and not released; the commands keep it, except that a runtime whose start failed
  is destroyed nevertheless. The output of an application is
  captured by the contract of \<open>Tz_Spec\<close>.
\<close>

section \<open>Balances\<close>

text \<open>There is one runtime, which has no handle; it is counted under 0.\<close>

datatype resource = Memory | Object | Operation | Runtime | Module | Instance

definition effect :: "tee_call \<Rightarrow> tee_answer \<Rightarrow> resource \<Rightarrow> handle \<Rightarrow> int" where
  "effect c a r h =
     (let acquired = (\<lambda>r' h'. if r = r' \<and> h = h' then 1 else 0); released = (\<lambda>r' h'. if r = r' \<and> h = h' then -1 else 0) in
      case c of
       TEE_Malloc _ \<Rightarrow> acquired Memory (ans_handle a)
     | TEE_Free h' \<Rightarrow> released Memory h'
     | TEE_AllocateTransientObject _ _ \<Rightarrow> if ans_res a = TEE_SUCCESS then acquired Object (ans_handle a) else 0
     | TEE_FreeTransientObject h' \<Rightarrow> released Object h'
     | TEE_AllocateOperation _ _ _ \<Rightarrow> if ans_res a = TEE_SUCCESS then acquired Operation (ans_handle a) else 0
     | TEE_FreeOperation h' \<Rightarrow> released Operation h'
     | Wamr (wasm_runtime_full_init _ _ _) \<Rightarrow> if ans_res a = TEE_SUCCESS then acquired Runtime 0 else 0
     | Wamr wasm_runtime_destroy \<Rightarrow> released Runtime 0
     | Wamr (wasm_runtime_load _) \<Rightarrow> if ans_handle a \<noteq> 0 then acquired Module (ans_handle a) else 0
     | Wamr (wasm_runtime_unload h') \<Rightarrow> released Module h'
     | Wamr (wasm_runtime_instantiate _ _ _) \<Rightarrow> if ans_handle a \<noteq> 0 then acquired Instance (ans_handle a) else 0
     | Wamr (wasm_runtime_deinstantiate h') \<Rightarrow> released Instance h'
     | _ \<Rightarrow> 0)"

primrec balance :: "trace \<Rightarrow> resource \<Rightarrow> handle \<Rightarrow> int" where
  "balance [] = (\<lambda>r h. 0)"
| "balance (e # tr) = (\<lambda>r h. effect (fst e) (snd e) r h + balance tr r h)"

text \<open>The starts of the runtime that failed. \<open>TA_TearDownWamrRuntime\<close> destroys the runtime also after such a
  start, so that the proofs count every start that was tried.\<close>

primrec failed_starts :: "trace \<Rightarrow> nat" where
  "failed_starts [] = 0"
| "failed_starts (e # tr) = (case fst e of
       Wamr (wasm_runtime_full_init _ _ _) \<Rightarrow> if ans_res (snd e) = TEE_SUCCESS then failed_starts tr else Suc (failed_starts tr)
     | _ \<Rightarrow> failed_starts tr)"

definition is_start :: "tee_call \<Rightarrow> bool" where
  "is_start c = (case c of Wamr (wasm_runtime_full_init _ _ _) \<Rightarrow> True | _ \<Rightarrow> False)"

interpretation start_observer: trace_observer failed_starts is_start
  by unfold_locales (auto simp: is_start_def split: tee_call.splits wamr_call.splits)

definition accounts :: "trace \<Rightarrow> resource \<Rightarrow> handle \<Rightarrow> int" where
  "accounts tr r h = balance tr r h + (if r = Runtime \<and> h = 0 then int (failed_starts tr) else 0)"

lemma accounts_Cons [simp]:
  "accounts (e # tr) = (\<lambda>r h. (if is_start (fst e) then if r = Runtime \<and> h = 0 then 1 else 0 else effect (fst e) (snd e) r h)
     + accounts tr r h)"
  by (auto simp: fun_eq_iff accounts_def effect_def is_start_def split: tee_call.splits wamr_call.splits)

text \<open>What a context holds.\<close>

definition holds :: "wamr_context \<Rightarrow> resource \<Rightarrow> handle \<Rightarrow> int" where
  "holds ctx r h =
     (if r = Runtime \<and> h = 0 \<or> r = Module \<and> h = wasm_module ctx \<and> h \<noteq> 0 \<or> r = Instance \<and> h = module_inst ctx \<and> h \<noteq> 0
      then 1 else 0)"

section \<open>Output\<close>

text \<open>The texts that an application sends to its two output streams.\<close>

definition texts :: "(int \<times> bytes list) list \<Rightarrow> bytes list" where
  "texts ws = map (concat \<circ> snd) (filter (\<lambda>w. fst w = 1 \<or> fst w = 2) ws)"

definition printed_all :: "tz_state \<Rightarrow> (int \<times> bytes list) list \<Rightarrow> tz_state" where
  "printed_all tz ws = foldl printed tz (texts ws)"

lemma printed_all_Cons:
  "printed_all tz ((fd, iov) # ws) = printed_all (if fd = 1 \<or> fd = 2 then printed tz (concat iov) else tz) ws"
  by (simp add: printed_all_def texts_def)

lemma printed_all_inv:
  assumes "tz_inv tz"
  shows "tz_inv (printed_all tz ws)"
    and "captured (printed_all tz ws) = foldl put (captured tz) (texts ws)"
    and "length (out_mem (printed_all tz ws)) = length (out_mem tz)"
proof -
  have "tz_inv (foldl printed tz ds) \<and> captured (foldl printed tz ds) = foldl put (captured tz) ds \<and>
      length (out_mem (foldl printed tz ds)) = length (out_mem tz)" for ds
    using assms by (induction ds arbitrary: tz) (simp_all add: printed_inv)
  then show "tz_inv (printed_all tz ws)"
    "captured (printed_all tz ws) = foldl put (captured tz) (texts ws)"
    "length (out_mem (printed_all tz ws)) = length (out_mem tz)"
    by (simp_all add: printed_all_def)
qed

lemma accounts_writev: "wp (writev tz fd iov) env tr True (\<lambda>_ tr'. accounts tr' = accounts tr)"
proof -
  have inner: "wp (gather iov b off (\<lambda>b. bind (store_output tz b n) (\<lambda>tz. os_free h (return (x, tz))))) env tr' True
      (\<lambda>_ tr''. accounts tr'' = accounts tr)"
    if "accounts tr' = (\<lambda>r h'. (if r = Memory \<and> h' = h then 1 else 0) + accounts tr r h')" for b off n h x tr'
    using that
    by (induction iov arbitrary: b off)
      (auto simp: wp_simps store_output_def os_free_def wp_call effect_def is_start_def fun_eq_iff)
  have malloc: "effect (TEE_Malloc n) a r h = (if r = Memory \<and> h = ans_handle a then 1 else 0)" for n a r h
    by (simp add: effect_def is_start_def)
  show ?thesis
    unfolding writev_def os_malloc_def Let_def by (auto simp: wp_simps wp_call malloc is_start_def intro!: inner)
qed

lemma run_writes_spec:
  assumes gp: "gp_tee C env" and inv: "tz_inv tz"
  shows "wp (run_writes tz ws) env tr True (\<lambda>tz' tr'. tz' = printed_all tz ws \<and> accounts tr' = accounts tr)"
  using inv
proof (induction ws arbitrary: tz tr)
  case Nil
  then show ?case by (simp add: wp_simps printed_all_def texts_def)
next
  case (Cons w ws)
  obtain fd iov where w: "w = (fd, iov)" by (cases w)
  have step: "wp (writev tz fd iov) env tr True (\<lambda>(n, tz') tr'.
      tz' = (if fd = 1 \<or> fd = 2 then printed tz (concat iov) else tz) \<and> accounts tr' = accounts tr)"
    using wp_conj [OF writev_spec [OF gp Cons.prems] accounts_writev] by (rule wp_mono) auto
  show ?case
    unfolding w run_writes.simps
    by (rule wp_bindI [OF step])
      (auto simp: wp_simps printed_all_Cons printed_inv Cons.prems intro!: wp_mono [OF Cons.IH])
qed

section \<open>A run\<close>

text \<open>The modules that were loaded, latest first.\<close>

primrec loaded :: "trace \<Rightarrow> bytes list" where
  "loaded [] = []"
| "loaded (e # tr) = (case fst e of Wamr (wasm_runtime_load code) \<Rightarrow> code # loaded tr | _ \<Rightarrow> loaded tr)"

definition is_load :: "tee_call \<Rightarrow> bool" where
  "is_load c = (case c of Wamr (wasm_runtime_load _) \<Rightarrow> True | _ \<Rightarrow> False)"

interpretation load_observer: trace_observer loaded is_load
  by unfold_locales (auto simp: is_load_def split: tee_call.splits wamr_call.splits)

text \<open>The output makes no call but for memory.\<close>

context trace_observer
begin

lemma silent_writev:
  assumes "\<And>n. \<not> seen (TEE_Malloc n)" "\<And>h. \<not> seen (TEE_Free h)"
  shows "silent obs (writev tz fd iov)"
proof -
  have inner: "silent obs (gather iov b off k)" if "\<And>b. silent obs (k b)" for b off and k :: "bytes \<Rightarrow> (int \<times> tz_state) tee"
    by (induction iov arbitrary: b off) (auto intro!: silent_intros that)
  show ?thesis
    by (auto simp: writev_def os_malloc_def os_free_def store_output_def Let_def assms intro!: silent_intros inner)
qed

lemma silent_run_writes:
  "(\<And>n. \<not> seen (TEE_Malloc n)) \<Longrightarrow> (\<And>h. \<not> seen (TEE_Free h)) \<Longrightarrow> silent obs (run_writes tz ws)"
  by (induction tz ws rule: run_writes.induct) (auto intro!: silent_intros silent_writev)

end

lemma wp_shm_read [wp_simps]:
  "wp (shm_read shm n k) env tr ob Q = (if n \<le> length (shm tr) then wp (k (take n (shm tr))) env tr ob Q else ob)"
  by (simp add: wp_def shm_read_def rd_def)

text \<open>An application starts right after it was instantiated. The initialisation keeps the settings. It holds what it reports in the context, and loads at
  most one module, whose code is what the shared memory contains after the runtime started.\<close>

definition at_start :: "trace \<Rightarrow> bool" where
  "at_start tr \<longleftrightarrow> (\<exists>m s h a t. tr = (Wamr (wasm_runtime_instantiate m s h), a) # t)"

definition initialised :: "(trace \<Rightarrow> bytes) \<Rightarrow> nat \<Rightarrow> watz_state \<Rightarrow> trace \<Rightarrow> TEE_Result \<Rightarrow> wamr_context \<Rightarrow> watz_state \<Rightarrow> trace \<Rightarrow> bool" where
  "initialised shm n st tr result ctx st' tr' \<longleftrightarrow>
     platform st' = platform st \<and> heap_size st' = heap_size st \<and>
     initial_linear_memory_size st' = initial_linear_memory_size st \<and>
     accounts tr' = (\<lambda>r h. holds ctx r h + accounts tr r h) \<and>
     (result = TEE_SUCCESS \<longrightarrow> failed_starts tr' = failed_starts tr \<and> at_start tr' \<and> wasm_module ctx \<noteq> 0 \<and> module_inst ctx \<noteq> 0 \<and>
       (\<exists>c a trl. loaded tr' = take n (shm ((Wamr c, a) # trl)) # loaded tr))"

lemma initialize_spec:
  assumes "wasm_module ctx = 0" "module_inst ctx = 0"
  shows "wp (TA_InitializeWamrRuntime st ctx argv) env tr True
    (\<lambda>(result, ctx', st') tr'. initialised (wasm_bytecode ctx) (wasm_bytecode_size ctx) st tr result ctx' st' tr')"
  using assms
  by (auto simp: TA_InitializeWamrRuntime_def Let_def wp_simps wp_call initialised_def at_start_def effect_def is_start_def holds_def fun_eq_iff)

text \<open>A run: the tear-down releases what the initialisation acquired, on every path.\<close>

lemma tear_down_spec:
  "wp (TA_TearDownWamrRuntime st ctx) env tr True (\<lambda>st' tr'.
     st' = st\<lparr>singleton_wamr_context := None\<rparr> \<and> loaded tr' = loaded tr \<and> failed_starts tr' = failed_starts tr \<and>
     accounts tr' = (\<lambda>r h. accounts tr r h - holds ctx r h))"
  by (auto simp: TA_TearDownWamrRuntime_def Let_def wp_simps wp_call effect_def is_start_def holds_def fun_eq_iff)

definition executed :: "wasm_app \<Rightarrow> (trace \<Rightarrow> bytes) \<Rightarrow> nat \<Rightarrow> watz_state \<Rightarrow> trace \<Rightarrow> TEE_Result \<Rightarrow> watz_state \<Rightarrow> trace \<Rightarrow> bool" where
  "executed app shm n st tr result st' tr' \<longleftrightarrow>
     heap_size st' = heap_size st \<and> initial_linear_memory_size st' = initial_linear_memory_size st \<and>
     (platform st' = platform st \<or> (\<exists>trx. at_start trx \<and> platform st' = printed_all (platform st) (app trx))) \<and>
     (result = TEE_SUCCESS \<longrightarrow> failed_starts tr' = failed_starts tr \<and> (\<exists>trx. at_start trx \<and> platform st' = printed_all (platform st) (app trx)) \<and>
       (\<exists>c a trl. loaded tr' = take n (shm ((Wamr c, a) # trl)) # loaded tr))"

lemma execute_spec:
  assumes gp: "gp_tee C env" and inv: "tz_inv (platform st)"
  shows "wp (TA_ExecuteWamrRuntime app st ctx) env tr True (\<lambda>(result, st') tr'.
    st' = st\<lparr>platform := printed_all (platform st) (app tr)\<rparr> \<and> loaded tr' = loaded tr
    \<and> failed_starts tr' = failed_starts tr \<and> accounts tr' = accounts tr)"
  unfolding wp_def TA_ExecuteWamrRuntime_def
  apply (fold wp_def)
  apply (simp add: wp_simps wp_call effect_def is_start_def Let_def)
  apply (rule wp_mono [OF wp_silent [OF load_observer.silent_run_writes
      wp_silent [OF start_observer.silent_run_writes run_writes_spec [OF gp inv]]]])
      apply (simp_all add: is_load_def is_start_def)
  done

lemma run_context_spec:
  assumes gp: "gp_tee C env" and inv: "tz_inv (platform st)"
    and "wasm_module ctx = 0" "module_inst ctx = 0"
  shows "wp (run_context app st ctx argv) env tr True (\<lambda>(result, ctx', st') tr'.
    executed app (wasm_bytecode ctx) (wasm_bytecode_size ctx) st tr result st' tr' \<and>
    accounts tr' = (\<lambda>r h. holds ctx' r h + accounts tr r h))"
  unfolding run_context_def
  apply (rule wp_bindI [OF initialize_spec [OF assms(3,4)]])
  apply (auto simp: wp_simps initialised_def executed_def)
  subgoal
    by (rule wp_mono [OF execute_spec [OF gp]]) (auto simp: inv)
  done

lemma set_output_inv:
  "tz_inv (TA_SetOutputBuffer tz out (of_nat (length out)))"
proof -
  have "unat (ucast (of_nat (length out) :: u64) :: u32) \<le> length out"
    by (simp add: unsigned_ucast_eq unat_of_nat) (meson order.trans take_bit_nat_less_eq_self mod_less_eq_dividend)
  then show ?thesis
    by (simp add: TA_SetOutputBuffer_def watz_set_output_buffer_def tz_inv_def unsigned_ucast_eq unsigned_take_bit_eq)
qed

text \<open>The output buffer of a command, as \<open>TA_RunWasm\<close> installs it.\<close>

abbreviation with_output :: "watz_state \<Rightarrow> bytes \<Rightarrow> watz_state" where
  "with_output st out \<equiv> st\<lparr>platform := TA_SetOutputBuffer (platform st) out (of_nat (length out))\<rparr>"

lemma run_wasm_spec:
  assumes gp: "gp_tee C env"
  shows "wp (TA_RunWasm openssl app st shm n arg out) env tr True (\<lambda>(result, st') tr'.
    executed app shm n (with_output st out) tr result st' tr' \<and> singleton_wamr_context st' = None \<and> accounts tr' = accounts tr)"
  unfolding TA_RunWasm_def Let_def
  apply (rule gp_callI [OF gp])
  apply (rule gp_callI [OF gp])
  apply (simp add: wp_simps)
  apply (intro impI wp_mono [OF run_context_spec [OF gp]])
  apply (auto simp: wp_simps init_context_def set_output_inv)
  subgoal
    by (rule wp_mono [OF tear_down_spec]) (auto simp: wp_call wp_simps effect_def is_start_def fun_eq_iff executed_def)
  done

section \<open>Commands\<close>

lemma command_spec:
  assumes gp: "gp_tee C env"
  shows "wp (TA_InvokeCommandEntryPoint_w openssl app st shm cmd types params) env tr True (\<lambda>(res, st', params') tr'.
    (singleton_wamr_context st = None \<longrightarrow> singleton_wamr_context st' = None) \<and> accounts tr' = accounts tr
    \<and> (res = TEE_SUCCESS \<longrightarrow> failed_starts tr' = failed_starts tr))"
  unfolding TA_InvokeCommandEntryPoint_w_def
  by (auto simp: wp_simps TA_SetHeapSize_def TA_SetLinearMemory_def intro!: wp_mono [OF run_wasm_spec [OF gp]] simp: executed_def)

section \<open>RSA\<close>

lemma with_rsa_balance:
  assumes "\<And>op tr. wp (run op) env tr True (\<lambda>_ tr'. balance tr' = balance tr)"
  shows "wp (with_rsa_operation key md x run) env tr True (\<lambda>_ tr'. balance tr' = balance tr)"
  by (auto simp: with_rsa_operation_def Let_def wp_simps wp_call effect_def fun_eq_iff
    intro!: wp_mono [OF assms])

lemma encrypt_balance: "wp (Host_Encrypt key src dest req) env tr True (\<lambda>_ tr'. balance tr' = balance tr)"
  unfolding Host_Encrypt_def by (rule with_rsa_balance) (auto simp: wp_simps wp_call effect_def fun_eq_iff)

lemma decrypt_balance: "wp (Host_Decrypt key src dest req) env tr True (\<lambda>_ tr'. balance tr' = balance tr)"
  unfolding Host_Decrypt_def by (rule with_rsa_balance) (auto simp: wp_simps wp_call effect_def fun_eq_iff)

lemma generate_key_spec:
  assumes gp: "gp_tee C env"
  shows "wp (Host_GenerateKey key) env tr True (\<lambda>(res, key') tr'.
    (res \<noteq> TEE_SUCCESS \<longrightarrow> key' = key \<and> balance tr' = balance tr) \<and>
    (res = TEE_SUCCESS \<longrightarrow> (\<exists>h. h \<noteq> 0 \<and> key' = splice key 0 (le_bytes 8 h) \<and>
       balance tr' = (\<lambda>r h'. (if r = Object \<and> h' = h then 1 else 0) + balance tr r h'))))"
  unfolding Host_GenerateKey_def Let_def
  apply (rule gp_callI [OF gp])
  apply (auto simp: wp_simps wp_call ans_ok_def effect_def fun_eq_iff)
  done

lemma strlen_less: "0 \<in> set src \<Longrightarrow> strlen src < length src"
  unfolding strlen_def by (induction src) auto

lemma encrypt_safe:
  assumes gp: "gp_tee C env" and "0 \<in> set src" "4 \<le> length req" "le_value (take 4 req) \<le> length dest"
  shows "wp (Host_Encrypt key src dest req) env tr False (\<lambda>_ _. True)"
  using assms strlen_less [of src]
  unfolding Host_Encrypt_def with_rsa_operation_def Let_def
  by (auto simp: wp_simps wp_call ans_ok_def Suc_le_eq dest!: gp_teeD [OF gp])

text \<open>No answer that the API may give makes the function leave its objects.\<close>

definition encrypt_inside :: "crypto \<Rightarrow> handle \<Rightarrow> bytes \<Rightarrow> bytes \<Rightarrow> bytes \<Rightarrow> bool" where
  "encrypt_inside C key src dest req \<longleftrightarrow>
     (\<forall>env tr. gp_tee C env \<longrightarrow> fst (Host_Encrypt key src dest req env tr) \<noteq> Oob)"

definition greedy_env :: "crypto \<Rightarrow> env" where
  "greedy_env C tr c = (case c of TEE_AsymmetricEncrypt _ _ n \<Rightarrow> Some (ok 0 (replicate n 0) []) | _ \<Rightarrow> ref_env C [] [] tr c)"

lemma gp_greedy: "gp_tee C (greedy_env C)"
  unfolding gp_tee_def
proof (intro allI impI)
  fix tr c a
  assume a: "greedy_env C tr c = Some a"
  show "ans_ok C tr c a"
  proof (cases "\<exists>h d n. c = TEE_AsymmetricEncrypt h d n")
    case True
    then show ?thesis using a by (auto simp: greedy_env_def ans_ok_def ok_def)
  next
    case False
    then have "greedy_env C tr c = ref_env C [] [] tr c"
      by (cases c) (auto simp: greedy_env_def)
    then show ?thesis
      using a gp_teeD [OF gp_tee_ref_env] by metis
  qed
qed

lemma encrypt_overruns:
  assumes "key \<noteq> 0" "0 \<in> set src" "4 \<le> length req" "length dest < le_value (take 4 req)"
  shows "fst (Host_Encrypt key src dest req (greedy_env C) tr) = Oob"
  using assms strlen_less [of src]
  by (simp add: Host_Encrypt_def with_rsa_operation_def tee_defs greedy_env_def ref_env_def ref_ans_def ok_def Let_def)

section \<open>A willing runtime\<close>

definition willing :: "env \<Rightarrow> bool" where
  "willing env \<longleftrightarrow> (\<forall>tr c a. env tr (Wamr c) = Some a \<longrightarrow> ans_res a = TEE_SUCCESS \<and> ans_handle a \<noteq> 0)"

lemma willing_callI:
  assumes "honest C priv net env" "willing env"
    and "\<And>a. ans_res a = TEE_SUCCESS \<Longrightarrow> ans_handle a \<noteq> 0 \<Longrightarrow> twp (k a) env ((Wamr c, a) # tr) Q"
  shows "twp (call (Wamr c) k) env tr Q"
proof -
  obtain a where "env tr (Wamr c) = Some a"
    using assms(1) by (auto simp: honest_def)
  then show ?thesis
    using assms(2,3) by (auto simp: twp_call willing_def)
qed

lemma twp_shm_read [twp_simps]:
  "twp (shm_read shm n k) env tr Q = (n \<le> length (shm tr) \<and> twp (k (take n (shm tr))) env tr Q)"
  by (simp add: twp_def shm_read_def rd_def)

definition small_writes :: "(int \<times> bytes list) list \<Rightarrow> bool" where
  "small_writes ws \<longleftrightarrow> (\<forall>(fd, iov) \<in> set ws. length (concat iov) < 2 ^ 31)"

lemma run_writes_total:
  assumes hon: "honest C priv net env" and inv: "tz_inv tz" and small: "small_writes ws"
  shows "twp (run_writes tz ws) env tr (\<lambda>tz' tr'. tz' = printed_all tz ws)"
  using inv small
proof (induction ws arbitrary: tz tr)
  case Nil
  then show ?case by (simp add: twp_simps printed_all_def texts_def)
next
  case (Cons w ws)
  obtain fd iov where w: "w = (fd, iov)" by (cases w)
  have len: "length (concat iov) < 2 ^ 31" and ws: "small_writes ws"
    using Cons.prems(2) by (simp_all add: small_writes_def w)
  show ?case
  proof (cases "fd = 1 \<or> fd = 2")
    case True
    show ?thesis
      unfolding w run_writes.simps
      by (rule twp_bindI [OF writev_total [OF hon Cons.prems(1) len True]])
        (auto simp: printed_all_Cons True printed_inv Cons.prems(1) ws intro!: twp_mono [OF Cons.IH])
  next
    case False
    then show ?thesis
      using Cons.IH [OF Cons.prems(1) ws]
      by (simp add: w writev_def twp_simps printed_all_Cons)
  qed
qed

lemma run_context_total:
  assumes hon: "honest C priv net env" and will: "willing env" and inv: "tz_inv (platform st)"
    and code: "\<And>tr. wasm_bytecode_size ctx \<le> length (wasm_bytecode ctx tr)" and small: "\<And>tr. small_writes (app tr)"
  shows "twp (run_context app st ctx argv) env tr (\<lambda>(result, _) _. result = TEE_SUCCESS)"
proof -
  have exec: "twp (TA_ExecuteWamrRuntime app st' ctx') env tr' (\<lambda>(result, _) _. result = TEE_SUCCESS)"
    if "tz_inv (platform st')" for st' ctx' tr'
    unfolding twp_def TA_ExecuteWamrRuntime_def
    apply (fold twp_def)
    apply (rule twp_bindI [OF run_writes_total [OF hon that small]])
    apply (auto simp: twp_simps Let_def intro!: willing_callI [OF hon will])
    done
  show ?thesis
    unfolding run_context_def TA_InitializeWamrRuntime_def Let_def
    by (auto simp: twp_simps code inv intro!: willing_callI [OF hon will] twp_mono [OF exec])
qed

lemma run_wasm_total:
  assumes hon: "honest C priv net env" and will: "willing env"
    and code: "\<And>tr. n \<le> length (shm tr)" and small: "\<And>tr. small_writes (app tr)"
  shows "twp (TA_RunWasm openssl app st shm n arg out) env tr (\<lambda>(result, _) _. result = TEE_SUCCESS)"
proof -
  have down: "twp (TA_TearDownWamrRuntime st' ctx') env tr' (\<lambda>_ _. True)" for st' ctx' tr'
    unfolding TA_TearDownWamrRuntime_def Let_def
    by (auto simp: twp_simps intro!: willing_callI [OF hon will])
  show ?thesis
    unfolding TA_RunWasm_def Let_def
    apply (rule honest_callI [OF hon])
    apply (rule honest_callI [OF hon])
    apply (simp add: twp_simps code)
    apply (intro conjI)
    subgoal by (simp add: ans_ok_def served_def)
    apply (rule twp_mono [OF run_context_total [OF hon will]])
    apply (auto simp: init_context_def set_output_inv code small twp_simps)
    apply (rule twp_mono [OF down])
    apply (auto simp: twp_simps intro!: honest_callI [OF hon])
    done
qed

end
