(* ===== verification/Watz_Host_Spec.thy ===== *)
theory Watz_Host_Spec
  imports Watz_Host Watz_Spec
begin

text \<open>
  Properties of the host program of the WebAssembly application: what it prints, that it reads past the
  end of the benchmark buffer if that has no terminator, and that it ends with status 0 if nothing is
  refused and allocations are cleared.
\<close>

section \<open>What is printed\<close>

primrec last_print :: "trace \<Rightarrow> bytes" where
  "last_print [] = []"
| "last_print (e # tr) = (case fst e of Host (sys_printf d) \<Rightarrow> d | _ \<Rightarrow> last_print tr)"

text \<open>The contents of an output buffer after a run.\<close>

definition shown :: "bytes \<Rightarrow> (int \<times> bytes list) list \<Rightarrow> bytes" where
  "shown out ws = splice out 0 (fst (foldl put ([], length out) (texts ws)))"

lemma set_output_captured:
  assumes "length out < 2 ^ 32"
  shows "captured (TA_SetOutputBuffer tz out (of_nat (length out))) = ([], length out)"
    and "out_mem (TA_SetOutputBuffer tz out (of_nat (length out))) = out"
  using assms
  by (simp_all add: captured_def TA_SetOutputBuffer_def watz_set_output_buffer_def unsigned_ucast_eq
    unsigned_take_bit_eq unat_chars take_bit_nat_eq_self)

lemma printed_all_tail:
  assumes "tz_inv tz"
  shows "drop (out_pos (printed_all tz ws)) (out_mem (printed_all tz ws)) = drop (out_pos (printed_all tz ws)) (out_mem tz)
    \<and> out_pos tz \<le> out_pos (printed_all tz ws)"
proof -
  have "drop (out_pos (foldl printed tz ds)) (out_mem (foldl printed tz ds)) = drop (out_pos (foldl printed tz ds)) (out_mem tz)
      \<and> out_pos tz \<le> out_pos (foldl printed tz ds)" for ds
    using assms
  proof (induction ds arbitrary: tz)
    case (Cons d ds)
    let ?z = "foldl printed (printed tz d) ds"
    have *: "drop (out_pos ?z) (out_mem ?z) = drop (out_pos ?z) (out_mem (printed tz d))"
      "out_pos (printed tz d) \<le> out_pos ?z"
      using Cons.IH [OF printed_inv(1) [OF Cons.prems]] by auto
    have "drop (out_pos ?z) (out_mem (printed tz d)) = drop (out_pos ?z) (out_mem tz)"
      using printed_inv(4) [OF Cons.prems, of d] *(2) by (metis drop_drop le_add_diff_inverse2)
    moreover have "out_pos tz \<le> out_pos (printed tz d)"
      by (simp add: printed_def)
    ultimately show ?case
      using * by simp
  qed simp
  then show ?thesis
    by (simp add: printed_all_def)
qed

lemma shown_printed:
  assumes "length out < 2 ^ 32"
  shows "out_mem (printed_all (TA_SetOutputBuffer tz out (of_nat (length out))) ws) = shown out ws"
proof -
  let ?i = "TA_SetOutputBuffer tz out (of_nat (length out))"
  let ?z = "printed_all ?i ws"
  have inv: "tz_inv ?i" by (rule set_output_inv)
  have "captured ?z = foldl put ([], length out) (texts ws)"
    using printed_all_inv(2) [OF inv, of ws] set_output_captured(1) [OF assms, of tz] by simp
  then have cap: "take (out_pos ?z) (out_mem ?z) = fst (foldl put ([], length out) (texts ws))"
    by (metis captured_def fst_conv)
  have "out_pos ?z \<le> length (out_mem ?z)"
    using printed_all_inv(1) [OF inv, of ws] by (simp add: tz_inv_def)
  then have len: "out_pos ?z = length (fst (foldl put ([], length out) (texts ws)))"
    by (simp flip: cap)
  have "out_mem ?z = take (out_pos ?z) (out_mem ?z) @ drop (out_pos ?z) (out_mem ?z)"
    by simp
  also have "\<dots> = shown out ws"
    using printed_all_tail [OF inv, of ws] cap unfolding len
    by (simp add: shown_def splice_0 set_output_captured(2) [OF assms])
  finally show ?thesis .
qed

section \<open>A run of the program\<close>

definition bounded :: "tee_ctx \<Rightarrow> bool" where
  "bounded ctx \<longleftrightarrow> length (output_buffer ctx) \<le> ctx_output_buffer_size ctx \<and> ctx_output_buffer_size ctx < 2 ^ 32 \<and>
     length (benchmark_buffer ctx) \<le> benchmark_buffer_size ctx"

lemma executed_shown:
  assumes "executed app shm n (with_output st out) tr TEE_SUCCESS st' tr'" "length out < 2 ^ 32"
  shows "\<exists>trx. at_start trx \<and> out_mem (platform st') = shown out (app trx)"
proof -
  obtain trx where "at_start trx" "platform st' = printed_all (TA_SetOutputBuffer (platform st) out (of_nat (length out))) (app trx)"
    using assms(1) by (auto simp: executed_def)
  then show ?thesis
    using shown_printed [OF assms(2)] by auto
qed

lemma invoke_run_spec:
  assumes gp: "gp_tee C env" and out: "length out < 2 ^ 32"
  shows "wp (invoke_command_w openssl app ta shm COMMAND_RUN_WASM types [c, a, watz_ref out, watz_ref bench]) env tr True
    (\<lambda>(res, ta', params) _. res = TEE_SUCCESS \<longrightarrow>
      (\<exists>trx. at_start trx \<and> memref (params ! 2) = shown out (app trx)) \<and> memref (params ! 3) = bench)"
  unfolding invoke_command_w_def
  apply (rule gp_callI [OF gp])
  apply (auto simp: wp_simps TA_InvokeCommandEntryPoint_w_def watz_ref_def intro!: wp_mono [OF run_wasm_spec [OF gp]]
    dest: executed_shown [OF _ out])
  done

lemma start_wasm_spec:
  assumes gp: "gp_tee C env" and ctx: "bounded ctx"
  shows "wp (start_wasm openssl app nw ta ctx path arg) env tr True (\<lambda>r _. case r of
      Inl code \<Rightarrow> code = 1
    | Inr (success, ta', ctx') \<Rightarrow> benchmark_buffer ctx' = benchmark_buffer ctx \<and>
        (if success then \<exists>trx. at_start trx \<and> output_buffer ctx' = shown (output_buffer ctx) (app trx) else ctx' = ctx))"
  using ctx unfolding start_wasm_def Let_def bounded_def
  apply (simp add: wp_simps wp_call)
  apply (intro allI impI conjI wp_mono [OF invoke_run_spec [OF gp]])
  apply (auto simp: wp_simps)
  done

lemma wp_any: "wp m env tr True (\<lambda>_ _. True)"
  by (rule wp_TrueI) simp

text \<open>The program succeeds only after it printed both buffers, and these have a terminator.\<close>

lemma print_buffers_spec:
  "wp (print_buffers ctx) env tr True (\<lambda>_ tr'. 0 \<in> set (benchmark_buffer ctx) \<and> 0 \<in> set (output_buffer ctx) \<and>
     last_print tr' = takeWhile (\<lambda>c. c \<noteq> 0) (benchmark_buffer ctx) @ takeWhile (\<lambda>c. c \<noteq> 0) (output_buffer ctx))"
  by (auto simp: print_buffers_def rd_string_def wp_simps wp_call)

text \<open>What a successful run printed, in terms of the two buffers it started with.\<close>

definition reported :: "wasm_app \<Rightarrow> bytes \<Rightarrow> bytes \<Rightarrow> trace \<Rightarrow> bool" where
  "reported app out bench tr' \<longleftrightarrow> (\<exists>trx. at_start trx \<and> 0 \<in> set bench \<and> 0 \<in> set (shown out (app trx)) \<and>
     last_print tr' = takeWhile (\<lambda>c. c \<noteq> 0) bench @ takeWhile (\<lambda>c. c \<noteq> 0) (shown out (app trx)))"

lemma run_session_spec:
  assumes gp: "gp_tee C env" and ctx: "bounded ctx"
  shows "wp (run_session openssl app nw ta ctx heap ilm path arg) env tr True (\<lambda>r tr'.
    r \<noteq> Inl 0 \<and> (r = Inr True \<longrightarrow> reported app (output_buffer ctx) (benchmark_buffer ctx) tr'))"
  unfolding run_session_def
  apply (rule wp_execI [of _ _ _ _ "\<lambda>r _. r \<noteq> Inl 0"])
  subgoal by (auto simp: prepare_tee_session_w_def wp_simps wp_call)
  subgoal by simp
  apply (rule wp_bindI [OF wp_any])
  apply (rule wp_bindI [OF wp_any])
  apply (rule wp_execI [OF start_wasm_spec [OF gp ctx]])
  subgoal by simp
  apply (auto simp: wp_simps terminate_tee_session_w_def free_buffers_def wp_call)
  apply (auto intro!: wp_mono [OF print_buffers_spec] simp: reported_def split: if_splits)
  done

text \<open>The contents of a fresh allocation of the host are unspecified.\<close>

definition malloc_result :: "env \<Rightarrow> nat \<Rightarrow> bytes \<Rightarrow> bool" where
  "malloc_result env n d \<longleftrightarrow> (\<exists>tr a. env tr (Host (sys_malloc n)) = Some a \<and> d = ans_data a)"

lemma malloc_result_length: "gp_tee C env \<Longrightarrow> malloc_result env n d \<Longrightarrow> length d \<le> n"
  by (auto simp: malloc_result_def ans_ok_def dest!: gp_teeD)

lemma allocate_buffers_spec:
  assumes gp: "gp_tee C env" and n: "n < 2 ^ 32"
  shows "wp (allocate_buffers n) env tr True (\<lambda>ctx _. bounded ctx \<and>
    malloc_result env n (output_buffer ctx) \<and> malloc_result env n (benchmark_buffer ctx))"
proof -
  have "wp (allocate_buffers n) env tr True (\<lambda>ctx _. malloc_result env n (output_buffer ctx) \<and>
      malloc_result env n (benchmark_buffer ctx) \<and> ctx_output_buffer_size ctx = n \<and> benchmark_buffer_size ctx = n)"
    by (auto simp: allocate_buffers_def wp_simps wp_call malloc_result_def)
  then show ?thesis
    by (rule wp_mono) (auto simp: bounded_def n malloc_result_length [OF gp] n [simplified])
qed

lemma watz_main_spec:
  assumes gp: "gp_tee C env" and argv: "4 \<le> length argv"
  shows "wp (watz_main openssl app nw ta argv) env tr True (\<lambda>code tr'. code = 0 \<longrightarrow>
    (\<exists>out bench. malloc_result env 5120 out \<and> malloc_result env 5120 bench \<and> reported app out bench tr'))"
proof -
  have small: "5 * 1024 < (2 ^ 32 :: nat)" by simp
  have eq: "\<not> length argv < 4" using argv by simp
  show ?thesis
    unfolding watz_main_def if_not_P [OF eq]
    apply (rule wp_bindI [OF allocate_buffers_spec [OF gp small]])
    apply (rule wp_bindI [OF run_session_spec [OF gp]])
    apply simp
    apply (auto simp: wp_simps split: sum.splits)
    done
qed

section \<open>The program completes\<close>

text \<open>The file holds \<open>code\<close> and allocations are cleared.\<close>

definition disk :: "bytes \<Rightarrow> env \<Rightarrow> bool" where
  "disk code env \<longleftrightarrow> (\<forall>tr a.
     (\<forall>path. env tr (Host (sys_fopen path)) = Some a \<longrightarrow> ans_handle a \<noteq> 0) \<and>
     (\<forall>f. env tr (Host (sys_ftell f)) = Some a \<longrightarrow> ans_size a = length code) \<and>
     (\<forall>f n. env tr (Host (sys_fread f n)) = Some a \<longrightarrow> ans_data a = take n code) \<and>
     (\<forall>n. env tr (Host (sys_malloc n)) = Some a \<longrightarrow> ans_data a = replicate n 0))"

text \<open>The same with allocations that succeed but are not cleared.\<close>

definition files :: "bytes \<Rightarrow> env \<Rightarrow> bool" where
  "files code env \<longleftrightarrow> (\<forall>tr a.
     (\<forall>path. env tr (Host (sys_fopen path)) = Some a \<longrightarrow> ans_handle a \<noteq> 0) \<and>
     (\<forall>f. env tr (Host (sys_ftell f)) = Some a \<longrightarrow> ans_size a = length code) \<and>
     (\<forall>f n. env tr (Host (sys_fread f n)) = Some a \<longrightarrow> ans_data a = take n code) \<and>
     (\<forall>n. env tr (Host (sys_malloc n)) = Some a \<longrightarrow> length (ans_data a) = n))"

lemma disk_files: "disk code env \<Longrightarrow> files code env"
  unfolding disk_def files_def by (metis length_replicate)

lemma system_callI:
  assumes "honest C priv net env"
    and "\<And>a. env tr (Host c) = Some a \<Longrightarrow> ans_res a = TEE_SUCCESS \<Longrightarrow> twp (k a) env ((Host c, a) # tr) Q"
  shows "twp (call (Host c) k) env tr Q"
proof -
  obtain a where "env tr (Host c) = Some a" "served C priv net tr (Host c) a"
    using assms(1) by (auto simp: honest_def)
  then show ?thesis
    using assms(2) by (simp add: twp_call served_def serviceable_def)
qed

lemma start_wasm_total:
  assumes hon: "honest C priv net env" and will: "willing env" and dsk: "files code env"
    and nw: "\<And>tr. length code \<le> length (nw code tr)" and small: "\<And>tr. small_writes (app tr)"
    and ctx: "ctx_output_buffer_size ctx = length (output_buffer ctx)" "benchmark_buffer_size ctx = length (benchmark_buffer ctx)"
  shows "twp (start_wasm openssl app nw ta ctx path arg) env tr (\<lambda>r _. \<exists>x. r = Inr x \<and> fst x)"
proof -
  have invoke: "twp (invoke_command_w openssl app ta (nw code) COMMAND_RUN_WASM
       (TEE_PARAM_TYPES TEE_PARAM_TYPE_MEMREF_INPUT TEE_PARAM_TYPE_MEMREF_INPUT
          TEE_PARAM_TYPE_MEMREF_INOUT TEE_PARAM_TYPE_MEMREF_INOUT) [watz_ref code, a, b, c]) env tr'
     (\<lambda>(res, _) _. res = TEE_SUCCESS)" for a b c tr'
    unfolding invoke_command_w_def
    apply (rule system_callI [OF hon])
    apply (simp add: TA_InvokeCommandEntryPoint_w_def watz_ref_def twp_simps)
    apply (intro conjI impI twp_mono [OF run_wasm_total [OF hon will]])
    apply (auto simp: nw small intro: order_trans [OF mod_less_eq_dividend])
    done
  have facts: "env tr (Host (sys_fopen path)) = Some a \<Longrightarrow> ans_handle a \<noteq> 0"
    "env tr (Host (sys_ftell f)) = Some a \<Longrightarrow> ans_size a = length code"
    "env tr (Host (sys_fread f n)) = Some a \<Longrightarrow> ans_data a = take n code"
    "env tr (Host (sys_malloc n)) = Some a \<Longrightarrow> length (ans_data a) = n" for tr a path f n
    using dsk unfolding files_def by blast+
  show ?thesis
    unfolding start_wasm_def Let_def
    apply (rule system_callI [OF hon], simp add: facts)
    apply (rule system_callI [OF hon])
    apply (rule system_callI [OF hon])
    apply (rule system_callI [OF hon])
    apply (rule system_callI [OF hon])
    apply (rule system_callI [OF hon])
    apply (rule system_callI [OF hon])
    apply (simp add: facts file_length_def twp_simps)
    apply (rule system_callI [OF hon])
    apply (simp add: twp_simps ctx)
    apply (rule twp_mono [OF invoke])
    apply auto
    done
qed

lemma zeroed_shown:
  assumes "0 < n"
  shows "0 \<in> set (shown (replicate n 0) ws)"
proof -
  let ?c = "foldl put ([], n) (texts ws)"
  have "length (fst (foldl put c ds)) + snd (foldl put c ds) = length (fst c) + snd c \<and>
      (0 < snd c \<longrightarrow> 0 < snd (foldl put c ds))" for c ds
    by (induction ds arbitrary: c) (simp_all add: put_room put_last_byte)
  from this [of "([], n)" "texts ws"] have "length (fst ?c) < n"
    using assms by simp
  then show ?thesis
    by (auto simp: shown_def splice_0)
qed

lemma configure_total:
  assumes hon: "honest C priv net env" and cmd: "cmd = COMMAND_CONFIGURE_HEAP \<or> cmd = COMMAND_CONFIGURE_LINEAR_MEMORY"
  shows "twp (configure msg cmd openssl app ta sz) env tr (\<lambda>_ _. True)"
  using cmd unfolding configure_def invoke_command_w_def TA_InvokeCommandEntryPoint_w_def
  by (auto simp: twp_simps watz_command_defs TA_SetHeapSize_def TA_SetLinearMemory_def intro!: system_callI [OF hon])

definition cleared :: "tee_ctx \<Rightarrow> bool" where
  "cleared ctx \<longleftrightarrow> output_buffer ctx = replicate 5120 0 \<and> benchmark_buffer ctx = replicate 5120 0 \<and>
     ctx_output_buffer_size ctx = 5120 \<and> benchmark_buffer_size ctx = 5120"

lemma start_wasm_cleared:
  assumes hon: "honest C priv net env" and will: "willing env" and dsk: "disk code env"
    and nw: "\<And>tr. length code \<le> length (nw code tr)" and small: "\<And>tr. small_writes (app tr)" and ctx: "cleared ctx"
  shows "twp (start_wasm openssl app nw ta ctx path arg) env tr (\<lambda>r _. \<exists>x. r = Inr x \<and>
    fst x \<and> 0 \<in> set (output_buffer (snd (snd x))) \<and> 0 \<in> set (benchmark_buffer (snd (snd x))))"
proof -
  have "twp (start_wasm openssl app nw ta ctx path arg) env tr (\<lambda>r _. \<exists>x. r = Inr x \<and> fst x)"
    using ctx by (intro start_wasm_total [OF hon will disk_files [OF dsk]]) (simp_all add: nw small cleared_def)
  moreover have "bounded ctx" using ctx by (simp add: bounded_def cleared_def)
  ultimately show ?thesis
    using ctx
    by (rule_tac twp_mono [OF twp_wp [OF _ start_wasm_spec [OF honest_gp_tee [OF hon]]]])
      (auto simp: zeroed_shown cleared_def)
qed

lemma run_session_total:
  assumes hon: "honest C priv net env" and will: "willing env" and dsk: "disk code env"
    and nw: "\<And>tr. length code \<le> length (nw code tr)" and small: "\<And>tr. small_writes (app tr)" and ctx: "cleared ctx"
  shows "twp (run_session openssl app nw ta ctx heap ilm path arg) env tr (\<lambda>r _. r = Inr True)"
  unfolding run_session_def
  apply (rule twp_execI [where R = "\<lambda>_ _. True"])
  subgoal by (auto simp: prepare_tee_session_w_def TA_OpenSessionEntryPoint_w_def twp_simps intro!: system_callI [OF hon])
  apply (rule twp_bindI [where R = "\<lambda>_ _. True"])
  subgoal by (simp add: configure_heap_size_def configure_total [OF hon])
  apply (rule twp_bindI [where R = "\<lambda>_ _. True"])
  subgoal by (simp add: configure_linear_memory_def configure_total [OF hon])
  apply (rule twp_execI [OF start_wasm_cleared [OF hon will dsk]], simp_all add: nw small ctx)
  apply (auto simp: terminate_tee_session_w_def print_buffers_def rd_string_def free_buffers_def twp_simps
    intro!: system_callI [OF hon])
  done

lemma watz_main_total:
  assumes hon: "honest C priv net env" and will: "willing env" and dsk: "disk code env"
    and nw: "\<And>tr. length code \<le> length (nw code tr)" and small: "\<And>tr. small_writes (app tr)"
    and argv: "4 \<le> length argv"
  shows "twp (watz_main openssl app nw ta argv) env tr (\<lambda>code _. code = 0)"
proof -
  have mal: "env tr (Host (sys_malloc n)) = Some a \<Longrightarrow> ans_data a = replicate n 0" for tr n a
    using dsk unfolding disk_def by blast
  have eq: "\<not> length argv < 4" using argv by simp
  have alloc: "twp (allocate_buffers (5 * 1024)) env tr (\<lambda>ctx _. cleared ctx)"
    unfolding allocate_buffers_def cleared_def
    by (auto simp: twp_simps mal intro!: system_callI [OF hon])
  show ?thesis
    unfolding watz_main_def if_not_P [OF eq]
    apply (rule twp_bindI [OF alloc])
    apply (rule twp_bindI [OF run_session_total [OF hon will dsk]])
    apply (simp_all add: twp_simps nw small)
    done
qed

section \<open>Buffers without a terminator\<close>

text \<open>A run that leaves an object, with the trace at that moment.\<close>

definition owp :: "'a tee \<Rightarrow> env \<Rightarrow> trace \<Rightarrow> (trace \<Rightarrow> bool) \<Rightarrow> bool" where
  "owp m env tr Q = (case m env tr of (Oob, tr') \<Rightarrow> Q tr' | _ \<Rightarrow> False)"

lemma owp_here: "owp m env tr Q \<Longrightarrow> owp (bind m k) env tr Q"
  by (auto simp: owp_def bind_def split: prod.splits outcome.splits)

lemma owp_bindI: "twp m env tr R \<Longrightarrow> (\<And>x tr'. R x tr' \<Longrightarrow> owp (k x) env tr' Q) \<Longrightarrow> owp (bind m k) env tr Q"
  by (erule twpE) (simp add: owp_def bind_def)

lemma owp_execI:
  assumes "twp m env tr (\<lambda>r tr'. \<exists>x. r = Inr x \<and> R x tr')" "\<And>x tr'. R x tr' \<Longrightarrow> owp (k x) env tr' Q"
  shows "owp (exec m k) env tr Q"
  unfolding exec_def by (rule owp_bindI [OF assms(1)]) (auto intro: assms(2))

lemma print_buffers_overrun:
  "0 \<notin> set (benchmark_buffer ctx) \<Longrightarrow> Q tr \<Longrightarrow> owp (print_buffers ctx) env tr Q"
  by (simp add: owp_def print_buffers_def rd_string_def within_def)

text \<open>The trusted side is closed and what follows is the printing.\<close>

definition session_closed :: "trace \<Rightarrow> bool" where
  "session_closed tr \<longleftrightarrow> (\<exists>a t. tr = (Host TEEC_FinalizeContext, a) # t)"

lemma terminate_total:
  assumes hon: "honest C priv net env"
  shows "twp terminate_tee_session_w env tr (\<lambda>_ tr'. session_closed tr')"
  by (auto simp: terminate_tee_session_w_def twp_simps session_closed_def intro!: system_callI [OF hon])

lemma run_session_overrun:
  assumes hon: "honest C priv net env" and will: "willing env" and dsk: "files code env"
    and nw: "\<And>tr. length code \<le> length (nw code tr)" and small: "\<And>tr. small_writes (app tr)"
    and ctx: "ctx_output_buffer_size ctx = length (output_buffer ctx)" "benchmark_buffer_size ctx = length (benchmark_buffer ctx)"
      "bounded ctx" "0 \<notin> set (benchmark_buffer ctx)"
  shows "owp (run_session openssl app nw ta ctx heap ilm path arg) env tr session_closed"
proof -
  have start: "twp (start_wasm openssl app nw ta' ctx path arg) env tr' (\<lambda>r _. \<exists>x. r = Inr x \<and>
      benchmark_buffer (snd (snd x)) = benchmark_buffer ctx)" for ta' tr'
    by (rule twp_mono [OF twp_wp [OF start_wasm_total [OF hon will dsk] start_wasm_spec [OF honest_gp_tee [OF hon] ctx(3)]]])
      (auto simp: nw small ctx)
  show ?thesis
    unfolding run_session_def
    apply (rule owp_execI [where R = "\<lambda>_ _. True"])
    subgoal by (auto simp: prepare_tee_session_w_def TA_OpenSessionEntryPoint_w_def twp_simps intro!: system_callI [OF hon])
    apply (rule owp_bindI [where R = "\<lambda>_ _. True"])
    subgoal by (simp add: configure_heap_size_def configure_total [OF hon])
    apply (rule owp_bindI [where R = "\<lambda>_ _. True"])
    subgoal by (simp add: configure_linear_memory_def configure_total [OF hon])
    apply (rule owp_execI [OF start])
    apply (clarsimp split: prod.splits)
    apply (rule owp_bindI [OF terminate_total [OF hon]])
    apply (rule owp_here [OF print_buffers_overrun])
     apply (simp_all add: ctx)
    done
qed

lemma watz_main_overrun:
  assumes hon: "honest C priv net env" and will: "willing env" and dsk: "files code env"
    and nw: "\<And>tr. length code \<le> length (nw code tr)" and small: "\<And>tr. small_writes (app tr)"
    and argv: "4 \<le> length argv" and zero: "\<And>d. malloc_result env 5120 d \<Longrightarrow> 0 \<notin> set d"
  shows "owp (watz_main openssl app nw ta argv) env tr session_closed"
proof -
  have mal: "env tr (Host (sys_malloc n)) = Some a \<Longrightarrow> length (ans_data a) = n" for tr n a
    using dsk unfolding files_def by blast
  have eq: "\<not> length argv < 4" using argv by simp
  have alloc: "twp (allocate_buffers (5 * 1024)) env tr (\<lambda>ctx _. ctx_output_buffer_size ctx = length (output_buffer ctx)
      \<and> benchmark_buffer_size ctx = length (benchmark_buffer ctx) \<and> bounded ctx \<and> 0 \<notin> set (benchmark_buffer ctx))"
  proof -
    have "twp (allocate_buffers (5 * 1024)) env tr (\<lambda>ctx _. length (output_buffer ctx) = 5120 \<and> length (benchmark_buffer ctx) = 5120
        \<and> ctx_output_buffer_size ctx = 5120 \<and> benchmark_buffer_size ctx = 5120)"
      unfolding allocate_buffers_def by (auto simp: twp_simps mal intro!: system_callI [OF hon])
    from twp_wp [OF this allocate_buffers_spec [OF honest_gp_tee [OF hon]]] show ?thesis
      by (rule twp_mono) (auto dest: zero)
  qed
  show ?thesis
    unfolding watz_main_def if_not_P [OF eq]
    by (rule owp_bindI [OF alloc], rule owp_here)
      (intro run_session_overrun [OF hon will dsk] nw small, simp_all)
qed

end
