(* ===== verification/Watz_Props.thy ===== *)
theory Watz_Props
  imports Watz_Host_Spec
begin

text \<open>
  The properties of the WebAssembly side: the host program, the trusted application that runs a
  module, the RSA functions and the platform layer, each with an instance on a concrete environment.
\<close>

section \<open>A concrete environment\<close>

definition no_crypto :: crypto where
  "no_crypto = \<lparr>sha256 = (\<lambda>_. replicate 32 0), cmac = (\<lambda>_ _. []), pub_x = (\<lambda>_. []), pub_y = (\<lambda>_. []),
     ecdh = (\<lambda>_ _ _. []), ecdsa_sign = (\<lambda>_ _. []), ecdsa_ok = (\<lambda>_ _ _ _. False),
     gcm_seal = (\<lambda>_ _ d. (d, [])), gcm_open = (\<lambda>_ _ d _. Some d)\<rparr>"

text \<open>A device whose file system holds one module, whose runtime accepts it, and whose allocator
  fills new memory with \<open>fill\<close>.\<close>

definition watz_env :: "byte \<Rightarrow> bytes \<Rightarrow> env" where
  "watz_env fill code tr c = (case c of
       Wamr _ \<Rightarrow> Some (ok 1 [] [])
     | Host (sys_fopen _) \<Rightarrow> Some (ok 1 [] [])
     | Host (sys_ftell _) \<Rightarrow> Some ((ok 0 [] [])\<lparr>ans_size := length code\<rparr>)
     | Host (sys_fread _ n) \<Rightarrow> Some (ok 0 (take n code) [])
     | Host (sys_malloc n) \<Rightarrow> Some (ok (fresh tr) (replicate n fill) [])
     | _ \<Rightarrow> net_env no_crypto [] [] tr c)"

lemma honest_watz_env: "honest no_crypto [] [] (watz_env fill code)"
proof -
  have base: "ans_ok no_crypto tr c a \<and> served no_crypto [] [] tr c a" if "net_env no_crypto [] [] tr c = Some a" for tr c a
    using that served_ref_net_ans [of no_crypto "[]" "[]" tr c] ans_ok_ref_ans by (auto simp: net_env_def ref_net_ans_def)
  have total: "\<exists>a. net_env no_crypto [] [] tr c = Some a" for tr c
    by (simp add: net_env_def)
  have "\<exists>a. watz_env fill code tr c = Some a \<and> ans_ok no_crypto tr c a \<and> served no_crypto [] [] tr c a" for tr c
  proof (cases c)
    case (Host h)
    then show ?thesis
      using base [of tr c] total [of tr c]
      by (cases h) (auto simp: watz_env_def ok_def ans_ok_def served_def fresh_not_live)
  qed (use base [of tr c] total [of tr c] in \<open>auto simp: watz_env_def ok_def ans_ok_def served_def\<close>)
  then show ?thesis
    unfolding honest_def gp_tee_def by (metis option.inject)
qed

lemma willing_watz_env: "willing (watz_env fill code)"
  by (simp add: willing_def watz_env_def ok_def)

lemma disk_watz_env: "disk code (watz_env 0 code)"
  by (auto simp: disk_def watz_env_def ok_def)

lemma files_watz_env: "files code (watz_env fill code)"
  by (auto simp: files_def watz_env_def ok_def)

lemma gp_watz_env: "gp_tee no_crypto (watz_env fill code)"
  by (rule honest_gp_tee [OF honest_watz_env])

definition fresh_state :: watz_state where
  "fresh_state = \<lparr>heap_size = 0, initial_linear_memory_size = 0, singleton_wamr_context = None,
     platform = \<lparr>out_mem = [], out_pos = 0, output_buffer_size = 0\<rparr>\<rparr>"

text \<open>An application that prints two bytes and a newline.\<close>

definition hello :: wasm_app where
  "hello = (\<lambda>_. [(1, [[72], [105]]), (2, [[10]])])"

lemma small_hello: "small_writes (hello tr)"
  by (simp add: small_writes_def hello_def)

abbreviation "hello_args \<equiv> [''watz'', ''1024'', ''0'', ''hello.wasm'']"

lemma takeWhile_zeros: "takeWhile (\<lambda>c. c \<noteq> 0) (d @ replicate n (0 :: byte)) = takeWhile (\<lambda>c. c \<noteq> 0) d"
  by (induction d) (cases n; simp)+

section \<open>The host program\<close>

text \<open>C17. The program completes: if no call is refused, the file can be read and allocations are
  cleared, then running an application, whatever it writes in pieces below 2 GiB, ends with status 0
  and the last line printed is exactly the text that the capture contract keeps of the
  application's output, up to its first zero byte.\<close>

theorem watz_completes:
  assumes "honest C priv net env" "willing env" "disk code env"
    and "\<forall>tr. length code \<le> length (nw code tr)" "\<forall>tr. small_writes (app tr)" "4 \<le> length argv"
  shows "\<exists>tr trx. watz_main openssl app nw ta argv env [] = (Ret 0, tr) \<and> at_start trx \<and>
    last_print tr = takeWhile (\<lambda>c. c \<noteq> 0) (fst (foldl put ([], 5120) (texts (app trx))))"
proof -
  have t: "twp (watz_main openssl app nw ta argv) env [] (\<lambda>code _. code = 0)"
    using assms(4,5) by (intro watz_main_total [OF assms(1-3) _ _ assms(6)]) simp_all
  have zero: "malloc_result env 5120 d \<Longrightarrow> d = replicate 5120 0" for d
    using assms(3) unfolding malloc_result_def disk_def by blast
  have cut: "takeWhile (\<lambda>c. c \<noteq> 0) (shown (replicate 5120 0) ws) = takeWhile (\<lambda>c. c \<noteq> 0) (fst (foldl put ([], 5120) (texts ws)))" for ws
    by (simp add: shown_def splice_0 takeWhile_zeros)
  from twp_wp [OF t watz_main_spec [OF honest_gp_tee [OF assms(1)] assms(6)]] show ?thesis
    by (auto simp: reported_def cut dest!: zero elim!: twpE)
qed

theorem watz_completes_witness:
  "\<exists>tr. watz_main False hello (\<lambda>c _. c) fresh_state hello_args (watz_env 0 [0, 97]) [] = (Ret 0, tr) \<and>
     last_print tr = [72, 105, 10]"
proof -
  have "\<exists>tr trx. watz_main False hello (\<lambda>c _. c) fresh_state hello_args (watz_env 0 [0, 97]) [] = (Ret 0, tr) \<and> at_start trx \<and>
      last_print tr = takeWhile (\<lambda>c. c \<noteq> 0) (fst (foldl put ([], 5120) (texts (hello trx))))"
    by (rule watz_completes [OF honest_watz_env willing_watz_env disk_watz_env]) (simp_all add: small_hello)
  then show ?thesis
    by (auto simp: hello_def texts_def put_def)
qed

text \<open>C18. In general the program prints what the buffers contain up to their first zero: after a run
  with status 0 the line is the leftover contents of the uninitialised benchmark buffer followed by
  the captured text and the leftover contents of the output buffer.\<close>

theorem watz_prints_leftovers:
  assumes "gp_tee C env" "4 \<le> length argv" "watz_main openssl app nw ta argv env tr = (Ret 0, tr')"
  shows "\<exists>out bench trx. at_start trx \<and> malloc_result env 5120 out \<and> malloc_result env 5120 bench \<and>
    last_print tr' = takeWhile (\<lambda>c. c \<noteq> 0) bench @ takeWhile (\<lambda>c. c \<noteq> 0) (shown out (app trx))"
  using wpD [OF watz_main_spec [OF assms(1,2)] assms(3)] by (auto simp: reported_def)

theorem watz_prints_leftovers_witness:
  "\<exists>tr out bench trx. watz_main False hello (\<lambda>c _. c) fresh_state hello_args (watz_env 0 [0, 97]) [] = (Ret 0, tr) \<and>
     malloc_result (watz_env 0 [0, 97]) 5120 out \<and>
     last_print tr = takeWhile (\<lambda>c. c \<noteq> 0) bench @ takeWhile (\<lambda>c. c \<noteq> 0) (shown out (hello trx))"
proof -
  have t: "twp (watz_main False hello (\<lambda>c _. c) fresh_state hello_args) (watz_env 0 [0, 97]) [] (\<lambda>code _. code = 0)"
    by (rule watz_main_total [OF honest_watz_env willing_watz_env disk_watz_env]) (simp_all add: small_hello)
  then obtain tr where r: "watz_main False hello (\<lambda>c _. c) fresh_state hello_args (watz_env 0 [0, 97]) [] = (Ret 0, tr)"
    by (auto elim!: twpE)
  show ?thesis
    using r watz_prints_leftovers [OF gp_watz_env _ r] by auto
qed

text \<open>C19. The buffers are not initialised, and nothing terminates the benchmark buffer. If no call is refused
  and the file can be read, but the memory from the host's allocator holds no zero byte, then the program
  runs the application, closes the session and then leaves the benchmark buffer: the outcome is
  the access past its end in \<open>printf\<close>, right after the call that closes the session.\<close>

theorem unterminated_buffers_are_overrun:
  assumes "honest C priv net env" "willing env" "files code env"
    and "\<forall>tr. length code \<le> length (nw code tr)" "\<forall>tr. small_writes (app tr)" "4 \<le> length argv"
    and "\<forall>d. malloc_result env 5120 d \<longrightarrow> 0 \<notin> set d"
  shows "\<exists>a t. watz_main openssl app nw ta argv env tr = (Oob, (Host TEEC_FinalizeContext, a) # t)"
proof -
  have "owp (watz_main openssl app nw ta argv) env tr session_closed"
    using assms by (intro watz_main_overrun [OF assms(1-3)]) auto
  then show ?thesis
    by (auto simp: owp_def session_closed_def split: prod.splits outcome.splits)
qed

theorem unterminated_buffers_are_overrun_witness:
  "\<exists>a t. watz_main False hello (\<lambda>c _. c) fresh_state hello_args (watz_env 1 [0, 97]) []
     = (Oob, (Host TEEC_FinalizeContext, a) # t)"
  by (rule unterminated_buffers_are_overrun [OF honest_watz_env willing_watz_env files_watz_env])
    (auto simp: malloc_result_def watz_env_def ok_def small_hello)

section \<open>The trusted application\<close>

text \<open>C20. Every command of the application, on every path, releases what it acquired: memory, operations,
  objects, modules, instances and the runtime are in the same balance as before, and the global
  pointer to the stack-allocated runtime context is null again. There is one exception, which a successful command never meets: after a start of the
  runtime that failed, the runtime is destroyed although there is none.\<close>

theorem command_releases_everything:
  assumes "gp_tee C env" "singleton_wamr_context st = None"
    and "TA_InvokeCommandEntryPoint_w openssl app st shm cmd types params env tr = (Ret (res, st', params'), tr')"
  shows "singleton_wamr_context st' = None
    \<and> (\<forall>r h. balance tr' r h = balance tr r h
         - (if r = Runtime \<and> h = 0 then int (failed_starts tr') - int (failed_starts tr) else 0))
    \<and> (res = TEE_SUCCESS \<longrightarrow> balance tr' = balance tr)"
proof -
  have c: "singleton_wamr_context st' = None" "accounts tr' = accounts tr" "res = TEE_SUCCESS \<longrightarrow> failed_starts tr' = failed_starts tr"
    using wpD [OF command_spec [OF assms(1)] assms(3)] assms(2) by simp_all
  have eq: "balance tr' r h + (if r = Runtime \<and> h = 0 then int (failed_starts tr') else 0)
      = balance tr r h + (if r = Runtime \<and> h = 0 then int (failed_starts tr) else 0)" for r h
    using fun_cong [OF fun_cong [OF c(2)], of r h] by (simp add: accounts_def)
  have "balance tr' r h = balance tr r h
      - (if r = Runtime \<and> h = 0 then int (failed_starts tr') - int (failed_starts tr) else 0)" for r h
    using eq [of r h] by (auto split: if_splits)
  with c show ?thesis
    by (auto simp: fun_eq_iff)
qed

theorem command_releases_everything_witness:
  "\<exists>st' params' tr'. TA_InvokeCommandEntryPoint_w False hello fresh_state (\<lambda>_. [0, 97]) COMMAND_RUN_WASM 0x7755
       [watz_ref [0, 97], null_param, watz_ref (replicate 8 0), watz_ref []] (watz_env 0 [0, 97]) [] = (Ret (TEE_SUCCESS, st', params'), tr')
     \<and> singleton_wamr_context st' = None \<and> balance tr' = (\<lambda>r h. 0)"
proof -
  have "twp (TA_InvokeCommandEntryPoint_w False hello fresh_state (\<lambda>_. [0, 97]) COMMAND_RUN_WASM 0x7755
       [watz_ref [0, 97], null_param, watz_ref (replicate 8 0), watz_ref []]) (watz_env 0 [0, 97]) []
     (\<lambda>(res, _) _. res = TEE_SUCCESS)"
    apply (simp add: TA_InvokeCommandEntryPoint_w_def param_type_defs twp_simps watz_ref_def null_param_def)
    apply (rule twp_mono [OF run_wasm_total [OF honest_watz_env willing_watz_env]])
    apply (auto simp: small_hello)
    done
  then obtain st' params' tr' where r: "TA_InvokeCommandEntryPoint_w False hello fresh_state (\<lambda>_. [0, 97]) COMMAND_RUN_WASM 0x7755
       [watz_ref [0, 97], null_param, watz_ref (replicate 8 0), watz_ref []] (watz_env 0 [0, 97]) [] = (Ret (TEE_SUCCESS, st', params'), tr')"
    by (auto elim!: twpE)
  show ?thesis
    using r command_releases_everything [OF gp_watz_env _ r] by (auto simp: fresh_state_def)
qed

text \<open>C21. The module that runs is the one in the shared memory after the runtime has started: if the
  normal world replaces the bytecode after it was copied to secure memory, the replacement is
  loaded. The copy has no effect.\<close>

theorem replaced_bytecode_is_run:
  assumes "gp_tee C env" "\<forall>c a tr. shm ((Wamr c, a) # tr) = evil"
    and "TA_RunWasm openssl app st shm n arg out env tr = (Ret (TEE_SUCCESS, st'), tr')"
  shows "loaded tr' = take n evil # loaded tr"
  using wpD [OF run_wasm_spec [OF assms(1)] assms(3)] assms(2) by (auto simp: executed_def)

theorem replaced_bytecode_is_run_witness:
  "\<exists>st' tr'. TA_RunWasm False hello fresh_state (\<lambda>tr. case tr of (Wamr _, _) # _ \<Rightarrow> [6, 6] | _ \<Rightarrow> [0, 97]) 2 None [] (watz_env 0 [0, 97]) []
       = (Ret (TEE_SUCCESS, st'), tr') \<and> loaded tr' = [[6, 6]]"
proof -
  let ?shm = "\<lambda>tr :: trace. case tr of (Wamr _, _) # _ \<Rightarrow> [6, 6] | _ \<Rightarrow> [0, 97]"
  have "twp (TA_RunWasm False hello fresh_state ?shm 2 None []) (watz_env 0 [0, 97]) [] (\<lambda>(res, _) _. res = TEE_SUCCESS)"
    by (rule run_wasm_total [OF honest_watz_env willing_watz_env]) (auto simp: small_hello split: list.splits tee_call.splits)
  then obtain st' tr' where r: "TA_RunWasm False hello fresh_state ?shm 2 None [] (watz_env 0 [0, 97]) [] = (Ret (TEE_SUCCESS, st'), tr')"
    by (auto elim!: twpE)
  have "loaded tr' = take 2 [6, 6] # loaded []"
    by (rule replaced_bytecode_is_run [OF gp_watz_env _ r]) simp
  with r show ?thesis by auto
qed

text \<open>C22. \<open>Host_Encrypt\<close> stays inside the memory that the runtime checked for it, whatever the API
  answers, exactly when the caller's length variable is at most the size of the destination, which
  the function itself never compares.\<close>

theorem encrypt_safe_iff_length_fits:
  assumes "key \<noteq> 0" "0 \<in> set src" "4 \<le> length req"
  shows "encrypt_inside C key src dest req \<longleftrightarrow> le_value (take 4 req) \<le> length dest"
  using assms encrypt_overruns [OF assms, of dest C "[]"] gp_greedy [of C] encrypt_safe [THEN wp_safeD]
  unfolding encrypt_inside_def by (meson not_le)

theorem encrypt_safe_iff_length_fits_witness:
  "\<not> encrypt_inside no_crypto 1 [65, 0] [0] [2, 0, 0, 0] \<and> encrypt_inside no_crypto 1 [65, 0] [0, 0] [2, 0, 0, 0]"
proof -
  note iff = encrypt_safe_iff_length_fits [of 1 "[65, 0]" "[2, 0, 0, 0]" no_crypto]
  show ?thesis
    using iff [of "[0]"] iff [of "[0, 0]"] by simp
qed

text \<open>C23. The RSA functions keep the balance: encryption and decryption free their operation on every
  path, and a generated key is either reported and its handle written to the caller, or freed.\<close>

theorem rsa_functions_balance:
  assumes "gp_tee C env"
  shows "(\<forall>res key' tr'. Host_GenerateKey key env tr = (Ret (res, key'), tr') \<longrightarrow>
       (if res = TEE_SUCCESS
        then \<exists>h. h \<noteq> 0 \<and> key' = splice key 0 (le_bytes 8 h) \<and>
               balance tr' = (\<lambda>r h'. (if r = Object \<and> h' = h then 1 else 0) + balance tr r h')
        else key' = key \<and> balance tr' = balance tr))
    \<and> (\<forall>r tr'. Host_Encrypt k src dest req env tr = (Ret r, tr') \<longrightarrow> balance tr' = balance tr)
    \<and> (\<forall>r tr'. Host_Decrypt k src dest req env tr = (Ret r, tr') \<longrightarrow> balance tr' = balance tr)"
  using wpD [OF generate_key_spec [OF assms]] wpD [OF encrypt_balance] wpD [OF decrypt_balance] by fastforce

theorem rsa_functions_balance_witness:
  "\<exists>key' tr'. Host_GenerateKey (replicate 8 0) (ref_env no_crypto [7] []) [] = (Ret (TEE_SUCCESS, key'), tr')
     \<and> (\<exists>h. h \<noteq> 0 \<and> key' = splice (replicate 8 0) 0 (le_bytes 8 h))"
proof -
  have "\<exists>key' tr'. Host_GenerateKey (replicate 8 0) (ref_env no_crypto [7] []) [] = (Ret (TEE_SUCCESS, key'), tr')"
    by (simp add: Host_GenerateKey_def tee_defs ref_env_def ref_ans_def ok_def Let_def)
  then obtain key' tr' where r: "Host_GenerateKey (replicate 8 0) (ref_env no_crypto [7] []) [] = (Ret (TEE_SUCCESS, key'), tr')"
    by blast
  show ?thesis
    using r rsa_functions_balance [OF gp_tee_ref_env, of "replicate 8 0" no_crypto "[7]" "[]" "[]"] by fastforce
qed

section \<open>The platform\<close>

text \<open>C24. \<open>writev\<close> refines the capture contract: a write to either output stream reports all its
  bytes and keeps them if they leave room for at least one more byte, and drops them otherwise; other
  descriptors fail. The pointers stay inside the shared buffer and nothing behind the captured text
  changes.\<close>

theorem writev_refines_capture:
  assumes "gp_tee C env" "tz_inv tz" "writev tz fd iov env tr = (Ret (n, tz'), tr')"
  shows "tz_inv tz' \<and> (if fd = 1 \<or> fd = 2
      then n = int (length (concat iov)) \<and> captured tz' = put (captured tz) (concat iov)
      else n = -1 \<and> captured tz' = captured tz)
    \<and> length (out_mem tz') = length (out_mem tz) \<and> drop (out_pos tz') (out_mem tz') = drop (out_pos tz') (out_mem tz)"
  using wpD [OF writev_spec [OF assms(1,2)] assms(3)] printed_inv [OF assms(2)] assms(2) by (auto split: if_splits)

theorem writev_refines_capture_witness:
  "\<exists>tz' tr'. writev \<lparr>out_mem = [9, 9, 9, 9], out_pos = 0, output_buffer_size = 4\<rparr> 1 [[72], [105]] (watz_env 0 []) []
       = (Ret (2, tz'), tr') \<and> captured tz' = ([72, 105], 2) \<and> drop (out_pos tz') (out_mem tz') = drop (out_pos tz') [9, 9, 9, 9]"
proof -
  let ?tz = "\<lparr>out_mem = [9, 9, 9, 9], out_pos = 0, output_buffer_size = 4\<rparr> :: tz_state"
  have inv: "tz_inv ?tz" by (simp add: tz_inv_def)
  have "twp (writev ?tz 1 [[72], [105]]) (watz_env 0 []) [] (\<lambda>(n, tz') tr'.
      n = int (length (concat [[72], [105]] :: bytes)) \<and> tz' = printed ?tz (concat [[72], [105]]))"
    by (rule writev_total [OF honest_watz_env inv]) simp_all
  then obtain tz' tr' where r: "writev ?tz 1 [[72], [105]] (watz_env 0 []) [] = (Ret (2, tz'), tr')"
    by (auto elim!: twpE)
  show ?thesis
    using r writev_refines_capture [OF gp_watz_env inv r] by (simp add: captured_def put_def)
qed

text \<open>The size of a mapping is rounded up to a page, unless the sum wraps: a size in the last page
  of the address space is rounded to zero, which the size limit then lets through.\<close>

lemma page_rounding:
  "unat (aligned_size sz) = (if unat sz + 4095 < 2 ^ 64 then align_up 4096 (unat sz) else 0)"
  using aligned_size_exact [of sz] aligned_size_wraps [of sz] by simp

text \<open>C25. \<open>os_mmap\<close> leaves behind exactly what it returns, unless the TEE refuses to end a mapping. A null result
  leaves the set of mappings as it was, also when setting the protection failed; only if the call
  that takes the new block back is refused, whose result the function ignores, that block stays mapped and its address is lost.
  Any other result is exactly one new mapping of the rounded size,
  which is below the limit. The size is rounded up to a page, unless the sum wraps: a size in the last page of
  the address space is rounded to zero, which the limit then lets through.\<close>

theorem mmap_leaks_only_if_refused:
  assumes "blocks_fresh env"
    and "os_mmap sz prot file env tr = (Ret ret, tr')"
  shows "(if ret = 0 then mappings tr' = mappings tr
        \<or> (\<exists>h a t. tr' = (Map (tee_unmap h (unat (aligned_size sz))), a) # t \<and> ans_res a \<noteq> TEE_SUCCESS
             \<and> mappings tr' = insert (h, unat (aligned_size sz)) (mappings tr))
      else file < 0 \<and> unat (aligned_size sz) < 2 ^ 32 - 1 \<and> mappings tr' = insert (ret, unat (aligned_size sz)) (mappings tr))
    \<and> unat (aligned_size sz) = (if unat sz + 4095 < 2 ^ 64 then align_up 4096 (unat sz) else 0)"
  using wpD [OF os_mmap_spec [OF assms(1)] assms(2)] page_rounding [of sz] by (auto simp: unmap_refused_def)

definition map_env :: env where
  "map_env tr c = (case c of
       Map (tee_map_zi n) \<Rightarrow> Some (ok (fresh tr) [] [])
     | Map (tee_mprotect _ _ _) \<Rightarrow> Some (err TEE_ERROR_GENERIC)
     | _ \<Rightarrow> Some (ok 0 [] []))"

lemma mappings_trace: "b \<in> mappings tr \<Longrightarrow> \<exists>e \<in> set tr. ans_handle (snd e) = fst b"
  by (induction tr) (auto split: tee_call.splits map_call.splits if_splits)

lemma map_env_fresh: "blocks_fresh map_env"
  unfolding blocks_fresh_def using mappings_trace fresh_gt by (fastforce simp: map_env_def ok_def)

theorem mmap_leaks_only_if_refused_witness:
  "\<exists>tr'. os_mmap 100 1 (-1) map_env [] = (Ret 0, tr') \<and> mappings tr' = {}"
proof -
  have "aligned_size 100 = 4096"
    by (simp add: aligned_size_def PAGE_SIZE_def)
  then obtain tr' where r: "os_mmap 100 1 (-1) map_env [] = (Ret 0, tr')"
    and last: "ans_res (snd (hd tr')) = TEE_SUCCESS"
    by (simp add: os_mmap_def os_mprotect_def tee_defs map_env_def ok_def err_def fresh_def Let_def)
  show ?thesis
    using r last mmap_leaks_only_if_refused [OF map_env_fresh r] by auto
qed

text \<open>\<open>htonl\<close> puts the most significant byte first in memory, and \<open>ntohl\<close> undoes it.\<close>

lemma network_byte_order:
  "le_bytes 4 (unat (htonl v)) = rev (le_bytes 4 (unat v)) \<and> ntohl (htonl v) = v"
  by (simp add: htonl_bytes ntohl_def htonl_htonl)

end
