(* ===== verification/Leb128.thy ===== *)
theory Leb128
  imports Prelude
begin

text \<open>
  The LEB128 reader of the runtime (\<open>core/shared/utils/bh_leb128.c\<close>), which the loaders use for every
  number of a module. The buffer is the list of the bytes from \<open>buf\<close> to \<open>buf_end\<close>; the test that
  guards against a wrap-around of the address is a test of the length of the list.
\<close>

unbundle bit_operations_syntax

section \<open>The reader\<close>

datatype bh_leb_read_status = BH_LEB_READ_SUCCESS | BH_LEB_READ_TOO_LONG | BH_LEB_READ_OVERFLOW | BH_LEB_READ_UNEXPECTED_END

text \<open>The loop: it returns the result, the shift, the offset and the last byte.\<close>

fun leb_loop :: "nat \<Rightarrow> bytes \<Rightarrow> nat \<Rightarrow> nat \<Rightarrow> nat \<Rightarrow> u64 \<Rightarrow> bh_leb_read_status + u64 \<times> nat \<times> nat \<times> byte" where
  "leb_loop maxbits [] bcnt shift offset result =
     (if (maxbits + 6) div 7 < bcnt + 1 then Inl BH_LEB_READ_TOO_LONG else Inl BH_LEB_READ_UNEXPECTED_END)"
| "leb_loop maxbits (b # buf) bcnt shift offset result =
     (if (maxbits + 6) div 7 < bcnt + 1 then Inl BH_LEB_READ_TOO_LONG else
      let byte = (ucast b :: u64);
          offset = offset + 1;
          result = result OR push_bit shift (byte AND 0x7f);
          shift = shift + 7;
          bcnt = bcnt + 1 in
      if byte AND 0x80 = 0 then Inr (result, shift, offset, b) else leb_loop maxbits buf bcnt shift offset result)"

text \<open>The checks after the loop.\<close>

definition leb_finish :: "nat \<Rightarrow> bool \<Rightarrow> u64 \<Rightarrow> nat \<Rightarrow> nat \<Rightarrow> byte \<Rightarrow> bh_leb_read_status + u64 \<times> nat" where
  "leb_finish maxbits sign result shift offset byte =
     (if \<not> sign \<and> maxbits = 32 \<and> maxbits \<le> shift then
        if byte AND 0xf0 \<noteq> 0 then Inl BH_LEB_READ_OVERFLOW else Inr (result, offset)
      else if sign \<and> maxbits = 32 then
        if shift < maxbits then
          Inr (if byte AND 0x40 \<noteq> 0 then result OR push_bit shift (NOT 0) else result, offset)
        else
          let sign_bit_set = (byte AND 0x8 \<noteq> 0); top_bits = byte AND 0xf0 in
          if sign_bit_set \<and> top_bits \<noteq> 0x70 \<or> \<not> sign_bit_set \<and> top_bits \<noteq> 0
          then Inl BH_LEB_READ_OVERFLOW else Inr (result, offset)
      else if sign \<and> maxbits = 64 then
        if shift < maxbits then
          Inr (if byte AND 0x40 \<noteq> 0 then result OR push_bit shift (NOT 0) else result, offset)
        else
          let sign_bit_set = (byte AND 0x1 \<noteq> 0); top_bits = byte AND 0xfe in
          if sign_bit_set \<and> top_bits \<noteq> 0x7e \<or> \<not> sign_bit_set \<and> top_bits \<noteq> 0
          then Inl BH_LEB_READ_OVERFLOW else Inr (result, offset)
      else Inr (result, offset))"

definition bh_leb_read :: "bytes \<Rightarrow> nat \<Rightarrow> bool \<Rightarrow> bh_leb_read_status + u64 \<times> nat" where
  "bh_leb_read buf maxbits sign =
     (case leb_loop maxbits buf 0 0 0 0 of
        Inl status \<Rightarrow> Inl status
      | Inr (result, shift, offset, byte) \<Rightarrow> leb_finish maxbits sign result shift offset byte)"

section \<open>Groups\<close>

text \<open>The bytes of one number: all but the last have the continuation bit.\<close>

definition more :: "byte \<Rightarrow> bool" where
  "more b \<longleftrightarrow> bit b 7"

fun leb_group :: "bytes \<Rightarrow> bool" where
  "leb_group [] = False"
| "leb_group (b # bs) = (if bs = [] then \<not> more b else more b \<and> leb_group bs)"

text \<open>The value of the seven-bit digits, least significant first.\<close>

fun leb_value :: "bytes \<Rightarrow> nat" where
  "leb_value [] = 0"
| "leb_value (b # bs) = unat b mod 128 + 128 * leb_value bs"

lemma leb_value_less: "leb_value bs < 128 ^ length bs"
proof (induction bs)
  case (Cons b bs)
  have "unat b mod 128 < 128" by simp
  then show ?case using Cons by simp
qed simp

lemma low_digit: "ucast (b :: byte) AND (0x7f :: u64) = of_nat (unat b mod 128)"
proof -
  have "(0x7f :: u64) = mask 7" by (simp add: mask_eq_exp_minus_1)
  then have "ucast b AND (0x7f :: u64) = take_bit 7 (ucast b)"
    by (simp add: take_bit_eq_mask)
  also have "\<dots> = of_nat (take_bit 7 (unat b))"
    by (simp add: of_nat_take_bit unsigned_take_bit_eq flip: unsigned_of_nat)
  finally show ?thesis by (simp add: take_bit_eq_mod)
qed

lemma more_flag: "ucast (b :: byte) AND (0x80 :: u64) = 0 \<longleftrightarrow> \<not> more b"
  using and_exp_eq_0_iff_not_bit [of "ucast b :: u64" 7] by (simp add: more_def bit_simps)

section \<open>The loop\<close>

lemma or_add:
  fixes a b :: u64
  assumes "\<And>n. s \<le> n \<Longrightarrow> \<not> bit a n"
  shows "a OR push_bit s b = a + push_bit s b"
  by (rule disjunctive_add [symmetric]) (use assms in \<open>auto simp: bit_simps not_le\<close>)

lemma digit_bits: "\<not> bit (of_nat (unat (b :: byte) mod 128) :: u64) n" if "7 \<le> n"
proof -
  have "(of_nat (unat b mod 128) :: u64) = take_bit 7 (of_nat (unat b))"
    by (simp add: of_nat_take_bit flip: take_bit_eq_mod [of 7, simplified])
  then show ?thesis using that by (simp add: bit_take_bit_iff)
qed

lemma leb_loop_group:
  assumes "leb_group g" "\<And>n. shift \<le> n \<Longrightarrow> \<not> bit result n"
  shows "leb_loop maxbits (g @ rest) bcnt shift offset result =
    (if (maxbits + 6) div 7 < bcnt + length g then Inl BH_LEB_READ_TOO_LONG
     else Inr (result + of_nat (leb_value g) * 2 ^ shift, shift + 7 * length g, offset + length g, last g))"
  using assms
proof (induction g arbitrary: bcnt shift offset result)
  case (Cons b g)
  let ?r = "result OR push_bit shift (of_nat (unat b mod 128))"
  have add: "?r = result + of_nat (unat b mod 128) * 2 ^ shift"
    using or_add [OF Cons.prems(2)] by (simp add: push_bit_eq_mult)
  have bits: "\<not> bit ?r n" if "shift + 7 \<le> n" for n
    using that Cons.prems(2) [of n] digit_bits [of "n - shift" b] by (simp add: bit_simps)
  show ?case
  proof (cases "g = []")
    case True
    then show ?thesis
      using Cons.prems(1) by (simp add: Let_def low_digit more_flag add del: push_bit_and)
  next
    case False
    then have g: "more b" "leb_group g" using Cons.prems(1) by (auto split: if_splits)
    show ?thesis
      using False g(1) Cons.IH [OF g(2), of "shift + 7" ?r "bcnt + 1" "offset + 1"] bits
      by (simp add: Let_def low_digit more_flag del: push_bit_and) (simp add: add algebra_simps power_add)
  qed
qed simp

lemma leb_loop_unfinished:
  assumes "list_all more bs"
  shows "leb_loop maxbits bs bcnt shift offset result =
    Inl (if (maxbits + 6) div 7 < bcnt + length bs + 1 then BH_LEB_READ_TOO_LONG else BH_LEB_READ_UNEXPECTED_END)"
  using assms by (induction bs arbitrary: bcnt shift offset result) (auto simp: Let_def more_flag)

lemma leb_split: obtains "list_all more bs" | g rest where "bs = g @ rest" "leb_group g"
proof (induction bs arbitrary: thesis)
  case (Cons b bs)
  show ?case
  proof (cases "more b")
    case True
    then show ?thesis
      using Cons.IH Cons.prems
      by (metis append_Cons leb_group.simps list.simps(3) list.pred_inject(2))
  next
    case False
    then show ?thesis using Cons.prems(2) [of "[b]" bs] by simp
  qed
qed simp

section \<open>The last byte\<close>

lemma byte_bit: "bit (b :: byte) n \<longleftrightarrow> odd (unat b div 2 ^ n)"
proof -
  have "bit b n = bit (unat b) n" by (simp add: bit_unsigned_iff)
  then show ?thesis by (simp only: bit_iff_odd [of "unat b"])
qed

lemma last_digit: "\<not> more b \<Longrightarrow> unat b < 128"
  using unat_byte_less [of b] div_nat_eqI [of 128 1 "unat b"] by (cases "unat b < 128") (simp_all add: more_def byte_bit)

lemma floor_bits: "unat (b AND NOT (mask k) :: byte) = unat b div 2 ^ k * 2 ^ k"
proof -
  have "b AND NOT (mask k) = push_bit k (drop_bit k b)"
    by (auto intro!: bit_eqI simp: bit_simps)
  moreover have "unat b div 2 ^ k * 2 ^ k < 256"
    using unat_byte_less [of b] div_times_less_eq_dividend [of "unat b" "2 ^ k"] by linarith
  moreover have "unat (push_bit k (drop_bit k b)) = take_bit 8 (push_bit k (drop_bit k (unat b)))"
    using unat_byte_less [of b] by (simp add: unsigned_push_bit_eq unsigned_drop_bit_eq take_bit_nat_eq_self)
  ultimately show ?thesis
    by (simp only: push_bit_eq_mult [where 'a = nat] drop_bit_eq_div [where 'a = nat]) (simp add: take_bit_nat_eq_self)
qed

lemma high_bits:
  "unat (b AND 0xf0 :: byte) = unat b div 16 * 16" "unat (b AND 0xfe :: byte) = unat b div 2 * 2"
proof -
  have m: "NOT (mask 4) = (0xf0 :: byte)" "NOT (mask 1) = (0xfe :: byte)"
    by (simp_all add: mask_eq_exp_minus_1)
  show "unat (b AND 0xf0) = unat b div 16 * 16" "unat (b AND 0xfe) = unat b div 2 * 2"
    using floor_bits [of b 4, unfolded m] floor_bits [of b 1, unfolded m] by simp_all
qed

lemma flag_bits:
  "b AND 0x40 \<noteq> (0 :: byte) \<longleftrightarrow> odd (unat b div 64)"
  "b AND 0x8 \<noteq> (0 :: byte) \<longleftrightarrow> odd (unat b div 8)"
  "b AND 0x1 \<noteq> (0 :: byte) \<longleftrightarrow> odd (unat b)"
  using and_exp_eq_0_iff_not_bit [of b 6] and_exp_eq_0_iff_not_bit [of b 3] and_exp_eq_0_iff_not_bit [of b 0]
    byte_bit [of b 6] byte_bit [of b 3] byte_bit [of b 0]
  by simp_all

lemma top_bits:
  "b AND 0xf0 = (0 :: byte) \<longleftrightarrow> unat b < 16" "b AND 0xf0 = (0x70 :: byte) \<longleftrightarrow> unat b div 16 = 7"
  "b AND 0xfe = (0 :: byte) \<longleftrightarrow> unat b < 2" "b AND 0xfe = (0x7e :: byte) \<longleftrightarrow> unat b div 2 = 63"
  by (simp_all add: high_bits word_unat_eq_iff) presburger+

lemma leb_value_snoc: "leb_value (bs @ [b]) = leb_value bs + 128 ^ length bs * (unat b mod 128)"
  by (induction bs) (simp_all add: algebra_simps)

lemma leb_group_last: "leb_group g \<Longrightarrow> g \<noteq> [] \<and> \<not> more (last g)"
  by (induction g) (auto split: if_splits)

lemma leb_value_last:
  assumes "leb_group g" "length g = Suc n"
  shows "leb_value g = leb_value (butlast g) + 128 ^ n * unat (last g) \<and> leb_value (butlast g) < 128 ^ n \<and> unat (last g) < 128"
proof -
  have l: "unat (last g) < 128" "g = butlast g @ [last g]"
    using leb_group_last [OF assms(1)] last_digit by auto
  have n: "length (butlast g) = n" using assms(2) by simp
  have "leb_value g = leb_value (butlast g) + 128 ^ n * unat (last g)"
    by (subst l(2)) (simp only: leb_value_snoc n l(1) mod_less)
  then show ?thesis
    using leb_value_less [of "butlast g"] n l(1) by simp
qed

section \<open>What is read\<close>

text \<open>An unsigned number of 32 bits: every input is accounted for.\<close>

lemma read_u32:
  assumes "leb_group g"
  shows "bh_leb_read (g @ rest) 32 False =
    (if 5 < length g then Inl BH_LEB_READ_TOO_LONG
     else if leb_value g < 2 ^ 32 then Inr (of_nat (leb_value g), length g) else Inl BH_LEB_READ_OVERFLOW)"
proof -
  have loop: "leb_loop 32 (g @ rest) 0 0 0 0 = (if 5 < length g then Inl BH_LEB_READ_TOO_LONG
      else Inr (of_nat (leb_value g), 7 * length g, length g, last g))"
    using leb_loop_group [OF assms, of 0 0 32 rest 0 0] by simp
  consider "length g \<le> 4" | "length g = Suc 4" | "5 < length g" by linarith
  then show ?thesis
  proof cases
    case 1
    then have "leb_value g < 128 ^ 4"
      using leb_value_less [of g] power_increasing [of "length g" 4 "128 :: nat"] by linarith
    then show ?thesis
      using 1 by (simp add: bh_leb_read_def loop leb_finish_def)
  next
    case 2
    show ?thesis
      using leb_value_last [OF assms 2] 2 by (auto simp: bh_leb_read_def loop leb_finish_def top_bits)
  qed (simp add: bh_leb_read_def loop)
qed

lemma read_unfinished:
  "list_all more bs \<Longrightarrow> bh_leb_read bs maxbits sign =
    Inl (if (maxbits + 6) div 7 \<le> length bs then BH_LEB_READ_TOO_LONG else BH_LEB_READ_UNEXPECTED_END)"
  by (simp add: bh_leb_read_def leb_loop_unfinished)

text \<open>Signed numbers: bit 6 of the last byte is the sign.\<close>

definition leb_svalue :: "bytes \<Rightarrow> int" where
  "leb_svalue g = int (leb_value g) - (if odd (unat (last g) div 64) then 128 ^ length g else 0)"

text \<open>The sign extension of the code.\<close>

lemma sign_extend:
  assumes "v < 2 ^ s"
  shows "(of_nat v :: u64) OR push_bit s (NOT 0) = of_int (int v - 2 ^ s)"
proof -
  have "\<not> bit (of_nat v :: u64) n" if "s \<le> n" for n
    using assms that by (metis bit_take_bit_iff not_le of_nat_take_bit take_bit_nat_eq_self)
  then have "(of_nat v :: u64) OR push_bit s (NOT 0) = of_nat v + push_bit s (NOT 0)"
    by (rule or_add)
  then show ?thesis
    by (simp add: push_bit_eq_mult)
qed

lemma leb_loop_all:
  "leb_group g \<Longrightarrow> leb_loop maxbits (g @ rest) 0 0 0 0 =
    (if (maxbits + 6) div 7 < length g then Inl BH_LEB_READ_TOO_LONG
     else Inr (of_nat (leb_value g), 7 * length g, length g, last g))"
  using leb_loop_group [of g 0 0 maxbits rest 0 0] by simp

lemma extended:
  "(if last g AND 0x40 \<noteq> 0 then (of_nat (leb_value g) :: u64) OR push_bit (7 * length g) (NOT 0) else of_nat (leb_value g))
    = of_int (leb_svalue g)"
proof -
  have "leb_value g < 2 ^ (7 * length g)"
    using leb_value_less [of g] by (simp add: power_mult)
  from sign_extend [OF this] show ?thesis
    by (simp add: leb_svalue_def flag_bits power_mult)
qed

lemma svalue_short:
  assumes "leb_group g" "length g \<le> n"
  shows "- (2 ^ (7 * n - 1)) \<le> leb_svalue g \<and> leb_svalue g < 2 ^ (7 * n - 1)"
proof -
  obtain m where m: "length g = Suc m"
    using leb_group_last [OF assms(1)] by (cases g) auto
  define d where "d = unat (last g)"
  have v: "leb_value g = leb_value (butlast g) + 128 ^ m * d" "leb_value (butlast g) < 128 ^ m" "d < 128"
    using leb_value_last [OF assms(1) m] by (simp_all add: d_def)
  have up: "int (leb_value g) < 64 * 128 ^ m" if "d < 64"
  proof -
    have "128 ^ m * d \<le> 128 ^ m * (63 :: nat)" using that by (intro mult_le_mono2) simp
    then have "int (leb_value g) < int (64 * 128 ^ m)" using v(1,2) by linarith
    then show ?thesis by simp
  qed
  have lo: "64 * 128 ^ m \<le> int (leb_value g)" if "64 \<le> d"
  proof -
    have "128 ^ m * (64 :: nat) \<le> 128 ^ m * d" using that by (intro mult_le_mono2)
    then have "int (64 * 128 ^ m) \<le> int (leb_value g)" using v(1) by linarith
    then show ?thesis by simp
  qed
  have "int (leb_value g) < int (128 * 128 ^ m)"
    using leb_value_less [of g] by (simp only: m of_nat_less_iff power_Suc)
  then have hi: "int (leb_value g) < 128 * 128 ^ m" by simp
  have odd: "odd (d div 64) \<longleftrightarrow> 64 \<le> d"
    using v(3) div_nat_eqI [of 64 1 d] by (cases "d < 64") auto
  have "(2 :: int) ^ (7 * Suc m - 1) = 64 * 128 ^ m"
    by (simp add: power_add power_mult)
  moreover have "(2 :: int) ^ (7 * Suc m - 1) \<le> 2 ^ (7 * n - 1)"
    using assms(2) m by (intro power_increasing) auto
  moreover have "- (64 * 128 ^ m) \<le> leb_svalue g \<and> leb_svalue g < 64 * 128 ^ m"
    using up lo hi odd by (cases "64 \<le> d") (simp_all add: leb_svalue_def m flip: d_def)
  ultimately show ?thesis by linarith
qed

lemma tail_s32:
  assumes "(d :: nat) < 128"
  shows "(if odd (d div 8) then d div 16 = 7 else d < 16) \<longleftrightarrow> d < 8 \<or> 120 \<le> d"
proof -
  define q where "q = d div 8"
  have "q < 16" "d < 8 \<longleftrightarrow> q = 0" "120 \<le> d \<longleftrightarrow> q = 15" "d < 16 \<longleftrightarrow> q < 2"
    unfolding q_def using assms by linarith+
  moreover have "d div 16 = q div 2" by (simp add: q_def)
  moreover have "(if odd r then r div 2 = 7 else r < 2) = (r = 0 \<or> r = 15)" if "r < 16" for r :: nat
    using that by presburger
  ultimately show ?thesis
    unfolding q_def [symmetric] by metis
qed

lemma read_s32:
  assumes "leb_group g"
  shows "bh_leb_read (g @ rest) 32 True =
    (if 5 < length g then Inl BH_LEB_READ_TOO_LONG
     else if - (2 ^ 31) \<le> leb_svalue g \<and> leb_svalue g < 2 ^ 31
     then Inr (if length g < 5 then of_int (leb_svalue g) else of_nat (leb_value g), length g)
     else Inl BH_LEB_READ_OVERFLOW)"
proof -
  consider "length g \<le> 4" | "length g = Suc 4" | "5 < length g" by linarith
  then show ?thesis
  proof cases
    case 1
    then show ?thesis
      using svalue_short [OF assms 1] extended [of g]
      by (simp add: bh_leb_read_def leb_loop_all [OF assms] leb_finish_def)
  next
    case 2
    define d where "d = unat (last g)"
    have v: "leb_value g = leb_value (butlast g) + 128 ^ 4 * d" "leb_value (butlast g) < 128 ^ 4" "d < 128"
      using leb_value_last [OF assms 2] by (simp_all add: d_def)
    have odd: "odd (d div 64) \<longleftrightarrow> 64 \<le> d"
      using v(3) div_nat_eqI [of 64 1 d] by (cases "d < 64") auto
    have "- (2 ^ 31) \<le> leb_svalue g \<and> leb_svalue g < 2 ^ 31 \<longleftrightarrow> d < 8 \<or> 120 \<le> d"
      using v odd 2 by (cases "64 \<le> d") (simp_all add: leb_svalue_def flip: d_def, linarith+)
    then show ?thesis
      using 2 tail_s32 [OF v(3)]
      by (auto simp: bh_leb_read_def leb_loop_all [OF assms] leb_finish_def flag_bits top_bits Let_def simp flip: d_def split: if_splits)
  qed (simp add: bh_leb_read_def leb_loop_all [OF assms])
qed

lemma read_s64:
  assumes "leb_group g"
  shows "bh_leb_read (g @ rest) 64 True =
    (if 10 < length g then Inl BH_LEB_READ_TOO_LONG
     else if - (2 ^ 63) \<le> leb_svalue g \<and> leb_svalue g < 2 ^ 63
     then Inr (of_int (leb_svalue g), length g)
     else Inl BH_LEB_READ_OVERFLOW)"
proof -
  consider "length g \<le> 9" | "length g = Suc 9" | "10 < length g" by linarith
  then show ?thesis
  proof cases
    case 1
    then show ?thesis
      using svalue_short [OF assms 1] extended [of g]
      by (simp add: bh_leb_read_def leb_loop_all [OF assms] leb_finish_def)
  next
    case 2
    define d where "d = unat (last g)"
    have v: "leb_value g = leb_value (butlast g) + 128 ^ 9 * d" "leb_value (butlast g) < 128 ^ 9" "d < 128"
      using leb_value_last [OF assms 2] by (simp_all add: d_def)
    have odd: "odd (d div 64) \<longleftrightarrow> 64 \<le> d"
      using v(3) div_nat_eqI [of 64 1 d] by (cases "d < 64") auto
    have range: "- (2 ^ 63) \<le> leb_svalue g \<and> leb_svalue g < 2 ^ 63 \<longleftrightarrow> d = 0 \<or> d = 127"
      using v odd 2 by (cases "64 \<le> d") (simp_all add: leb_svalue_def flip: d_def, linarith+)
    have ok: "(if odd d then d div 2 = 63 else d < 2) \<longleftrightarrow> d = 0 \<or> d = 127"
      using v(3) by presburger
    have "(1180591620717411303424 :: u64) = 0"
      by (simp add: word_uint_eq_iff)
    then have "(of_int (leb_svalue g) :: u64) = of_nat (leb_value g)"
      by (simp add: leb_svalue_def 2)
    then show ?thesis
      using 2 ok range
      by (auto simp: bh_leb_read_def leb_loop_all [OF assms] leb_finish_def flag_bits top_bits Let_def simp flip: d_def split: if_splits)
  qed (simp add: bh_leb_read_def leb_loop_all [OF assms])
qed

text \<open>Unsigned numbers of 64 bits have no check of the last byte: the bits above the 64th are dropped.\<close>

lemma read_u64:
  "leb_group g \<Longrightarrow> bh_leb_read (g @ rest) 64 False =
    (if 10 < length g then Inl BH_LEB_READ_TOO_LONG else Inr (of_nat (leb_value g), length g))"
  by (simp add: bh_leb_read_def leb_loop_all leb_finish_def)

section \<open>Encoders\<close>

text \<open>The shortest encodings, as a compiler emits them.\<close>

fun uleb :: "nat \<Rightarrow> bytes" where
  "uleb n = (if n < 128 then [of_nat n] else of_nat (n mod 128 + 128) # uleb (n div 128))"

declare uleb.simps [simp del]

lemma byte_values:
  "n < 128 \<Longrightarrow> unat (of_nat n :: byte) = n \<and> \<not> more (of_nat n)"
  "n < 128 \<Longrightarrow> unat (of_nat (n + 128) :: byte) = n + 128 \<and> more (of_nat (n + 128))"
  using div_nat_eqI [of 128 1 "n + 128"] by (simp_all add: more_def byte_bit unat_of_nat unat_word_ariths)

lemma uleb_group: "leb_group (uleb n) \<and> leb_value (uleb n) = n"
proof (induction n rule: uleb.induct)
  case (1 n)
  show ?case
  proof (cases "n < 128")
    case True
    then show ?thesis using byte_values(1) [of n] by (simp add: uleb.simps [of n])
  next
    case False
    have "uleb (n div 128) \<noteq> []" by (simp add: uleb.simps [of "n div 128"])
    then show ?thesis
      using 1 False byte_values(2) [of "n mod 128"] by (simp add: uleb.simps [of n])
  qed
qed

function sleb :: "int \<Rightarrow> bytes" where
  "sleb i = (if i div 128 = 0 \<and> i mod 128 < 64 \<or> i div 128 = -1 \<and> 64 \<le> i mod 128
     then [of_int (i mod 128)] else of_int (i mod 128 + 128) # sleb (i div 128))"
  by auto
termination
proof (relation "measure (\<lambda>i. nat \<bar>i\<bar>)")
  fix i :: int
  assume "\<not> (i div 128 = 0 \<and> i mod 128 < 64 \<or> i div 128 = -1 \<and> 64 \<le> i mod 128)"
  then have "i \<noteq> 0" "i \<noteq> -1" by auto
  then have "\<bar>i div 128\<bar> < \<bar>i\<bar>"
    by (cases "0 \<le> i") linarith+
  then show "(i div 128, i) \<in> measure (\<lambda>i. nat \<bar>i\<bar>)" by simp
qed simp

declare sleb.simps [simp del]

lemma leb_svalue_Cons: "bs \<noteq> [] \<Longrightarrow> leb_svalue (b # bs) = int (unat b mod 128) + 128 * leb_svalue bs"
  by (simp add: leb_svalue_def)

lemma sleb_group: "leb_group (sleb i) \<and> leb_svalue (sleb i) = i"
proof (induction i rule: sleb.induct)
  case (1 i)
  define d where "d = nat (i mod 128)"
  have d: "i mod 128 = int d" "d < 128" by (simp_all add: d_def nat_less_iff)
  show ?case
  proof (cases "i div 128 = 0 \<and> i mod 128 < 64 \<or> i div 128 = -1 \<and> 64 \<le> i mod 128")
    case True
    then show ?thesis
      using byte_values(1) [OF d(2)] d div_nat_eqI [of 64 1 d] mult_div_mod_eq [of 128 i]
      by (auto simp: sleb.simps [of i] leb_svalue_def)
  next
    case False
    have eq: "sleb i = of_nat (d + 128) # sleb (i div 128)"
      unfolding sleb.simps [of i] if_not_P [OF False] by (simp add: d)
    have "sleb (i div 128) \<noteq> []" by (simp add: sleb.simps [of "i div 128"])
    then show ?thesis
      using 1 [OF False] byte_values(2) [OF d(2)] d mult_div_mod_eq [of 128 i]
      by (simp add: eq leb_svalue_Cons del: of_nat_add)
  qed
qed

lemma sleb_length:
  assumes "- (64 * 128 ^ m) \<le> i" "i < 64 * 128 ^ m"
  shows "length (sleb i) \<le> Suc m"
  using assms
proof (induction m arbitrary: i)
  case 0
  then have "i div 128 = 0 \<and> i mod 128 < 64 \<or> i div 128 = -1 \<and> 64 \<le> i mod 128"
    by simp presburger
  then show ?case by (simp add: sleb.simps [of i])
next
  case (Suc m)
  have "- (64 * 128 ^ m) \<le> i div 128" "i div 128 < 64 * 128 ^ m"
    using Suc.prems by simp_all
  from Suc.IH [OF this] show ?case
    by (subst sleb.simps) simp
qed

text \<open>The low half of a 64-bit result.\<close>

lemma low_half:
  "(ucast (of_nat n :: u64) :: u32) = of_nat n" "(ucast (of_int i :: u64) :: u32) = of_int i"
  by (simp add: word_unat_eq_iff unat_of_nat unsigned_ucast_eq take_bit_eq_mod mod_mod_cancel)
    (simp add: word_uint_eq_iff uint_word_of_int unsigned_ucast_eq take_bit_eq_mod mod_mod_cancel)

lemma svalue_low:
  assumes "length g = 5"
  shows "(of_int (leb_svalue g) :: u32) = of_nat (leb_value g)"
proof -
  have "(34359738368 :: u32) = 0" by (simp add: word_uint_eq_iff)
  then show ?thesis by (simp add: leb_svalue_def assms)
qed

section \<open>Properties\<close>

text \<open>C28. The reader of unsigned 32-bit numbers is exact on every input. The bytes up to the first one
  without the continuation bit are read as a number if there are at most five of them and the number
  fits in 32 bits; more bytes are too long, a larger number is an overflow, and an input that ends
  before such a byte is an unexpected end, or too long if it has five bytes already.\<close>

theorem read_u32_exact:
  "(\<forall>g rest. leb_group g \<longrightarrow> bh_leb_read (g @ rest) 32 False =
      (if 5 < length g then Inl BH_LEB_READ_TOO_LONG
       else if leb_value g < 2 ^ 32 then Inr (of_nat (leb_value g), length g) else Inl BH_LEB_READ_OVERFLOW))
   \<and> (\<forall>bs. list_all more bs \<longrightarrow> bh_leb_read bs 32 False =
        Inl (if 5 \<le> length bs then BH_LEB_READ_TOO_LONG else BH_LEB_READ_UNEXPECTED_END))
   \<and> (\<forall>bs. list_all more bs \<or> (\<exists>g rest. bs = g @ rest \<and> leb_group g))"
  using read_u32 read_unfinished [of _ 32 False] leb_split by (auto; metis)

theorem read_u32_exact_witness:
  "bh_leb_read [0xE5, 0x8E, 0x26, 7] 32 False = Inr (624485, 3) \<and> bh_leb_read [0x80] 32 False = Inl BH_LEB_READ_UNEXPECTED_END
   \<and> bh_leb_read [0xFF, 0xFF, 0xFF, 0xFF, 0x1F] 32 False = Inl BH_LEB_READ_OVERFLOW"
  using read_u32_exact [THEN conjunct1, rule_format, of "[0xE5, 0x8E, 0x26]" "[7]"]
    read_u32_exact [THEN conjunct1, rule_format, of "[0xFF, 0xFF, 0xFF, 0xFF, 0x1F]" "[]"]
    read_u32_exact [THEN conjunct2, THEN conjunct1, rule_format, of "[0x80]"]
  by (simp add: more_def)

text \<open>C29. Signed numbers are read back: the shortest encoding of any integer of 32 or 64 bits, whatever
  follows it, is read as that integer, sign-extended to 64 bits for the 64-bit reader and correct in
  the low 32 bits for the 32-bit reader, and the offset is the length of the encoding.\<close>

theorem signed_round_trip:
  "(- (2 ^ 63) \<le> i \<and> i < 2 ^ 63 \<longrightarrow> bh_leb_read (sleb i @ rest) 64 True = Inr (of_int i, length (sleb i)))
   \<and> (- (2 ^ 31) \<le> i \<and> i < 2 ^ 31 \<longrightarrow>
      (\<exists>w. bh_leb_read (sleb i @ rest) 32 True = Inr (w, length (sleb i)) \<and> (ucast w :: u32) = of_int i))"
proof -
  have g: "leb_group (sleb i)" "leb_svalue (sleb i) = i" using sleb_group [of i] by auto
  have "length (sleb i) \<le> 10" if "- (2 ^ 63) \<le> i" "i < 2 ^ 63"
    using that sleb_length [of 9 i] by simp
  moreover have "length (sleb i) \<le> 5" if "- (2 ^ 31) \<le> i" "i < 2 ^ 31"
    using that sleb_length [of 4 i] by simp
  moreover have "(ucast (if length (sleb i) < 5 then of_int i else of_nat (leb_value (sleb i)) :: u64) :: u32) = of_int i"
    if "length (sleb i) \<le> 5"
    using that svalue_low [of "sleb i"] g(2) by (cases "length (sleb i) = 5") (simp_all add: low_half)
  ultimately show ?thesis
    using read_s64 [OF g(1), of rest] read_s32 [OF g(1), of rest] g(2) by (intro conjI impI) auto
qed

theorem signed_round_trip_witness:
  "bh_leb_read (sleb (- 123456) @ [1]) 64 True = Inr (of_int (- 123456), length (sleb (- 123456)))"
  using signed_round_trip [of "- 123456" "[1]"] by simp

text \<open>Unsigned 64-bit numbers are not checked: a number of ten bytes is read modulo 2 to the 64th and
  never reported as an overflow, unlike the 32-bit reader.\<close>

lemma read_u64_wraps:
  assumes "leb_group g" "length g \<le> 10"
  shows "bh_leb_read (g @ rest) 64 False = Inr (of_nat (leb_value g mod 2 ^ 64), length g)"
  using assms by (simp add: read_u64 word_unat_eq_iff unat_of_nat)

end
