(* ===== verification/Loader_Common.thy ===== *)
theory Loader_Common
  imports Leb128
begin

text \<open>
  The checks that the bytecode loader and the AOT loader share
  (\<open>core/iwasm/common/wasm_loader_common.c\<close>). The features of the build are a record. A function that
  fails stores a message; the model returns it as the value of an option.
\<close>

section \<open>Features\<close>

record features =
  shared_memory :: bool
  memory64 :: bool
  gc :: bool
  ref_types :: bool
  simd :: bool
  interpreter_simd :: bool

text \<open>The configuration of the port: reference types, nothing else.\<close>

definition trustzone :: features where
  "trustzone = \<lparr>shared_memory = False, memory64 = False, gc = False, ref_types = True, simd = False, interpreter_simd = False\<rparr>"

section \<open>Limits\<close>

definition MAX_PAGE_COUNT_FLAG :: byte where "MAX_PAGE_COUNT_FLAG = 1"
definition SHARED_MEMORY_FLAG :: byte where "SHARED_MEMORY_FLAG = 2"
definition MEMORY64_FLAG :: byte where "MEMORY64_FLAG = 4"
definition MAX_TABLE_SIZE_FLAG :: byte where "MAX_TABLE_SIZE_FLAG = 1"
definition SHARED_TABLE_FLAG :: byte where "SHARED_TABLE_FLAG = 2"
definition TABLE64_FLAG :: byte where "TABLE64_FLAG = 4"

lemmas limit_flags = MAX_PAGE_COUNT_FLAG_def SHARED_MEMORY_FLAG_def MEMORY64_FLAG_def MAX_TABLE_SIZE_FLAG_def
  SHARED_TABLE_FLAG_def TABLE64_FLAG_def

text \<open>The result, and the message left in the error buffer.\<close>

type_synonym checked = "bool \<times> string option"

definition wasm_memory_check_flags :: "features \<Rightarrow> byte \<Rightarrow> checked" where
  "wasm_memory_check_flags f mem_flag =
     (if MAX_PAGE_COUNT_FLAG < mem_flag \<and> \<not> shared_memory f \<and> mem_flag AND SHARED_MEMORY_FLAG \<noteq> 0
      then (False, Some ''invalid limits flags'')
      else if MAX_PAGE_COUNT_FLAG < mem_flag \<and> \<not> memory64 f \<and> mem_flag AND MEMORY64_FLAG \<noteq> 0
      then (False, Some ''invalid limits flags'')
      else if MAX_PAGE_COUNT_FLAG + SHARED_MEMORY_FLAG + MEMORY64_FLAG < mem_flag
      then (False, Some ''invalid limits flags'')
      else if mem_flag AND SHARED_MEMORY_FLAG \<noteq> 0 \<and> mem_flag AND MAX_PAGE_COUNT_FLAG = 0
      then (False, Some ''shared memory must have maximum'')
      else (True, None))"

text \<open>A shared table only leaves a message: there is no return after it.\<close>

definition wasm_table_check_flags :: "features \<Rightarrow> byte \<Rightarrow> checked" where
  "wasm_table_check_flags f table_flag =
     (let msg = (if MAX_TABLE_SIZE_FLAG < table_flag \<and> table_flag AND SHARED_TABLE_FLAG \<noteq> 0
                 then Some ''tables cannot be shared'' else None) in
      if MAX_TABLE_SIZE_FLAG < table_flag \<and> \<not> memory64 f \<and> table_flag AND TABLE64_FLAG \<noteq> 0
      then (False, Some ''invalid limits flags(table64 flag was found, please enable memory64)'')
      else if MAX_TABLE_SIZE_FLAG + TABLE64_FLAG < table_flag
      then (False, Some ''invalid limits flags'')
      else (True, msg))"

text \<open>All memories of a module are 64-bit memories, or none is; the loops run over the flags of the
  imported and then of the defined memories.\<close>

fun memory64_flags :: "byte list \<Rightarrow> bool \<Rightarrow> bool \<Rightarrow> bool \<times> bool" where
  "memory64_flags [] all_wasm64 none_wasm64 = (all_wasm64, none_wasm64)"
| "memory64_flags (flags # ms) all_wasm64 none_wasm64 =
     (let wasm64_flag = (flags AND MEMORY64_FLAG \<noteq> 0) in
      memory64_flags ms (all_wasm64 \<and> wasm64_flag) (none_wasm64 \<and> \<not> wasm64_flag))"

definition check_memory64_flags_consistency :: "byte list \<Rightarrow> byte list \<Rightarrow> checked" where
  "check_memory64_flags_consistency import_memories memories =
     (case memory64_flags import_memories True True of (a, n) \<Rightarrow>
      case memory64_flags memories a n of (all_wasm64, none_wasm64) \<Rightarrow>
      if \<not> (all_wasm64 \<or> none_wasm64)
      then (False, Some ''inconsistent limits wasm64 flags for memory sections'') else (True, None))"

section \<open>Types\<close>

definition VALUE_TYPE_I32 :: byte where "VALUE_TYPE_I32 = 0x7F"
definition VALUE_TYPE_F64 :: byte where "VALUE_TYPE_F64 = 0x7C"
definition VALUE_TYPE_V128 :: byte where "VALUE_TYPE_V128 = 0x7B"
definition VALUE_TYPE_FUNCREF :: byte where "VALUE_TYPE_FUNCREF = 0x70"
definition VALUE_TYPE_EXTERNREF :: byte where "VALUE_TYPE_EXTERNREF = 0x6F"

lemmas value_types = VALUE_TYPE_I32_def VALUE_TYPE_F64_def VALUE_TYPE_V128_def VALUE_TYPE_FUNCREF_def VALUE_TYPE_EXTERNREF_def

text \<open>\<open>reftype\<close> stands for \<open>wasm_is_type_reftype\<close> of the garbage-collection feature.\<close>

definition is_valid_value_type :: "features \<Rightarrow> (byte \<Rightarrow> bool) \<Rightarrow> byte \<Rightarrow> bool" where
  "is_valid_value_type f reftype type \<longleftrightarrow>
     VALUE_TYPE_F64 \<le> type \<and> type \<le> VALUE_TYPE_I32
     \<or> (if gc f then reftype type else ref_types f \<and> (type = VALUE_TYPE_FUNCREF \<or> type = VALUE_TYPE_EXTERNREF))
     \<or> simd f \<and> type = VALUE_TYPE_V128"

definition is_valid_value_type_for_interpreter :: "features \<Rightarrow> (byte \<Rightarrow> bool) \<Rightarrow> byte \<Rightarrow> bool" where
  "is_valid_value_type_for_interpreter f reftype value_type \<longleftrightarrow>
     (if \<not> interpreter_simd f \<and> value_type = VALUE_TYPE_V128 then False else is_valid_value_type f reftype value_type)"

fun all_valid :: "features \<Rightarrow> (byte \<Rightarrow> bool) \<Rightarrow> byte list \<Rightarrow> bool" where
  "all_valid f reftype [] = True"
| "all_valid f reftype (t # ts) = (if \<not> is_valid_value_type f reftype t then False else all_valid f reftype ts)"

text \<open>The types of the parameters are followed by those of the results.\<close>

definition is_valid_func_type :: "features \<Rightarrow> (byte \<Rightarrow> bool) \<Rightarrow> byte list \<Rightarrow> byte list \<Rightarrow> bool" where
  "is_valid_func_type f reftype params results = all_valid f reftype (params @ results)"

definition is_indices_overflow :: "u32 \<Rightarrow> u32 \<Rightarrow> bool" where
  "is_indices_overflow import other \<longleftrightarrow> 0xFFFFFFFF - other < import"

section \<open>Numbers\<close>

text \<open>On success the pointer to the buffer moves behind the number.\<close>

definition read_leb :: "bytes \<Rightarrow> nat \<Rightarrow> bool \<Rightarrow> string + u64 \<times> bytes" where
  "read_leb buf maxbits sign = (case bh_leb_read buf maxbits sign of
       Inr (result, offset) \<Rightarrow> Inr (result, drop offset buf)
     | Inl BH_LEB_READ_TOO_LONG \<Rightarrow> Inl ''integer representation too long''
     | Inl BH_LEB_READ_OVERFLOW \<Rightarrow> Inl ''integer too large''
     | Inl BH_LEB_READ_UNEXPECTED_END \<Rightarrow> Inl ''unexpected end''
     | Inl BH_LEB_READ_SUCCESS \<Rightarrow> Inl [])"

section \<open>What the checks accept\<close>

lemma byte_cases:
  assumes "\<not> (7 :: byte) < b"
  obtains "b = 0" | "b = 1" | "b = 2" | "b = 3" | "b = 4" | "b = 5" | "b = 6" | "b = 7"
proof -
  have "unat b \<le> 7" using assms by (simp add: word_less_nat_alt not_less)
  then have "unat b \<in> {0, 1, 2, 3, 4, 5, 6, 7}" by auto
  then show ?thesis
    using that by (auto simp: word_unat_eq_iff)
qed

lemma memory_flags_trustzone: "fst (wasm_memory_check_flags trustzone b) \<longleftrightarrow> b = 0 \<or> b = 1"
proof (cases "7 < b")
  case False
  then show ?thesis
    by (cases rule: byte_cases) (simp_all add: wasm_memory_check_flags_def trustzone_def limit_flags)
qed (auto simp: wasm_memory_check_flags_def limit_flags)

lemma table_flags_trustzone: "fst (wasm_table_check_flags trustzone b) \<longleftrightarrow> b \<in> {0, 1, 2, 3}"
proof (cases "7 < b")
  case False
  then show ?thesis
    by (cases rule: byte_cases) (simp_all add: wasm_table_check_flags_def trustzone_def limit_flags Let_def)
next
  case True
  then have "5 < b" by (simp add: word_less_nat_alt)
  then show ?thesis
    using True by (auto simp: wasm_table_check_flags_def limit_flags Let_def)
qed

lemma memory64_flags_all:
  "memory64_flags ms a n = (a \<and> (\<forall>m \<in> set ms. m AND MEMORY64_FLAG \<noteq> 0), n \<and> (\<forall>m \<in> set ms. m AND MEMORY64_FLAG = 0))"
  by (induction ms arbitrary: a n) (auto simp: Let_def)

lemma all_valid_all: "all_valid f r ts \<longleftrightarrow> (\<forall>t \<in> set ts. is_valid_value_type f r t)"
  by (induction ts) auto

lemma unat_u32_less: "unat (x :: u32) < 2 ^ 32"
  using unsigned_less [of x] by simp

lemma indices_overflow_iff: "is_indices_overflow import other \<longleftrightarrow> 2 ^ 32 \<le> unat import + unat other"
proof -
  have "unat (0xFFFFFFFF - other) = 2 ^ 32 - 1 - unat other"
    using unat_u32_less [of other] by (subst unat_sub) (simp_all add: word_le_nat_alt)
  then show ?thesis
    using unat_u32_less [of other] by (auto simp: is_indices_overflow_def word_less_nat_alt)
qed

lemma read_leb_suffix: "read_leb buf maxbits sign = Inr (v, rest) \<Longrightarrow> \<exists>g. buf = g @ rest"
  by (auto simp: read_leb_def split: sum.splits bh_leb_read_status.splits) (metis append_take_drop_id)

section \<open>Properties\<close>

text \<open>In the configuration of the port a memory may only have the flag for a maximum, but a table may
  also have the flag that marks it as shared: the check leaves the message that tables cannot be shared
  and still succeeds.\<close>

lemma limit_flags_accepted:
  "(fst (wasm_memory_check_flags trustzone b) \<longleftrightarrow> b \<in> {0, 1})
   \<and> (fst (wasm_table_check_flags trustzone b) \<longleftrightarrow> b \<in> {0, 1, 2, 3})
   \<and> wasm_table_check_flags trustzone 2 = (True, Some ''tables cannot be shared'')"
  by (simp add: memory_flags_trustzone table_flags_trustzone)
    (simp add: wasm_table_check_flags_def trustzone_def limit_flags)

text \<open>C31. The checks of a module are exact: mixing 64-bit and 32-bit memories is rejected and nothing else, a
  function type is valid if each of its types is, an index space overflows exactly if it has more than
  2 to the 32nd entries minus one, and a memory of the port may only have the flag for a maximum. A table may
  also have the flag that marks it as shared: the check leaves the message that tables cannot be shared
  and still succeeds.\<close>

theorem module_checks_exact:
  "(fst (check_memory64_flags_consistency ims ms) \<longleftrightarrow>
      (\<forall>m \<in> set (ims @ ms). m AND MEMORY64_FLAG \<noteq> 0) \<or> (\<forall>m \<in> set (ims @ ms). m AND MEMORY64_FLAG = 0))
   \<and> (is_valid_func_type f r ps rs \<longleftrightarrow> (\<forall>t \<in> set (ps @ rs). is_valid_value_type f r t))
   \<and> (is_indices_overflow import other \<longleftrightarrow> 2 ^ 32 \<le> unat import + unat other)
   \<and> (fst (wasm_memory_check_flags trustzone b) \<longleftrightarrow> b \<in> {0, 1})
   \<and> (fst (wasm_table_check_flags trustzone b) \<longleftrightarrow> b \<in> {0, 1, 2, 3})
   \<and> wasm_table_check_flags trustzone 2 = (True, Some ''tables cannot be shared'')"
proof -
  have "is_valid_func_type f r ps rs \<longleftrightarrow> (\<forall>t \<in> set (ps @ rs). is_valid_value_type f r t)"
    by (auto simp: is_valid_func_type_def all_valid_all)
  moreover have "fst (check_memory64_flags_consistency ims ms) \<longleftrightarrow>
      (\<forall>m \<in> set (ims @ ms). m AND MEMORY64_FLAG \<noteq> 0) \<or> (\<forall>m \<in> set (ims @ ms). m AND MEMORY64_FLAG = 0)"
    by (auto simp: check_memory64_flags_consistency_def memory64_flags_all)
  ultimately show ?thesis using limit_flags_accepted [of b] indices_overflow_iff [of import other] by blast
qed

theorem module_checks_exact_witness:
  "\<not> fst (check_memory64_flags_consistency [4] [0]) \<and> is_indices_overflow 0xFFFFFFFF 1
   \<and> is_valid_func_type trustzone (\<lambda>_. False) [0x7F] [0x70] \<and> \<not> fst (wasm_memory_check_flags trustzone 2)"
  using module_checks_exact [of "[4]" "[0]" trustzone "\<lambda>_. False" "[0x7F]" "[0x70]" "0xFFFFFFFF" 1 2]
  by (simp add: limit_flags is_valid_value_type_def value_types trustzone_def)

end
