(* ===== verification/Bh_Common.thy ===== *)
theory Bh_Common
  imports Prelude "HOL-Library.Monad_Syntax"
begin

text \<open>
  The memory and string helpers of the runtime (\<open>core/shared/utils/bh_common.c\<close>). A pointer into an
  object is the object and an offset, \<open>None\<close> is the null pointer; a computation that would leave an
  object, or read a string that has no terminator, is \<open>None\<close>. \<open>bh_assert\<close> is compiled out, so that the
  \<open>bh_\<close> macros drop the result of the functions they call.
\<close>

unbundle bit_operations_syntax

section \<open>Accesses\<close>

type_synonym ptr = "(bytes \<times> nat) option"

definition uint32 :: "nat \<Rightarrow> nat" where
  "uint32 n = n mod 2 ^ 32"

definition load :: "bytes \<Rightarrow> nat \<Rightarrow> nat \<Rightarrow> bytes option" where
  "load buf off n = (if off + n \<le> length buf then Some (take n (drop off buf)) else None)"

definition store :: "bytes \<Rightarrow> nat \<Rightarrow> bytes \<Rightarrow> bytes option" where
  "store buf off d = (if off + length d \<le> length buf then Some (splice buf off d) else None)"

fun strlen :: "bytes \<Rightarrow> nat option" where
  "strlen [] = None"
| "strlen (b # bs) = (if b = 0 then Some 0 else map_option Suc (strlen bs))"

section \<open>Checked copies\<close>

text \<open>The result of a checked copy is the return value and the contents of the destination afterwards.
  A failed copy clears the destination.\<close>

definition object :: "ptr \<Rightarrow> bytes" where
  "object p = (case p of None \<Rightarrow> [] | Some (buf, off) \<Rightarrow> buf)"

definition copy_s :: "ptr \<Rightarrow> nat \<Rightarrow> ptr \<Rightarrow> nat \<Rightarrow> (int \<times> bytes) option" where
  "copy_s s1 s1max s2 n =
     (if n = 0 then Some (0, object s1) else
      case s1 of None \<Rightarrow> Some (-1, []) | Some (dest, d) \<Rightarrow>
      case s2 of None \<Rightarrow> map_option (Pair (-1)) (store dest d (replicate s1max 0)) | Some (src, s) \<Rightarrow>
      if s1max < n then map_option (Pair (-1)) (store dest d (replicate s1max 0)) else
      do { x \<leftarrow> load src s n; dest \<leftarrow> store dest d x; Some (0, dest) })"

definition b_memcpy_s :: "ptr \<Rightarrow> nat \<Rightarrow> ptr \<Rightarrow> nat \<Rightarrow> (int \<times> bytes) option" where
  "b_memcpy_s s1 s1max s2 n = copy_s s1 s1max s2 n"

definition b_memmove_s :: "ptr \<Rightarrow> nat \<Rightarrow> ptr \<Rightarrow> nat \<Rightarrow> (int \<times> bytes) option" where
  "b_memmove_s s1 s1max s2 n = copy_s s1 s1max s2 n"

definition bh_memcpy_s :: "ptr \<Rightarrow> nat \<Rightarrow> ptr \<Rightarrow> nat \<Rightarrow> bytes option" where
  "bh_memcpy_s s1 s1max s2 n = map_option snd (b_memcpy_s s1 s1max s2 n)"

section \<open>Strings\<close>

definition b_strcat_s :: "bytes option \<Rightarrow> nat \<Rightarrow> bytes option \<Rightarrow> (int \<times> bytes) option" where
  "b_strcat_s s1 s1max s2 =
     (case s1 of None \<Rightarrow> Some (-1, []) | Some dest \<Rightarrow>
      case s2 of None \<Rightarrow> Some (-1, dest) | Some src \<Rightarrow>
      do { n1 \<leftarrow> strlen dest; n2 \<leftarrow> strlen src;
           if s1max < n1 + n2 + 1 then Some (-1, dest) else
           do { x \<leftarrow> load src 0 (n2 + 1); dest \<leftarrow> store dest n1 x; Some (0, dest) } })"

definition b_strcpy_s :: "bytes option \<Rightarrow> nat \<Rightarrow> bytes option \<Rightarrow> (int \<times> bytes) option" where
  "b_strcpy_s s1 s1max s2 =
     (case s1 of None \<Rightarrow> Some (-1, []) | Some dest \<Rightarrow>
      case s2 of None \<Rightarrow> Some (-1, dest) | Some src \<Rightarrow>
      do { n2 \<leftarrow> strlen src;
           if s1max < n2 + 1 then Some (-1, dest) else
           do { x \<leftarrow> load src 0 (n2 + 1); dest \<leftarrow> store dest 0 x; Some (0, dest) } })"

text \<open>\<open>malloc\<close> gives a block of the requested size, or the null pointer. \<open>wa_strdup\<close> differs in the allocator.\<close>

definition bh_strdup :: "(nat \<Rightarrow> bytes option) \<Rightarrow> bytes option \<Rightarrow> bytes option option" where
  "bh_strdup malloc s =
     (case s of None \<Rightarrow> Some None | Some str \<Rightarrow>
      do { n \<leftarrow> strlen str;
           let size = uint32 (n + 1);
           case malloc size of None \<Rightarrow> Some None | Some s1 \<Rightarrow>
           map_option Some (bh_memcpy_s (Some (s1, 0)) size (Some (str, 0)) size) })"

definition wa_strdup :: "(nat \<Rightarrow> bytes option) \<Rightarrow> bytes option \<Rightarrow> bytes option option" where
  "wa_strdup malloc s = bh_strdup malloc s"

section \<open>The copy by words\<close>

text \<open>\<open>b_memcpy_wa\<close> reads whole aligned words, also those that only overlap the source. Memory is a
  function from addresses; each loop returns the memory and the advanced \<open>dest\<close>.\<close>

type_synonym memory = "nat \<Rightarrow> byte"

definition align_ptr :: "u64 \<Rightarrow> u32 \<Rightarrow> u64" where
  "align_ptr src b = (let m = ucast (b - 1) in (src + m) AND NOT m)"

definition read_word :: "memory \<Rightarrow> nat \<Rightarrow> bytes" where
  "read_word mem p = [mem p, mem (p + 1), mem (p + 2), mem (p + 3)]"

function wa_leading :: "bytes \<Rightarrow> nat \<Rightarrow> nat \<Rightarrow> nat \<Rightarrow> memory \<times> nat \<Rightarrow> memory \<times> nat" where
  "wa_leading buff p src_end ps (mem, dest) =
     (if ps < p + 4 then
        if src_end \<le> ps then (mem, dest)
        else wa_leading buff p src_end (ps + 1) (mem(dest := buff ! (ps - p)), dest + 1)
      else (mem, dest))"
  by pat_completeness auto
termination
  by (relation "measure (\<lambda>(buff, p, src_end, ps, _). p + 4 - ps)") auto

function wa_trailing :: "bytes \<Rightarrow> nat \<Rightarrow> nat \<Rightarrow> nat \<Rightarrow> memory \<times> nat \<Rightarrow> memory \<times> nat" where
  "wa_trailing buff i src_end ps (mem, dest) =
     (if ps < src_end then wa_trailing buff (i + 1) src_end (ps + 1) (mem(dest := buff ! i), dest + 1)
      else (mem, dest))"
  by pat_completeness auto
termination
  by (relation "measure (\<lambda>(buff, i, src_end, ps, _). src_end - ps)") auto

definition wa_word :: "nat \<Rightarrow> nat \<Rightarrow> nat \<Rightarrow> nat \<Rightarrow> memory \<times> nat \<Rightarrow> memory \<times> nat" where
  "wa_word src n pb p s =
     (case s of (mem, dest) \<Rightarrow> let buff = read_word mem p in
      if p \<le> src then wa_leading buff p (src + n) src (mem, dest)
      else if pb - 4 \<le> p then wa_trailing buff 0 (src + n) p (mem, dest)
      else if src + n \<le> p + 4 then wa_trailing buff 0 (src + n) p (mem, dest)
      else (mem(dest := buff ! 0, dest + 1 := buff ! 1, dest + 2 := buff ! 2, dest + 3 := buff ! 3), dest + 4))"

function wa_words :: "nat \<Rightarrow> nat \<Rightarrow> nat \<Rightarrow> nat \<Rightarrow> memory \<times> nat \<Rightarrow> memory \<times> nat" where
  "wa_words src n pb p s = (if p < pb then wa_words src n pb (p + 4) (wa_word src n pb p s) else s)"
  by pat_completeness auto
termination
  by (relation "measure (\<lambda>(src, n, pb, p, s). pb - p)") auto

declare wa_leading.simps [simp del] wa_trailing.simps [simp del] wa_words.simps [simp del]

definition b_memcpy_wa :: "u64 \<Rightarrow> u64 \<Rightarrow> u32 \<Rightarrow> memory \<Rightarrow> memory" where
  "b_memcpy_wa s1 s2 n mem =
     (let pa = align_ptr s2 4; pb = align_ptr (s2 + ucast n) 4 in
      if n = 0 then mem else
      let pa = (if s2 < pa then pa - 4 else pa) in
      fst (wa_words (unat s2) (unat n) (unat pb) (unat pa) (mem, unat s1)))"

text \<open>The reference: a copy byte by byte.\<close>

definition memcpy_ref :: "nat \<Rightarrow> nat \<Rightarrow> nat \<Rightarrow> memory \<Rightarrow> memory" where
  "memcpy_ref s1 s2 n mem = (\<lambda>a. if s1 \<le> a \<and> a < s1 + n then mem (s2 + (a - s1)) else mem a)"

section \<open>Lemmas\<close>

lemma load_ok [simp]: "off + n \<le> length buf \<Longrightarrow> load buf off n = Some (take n (drop off buf))"
  by (simp add: load_def)

lemma store_ok [simp]: "off + length d \<le> length buf \<Longrightarrow> store buf off d = Some (splice buf off d)"
  by (simp add: store_def)

lemma uint32_id [simp]: "n < 2 ^ 32 \<Longrightarrow> uint32 n = n"
  by (simp add: uint32_def)

lemma bh_memcpy_s_ok:
  "n \<le> s1max \<Longrightarrow> d + n \<le> length dest \<Longrightarrow> s + n \<le> length src \<Longrightarrow>
   bh_memcpy_s (Some (dest, d)) s1max (Some (src, s)) n = Some (splice dest d (take n (drop s src)))"
  by (auto simp: bh_memcpy_s_def b_memcpy_s_def copy_s_def object_def splice_def min_absorb2)

text \<open>A string of a buffer: the bytes before the first zero.\<close>

lemma strlen_string: "0 \<notin> set s \<Longrightarrow> strlen (s @ 0 # rest) = Some (length s)"
  by (induction s) auto

lemma strlen_SomeE:
  assumes "strlen buf = Some n"
  obtains s rest where "buf = s @ 0 # rest" "0 \<notin> set s" "length s = n"
  using assms
proof (induction buf arbitrary: n thesis)
  case (Cons b bs)
  show ?case
  proof (cases "b = 0")
    case True
    with Cons.prems show ?thesis using Cons.prems(1) [of "[]" bs] by auto
  next
    case False
    with Cons.prems(2) obtain m where m: "strlen bs = Some m" "n = Suc m" by auto
    then obtain s rest where "bs = s @ 0 # rest" "0 \<notin> set s" "length s = m" using Cons.IH by blast
    then show ?thesis using Cons.prems(1) [of "b # s" rest] False m by simp
  qed
qed simp

lemma strcat_ok:
  assumes "0 \<notin> set a" "0 \<notin> set b" "s1max \<le> length (a @ 0 # ra)"
  shows "b_strcat_s (Some (a @ 0 # ra)) s1max (Some (b @ 0 # rb)) =
    (if length a + length b < s1max then Some (0, a @ b @ 0 # drop (length b) ra) else Some (-1, a @ 0 # ra))"
proof (cases "length a + length b < s1max")
  case True
  have "splice (a @ 0 # ra) (length a) (b @ [0]) = a @ b @ 0 # drop (length b) ra"
    by (simp add: splice_def)
  with True assms show ?thesis by (simp add: b_strcat_s_def strlen_string)
qed (use assms in \<open>simp add: b_strcat_s_def strlen_string\<close>)

lemma strcpy_ok:
  assumes "0 \<notin> set b" "s1max \<le> length dest"
  shows "b_strcpy_s (Some dest) s1max (Some (b @ 0 # rb)) =
    (if length b < s1max then Some (0, b @ 0 # drop (length b + 1) dest) else Some (-1, dest))"
proof (cases "length b < s1max")
  case True
  have "splice dest 0 (b @ [0]) = b @ 0 # drop (length b + 1) dest" by (simp add: splice_def)
  with True assms show ?thesis by (simp add: b_strcpy_s_def strlen_string)
qed (use assms in \<open>simp add: b_strcpy_s_def strlen_string\<close>)

lemma strdup_ok:
  assumes "0 \<notin> set b" "length b < 2 ^ 32 - 1" "malloc (length b + 1) = Some blk" "length blk = length b + 1"
  shows "bh_strdup malloc (Some (b @ 0 # rb)) = Some (Some (b @ [0]))"
  using assms by (simp add: bh_strdup_def strlen_string bh_memcpy_s_ok Let_def)

subsection \<open>Words\<close>

lemma memcpy_ref_0 [simp]: "memcpy_ref s1 s2 0 mem = mem"
  unfolding memcpy_ref_def by (rule ext) auto

lemma memcpy_ref_Suc:
  "(memcpy_ref s1 s2 k mem)(s1 + k := mem (s2 + k)) = memcpy_ref s1 s2 (Suc k) mem"
  by (auto simp: memcpy_ref_def)

lemma memcpy_ref_outside [simp]: "a < s1 \<or> s1 + k \<le> a \<Longrightarrow> memcpy_ref s1 s2 k mem a = mem a"
  by (auto simp: memcpy_ref_def)

lemma read_word_nth: "i < 4 \<Longrightarrow> read_word mem p ! i = mem (p + i)"
proof -
  assume "i < 4"
  then have "i = 0 \<or> i = 1 \<or> i = 2 \<or> i = 3" by auto
  then show ?thesis by (auto simp: read_word_def)
qed

lemma wa_leading_copies:
  assumes "p \<le> src + k" "src + k \<le> min (p + 4) (src + n)"
    and "\<And>i. i < 4 \<Longrightarrow> buff ! i = mem (p + i)"
  shows "wa_leading buff p (src + n) (src + k) (memcpy_ref s1 src k mem, s1 + k)
    = (memcpy_ref s1 src (min (p + 4) (src + n) - src) mem, s1 + (min (p + 4) (src + n) - src))"
  using assms
proof (induction "p + 4 - (src + k)" arbitrary: k)
  case 0
  then have "p + 4 \<le> src + k" by linarith
  with 0 have "min (p + 4) (src + n) - src = k" by linarith
  moreover have "wa_leading buff p (src + n) (src + k) (memcpy_ref s1 src k mem, s1 + k) = (memcpy_ref s1 src k mem, s1 + k)"
    using \<open>p + 4 \<le> src + k\<close> by (subst wa_leading.simps) simp
  ultimately show ?case by (simp only:)
next
  case (Suc d)
  show ?case
  proof (cases "n \<le> k")
    case True
    with Suc.prems have "min (p + 4) (src + n) - src = k" by simp
    with True show ?thesis by (subst wa_leading.simps) simp
  next
    case False
    have "buff ! (src + k - p) = mem (src + k)"
      using Suc.prems(1,3) Suc.hyps(2) by simp
    then have "wa_leading buff p (src + n) (src + k) (memcpy_ref s1 src k mem, s1 + k)
      = wa_leading buff p (src + n) (src + Suc k) (memcpy_ref s1 src (Suc k) mem, s1 + Suc k)"
      using False Suc.hyps(2) by (subst wa_leading.simps) (auto simp: memcpy_ref_Suc)
    also have "\<dots> = (memcpy_ref s1 src (min (p + 4) (src + n) - src) mem, s1 + (min (p + 4) (src + n) - src))"
      using False Suc.hyps(2) Suc.prems by (intro Suc.hyps(1)) auto
    finally show ?thesis .
  qed
qed

lemma wa_trailing_copies:
  assumes "k \<le> n" "i + (n - k) \<le> 4"
    and "\<And>j. j < 4 \<Longrightarrow> i \<le> j \<Longrightarrow> buff ! j = mem (src + k + (j - i))"
  shows "wa_trailing buff i (src + n) (src + k) (memcpy_ref s1 src k mem, s1 + k) = (memcpy_ref s1 src n mem, s1 + n)"
  using assms
proof (induction "n - k" arbitrary: k i)
  case 0
  then show ?case by (subst wa_trailing.simps) simp
next
  case (Suc d)
  have "buff ! i = mem (src + k)" using Suc.prems(3) [of i] Suc.hyps(2) Suc.prems(2) by simp
  then have "wa_trailing buff i (src + n) (src + k) (memcpy_ref s1 src k mem, s1 + k)
    = wa_trailing buff (i + 1) (src + n) (src + Suc k) (memcpy_ref s1 src (Suc k) mem, s1 + Suc k)"
    using Suc.hyps(2) by (subst wa_trailing.simps) (auto simp: memcpy_ref_Suc)
  also have "\<dots> = (memcpy_ref s1 src n mem, s1 + n)"
  proof (rule Suc.hyps(1))
    fix j assume "j < 4" "i + 1 \<le> j"
    then show "buff ! j = mem (src + Suc k + (j - (i + 1)))"
      using Suc.prems(3) [of j] by (simp add: Suc_diff_le [symmetric] Suc_diff_Suc)
  qed (use Suc in auto)
  finally show ?case .
qed

text \<open>How many bytes of the source lie below an address.\<close>

definition below :: "nat \<Rightarrow> nat \<Rightarrow> nat \<Rightarrow> nat" where
  "below src n p = min p (src + n) - src"

definition disjoint_from :: "nat \<Rightarrow> nat \<Rightarrow> nat \<Rightarrow> nat \<Rightarrow> bool" where
  "disjoint_from pa pb s1 n \<longleftrightarrow> pb \<le> s1 \<or> s1 + n \<le> pa"

lemma read_word_copied:
  assumes "disjoint_from pa pb s1 n" "pa \<le> p" "p + 4 \<le> pb" "k \<le> n" "i < 4"
  shows "read_word (memcpy_ref s1 src k mem) p ! i = mem (p + i)"
  using assms by (auto simp: read_word_nth disjoint_from_def)

lemma wa_word_copies:
  assumes d: "disjoint_from pa pb s1 n" "pa \<le> p" "p + 4 \<le> pb"
    and "src < pa + 4" "pb < src + n + 4" "src + n \<le> pb"
  shows "wa_word src n pb p (memcpy_ref s1 src (below src n p) mem, s1 + below src n p)
    = (memcpy_ref s1 src (below src n (p + 4)) mem, s1 + below src n (p + 4))"
proof -
  let ?buff = "read_word (memcpy_ref s1 src (below src n p) mem) p"
  have buff: "?buff ! i = mem (p + i)" if "i < 4" for i
    using that by (intro read_word_copied [OF d]) (auto simp: below_def)
  consider "p \<le> src" | "src < p" "pb - 4 \<le> p \<or> src + n \<le> p + 4" | "src < p" "p + 4 < src + n" "p < pb - 4"
    by linarith
  then show ?thesis
  proof cases
    case 1
    then have "below src n p = 0" by (simp add: below_def)
    then show ?thesis
      using wa_leading_copies [of p src 0 n ?buff mem s1] assms 1 buff
      by (simp add: wa_word_def below_def)
  next
    case 2
    then have b: "src + below src n p = p" "below src n (p + 4) = n" "below src n p \<le> n" "n \<le> below src n p + 4"
      using assms by (auto simp: below_def)
    have "wa_trailing ?buff 0 (src + n) (src + below src n p) (memcpy_ref s1 src (below src n p) mem, s1 + below src n p)
      = (memcpy_ref s1 src n mem, s1 + n)"
      by (rule wa_trailing_copies) (use b buff in auto)
    with 2 b show ?thesis by (auto simp: wa_word_def Let_def)
  next
    case 3
    then have b: "below src n (p + 4) = Suc (Suc (Suc (Suc (below src n p))))" "src + below src n p = p"
      by (auto simp: below_def)
    let ?k = "below src n p"
    have m: "mem (p + j) = mem (src + (?k + j))" for j using b(2) by (simp add: add.assoc [symmetric])
    have "memcpy_ref s1 src (below src n (p + 4)) mem
      = (memcpy_ref s1 src ?k mem)(s1 + ?k := mem p, s1 + ?k + 1 := mem (p + 1), s1 + ?k + 2 := mem (p + 2), s1 + ?k + 3 := mem (p + 3))"
      unfolding b(1) memcpy_ref_Suc [symmetric] using m [of 0] m [of 1] m [of 2] m [of 3]
      by (simp add: numeral_2_eq_2 numeral_3_eq_3)
    with 3 b(1) buff [of 0] buff [of 1] buff [of 2] buff [of 3] show ?thesis
      by (simp add: wa_word_def Let_def)
  qed
qed

lemma wa_words_copies:
  assumes "disjoint_from pa pb s1 n" "pa \<le> p" "p \<le> pb" "4 dvd pb - p"
    and "src < pa + 4" "pb < src + n + 4" "src + n \<le> pb"
  shows "wa_words src n pb p (memcpy_ref s1 src (below src n p) mem, s1 + below src n p) = (memcpy_ref s1 src n mem, s1 + n)"
  using assms
proof (induction "pb - p" arbitrary: p rule: less_induct)
  case less
  show ?case
  proof (cases "p < pb")
    case False
    with less.prems have "below src n p = n" by (auto simp: below_def)
    with False show ?thesis by (subst wa_words.simps) simp
  next
    case True
    with less.prems(3,4) have p: "p + 4 \<le> pb" by (auto dest!: dvd_imp_le)
    then have "4 dvd pb - (p + 4)"
      using less.prems(4) by (simp add: dvd_diff_nat flip: diff_diff_left)
    then have "wa_words src n pb (p + 4) (memcpy_ref s1 src (below src n (p + 4)) mem, s1 + below src n (p + 4))
      = (memcpy_ref s1 src n mem, s1 + n)"
      using less.prems True p by (intro less.hyps) auto
    with wa_word_copies [OF less.prems(1,2) p less.prems(5-7)] True show ?thesis
      by (subst wa_words.simps) simp
  qed
qed

lemma align_ptr_4:
  assumes "unat v + 3 < 2 ^ 64"
  shows "unat (align_ptr v 4) = align_up 4 (unat v)"
proof -
  have m: "(3 :: u64) = mask 2" by (simp add: mask_eq_exp_minus_1)
  have "align_ptr v 4 = (v + 3) AND NOT (mask 2)"
    by (simp add: align_ptr_def Let_def m [symmetric])
  also have "\<dots> = push_bit 2 (drop_bit 2 (v + 3))"
    by (rule bit_word_eqI) (auto simp: bit_simps not_less dest!: le_Suc_ex)
  finally have "align_ptr v 4 = push_bit 2 (drop_bit 2 (v + 3))" .
  moreover have "unat (v + 3) = unat v + 3"
    using assms by (simp add: unat_word_ariths)
  moreover have "unat (drop_bit 2 (v + 3)) = unat (v + 3) div 4"
    by (simp add: unat_div drop_bit_eq_div)
  moreover have "unat (push_bit 2 x) = 4 * unat x" if "4 * unat x < 2 ^ 64" for x :: u64
    using that by (simp add: push_bit_eq_mult unat_word_ariths)
  ultimately show ?thesis
    using assms by (simp add: align_up_def)
qed

lemma round_down: "x < align_up 4 x \<Longrightarrow> align_up 4 x - 4 = 4 * (x div 4)"
  unfolding align_up_def by arith

lemma memcpy_wa_ref:
  assumes "unat s2 + unat n + 3 < 2 ^ 64"
    and "disjoint_from (4 * (unat s2 div 4)) (align_up 4 (unat s2 + unat n)) (unat s1) (unat n)"
  shows "b_memcpy_wa s1 s2 n mem = memcpy_ref (unat s1) (unat s2) (unat n) mem"
proof (cases "n = 0")
  case True
  then show ?thesis by (simp add: b_memcpy_wa_def Let_def)
next
  case False
  define pa where "pa = (if s2 < align_ptr s2 4 then align_ptr s2 4 - 4 else align_ptr s2 4)"
  let ?pb = "unat (align_ptr (s2 + ucast n) 4)"
  have n: "unat (ucast n :: u64) = unat n" using unsigned_less [of n, where ?'a = nat] by (simp add: unsigned_ucast_eq take_bit_nat_eq_self)
  have sum: "unat (s2 + ucast n) = unat s2 + unat n"
    using assms(1) n by (subst unat_plus_simple [THEN iffD1]) (simp_all add: word_le_nat_alt unat_word_ariths)
  have pb: "?pb = align_up 4 (unat s2 + unat n)"
    using align_ptr_4 [of "s2 + ucast n"] assms(1) sum by simp
  have al: "unat (align_ptr s2 4) = align_up 4 (unat s2)"
    using align_ptr_4 [of s2] assms(1) by simp
  have pa: "unat pa = 4 * (unat s2 div 4)"
  proof (cases "s2 < align_ptr s2 4")
    case True
    then have "unat s2 < align_up 4 (unat s2)" using al by (simp add: word_less_nat_alt)
    moreover from this have "unat (align_ptr s2 4 - 4) = align_up 4 (unat s2) - 4"
      using al by (subst unat_sub) (auto simp: word_le_nat_alt align_up_def)
    ultimately show ?thesis using True round_down by (simp add: pa_def)
  next
    case False
    then have "align_up 4 (unat s2) \<le> unat s2" using al by (simp add: word_less_nat_alt not_less)
    then show ?thesis using False al by (simp add: pa_def align_up_def)
  qed
  have "0 < unat n" using False by (simp add: unat_gt_0)
  have "wa_words (unat s2) (unat n) ?pb (unat pa)
      (memcpy_ref (unat s1) (unat s2) (below (unat s2) (unat n) (unat pa)) mem, unat s1 + below (unat s2) (unat n) (unat pa))
    = (memcpy_ref (unat s1) (unat s2) (unat n) mem, unat s1 + unat n)"
    by (rule wa_words_copies [where pa = "unat pa"])
      (use assms(2) \<open>0 < unat n\<close> in \<open>auto simp: pb pa align_up_ge align_up_less align_up_def
        intro!: dvd_diff_nat\<close>)
  moreover have "below (unat s2) (unat n) (unat pa) = 0" by (simp add: below_def pa)
  ultimately show ?thesis
    using False by (simp add: b_memcpy_wa_def Let_def pa_def)
qed

section \<open>Properties\<close>

text \<open>C33. The copy by aligned words is a byte-wise copy, for every alignment of the source and every
  length, if the destination does not overlap the words that contain the source and the addresses do
  not wrap around.\<close>

theorem word_copy_is_memcpy:
  assumes "unat s2 + unat n + 3 < 2 ^ 64"
    and "disjoint_from (4 * (unat s2 div 4)) (align_up 4 (unat s2 + unat n)) (unat s1) (unat n)"
  shows "b_memcpy_wa s1 s2 n mem = memcpy_ref (unat s1) (unat s2) (unat n) mem"
  by (rule memcpy_wa_ref [OF assms])

theorem word_copy_is_memcpy_witness:
  "b_memcpy_wa 101 6 9 (\<lambda>a. of_nat a) 105 = 10 \<and> b_memcpy_wa 101 6 9 (\<lambda>a. of_nat a) 110 = 110"
proof -
  have "b_memcpy_wa 101 6 9 (\<lambda>a. of_nat a) = memcpy_ref 101 6 9 (\<lambda>a. of_nat a)"
    using word_copy_is_memcpy [of 6 9 101 "\<lambda>a. of_nat a"] by (simp add: disjoint_from_def align_up_def)
  then show ?thesis by (simp add: memcpy_ref_def)
qed

end
