(* ===== verification/Bh_Vector.thy ===== *)
theory Bh_Vector
  imports Bh_Common
begin

text \<open>
  The growing array of the runtime (\<open>core/shared/utils/bh_vector.c\<close>). The elements lie one after the
  other in a block of bytes; sizes are 64 bits wide. An operation returns its result and the vector,
  or \<open>None\<close> if it leaves a block. The argument \<open>ok\<close> says whether the allocator gives memory. The lock is
  \<open>None\<close> if there is none, and otherwise tells whether it is held.
\<close>

section \<open>Operations\<close>

record Vector =
  max_elems :: nat
  data :: "bytes option"
  num_elems :: nat
  size_elem :: nat
  lock :: "bool option"

definition UINT32_MAX :: nat where "UINT32_MAX = 2 ^ 32 - 1"

definition size_t :: "nat \<Rightarrow> nat" where
  "size_t n = n mod 2 ^ 64"

definition os_mutex_lock :: "Vector \<Rightarrow> Vector" where
  "os_mutex_lock v = v\<lparr>lock := map_option (\<lambda>_. True) (lock v)\<rparr>"

definition os_mutex_unlock :: "Vector \<Rightarrow> Vector" where
  "os_mutex_unlock v = v\<lparr>lock := map_option (\<lambda>_. False) (lock v)\<rparr>"

definition alloc_vector_data :: "bool \<Rightarrow> nat \<Rightarrow> nat \<Rightarrow> bytes option" where
  "alloc_vector_data ok len elem_size =
     (let total_size = size_t (elem_size * len) in
      if UINT32_MAX < len \<or> UINT32_MAX < elem_size \<or> UINT32_MAX < total_size then None
      else if ok then Some (replicate (uint32 total_size) 0) else None)"

definition at :: "bytes option \<Rightarrow> nat \<Rightarrow> ptr" where
  "at p off = map_option (\<lambda>buf. (buf, off)) p"

definition extend_vector :: "bool \<Rightarrow> Vector \<Rightarrow> nat \<Rightarrow> (bool \<times> Vector) option" where
  "extend_vector ok v len =
     (if len \<le> max_elems v then Some (True, v) else
      let len = (if len < size_t (max_elems v * 3) div 2 then size_t (max_elems v * 3) div 2 else len) in
      case alloc_vector_data ok len (size_elem v) of
        None \<Rightarrow> Some (False, v)
      | Some new \<Rightarrow> do {
          new \<leftarrow> bh_memcpy_s (Some (new, 0)) (uint32 (size_t (size_elem v * len)))
                   (at (data v) 0) (uint32 (size_t (size_elem v * max_elems v)));
          Some (True, v\<lparr>data := Some new, max_elems := len\<rparr>) })"

text \<open>A destroyed vector is cleared; the memory of the block and of the lock is released.\<close>

definition bh_vector_destroy :: "Vector option \<Rightarrow> bool \<times> Vector option" where
  "bh_vector_destroy vector =
     (case vector of None \<Rightarrow> (False, None)
      | Some v \<Rightarrow> (True, Some \<lparr>max_elems = 0, data = None, num_elems = 0, size_elem = 0, lock = None\<rparr>))"

text \<open>\<open>lock_ok\<close> and \<open>init_ok\<close>: whether there is memory for the lock and whether it can be initialised.\<close>

definition bh_vector_init :: "bool \<Rightarrow> bool \<Rightarrow> bool \<Rightarrow> Vector option \<Rightarrow> nat \<Rightarrow> nat \<Rightarrow> bool \<Rightarrow> bool \<times> Vector option" where
  "bh_vector_init ok lock_ok init_ok vector init_length elem_size use_lock =
     (case vector of None \<Rightarrow> (False, None) | Some v \<Rightarrow>
      let init_length = (if init_length = 0 then 4 else init_length) in
      case alloc_vector_data ok init_length elem_size of
        None \<Rightarrow> (False, Some (v\<lparr>data := None\<rparr>))
      | Some block \<Rightarrow>
        let v = \<lparr>max_elems = init_length, data = Some block, num_elems = 0, size_elem = elem_size, lock = None\<rparr> in
        if use_lock then
          if \<not> lock_ok then (False, snd (bh_vector_destroy (Some v)))
          else if \<not> init_ok then (False, snd (bh_vector_destroy (Some (v\<lparr>lock := None\<rparr>))))
          else (True, Some (v\<lparr>lock := Some False\<rparr>))
        else (True, Some v))"

definition bh_vector_set :: "Vector option \<Rightarrow> nat \<Rightarrow> bytes option \<Rightarrow> (bool \<times> Vector option) option" where
  "bh_vector_set vector index elem_buf =
     (if vector = None \<or> elem_buf = None then Some (False, vector) else
      let v = the vector in
      if num_elems v \<le> index then Some (False, vector) else
      let v = os_mutex_lock v in do {
        block \<leftarrow> bh_memcpy_s (at (data v) (size_t (size_elem v * index))) (uint32 (size_elem v))
                   (at elem_buf 0) (uint32 (size_elem v));
        Some (True, Some (os_mutex_unlock (v\<lparr>data := Some block\<rparr>))) })"

text \<open>The caller's buffer is returned as well.\<close>

definition bh_vector_get ::
  "Vector option \<Rightarrow> nat \<Rightarrow> bytes option \<Rightarrow> (bool \<times> Vector option \<times> bytes option) option" where
  "bh_vector_get vector index elem_buf =
     (if vector = None \<or> elem_buf = None then Some (False, vector, elem_buf) else
      let v = the vector in
      if num_elems v \<le> index then Some (False, vector, elem_buf) else
      let v = os_mutex_lock v in do {
        buf \<leftarrow> bh_memcpy_s (at elem_buf 0) (uint32 (size_elem v))
                 (at (data v) (size_t (size_elem v * index))) (uint32 (size_elem v));
        Some (True, Some (os_mutex_unlock v), Some buf) })"

fun insert_shift :: "nat \<Rightarrow> nat \<Rightarrow> nat \<Rightarrow> nat \<Rightarrow> bytes option \<Rightarrow> (bytes option \<times> nat) option" where
  "insert_shift s index 0 p block = Some (block, p)"
| "insert_shift s index (Suc i) p block =
     (if index < Suc i then do {
        block \<leftarrow> bh_memcpy_s (at block p) (uint32 s) (at block (p - s)) (uint32 s);
        insert_shift s index i (p - s) (Some block) }
      else Some (block, p))"

definition bh_vector_insert :: "bool \<Rightarrow> Vector option \<Rightarrow> nat \<Rightarrow> bytes option \<Rightarrow> (bool \<times> Vector option) option" where
  "bh_vector_insert ok vector index elem_buf =
     (if vector = None \<or> elem_buf = None then Some (False, vector) else
      let v = the vector in
      if num_elems v \<le> index then Some (False, vector) else
      let v = os_mutex_lock v in do {
        (extended, v) \<leftarrow> extend_vector ok v (size_t (num_elems v + 1));
        if \<not> extended then Some (False, Some (os_mutex_unlock v)) else do {
          (block, p) \<leftarrow> insert_shift (size_elem v) index (num_elems v - 1)
                          (size_t (size_elem v * num_elems v)) (data v);
          block \<leftarrow> bh_memcpy_s (at block p) (uint32 (size_elem v)) (at elem_buf 0) (uint32 (size_elem v));
          Some (True, Some (os_mutex_unlock (v\<lparr>data := Some block, num_elems := size_t (num_elems v + 1)\<rparr>))) } })"

definition bh_vector_append :: "bool \<Rightarrow> Vector option \<Rightarrow> bytes option \<Rightarrow> (bool \<times> Vector option) option" where
  "bh_vector_append ok vector elem_buf =
     (if vector = None \<or> elem_buf = None then Some (False, vector) else
      let v = os_mutex_lock (the vector) in do {
        (extended, v) \<leftarrow> extend_vector ok v (size_t (num_elems v + 1));
        if \<not> extended then Some (False, Some (os_mutex_unlock v)) else do {
          block \<leftarrow> bh_memcpy_s (at (data v) (size_t (size_elem v * num_elems v))) (uint32 (size_elem v))
                     (at elem_buf 0) (uint32 (size_elem v));
          Some (True, Some (os_mutex_unlock (v\<lparr>data := Some block, num_elems := size_t (num_elems v + 1)\<rparr>))) } })"

text \<open>The counter of the loop has 32 bits; it does not wrap around, because \<open>alloc_vector_data\<close> allows fewer
  than 2 to the 32nd elements.\<close>

function remove_shift :: "nat \<Rightarrow> nat \<Rightarrow> nat \<Rightarrow> nat \<Rightarrow> bytes option \<Rightarrow> bytes option option" where
  "remove_shift s stop i p block =
     (if i < stop then do {
        block \<leftarrow> bh_memcpy_s (at block p) (uint32 s) (at block (p + s)) (uint32 s);
        remove_shift s stop (i + 1) (p + s) (Some block) }
      else Some block)"
  by pat_completeness auto
termination
  by (relation "measure (\<lambda>(s, stop, i, p, block). stop - i)") auto

declare remove_shift.simps [simp del]

definition bh_vector_remove ::
  "Vector option \<Rightarrow> nat \<Rightarrow> bytes option \<Rightarrow> (bool \<times> Vector option \<times> bytes option) option" where
  "bh_vector_remove vector index old_elem_buf =
     (case vector of None \<Rightarrow> Some (False, None, old_elem_buf) | Some v \<Rightarrow>
      if num_elems v \<le> index then Some (False, vector, old_elem_buf) else
      let v = os_mutex_lock v; p = size_t (size_elem v * index) in do {
        old \<leftarrow> (case old_elem_buf of None \<Rightarrow> Some None
                | Some buf \<Rightarrow> map_option Some
                    (bh_memcpy_s (Some (buf, 0)) (uint32 (size_elem v)) (at (data v) p) (uint32 (size_elem v))));
        block \<leftarrow> remove_shift (size_elem v) (num_elems v - 1) index p (data v);
        Some (True, Some (os_mutex_unlock (v\<lparr>data := block, num_elems := num_elems v - 1\<rparr>)), old) })"

definition bh_vector_size :: "Vector option \<Rightarrow> nat" where
  "bh_vector_size vector = (case vector of None \<Rightarrow> 0 | Some v \<Rightarrow> num_elems v)"

section \<open>The elements of a block\<close>

definition chunk :: "nat \<Rightarrow> nat \<Rightarrow> bytes \<Rightarrow> bytes" where
  "chunk s i buf = take s (drop (s * i) buf)"

lemma slot_le: "i < m \<Longrightarrow> s * i + s \<le> s * (m :: nat)"
  using mult_le_mono2 [of "Suc i" m s] by simp

lemma length_chunk [simp]: "i < m \<Longrightarrow> s * m \<le> length buf \<Longrightarrow> length (chunk s i buf) = s"
  using slot_le [of i m s] by (simp add: chunk_def)

lemma chunk_nth: "i < m \<Longrightarrow> s * m \<le> length buf \<Longrightarrow> k < s \<Longrightarrow> chunk s i buf ! k = buf ! (s * i + k)"
  using slot_le [of i m s] by (simp add: chunk_def)

lemma splice_nth:
  "off + length d \<le> length buf \<Longrightarrow> k < length buf \<Longrightarrow>
   splice buf off d ! k = (if off \<le> k \<and> k < off + length d then d ! (k - off) else buf ! k)"
  by (auto simp: splice_def nth_append)

lemma chunk_splice:
  assumes "i < m" "j < m" "s * m \<le> length buf" "length d = s"
  shows "chunk s j (splice buf (s * i) d) = (if j = i then d else chunk s j buf)"
proof (rule nth_equalityI)
  have i: "s * i + length d \<le> length buf" using slot_le [of i m s] assms by simp
  then have len: "length (splice buf (s * i) d) = length buf" by simp
  then show "length (chunk s j (splice buf (s * i) d)) = length (if j = i then d else chunk s j buf)"
    using assms by simp
  fix k assume "k < length (chunk s j (splice buf (s * i) d))"
  then have k: "k < s" using assms len by simp
  have j: "s * j + k < length buf" using slot_le [of j m s] assms k by simp
  have "j < i \<Longrightarrow> s * j + k < s * i" "i < j \<Longrightarrow> s * i + s \<le> s * j + k"
    using slot_le [of j i s] slot_le [of i j s] k by simp_all
  then show "chunk s j (splice buf (s * i) d) ! k = (if j = i then d else chunk s j buf) ! k"
    using assms len k splice_nth [OF i j] chunk_nth [of j m s buf k] chunk_nth [of j m s "splice buf (s * i) d" k]
    by (cases j i rule: linorder_cases) auto
qed

definition chunks :: "nat \<Rightarrow> nat \<Rightarrow> bytes \<Rightarrow> bytes list" where
  "chunks s n buf = map (\<lambda>i. chunk s i buf) [0..<n]"

lemma length_chunks [simp]: "length (chunks s n buf) = n"
  by (simp add: chunks_def)

lemma chunks_nth [simp]: "i < n \<Longrightarrow> chunks s n buf ! i = chunk s i buf"
  by (simp add: chunks_def)

text \<open>A copy of one element is an update of the list of elements.\<close>

lemma chunks_splice:
  "i < n \<Longrightarrow> s * n \<le> length buf \<Longrightarrow> length d = s \<Longrightarrow> chunks s n (splice buf (s * i) d) = (chunks s n buf)[i := d]"
  by (rule nth_equalityI) (auto simp: chunk_splice [where m = n] nth_list_update)

lemma chunks_prefix: "n \<le> m \<Longrightarrow> take n (chunks s m buf) = chunks s n buf"
  by (rule nth_equalityI) auto

section \<open>The invariant and the elements\<close>

definition block_ok :: "Vector \<Rightarrow> bool" where
  "block_ok v \<longleftrightarrow> data v \<noteq> None \<and> length (the (data v)) = size_elem v * max_elems v
     \<and> num_elems v \<le> max_elems v \<and> max_elems v \<le> UINT32_MAX \<and> size_elem v \<le> UINT32_MAX
     \<and> size_elem v * max_elems v \<le> UINT32_MAX"

definition vector_ok :: "Vector \<Rightarrow> bool" where
  "vector_ok v \<longleftrightarrow> block_ok v \<and> lock v \<noteq> Some True"

definition elems :: "Vector \<Rightarrow> bytes list" where
  "elems v = chunks (size_elem v) (num_elems v) (the (data v))"

text \<open>The capacity that \<open>extend_vector\<close> asks for, and whether it can get it.\<close>

definition new_len :: "Vector \<Rightarrow> nat" where
  "new_len v = max (num_elems v + 1) (max_elems v * 3 div 2)"

definition has_room :: "bool \<Rightarrow> Vector \<Rightarrow> bool" where
  "has_room ok v \<longleftrightarrow> num_elems v < max_elems v
     \<or> ok \<and> new_len v \<le> UINT32_MAX \<and> size_elem v * new_len v \<le> UINT32_MAX"

lemma block_okE:
  assumes "block_ok v"
  obtains block where "data v = Some block" "length block = size_elem v * max_elems v" "num_elems v \<le> max_elems v"
    "max_elems v \<le> UINT32_MAX" "size_elem v \<le> UINT32_MAX" "size_elem v * max_elems v \<le> UINT32_MAX"
  using assms by (auto simp: block_ok_def)

lemma u32_size [simp]: "n \<le> UINT32_MAX \<Longrightarrow> uint32 n = n" "n \<le> UINT32_MAX \<Longrightarrow> size_t n = n"
  by (simp_all add: UINT32_MAX_def uint32_def size_t_def)

lemma length_elems [simp]: "length (elems v) = num_elems v"
  by (simp add: elems_def)

lemma unlock_lock [simp]:
  "lock v \<noteq> Some True \<Longrightarrow> map_option (\<lambda>_. False) (lock v) = lock v"
  by (cases "lock v") auto

lemma slot_size_t: "i \<le> m \<Longrightarrow> s * m \<le> UINT32_MAX \<Longrightarrow> size_t (s * i) = s * i"
  using order_trans [OF mult_le_mono2 [of i m s], of UINT32_MAX] by (simp only: u32_size)

text \<open>Copies of single elements, inside the block and between the block and a caller.\<close>

lemma copy_in:
  assumes "i < m" "length block = s * m" "s \<le> UINT32_MAX" "s * m \<le> UINT32_MAX" "s \<le> length e"
  shows "bh_memcpy_s (at (Some block) (size_t (s * i))) (uint32 s) (at (Some e) 0) (uint32 s)
    = Some (splice block (s * i) (take s e))"
proof -
  have "s * i + s \<le> s * m" by (rule slot_le [OF assms(1)])
  with assms show ?thesis by (simp add: at_def bh_memcpy_s_ok)
qed

lemma copy_out:
  assumes "i < m" "length block = s * m" "s \<le> UINT32_MAX" "s * m \<le> UINT32_MAX" "length e = s"
  shows "bh_memcpy_s (at (Some e) 0) (uint32 s) (at (Some block) (size_t (s * i))) (uint32 s) = Some (chunk s i block)"
proof -
  have "s * i + s \<le> s * m" by (rule slot_le [OF assms(1)])
  with assms show ?thesis by (simp add: at_def bh_memcpy_s_ok chunk_def)
qed

lemma copy_within:
  assumes "i < m" "j < m" "length block = s * m" "s \<le> UINT32_MAX"
  shows "bh_memcpy_s (at (Some block) (s * i)) (uint32 s) (at (Some block) (s * j)) (uint32 s)
    = Some (splice block (s * i) (chunk s j block))"
proof -
  have "s * i + s \<le> s * m" "s * j + s \<le> s * m" by (rule slot_le, fact)+
  with assms show ?thesis by (simp add: at_def bh_memcpy_s_ok chunk_def)
qed

section \<open>The operations on the elements\<close>

lemma extend_vector_eq:
  assumes "num_elems v \<le> max_elems v" "max_elems v \<le> UINT32_MAX"
  shows "extend_vector ok v (size_t (num_elems v + 1)) =
    (if num_elems v < max_elems v then Some (True, v) else
     case alloc_vector_data ok (new_len v) (size_elem v) of
       None \<Rightarrow> Some (False, v)
     | Some new \<Rightarrow> do {
         new \<leftarrow> bh_memcpy_s (Some (new, 0)) (uint32 (size_t (size_elem v * new_len v)))
                  (at (data v) 0) (uint32 (size_t (size_elem v * max_elems v)));
         Some (True, v\<lparr>data := Some new, max_elems := new_len v\<rparr>) })"
proof -
  have sz: "size_t (num_elems v + 1) = num_elems v + 1" "size_t (max_elems v * 3) = max_elems v * 3"
    using assms by (simp_all add: size_t_def UINT32_MAX_def)
  have "(if num_elems v + 1 < max_elems v * 3 div 2 then max_elems v * 3 div 2 else num_elems v + 1) = new_len v"
    by (simp add: new_len_def)
  moreover have "num_elems v + 1 \<le> max_elems v \<longleftrightarrow> num_elems v < max_elems v" by auto
  ultimately show ?thesis by (simp only: extend_vector_def sz Let_def)
qed

lemma alloc_vector_data_eq:
  assumes "elem_size \<le> UINT32_MAX"
  shows "alloc_vector_data ok len elem_size =
    (if ok \<and> len \<le> UINT32_MAX \<and> elem_size * len \<le> UINT32_MAX then Some (replicate (elem_size * len) 0) else None)"
proof (cases "len \<le> UINT32_MAX")
  case True
  have "elem_size * len \<le> UINT32_MAX * UINT32_MAX"
    using assms True by (rule mult_le_mono)
  also have "\<dots> < 2 ^ 64" by (simp add: UINT32_MAX_def)
  finally have "size_t (elem_size * len) = elem_size * len" by (simp add: size_t_def)
  with assms True show ?thesis by (simp add: alloc_vector_data_def Let_def)
qed (simp add: alloc_vector_data_def Let_def)

lemma chunks_of_copy:
  assumes "s * n \<le> length block" "length block \<le> length buf"
  shows "chunks s n (splice buf 0 block) = chunks s n block"
proof (rule nth_equalityI)
  fix i assume i: "i < length (chunks s n (splice buf 0 block))"
  then have "s * i + s \<le> length block"
    using slot_le [of i n s] assms(1) by simp
  then show "chunks s n (splice buf 0 block) ! i = chunks s n block ! i"
    using i by (simp add: chunk_def splice_def)
qed simp

lemma extend_vector_ok:
  assumes "block_ok v"
  obtains v' where "extend_vector ok v (size_t (num_elems v + 1)) = Some (has_room ok v, v')"
    "block_ok v'" "elems v' = elems v" "num_elems v' = num_elems v" "size_elem v' = size_elem v" "lock v' = lock v"
    "has_room ok v \<Longrightarrow> num_elems v < max_elems v'"
proof -
  obtain block where v: "data v = Some block" "length block = size_elem v * max_elems v" "num_elems v \<le> max_elems v"
    "max_elems v \<le> UINT32_MAX" "size_elem v \<le> UINT32_MAX" "size_elem v * max_elems v \<le> UINT32_MAX"
    using assms by (rule block_okE)
  note eq = extend_vector_eq [OF v(3,4)] alloc_vector_data_eq [OF v(5)]
  let ?new = "splice (replicate (size_elem v * new_len v) 0) 0 block"
  let ?v = "v\<lparr>data := Some ?new, max_elems := new_len v\<rparr>"
  consider "num_elems v < max_elems v"
    | "\<not> num_elems v < max_elems v" "ok \<and> new_len v \<le> UINT32_MAX \<and> size_elem v * new_len v \<le> UINT32_MAX"
    | "\<not> num_elems v < max_elems v" "\<not> (ok \<and> new_len v \<le> UINT32_MAX \<and> size_elem v * new_len v \<le> UINT32_MAX)"
    by blast
  then show ?thesis
  proof cases
    case 1
    then show ?thesis using that [of v] assms by (simp only: eq if_True has_room_def simp_thms)
  next
    case 2
    have n: "max_elems v \<le> new_len v" "num_elems v < new_len v" using 2 v(3) by (simp_all add: new_len_def)
    then have le: "size_elem v * max_elems v \<le> size_elem v * new_len v" by simp
    have "size_elem v * num_elems v \<le> length block" using v(2,3) by simp
    then have "chunks (size_elem v) (num_elems v) ?new = chunks (size_elem v) (num_elems v) block"
      using le v(2) by (intro chunks_of_copy) simp_all
    moreover have "bh_memcpy_s (Some (replicate (size_elem v * new_len v) 0, 0)) (uint32 (size_t (size_elem v * new_len v)))
        (at (data v) 0) (uint32 (size_t (size_elem v * max_elems v))) = Some ?new"
      using 2(2) v le bh_memcpy_s_ok [of "length block" "size_elem v * new_len v" 0 "replicate (size_elem v * new_len v) 0" 0 block]
      by (simp add: at_def u32_size [OF v(6)])
    then have "extend_vector ok v (size_t (num_elems v + 1)) = Some (True, ?v)"
      using 2 by (simp only: eq if_True if_False simp_thms option.case bind.bind_lunit)
    ultimately show ?thesis
      using that [of ?v] 2 v n le by (simp add: block_ok_def elems_def has_room_def)
  next
    case 3
    then have "extend_vector ok v (size_t (num_elems v + 1)) = Some (False, v)" "\<not> has_room ok v"
      by (simp_all only: eq if_False option.case has_room_def simp_thms)
    with that [of v] assms show ?thesis by simp
  qed
qed

lemma insert_shift_ok:
  assumes "index \<le> i" "Suc i < m" "length block = s * m" "s \<le> UINT32_MAX" "s * m \<le> UINT32_MAX"
  shows "\<exists>block'. insert_shift s index i (s * Suc i) (Some block) = Some (Some block', s * Suc index)
    \<and> length block' = s * m
    \<and> (\<forall>j < m. chunk s j block' = (if Suc index < j \<and> j \<le> Suc i then chunk s (j - 1) block else chunk s j block))"
  using assms
proof (induction i arbitrary: block)
  case 0
  then show ?case by auto
next
  case (Suc i)
  show ?case
  proof (cases "index < Suc i")
    case False
    with Suc.prems(1) have "index = Suc i" by simp
    with Suc.prems show ?thesis by auto
  next
    case True
    let ?b = "splice block (s * Suc (Suc i)) (chunk s (Suc i) block)"
    have copy: "bh_memcpy_s (at (Some block) (s * Suc (Suc i))) (uint32 s) (at (Some block) (s * Suc i)) (uint32 s) = Some ?b"
      using Suc.prems by (intro copy_within [where m = m]) simp_all
    have len: "length ?b = s * m"
      using slot_le [of "Suc (Suc i)" m s] length_chunk [of "Suc i" m s block] Suc.prems by (simp del: mult_Suc_right)
    have b: "chunk s j ?b = (if j = Suc (Suc i) then chunk s (Suc i) block else chunk s j block)" if "j < m" for j
      using that Suc.prems length_chunk [of "Suc i" m s block] by (intro chunk_splice [where m = m]) simp_all
    obtain block' where "insert_shift s index i (s * Suc i) (Some ?b) = Some (Some block', s * Suc index)"
      "length block' = s * m"
      "\<forall>j < m. chunk s j block' = (if Suc index < j \<and> j \<le> Suc i then chunk s (j - 1) ?b else chunk s j ?b)"
      using Suc.IH [OF _ _ len Suc.prems(4,5)] True Suc.prems(2) by auto
    moreover have "s * Suc (Suc i) - s = s * Suc i" by simp
    ultimately show ?thesis
      using True copy b Suc.prems(2) by (auto simp del: mult_Suc_right simp: less_Suc_eq_le le_Suc_eq)
  qed
qed

lemma remove_shift_ok:
  assumes "i \<le> stop" "stop < m" "length block = s * m" "s \<le> UINT32_MAX" "s * m \<le> UINT32_MAX"
  shows "\<exists>block'. remove_shift s stop i (s * i) (Some block) = Some (Some block')
    \<and> length block' = s * m
    \<and> (\<forall>j < m. chunk s j block' = (if i \<le> j \<and> j < stop then chunk s (Suc j) block else chunk s j block))"
  using assms
proof (induction "stop - i" arbitrary: i block)
  case 0
  then show ?case by (subst remove_shift.simps) auto
next
  case (Suc d)
  let ?b = "splice block (s * i) (chunk s (Suc i) block)"
  have i: "i < stop" using Suc.hyps(2) by simp
  have copy: "bh_memcpy_s (at (Some block) (s * i)) (uint32 s) (at (Some block) (s * Suc i)) (uint32 s) = Some ?b"
    using Suc.prems i by (intro copy_within [where m = m]) simp_all
  have len: "length ?b = s * m"
    using slot_le [of i m s] length_chunk [of "Suc i" m s block] Suc.prems i by simp
  have b: "chunk s j ?b = (if j = i then chunk s (Suc i) block else chunk s j block)" if "j < m" for j
    using that Suc.prems i length_chunk [of "Suc i" m s block] by (intro chunk_splice [where m = m]) simp_all
  have "d = stop - Suc i" "Suc i \<le> stop" using Suc.hyps(2) i by simp_all
  then obtain block' where "remove_shift s stop (Suc i) (s * Suc i) (Some ?b) = Some (Some block')"
      "length block' = s * m"
      "\<forall>j < m. chunk s j block' = (if Suc i \<le> j \<and> j < stop then chunk s (Suc j) ?b else chunk s j ?b)"
    using Suc.hyps(1) [OF _ _ Suc.prems(2) len Suc.prems(4,5)] by blast
  moreover have "s * i + s = s * Suc i" by simp
  ultimately show ?case
    using i copy b Suc.prems(2)
    by (subst remove_shift.simps) (auto simp del: mult_Suc_right simp: Suc_le_eq)
qed

lemma block_ok_lock [simp]: "block_ok (v\<lparr>lock := l\<rparr>) = block_ok v"
  by (simp add: block_ok_def)

lemma elems_lock [simp]: "elems (v\<lparr>lock := l\<rparr>) = elems v"
  by (simp add: elems_def)

lemma has_room_lock [simp]: "has_room ok (v\<lparr>lock := l\<rparr>) = has_room ok v"
  by (simp add: has_room_def new_len_def)

lemmas vector_defs = os_mutex_lock_def os_mutex_unlock_def Let_def vector_ok_def

lemma block_fits:
  "block_ok v \<Longrightarrow> n \<le> max_elems v \<Longrightarrow> size_elem v * n \<le> length (the (data v))"
  by (auto simp: block_ok_def)

text \<open>The block that results from an operation, and the number of its elements.\<close>

lemma block_update:
  assumes "block_ok v" "length block = size_elem v * max_elems v" "n \<le> max_elems v"
  shows "block_ok (v\<lparr>data := Some block, num_elems := n, lock := l\<rparr>)"
    "elems (v\<lparr>data := Some block, num_elems := n, lock := l\<rparr>) = chunks (size_elem v) n block"
  using assms by (auto simp: block_ok_def elems_def)

lemma free_lock [simp]: "map_option (\<lambda>_. False) l \<noteq> Some True"
  by (cases l) auto

lemma append_ok:
  assumes "vector_ok v" "size_elem v \<le> length e"
  shows "\<exists>v'. bh_vector_append ok (Some v) (Some e) = Some (has_room ok v, Some v') \<and> vector_ok v'
    \<and> size_elem v' = size_elem v
    \<and> elems v' = (if has_room ok v then elems v @ [take (size_elem v) e] else elems v)"
proof -
  have "block_ok (os_mutex_lock v)" using assms by (simp add: vector_defs)
  then obtain w where w: "extend_vector ok (os_mutex_lock v) (size_t (num_elems (os_mutex_lock v) + 1)) = Some (has_room ok v, w)"
    "block_ok w" "elems w = elems v" "num_elems w = num_elems v" "size_elem w = size_elem v"
    "has_room ok v \<Longrightarrow> num_elems v < max_elems w"
    by (rule extend_vector_ok [of _ ok]) (auto simp: os_mutex_lock_def)
  show ?thesis
  proof (cases "has_room ok v")
    case False
    with w show ?thesis by (simp add: bh_vector_append_def vector_defs)
  next
    case True
    obtain block where b: "data w = Some block" "length block = size_elem w * max_elems w" "max_elems w \<le> UINT32_MAX"
      "size_elem w \<le> UINT32_MAX" "size_elem w * max_elems w \<le> UINT32_MAX"
      using w(2) by (rule block_okE)
    let ?n = "num_elems v" and ?s = "size_elem v" and ?b = "splice block (size_elem v * num_elems v) (take (size_elem v) e)"
    have n: "?n < max_elems w" by (rule w(6) [OF True])
    have len: "length ?b = ?s * max_elems w"
      using slot_le [OF n, of ?s] assms(2) b(2) w(5) by simp
    have "chunks ?s (Suc ?n) ?b = (chunks ?s (Suc ?n) block)[?n := take ?s e]"
      using assms(2) b(2) w(5) n by (intro chunks_splice) (simp_all add: Suc_le_eq del: mult_Suc_right)
    also have "\<dots> = elems v @ [take ?s e]"
      using w(3,4,5) b(1) by (simp add: elems_def chunks_def list_update_append)
    finally have el: "chunks ?s (Suc ?n) ?b = elems v @ [take ?s e]" .
    have "size_t (Suc ?n) = Suc ?n" using n b(3) by (simp add: size_t_def UINT32_MAX_def)
    moreover have "bh_memcpy_s (at (Some block) (size_t (?s * ?n))) (uint32 ?s) (at (Some e) 0) (uint32 ?s) = Some ?b"
      using b w(5) assms(2) by (intro copy_in [OF n]) simp_all
    ultimately have "bh_vector_append ok (Some v) (Some e) = Some (True, Some (os_mutex_unlock (w\<lparr>data := Some ?b, num_elems := Suc ?n\<rparr>)))"
      using w True b(1) by (simp add: bh_vector_append_def Let_def)
    then show ?thesis
      using block_update [OF w(2), of ?b "Suc ?n"] len el n w(5) True
      by (simp add: vector_defs Suc_le_eq)
  qed
qed

lemma insert_list:
  assumes "index < n" "\<And>j. j < Suc n \<Longrightarrow> f j = (if j = Suc index then e else if Suc index < j then xs ! (j - 1) else xs ! j)"
    and "length xs = n"
  shows "map f [0..<Suc n] = take (Suc index) xs @ e # drop (Suc index) xs"
proof (rule nth_equalityI)
  fix j assume "j < length (map f [0..<Suc n])"
  then have j: "j < Suc n" by simp
  then have "map f [0..<Suc n] ! j = f j" by (simp del: upt_Suc)
  also have "\<dots> = (take (Suc index) xs @ e # drop (Suc index) xs) ! j"
  proof (cases j "Suc index" rule: linorder_cases)
    case greater
    then obtain k where "j = Suc index + Suc k" using less_iff_Suc_add by auto
    with assms j show ?thesis by (simp add: nth_append)
  qed (use assms j in \<open>simp_all add: nth_append\<close>)
  finally show "map f [0..<Suc n] ! j = (take (Suc index) xs @ e # drop (Suc index) xs) ! j" .
qed (use assms in simp)

lemma vector_insert_ok:
  assumes "vector_ok v" "size_elem v \<le> length e" "index < num_elems v"
  shows "\<exists>v'. bh_vector_insert ok (Some v) index (Some e) = Some (has_room ok v, Some v') \<and> vector_ok v'
    \<and> size_elem v' = size_elem v
    \<and> elems v' = (if has_room ok v then take (index + 1) (elems v) @ take (size_elem v) e # drop (index + 1) (elems v)
        else elems v)"
proof -
  have "block_ok (os_mutex_lock v)" using assms by (simp add: vector_defs)
  then obtain w where w: "extend_vector ok (os_mutex_lock v) (size_t (num_elems (os_mutex_lock v) + 1)) = Some (has_room ok v, w)"
    "block_ok w" "elems w = elems v" "num_elems w = num_elems v" "size_elem w = size_elem v"
    "has_room ok v \<Longrightarrow> num_elems v < max_elems w"
    by (rule extend_vector_ok [of _ ok]) (auto simp: os_mutex_lock_def)
  have nl: "num_elems (os_mutex_lock v) = num_elems v" by (simp add: os_mutex_lock_def)
  show ?thesis
  proof (cases "has_room ok v")
    case False
    with w assms(3) nl show ?thesis by (simp add: bh_vector_insert_def vector_defs)
  next
    case True
    obtain block where b: "data w = Some block" "length block = size_elem w * max_elems w" "max_elems w \<le> UINT32_MAX"
      "size_elem w \<le> UINT32_MAX" "size_elem w * max_elems w \<le> UINT32_MAX"
      using w(2) by (rule block_okE)
    let ?n = "num_elems v" and ?s = "size_elem v" and ?m = "max_elems w"
    have n: "?n < ?m" "Suc (?n - 1) = ?n" using w(6) [OF True] assms(3) by simp_all
    have i: "Suc index < ?m" using n assms(3) by simp
    obtain block' where sh: "insert_shift ?s index (?n - 1) (?s * ?n) (Some block) = Some (Some block', ?s * Suc index)"
      "length block' = ?s * ?m"
      "\<forall>j < ?m. chunk ?s j block' = (if Suc index < j \<and> j \<le> ?n then chunk ?s (j - 1) block else chunk ?s j block)"
      using insert_shift_ok [of index "?n - 1" ?m block ?s, unfolded n(2)] n(1) b w(5) assms(3) by fastforce
    let ?b = "splice block' (?s * Suc index) (take ?s e)"
    have len: "length ?b = ?s * ?m"
      using slot_le [OF i, of ?s] assms(2) sh(2) by (simp del: mult_Suc_right)
    have ch: "chunk ?s j ?b = (if j = Suc index then take ?s e else chunk ?s j block')" if "j < ?m" for j
      using that i sh(2) assms(2) by (intro chunk_splice [where m = ?m]) simp_all
    have "chunks ?s (Suc ?n) ?b = take (Suc index) (elems v) @ take ?s e # drop (Suc index) (elems v)"
      unfolding chunks_def
    proof (rule insert_list [OF assms(3)])
      have el: "elems v ! j = chunk ?s j block" if "j < ?n" for j
      proof -
        have "elems v ! j = elems w ! j" by (simp only: w(3))
        then show ?thesis using that w(4,5) b(1) by (simp add: elems_def)
      qed
      fix j assume "j < Suc ?n"
      then show "chunk ?s j ?b = (if j = Suc index then take ?s e else if Suc index < j then elems v ! (j - 1) else elems v ! j)"
        using ch [of j] sh(3) n(1) assms(3) by (auto simp: el)
    qed simp
    moreover have "size_t (Suc ?n) = Suc ?n" "size_t (?s * ?n) = ?s * ?n" "size_t (?s * Suc index) = ?s * Suc index"
      using n(1) b(3) slot_size_t [of ?n ?m ?s] slot_size_t [of "Suc index" ?m ?s] i b(5) w(5)
      by (simp_all only: less_imp_le) (simp add: size_t_def UINT32_MAX_def)
    moreover have "bh_memcpy_s (at (Some block') (size_t (?s * Suc index))) (uint32 ?s) (at (Some e) 0) (uint32 ?s) = Some ?b"
      using b w(5) assms(2) sh(2) by (intro copy_in [OF i]) simp_all
    ultimately have "bh_vector_insert ok (Some v) index (Some e)
        = Some (True, Some (os_mutex_unlock (w\<lparr>data := Some ?b, num_elems := Suc ?n\<rparr>)))"
      using w True b(1) assms(3) nl sh(1) by (simp add: bh_vector_insert_def Let_def del: mult_Suc_right)
    then show ?thesis
      using block_update [OF w(2), of ?b "Suc ?n"] len n w(5) True
        \<open>chunks ?s (Suc ?n) ?b = take (Suc index) (elems v) @ take ?s e # drop (Suc index) (elems v)\<close>
      by (simp add: vector_defs Suc_le_eq)
  qed
qed

lemma set_ok:
  assumes "vector_ok v" "size_elem v \<le> length e" "index < num_elems v"
  shows "\<exists>v'. bh_vector_set (Some v) index (Some e) = Some (True, Some v') \<and> vector_ok v'
    \<and> size_elem v' = size_elem v \<and> elems v' = (elems v)[index := take (size_elem v) e]"
proof -
  have ok: "block_ok v" using assms by (simp add: vector_ok_def)
  then obtain block where b: "data v = Some block" "length block = size_elem v * max_elems v" "num_elems v \<le> max_elems v"
    "max_elems v \<le> UINT32_MAX" "size_elem v \<le> UINT32_MAX" "size_elem v * max_elems v \<le> UINT32_MAX"
    by (rule block_okE)
  let ?s = "size_elem v"
  let ?b = "splice block (?s * index) (take ?s e)"
  have i: "index < max_elems v" using assms(3) b(3) by simp
  have "bh_memcpy_s (at (Some block) (size_t (?s * index))) (uint32 ?s) (at (Some e) 0) (uint32 ?s) = Some ?b"
    using b assms(2) by (intro copy_in [OF i]) simp_all
  then have eq: "bh_vector_set (Some v) index (Some e)
      = Some (True, Some (v\<lparr>data := Some ?b, num_elems := num_elems v, lock := map_option (\<lambda>_. False) (lock v)\<rparr>))"
    using b(1) assms(3) by (simp add: bh_vector_set_def vector_defs option.map_comp comp_def)
  have "length ?b = ?s * max_elems v" using slot_le [OF i, of ?s] b(2) assms(2) by simp
  moreover have "chunks ?s (num_elems v) ?b = (elems v)[index := take ?s e]"
    using assms(2,3) b(1-3) by (simp add: chunks_splice elems_def)
  ultimately show ?thesis
    using block_update [OF ok, of ?b "num_elems v"] b(3) by (simp add: eq vector_ok_def)
qed

lemma get_ok:
  assumes "vector_ok v" "length buf = size_elem v" "index < num_elems v"
  shows "bh_vector_get (Some v) index (Some buf) = Some (True, Some v, Some (elems v ! index))"
proof -
  obtain block where b: "data v = Some block" "length block = size_elem v * max_elems v" "num_elems v \<le> max_elems v"
    "max_elems v \<le> UINT32_MAX" "size_elem v \<le> UINT32_MAX" "size_elem v * max_elems v \<le> UINT32_MAX"
    using assms by (auto simp: vector_ok_def elim: block_okE)
  have i: "index < max_elems v" using assms(3) b(3) by simp
  have "v\<lparr>lock := map_option ((\<lambda>_. False) \<circ> (\<lambda>_. True)) (lock v)\<rparr> = v"
    using assms(1) by (cases v; cases "lock v") (auto simp: vector_ok_def)
  with b assms copy_out [OF i b(2,5,6) assms(2)] show ?thesis
    by (simp add: bh_vector_get_def vector_defs option.map_comp elems_def)
qed

lemma remove_list:
  assumes "index < n" "\<And>j. j < n - 1 \<Longrightarrow> f j = (if index \<le> j then xs ! Suc j else xs ! j)" "length xs = n"
  shows "map f [0..<n - 1] = take index xs @ drop (Suc index) xs"
proof (rule nth_equalityI)
  fix j assume "j < length (map f [0..<n - 1])"
  with assms show "map f [0..<n - 1] ! j = (take index xs @ drop (Suc index) xs) ! j"
    by (auto simp: nth_append)
qed (use assms in simp)

lemma vector_remove_ok:
  assumes "vector_ok v" "\<forall>buf \<in> set_option old. length buf = size_elem v" "index < num_elems v"
  shows "\<exists>v'. bh_vector_remove (Some v) index old = Some (True, Some v', map_option (\<lambda>_. elems v ! index) old)
    \<and> vector_ok v' \<and> size_elem v' = size_elem v \<and> elems v' = take index (elems v) @ drop (index + 1) (elems v)"
proof -
  have ok: "block_ok v" using assms by (simp add: vector_ok_def)
  then obtain block where b: "data v = Some block" "length block = size_elem v * max_elems v" "num_elems v \<le> max_elems v"
    "max_elems v \<le> UINT32_MAX" "size_elem v \<le> UINT32_MAX" "size_elem v * max_elems v \<le> UINT32_MAX"
    by (rule block_okE)
  let ?s = "size_elem v" and ?n = "num_elems v" and ?m = "max_elems v"
  have i: "index < ?m" using assms(3) b(3) by simp
  have p: "size_t (?s * index) = ?s * index"
    using i b(6) by (intro slot_size_t) simp_all
  obtain block' where sh: "remove_shift ?s (?n - 1) index (?s * index) (Some block) = Some (Some block')"
    "length block' = ?s * ?m"
    "\<forall>j < ?m. chunk ?s j block' = (if index \<le> j \<and> j < ?n - 1 then chunk ?s (Suc j) block else chunk ?s j block)"
  proof -
    have "index \<le> ?n - 1" "?n - 1 < ?m" using assms(3) b(3) by simp_all
    from remove_shift_ok [OF this b(2,5,6)] that show ?thesis by blast
  qed
  have el: "elems v ! j = chunk ?s j block" if "j < ?n" for j
    using that b(1) by (simp add: elems_def)
  have "chunks ?s (?n - 1) block' = take index (elems v) @ drop (Suc index) (elems v)"
    unfolding chunks_def by (rule remove_list [OF assms(3)]) (use sh(3) b(3) el in auto)
  moreover have out: "(case old of None \<Rightarrow> Some None | Some buf \<Rightarrow> map_option Some
      (bh_memcpy_s (Some (buf, 0)) (uint32 ?s) (at (Some block) (?s * index)) (uint32 ?s)))
    = Some (map_option (\<lambda>_. elems v ! index) old)"
    using copy_out [OF i b(2,5,6)] assms(2,3) el p by (auto simp: at_def split: option.split)
  have "bh_vector_remove (Some v) index old
    = Some (True, Some (v\<lparr>data := Some block', num_elems := ?n - 1, lock := map_option (\<lambda>_. False) (lock v)\<rparr>),
        map_option (\<lambda>_. elems v ! index) old)"
    using b(1) assms(3) sh(1) p
    by (simp add: bh_vector_remove_def vector_defs option.map_comp comp_def out cong: option.case_cong)
  ultimately show ?thesis
    using block_update [OF ok sh(2), of "?n - 1"] b(3) by (simp add: vector_ok_def)
qed

lemma vector_init_ok:
  assumes "elem_size \<le> UINT32_MAX" "bh_vector_init ok lock_ok init_ok (Some v) n elem_size use_lock = (True, v')"
  obtains w where "v' = Some w" "vector_ok w" "elems w = []" "size_elem w = elem_size"
  using assms that
  by (auto simp: bh_vector_init_def Let_def alloc_vector_data_eq vector_ok_def block_ok_def elems_def chunks_def
      split: if_splits option.splits)

section \<open>Sequences\<close>

text \<open>The contract a client of a growing sequence relies on: an operation returns, an element is added at
  the end or not at all, and an index below the length can be read.\<close>

locale sequence =
  fixes valid :: "'v \<Rightarrow> bool"
    and storable :: "'v \<Rightarrow> 'e \<Rightarrow> bool"
    and abs :: "'v \<Rightarrow> 'e list"
    and push :: "'v \<Rightarrow> 'e \<Rightarrow> (bool \<times> 'v) option"
    and fetch :: "'v \<Rightarrow> nat \<Rightarrow> 'e option"
  assumes push: "valid v \<Longrightarrow> storable v e \<Longrightarrow>
      \<exists>b v'. push v e = Some (b, v') \<and> valid v' \<and> storable v' = storable v \<and> abs v' = (if b then abs v @ [e] else abs v)"
    and fetch: "valid v \<Longrightarrow> i < length (abs v) \<Longrightarrow> fetch v i = Some (abs v ! i)"

fun push_all :: "('v \<Rightarrow> 'e \<Rightarrow> (bool \<times> 'v) option) \<Rightarrow> 'v \<Rightarrow> 'e list \<Rightarrow> (bool list \<times> 'v) option" where
  "push_all push v [] = Some ([], v)"
| "push_all push v (e # es) = do { (b, v) \<leftarrow> push v e; (bs, v) \<leftarrow> push_all push v es; Some (b # bs, v) }"

context sequence
begin

lemma push_all:
  assumes "valid v" "\<forall>e \<in> set es. storable v e"
  shows "\<exists>bs v'. push_all push v es = Some (bs, v') \<and> valid v' \<and> length bs = length es
    \<and> abs v' = abs v @ map snd (filter fst (zip bs es))"
  using assms
proof (induction es arbitrary: v)
  case (Cons e es)
  obtain b w where w: "push v e = Some (b, w)" "valid w" "storable w = storable v" "abs w = (if b then abs v @ [e] else abs v)"
    using push [of v e] Cons.prems by auto
  then obtain bs v' where "push_all push w es = Some (bs, v')" "valid v'" "length bs = length es"
    "abs v' = abs w @ map snd (filter fst (zip bs es))"
    using Cons.IH [of w] Cons.prems by auto
  with w show ?case by (intro exI [of _ "b # bs"] exI [of _ v']) auto
qed simp

lemma fetch_after:
  assumes "valid v" "\<forall>e \<in> set es. storable v e" "i < length (abs v)"
  shows "\<exists>bs v'. push_all push v es = Some (bs, v') \<and> fetch v' i = fetch v i"
proof -
  obtain bs v' where "push_all push v es = Some (bs, v')" "valid v'" "abs v' = abs v @ map snd (filter fst (zip bs es))"
    using push_all [OF assms(1,2)] by blast
  then show ?thesis
    using fetch [of v' i] fetch [of v i] assms(1,3) by (simp add: nth_append)
qed

end

text \<open>Vectors with elements of a fixed size, as they are used by the runtime.\<close>

definition vec_push :: "bool \<Rightarrow> Vector \<Rightarrow> bytes \<Rightarrow> (bool \<times> Vector) option" where
  "vec_push ok v e = map_option (map_prod id the) (bh_vector_append ok (Some v) (Some e))"

definition vec_fetch :: "Vector \<Rightarrow> nat \<Rightarrow> bytes option" where
  "vec_fetch v i = Option.bind (bh_vector_get (Some v) i (Some (replicate (size_elem v) 0)))
     (\<lambda>(found, v, buf). if found then buf else None)"

interpretation vec: sequence vector_ok "\<lambda>v e. length e = size_elem v" elems "vec_push ok" vec_fetch
proof
  fix v and e :: bytes assume "vector_ok v" "length e = size_elem v"
  then show "\<exists>b v'. vec_push ok v e = Some (b, v') \<and> vector_ok v' \<and> (\<lambda>e. length e = size_elem v') = (\<lambda>e. length e = size_elem v)
      \<and> elems v' = (if b then elems v @ [e] else elems v)"
    using append_ok [of v e ok] by (auto simp: vec_push_def)
next
  fix v i assume "vector_ok v" "i < length (elems v)"
  then show "vec_fetch v i = Some (elems v ! i)"
    by (simp add: vec_fetch_def get_ok)
qed

section \<open>Properties\<close>

definition empty_vector :: "nat \<Rightarrow> Vector" where
  "empty_vector s = \<lparr>max_elems = 1, data = Some (replicate s 0), num_elems = 0, size_elem = s, lock = Some False\<rparr>"

text \<open>C34. A vector implements a list of elements: appending, setting, reading and removing never leave the
  block, have the effect of the list operation, keep the invariant and release the lock, on every path.
  An index at or behind the end is refused by reading, setting, inserting and removing, and neither the vector nor the caller's buffer changes.
  An append fails only if the block is full and cannot grow, and after any series of appends the
  elements are the old ones followed by those whose append succeeded.\<close>

theorem vector_refines_list:
  assumes "vector_ok v" "length e = size_elem v"
  shows "(\<exists>v'. bh_vector_append ok (Some v) (Some e) = Some (has_room ok v, Some v') \<and> vector_ok v'
        \<and> elems v' = (if has_room ok v then elems v @ [e] else elems v))
    \<and> (if index < num_elems v
       then bh_vector_get (Some v) index (Some e) = Some (True, Some v, Some (elems v ! index))
         \<and> (\<exists>v'. bh_vector_set (Some v) index (Some e) = Some (True, Some v') \<and> vector_ok v'
              \<and> elems v' = (elems v)[index := e])
         \<and> (\<exists>v'. bh_vector_remove (Some v) index (Some e) = Some (True, Some v', Some (elems v ! index))
              \<and> vector_ok v' \<and> elems v' = take index (elems v) @ drop (index + 1) (elems v))
       else bh_vector_get (Some v) index (Some e) = Some (False, Some v, Some e)
         \<and> bh_vector_set (Some v) index (Some e) = Some (False, Some v)
         \<and> bh_vector_insert ok (Some v) index (Some e) = Some (False, Some v)
         \<and> bh_vector_remove (Some v) index (Some e) = Some (False, Some v, Some e))
    \<and> (list_all (\<lambda>x. length x = size_elem v) es \<longrightarrow> (\<exists>bs v'. push_all (vec_push ok) v es = Some (bs, v') \<and> vector_ok v'
        \<and> length bs = length es \<and> elems v' = elems v @ map snd (filter fst (zip bs es))))"
proof -
  have "(\<exists>v'. bh_vector_append ok (Some v) (Some e) = Some (has_room ok v, Some v') \<and> vector_ok v'
        \<and> elems v' = (if has_room ok v then elems v @ [e] else elems v))"
    using append_ok [of v e ok] assms by auto
  moreover have "\<not> index < num_elems v \<Longrightarrow> bh_vector_get (Some v) index (Some e) = Some (False, Some v, Some e)
      \<and> bh_vector_set (Some v) index (Some e) = Some (False, Some v)
      \<and> bh_vector_insert ok (Some v) index (Some e) = Some (False, Some v)
      \<and> bh_vector_remove (Some v) index (Some e) = Some (False, Some v, Some e)"
    by (simp add: bh_vector_get_def bh_vector_set_def bh_vector_insert_def bh_vector_remove_def Let_def)
  moreover have "index < num_elems v \<Longrightarrow> bh_vector_get (Some v) index (Some e) = Some (True, Some v, Some (elems v ! index))
      \<and> (\<exists>v'. bh_vector_set (Some v) index (Some e) = Some (True, Some v') \<and> vector_ok v' \<and> elems v' = (elems v)[index := e])
      \<and> (\<exists>v'. bh_vector_remove (Some v) index (Some e) = Some (True, Some v', Some (elems v ! index))
           \<and> vector_ok v' \<and> elems v' = take index (elems v) @ drop (index + 1) (elems v))"
    using get_ok [of v e index] set_ok [of v e index] vector_remove_ok [of v "Some e" index] assms by auto
  ultimately show ?thesis
    using vec.push_all [OF assms(1), of es ok] assms(2) by (simp add: list_all_iff)
qed

theorem vector_refines_list_witness:
  "\<exists>v'. bh_vector_append True (Some (empty_vector 2)) (Some [7, 8]) = Some (True, Some v') \<and> elems v' = [[7, 8]]"
  using vector_refines_list [of "empty_vector 2" "[7, 8]" True 0 "[]"]
  by (auto simp: empty_vector_def vector_ok_def block_ok_def has_room_def elems_def chunks_def UINT32_MAX_def)

text \<open>Inserting at an index stores the element after the one at that index, not at the index: reading
  the index back gives the old element.\<close>

lemma insert_lands_behind_index:
  assumes "vector_ok v" "length e = size_elem v" "index < num_elems v" "has_room ok v"
  shows "\<exists>v'. bh_vector_insert ok (Some v) index (Some e) = Some (True, Some v') \<and> vector_ok v'
    \<and> elems v' = take (index + 1) (elems v) @ e # drop (index + 1) (elems v)
    \<and> bh_vector_get (Some v') index (Some e) = Some (True, Some v', Some (elems v ! index))"
proof -
  obtain v' where v': "bh_vector_insert ok (Some v) index (Some e) = Some (True, Some v')" "vector_ok v'" "size_elem v' = size_elem v"
    "elems v' = take (index + 1) (elems v) @ e # drop (index + 1) (elems v)"
    using vector_insert_ok [of v e index ok] assms by auto
  have "num_elems v' = num_elems v + 1"
    using arg_cong [OF v'(4), of length] assms(3) by simp
  then have "bh_vector_get (Some v') index (Some e) = Some (True, Some v', Some (elems v' ! index))"
    using assms v' by (intro get_ok) simp_all
  with v' assms(3) show ?thesis by (simp add: nth_append)
qed

definition two_elems :: Vector where
  "two_elems = \<lparr>max_elems = 3, data = Some [1, 2, 0], num_elems = 2, size_elem = 1, lock = None\<rparr>"

lemma insert_lands_behind_index_witness:
  "\<exists>v'. bh_vector_insert True (Some two_elems) 0 (Some [9]) = Some (True, Some v') \<and> elems v' = [[1], [9], [2]]"
proof -
  have "vector_ok two_elems" "has_room True two_elems" "elems two_elems = [[1], [2]]"
    by (simp_all add: two_elems_def vector_ok_def block_ok_def has_room_def elems_def chunks_def chunk_def UINT32_MAX_def upt_rec)
  then show ?thesis
    using insert_lands_behind_index [of two_elems "[9]" 0 True] by (auto simp: two_elems_def)
qed

end
