(* ===== verification/Bh_Hashmap.thy ===== *)
theory Bh_Hashmap
  imports Prelude
begin

text \<open>
  The hash map of the runtime (\<open>core/shared/utils/bh_hashmap.c\<close>). A chain of elements is a list of pairs,
  newest first; keys and values are pointers of the caller, where \<open>None\<close> is the null pointer. The
  argument \<open>ok\<close> of an operation says whether the allocator gives memory.
\<close>

section \<open>Operations\<close>

record ('k, 'v) HashMap =
  hm_size :: nat
  hm_lock :: "bool option"
  hash_func :: "'k \<Rightarrow> u32"
  key_equal_func :: "'k \<Rightarrow> 'k \<Rightarrow> bool"
  key_destroy_func :: bool
  value_destroy_func :: bool
  elements :: "('k \<times> 'v option) list list"

definition HASH_MAP_MIN_SIZE :: nat where "HASH_MAP_MIN_SIZE = 4"
definition HASH_MAP_MAX_SIZE :: nat where "HASH_MAP_MAX_SIZE = 65536"

text \<open>The layout of the struct on a 64-bit target; the size of a mutex belongs to the platform.\<close>

definition elements_offset :: nat where "elements_offset = 48"
definition sizeof_pointer :: nat where "sizeof_pointer = 8"

definition map_total_size :: "nat \<Rightarrow> bool \<Rightarrow> nat \<Rightarrow> nat" where
  "map_total_size sizeof_mutex use_lock n = elements_offset + sizeof_pointer * n + (if use_lock then sizeof_mutex else 0)"

definition bh_hash_map_create ::
  "nat \<Rightarrow> (nat \<Rightarrow> bool) \<Rightarrow> bool \<Rightarrow> nat \<Rightarrow> bool \<Rightarrow> ('k \<Rightarrow> u32) option \<Rightarrow> ('k \<Rightarrow> 'k \<Rightarrow> bool) option \<Rightarrow> bool \<Rightarrow> bool
   \<Rightarrow> ('k, 'v) HashMap option" where
  "bh_hash_map_create sizeof_mutex malloc init_ok n use_lock hash equal kd vd =
     (let n = (if n < HASH_MAP_MIN_SIZE then HASH_MAP_MIN_SIZE else n) in
      if HASH_MAP_MAX_SIZE < n then None
      else if hash = None \<or> equal = None then None
      else if \<not> malloc (map_total_size sizeof_mutex use_lock n mod 2 ^ 32) then None
      else if use_lock \<and> \<not> init_ok then None
      else Some \<lparr>hm_size = n, hm_lock = (if use_lock then Some False else None), hash_func = the hash,
        key_equal_func = the equal, key_destroy_func = kd, value_destroy_func = vd, elements = replicate n []\<rparr>)"

definition lock_map :: "('k, 'v) HashMap \<Rightarrow> ('k, 'v) HashMap" where
  "lock_map m = m\<lparr>hm_lock := map_option (\<lambda>_. True) (hm_lock m)\<rparr>"

definition unlock_map :: "('k, 'v) HashMap \<Rightarrow> ('k, 'v) HashMap" where
  "unlock_map m = m\<lparr>hm_lock := map_option (\<lambda>_. False) (hm_lock m)\<rparr>"

definition index_of :: "('k, 'v) HashMap \<Rightarrow> 'k \<Rightarrow> nat" where
  "index_of m key = unat (hash_func m key) mod hm_size m"

definition set_chain :: "('k, 'v) HashMap \<Rightarrow> 'k \<Rightarrow> ('k \<times> 'v option) list \<Rightarrow> ('k, 'v) HashMap" where
  "set_chain m key es = m\<lparr>elements := (elements m)[index_of m key := es]\<rparr>"

text \<open>The loops over a chain.\<close>

fun find_elem :: "('k \<Rightarrow> 'k \<Rightarrow> bool) \<Rightarrow> 'k \<Rightarrow> ('k \<times> 'v) list \<Rightarrow> 'v option" where
  "find_elem equal key [] = None"
| "find_elem equal key ((k, v) # es) = (if equal k key then Some v else find_elem equal key es)"

fun update_elem :: "('k \<Rightarrow> 'k \<Rightarrow> bool) \<Rightarrow> 'k \<Rightarrow> 'v \<Rightarrow> ('k \<times> 'v) list \<Rightarrow> ('v \<times> ('k \<times> 'v) list) option" where
  "update_elem equal key x [] = None"
| "update_elem equal key x ((k, v) # es) =
     (if equal k key then Some (v, (k, x) # es) else map_option (\<lambda>(old, es). (old, (k, v) # es)) (update_elem equal key x es))"

fun remove_elem :: "('k \<Rightarrow> 'k \<Rightarrow> bool) \<Rightarrow> 'k \<Rightarrow> ('k \<times> 'v) list \<Rightarrow> (('k \<times> 'v) \<times> ('k \<times> 'v) list) option" where
  "remove_elem equal key [] = None"
| "remove_elem equal key ((k, v) # es) =
     (if equal k key then Some ((k, v), es) else map_option (\<lambda>(old, es). (old, (k, v) # es)) (remove_elem equal key es))"

definition bh_hash_map_insert ::
  "bool \<Rightarrow> ('k, 'v) HashMap option \<Rightarrow> 'k option \<Rightarrow> 'v option \<Rightarrow> bool \<times> ('k, 'v) HashMap option" where
  "bh_hash_map_insert ok hm key value =
     (case hm of None \<Rightarrow> (False, None) | Some m \<Rightarrow>
      case key of None \<Rightarrow> (False, hm) | Some key \<Rightarrow>
      let m = lock_map m; chain = elements m ! index_of m key in
      if find_elem (key_equal_func m) key chain \<noteq> None then (False, Some (unlock_map m))
      else if \<not> ok then (False, Some (unlock_map m))
      else (True, Some (unlock_map (set_chain m key ((key, value) # chain)))))"

definition bh_hash_map_find ::
  "('k, 'v) HashMap option \<Rightarrow> 'k option \<Rightarrow> 'v option \<times> ('k, 'v) HashMap option" where
  "bh_hash_map_find hm key =
     (case hm of None \<Rightarrow> (None, None) | Some m \<Rightarrow>
      case key of None \<Rightarrow> (None, hm) | Some key \<Rightarrow>
      let m = lock_map m in
      case find_elem (key_equal_func m) key (elements m ! index_of m key) of
        Some value \<Rightarrow> (value, Some (unlock_map m))
      | None \<Rightarrow> (None, Some (unlock_map m)))"

text \<open>The old value is the third component, if there was one; \<open>p_old_value\<close> may be null.\<close>

definition bh_hash_map_update ::
  "('k, 'v) HashMap option \<Rightarrow> 'k option \<Rightarrow> 'v option \<Rightarrow> bool \<times> ('k, 'v) HashMap option \<times> 'v option option" where
  "bh_hash_map_update hm key value =
     (case hm of None \<Rightarrow> (False, None, None) | Some m \<Rightarrow>
      case key of None \<Rightarrow> (False, hm, None) | Some key \<Rightarrow>
      let m = lock_map m in
      case update_elem (key_equal_func m) key value (elements m ! index_of m key) of
        Some (old, chain) \<Rightarrow> (True, Some (unlock_map (set_chain m key chain)), Some old)
      | None \<Rightarrow> (False, Some (unlock_map m), None))"

definition bh_hash_map_remove ::
  "('k, 'v) HashMap option \<Rightarrow> 'k option \<Rightarrow> bool \<times> ('k, 'v) HashMap option \<times> ('k \<times> 'v option) option" where
  "bh_hash_map_remove hm key =
     (case hm of None \<Rightarrow> (False, None, None) | Some m \<Rightarrow>
      case key of None \<Rightarrow> (False, hm, None) | Some key \<Rightarrow>
      let m = lock_map m in
      case remove_elem (key_equal_func m) key (elements m ! index_of m key) of
        Some (old, chain) \<Rightarrow> (True, Some (unlock_map (set_chain m key chain)), Some old)
      | None \<Rightarrow> (False, Some (unlock_map m), None))"

text \<open>The calls of the destroy functions, in their order.\<close>

datatype ('k, 'v) destroyed = Key 'k | Value "'v option"

definition bh_hash_map_destroy :: "('k, 'v) HashMap option \<Rightarrow> bool \<times> ('k, 'v) destroyed list" where
  "bh_hash_map_destroy hm =
     (case hm of None \<Rightarrow> (False, [])
      | Some m \<Rightarrow> (True, concat (map (\<lambda>(k, v). (if key_destroy_func m then [Key k] else [])
          @ (if value_destroy_func m then [Value v] else [])) (concat (elements m)))))"

definition bh_hash_map_get_struct_size :: "nat \<Rightarrow> ('k, 'v) HashMap \<Rightarrow> nat" where
  "bh_hash_map_get_struct_size sizeof_mutex m = map_total_size sizeof_mutex (hm_lock m \<noteq> None) (hm_size m) mod 2 ^ 32"

definition bh_hash_map_get_elem_struct_size :: nat where
  "bh_hash_map_get_elem_struct_size = 24"

text \<open>The callback gets the elements in the order of the chains. The next element is read before the
  call, so that the callback may remove the element it is called for.\<close>

definition bh_hash_map_traverse ::
  "('k, 'v) HashMap option \<Rightarrow> ('k \<Rightarrow> 'v option \<Rightarrow> 'u \<Rightarrow> 'u) option \<Rightarrow> 'u \<Rightarrow> bool \<times> 'u" where
  "bh_hash_map_traverse hm callback user_data =
     (case hm of None \<Rightarrow> (False, user_data) | Some m \<Rightarrow>
      case callback of None \<Rightarrow> (False, user_data) | Some f \<Rightarrow>
      (True, fold (\<lambda>(k, v). f k v) (concat (elements m)) user_data))"

section \<open>The contract of a dictionary\<close>

text \<open>What a client relies on. \<open>same\<close> is the equality of keys.\<close>

locale dictionary =
  fixes valid :: "'m \<Rightarrow> bool"
    and same :: "'m \<Rightarrow> 'k \<Rightarrow> 'k \<Rightarrow> bool"
    and lookup :: "'m \<Rightarrow> 'k \<Rightarrow> 'v option"
    and insert :: "'m \<Rightarrow> 'k \<Rightarrow> 'v \<Rightarrow> bool \<times> 'm"
    and update :: "'m \<Rightarrow> 'k \<Rightarrow> 'v \<Rightarrow> bool \<times> 'm"
    and remove :: "'m \<Rightarrow> 'k \<Rightarrow> bool \<times> 'm"
  assumes insert_law: "valid m \<Longrightarrow> insert m k v = (b, m') \<Longrightarrow>
      valid m' \<and> same m' = same m \<and> (b \<longrightarrow> lookup m k = None)
      \<and> lookup m' = (\<lambda>k'. if b \<and> same m k k' then Some v else lookup m k')"
    and update_law: "valid m \<Longrightarrow> update m k v = (b, m') \<Longrightarrow>
      valid m' \<and> same m' = same m \<and> b = (lookup m k \<noteq> None)
      \<and> lookup m' = (\<lambda>k'. if b \<and> same m k k' then Some v else lookup m k')"
    and remove_law: "valid m \<Longrightarrow> remove m k = (b, m') \<Longrightarrow>
      valid m' \<and> same m' = same m \<and> b = (lookup m k \<noteq> None)
      \<and> lookup m' = (\<lambda>k'. if same m k k' then None else lookup m k')"
    and same_refl: "valid m \<Longrightarrow> same m k k"
begin

lemma insert_find: "valid m \<Longrightarrow> insert m k v = (True, m') \<Longrightarrow> lookup m' k = Some v"
  using insert_law [of m k v True m'] same_refl [of m k] by simp

lemma insert_remove:
  assumes "valid m" "insert m k v = (True, m1)" "remove m1 k = (b, m2)"
  shows "b \<and> (\<forall>k'. lookup m2 k' = (if same m k k' then None else lookup m k'))"
  using insert_law [OF assms(1,2)] remove_law [OF _ assms(3)] same_refl [OF assms(1), of k] by auto

lemma update_idem:
  assumes "valid m" "update m k v = (b, m')" "lookup m k = Some v'"
  shows "b \<and> lookup m' k = Some v"
  using update_law [OF assms(1,2)] same_refl [OF assms(1), of k] assms(3) by simp

end

section \<open>The hash map implements it\<close>

text \<open>The hash and equality functions a caller passes: an equivalence that the hash respects.\<close>

definition key_functions :: "('k \<Rightarrow> u32) \<Rightarrow> ('k \<Rightarrow> 'k \<Rightarrow> bool) \<Rightarrow> bool" where
  "key_functions hash equal \<longleftrightarrow> equivp equal \<and> (\<forall>x y. equal x y \<longrightarrow> hash x = hash y)"

definition hm_ok :: "('k, 'v) HashMap \<Rightarrow> bool" where
  "hm_ok m \<longleftrightarrow> key_functions (hash_func m) (key_equal_func m) \<and> 0 < hm_size m \<and> length (elements m) = hm_size m
     \<and> hm_lock m \<noteq> Some True
     \<and> (\<forall>i < hm_size m. \<forall>e \<in> set (elements m ! i). index_of m (fst e) = i)
     \<and> (\<forall>i < hm_size m. sorted_wrt (\<lambda>a b. \<not> key_equal_func m (fst a) (fst b)) (elements m ! i))"

definition hm_lookup :: "('k, 'v) HashMap \<Rightarrow> 'k \<Rightarrow> 'v option option" where
  "hm_lookup m key = find_elem (key_equal_func m) key (elements m ! index_of m key)"

lemma key_functionsD:
  assumes "key_functions hash equal"
  shows "equal x x" "equal x y \<Longrightarrow> equal y x" "equal x y \<Longrightarrow> equal y z \<Longrightarrow> equal x z" "equal x y \<Longrightarrow> hash x = hash y"
  using assms by (auto simp: key_functions_def dest: equivp_reflp equivp_symp equivp_transp)

subsection \<open>Chains\<close>

lemma find_elem_None: "find_elem equal k es = None \<longleftrightarrow> (\<forall>e \<in> set es. \<not> equal (fst e) k)"
  by (induction es) (auto split: if_splits)

lemma find_elem_same:
  assumes "equivp equal" "equal k k'"
  shows "find_elem equal k es = find_elem equal k' es"
proof -
  have "equal a k = equal a k'" for a
    using assms by (meson equivp_symp equivp_transp)
  then show ?thesis by (induction es) auto
qed

lemma update_elem_None: "update_elem equal k x es = None \<longleftrightarrow> find_elem equal k es = None"
  by (induction es) (auto split: if_splits)

lemma update_elem_keys: "update_elem equal k x es = Some (old, es') \<Longrightarrow> map fst es' = map fst es"
  by (induction es arbitrary: es') (auto split: if_splits)

lemma update_elem_find:
  assumes "equivp equal" "update_elem equal k x es = Some (old, es')"
  shows "find_elem equal k' es' = (if equal k k' then Some x else find_elem equal k' es)"
  using assms
proof (induction es arbitrary: es')
  case (Cons e es)
  obtain a v where e: "e = (a, v)" by (cases e)
  have "equal a k \<Longrightarrow> equal a k' = equal k k'" "equal k k' \<Longrightarrow> equal a k = equal a k'"
    using Cons.prems(1) by (meson equivp_symp equivp_transp)+
  with Cons e show ?case by (auto split: if_splits)
qed simp

lemma remove_elem_None: "remove_elem equal k es = None \<longleftrightarrow> find_elem equal k es = None"
  by (induction es) (auto split: if_splits)

lemma remove_elem_split:
  "remove_elem equal k es = Some (old, es') \<Longrightarrow>
   \<exists>a b. es = a @ old # b \<and> es' = a @ b \<and> equal (fst old) k \<and> (\<forall>e \<in> set a. \<not> equal (fst e) k)"
proof (induction es arbitrary: es')
  case (Cons e es)
  obtain y v where e: "e = (y, v)" by (cases e)
  show ?case
  proof (cases "equal y k")
    case True
    with Cons.prems e show ?thesis by (intro exI [of _ "[]"] exI [of _ es]) auto
  next
    case False
    with Cons.prems e obtain r where r: "remove_elem equal k es = Some (old, r)" "es' = e # r" by auto
    then obtain a b where "es = a @ old # b" "r = a @ b" "equal (fst old) k" "\<forall>e \<in> set a. \<not> equal (fst e) k"
      using Cons.IH by blast
    with r False e show ?thesis by (intro exI [of _ "e # a"] exI [of _ b]) auto
  qed
qed simp

lemma find_elem_append: "find_elem equal k (a @ b) = (case find_elem equal k a of None \<Rightarrow> find_elem equal k b | Some v \<Rightarrow> Some v)"
  by (induction a) auto

lemma remove_elem_find:
  assumes "equivp equal" "sorted_wrt (\<lambda>a b. \<not> equal (fst a) (fst b)) es" "remove_elem equal k es = Some (old, es')"
  shows "find_elem equal k' es' = (if equal k k' then None else find_elem equal k' es)"
proof -
  obtain a b where ab: "es = a @ old # b" "es' = a @ b" "equal (fst old) k" "\<forall>e \<in> set a. \<not> equal (fst e) k"
    using remove_elem_split [OF assms(3)] by blast
  show ?thesis
  proof (cases "equal k k'")
    case True
    have "find_elem equal k es' = None"
      unfolding find_elem_None
    proof
      fix e assume e: "e \<in> set es'"
      show "\<not> equal (fst e) k"
      proof (cases "e \<in> set a")
        case False
        with e ab have "\<not> equal (fst old) (fst e)" using assms(2) by (auto simp: sorted_wrt_append)
        then show ?thesis using ab(3) assms(1) by (meson equivp_symp equivp_transp)
      qed (use ab in auto)
    qed
    with True show ?thesis using find_elem_same [OF assms(1) True, of es'] by simp
  next
    case False
    obtain y v where "old = (y, v)" by (cases old)
    moreover from this ab(3) False assms(1) have "\<not> equal y k'" by (metis equivp_symp equivp_transp fst_conv)
    ultimately show ?thesis using False ab by (simp add: find_elem_append split: option.split)
  qed
qed

subsection \<open>Maps\<close>

lemma lock_map_simps [simp]:
  "elements (lock_map m) = elements m" "hm_size (lock_map m) = hm_size m" "hash_func (lock_map m) = hash_func m"
  "key_equal_func (lock_map m) = key_equal_func m" "elements (unlock_map m) = elements m" "hm_size (unlock_map m) = hm_size m"
  "hash_func (unlock_map m) = hash_func m" "key_equal_func (unlock_map m) = key_equal_func m"
  "hm_lock (unlock_map m) \<noteq> Some True"
  by (auto simp: lock_map_def unlock_map_def)

lemma set_chain_simps [simp]:
  "elements (set_chain m k es) = (elements m)[index_of m k := es]" "hm_size (set_chain m k es) = hm_size m"
  "hash_func (set_chain m k es) = hash_func m" "key_equal_func (set_chain m k es) = key_equal_func m"
  by (simp_all add: set_chain_def)

lemma index_of_cong: "hm_size m' = hm_size m \<Longrightarrow> hash_func m' = hash_func m \<Longrightarrow> index_of m' = index_of m"
  by (rule ext) (simp add: index_of_def)

lemma index_of_lock [simp]: "index_of (lock_map m) = index_of m" "index_of (unlock_map m) = index_of m"
  "index_of (set_chain m k es) = index_of m"
  by (rule index_of_cong; simp)+

lemma index_less: "hm_ok m \<Longrightarrow> index_of m k < length (elements m)"
  by (simp add: hm_ok_def index_of_def)

lemma index_same: "hm_ok m \<Longrightarrow> key_equal_func m k k' \<Longrightarrow> index_of m k = index_of m k'"
  by (auto simp: hm_ok_def index_of_def dest: key_functionsD(4))

lemma hm_okD:
  assumes "hm_ok m"
  shows "equivp (key_equal_func m)"
    "sorted_wrt (\<lambda>a b. \<not> key_equal_func m (fst a) (fst b)) (elements m ! index_of m k)"
    "e \<in> set (elements m ! index_of m k) \<Longrightarrow> index_of m (fst e) = index_of m k"
  using assms index_less [OF assms, of k] by (auto simp: hm_ok_def key_functions_def)

lemma lookup_unlock [simp]: "hm_lookup (unlock_map m) = hm_lookup m" "hm_lookup (lock_map m) = hm_lookup m"
  by (rule ext, simp add: hm_lookup_def)+

lemma hm_ok_unlock: "hm_ok m \<Longrightarrow> hm_ok (unlock_map (lock_map m))"
  by (simp add: hm_ok_def)

text \<open>An operation replaces one chain.\<close>

lemma hm_ok_set_chain:
  assumes "hm_ok m" "\<forall>e \<in> set es. index_of m (fst e) = index_of m k"
    and "sorted_wrt (\<lambda>a b. \<not> key_equal_func m (fst a) (fst b)) es"
  shows "hm_ok (unlock_map (set_chain (lock_map m) k es))"
proof -
  have chain: "(elements m)[index_of m k := es] ! i = (if i = index_of m k then es else elements m ! i)" if "i < hm_size m" for i
    using that assms(1) by (simp add: hm_ok_def nth_list_update)
  show ?thesis
    using assms by (auto simp: hm_ok_def chain split: if_splits)
qed

lemma lookup_set_chain:
  assumes "hm_ok m" "\<And>k'. find_elem (key_equal_func m) k' es =
      (if P \<and> key_equal_func m k k' then x else find_elem (key_equal_func m) k' (elements m ! index_of m k))"
  shows "hm_lookup (unlock_map (set_chain (lock_map m) k es)) = (\<lambda>k'. if P \<and> key_equal_func m k k' then x else hm_lookup m k')"
proof
  fix k'
  show "hm_lookup (unlock_map (set_chain (lock_map m) k es)) k' = (if P \<and> key_equal_func m k k' then x else hm_lookup m k')"
    using assms(2) [of k'] index_same [OF assms(1), of k k'] index_less [OF assms(1), of k]
    by (cases "index_of m k' = index_of m k") (auto simp: hm_lookup_def)
qed

definition hm_insert :: "bool \<Rightarrow> ('k, 'v) HashMap \<Rightarrow> 'k \<Rightarrow> 'v option \<Rightarrow> bool \<times> ('k, 'v) HashMap" where
  "hm_insert ok m k v = map_prod id the (bh_hash_map_insert ok (Some m) (Some k) v)"

definition hm_update :: "('k, 'v) HashMap \<Rightarrow> 'k \<Rightarrow> 'v option \<Rightarrow> bool \<times> ('k, 'v) HashMap" where
  "hm_update m k v = map_prod id (\<lambda>(m, old). the m) (bh_hash_map_update (Some m) (Some k) v)"

definition hm_remove :: "('k, 'v) HashMap \<Rightarrow> 'k \<Rightarrow> bool \<times> ('k, 'v) HashMap" where
  "hm_remove m k = map_prod id (\<lambda>(m, old). the m) (bh_hash_map_remove (Some m) (Some k))"

lemma hm_insert_ok:
  assumes "hm_ok m" "hm_insert ok m k v = (b, m')"
  shows "hm_ok m' \<and> key_equal_func m' = key_equal_func m \<and> (b \<longleftrightarrow> ok \<and> hm_lookup m k = None)
    \<and> hm_lookup m' = (\<lambda>k'. if b \<and> key_equal_func m k k' then Some v else hm_lookup m k')"
proof (cases "ok \<and> hm_lookup m k = None")
  case False
  then have "b = False" "m' = unlock_map (lock_map m)"
    using assms(2) by (auto simp: hm_insert_def bh_hash_map_insert_def hm_lookup_def Let_def split: if_splits)
  with False hm_ok_unlock [OF assms(1)] show ?thesis by auto
next
  case True
  let ?es = "elements m ! index_of m k"
  have m': "b" "m' = unlock_map (set_chain (lock_map m) k ((k, v) # ?es))"
    using assms(2) True by (auto simp: hm_insert_def bh_hash_map_insert_def hm_lookup_def Let_def)
  have "\<forall>e \<in> set ?es. \<not> key_equal_func m k (fst e)"
    using True hm_okD(1) [OF assms(1)] by (auto simp: hm_lookup_def find_elem_None dest: equivp_symp)
  then have "hm_ok m'" unfolding m'
    using hm_okD(2,3) [OF assms(1), where k = k] by (intro hm_ok_set_chain [OF assms(1)]) auto
  moreover have "hm_lookup m' = (\<lambda>k'. if True \<and> key_equal_func m k k' then Some v else hm_lookup m k')"
    unfolding m' by (rule lookup_set_chain [OF assms(1)]) simp
  ultimately show ?thesis using m' True by simp
qed

lemma hm_update_ok:
  assumes "hm_ok m" "hm_update m k v = (b, m')"
  shows "hm_ok m' \<and> key_equal_func m' = key_equal_func m \<and> b = (hm_lookup m k \<noteq> None)
    \<and> hm_lookup m' = (\<lambda>k'. if b \<and> key_equal_func m k k' then Some v else hm_lookup m k')"
proof (cases "update_elem (key_equal_func m) k v (elements m ! index_of m k)")
  case None
  with assms hm_ok_unlock [OF assms(1)] show ?thesis
    by (auto simp: hm_update_def bh_hash_map_update_def hm_lookup_def Let_def update_elem_None)
next
  case (Some r)
  then obtain old es where r: "update_elem (key_equal_func m) k v (elements m ! index_of m k) = Some (old, es)"
    by (cases r) auto
  have m': "b" "m' = unlock_map (set_chain (lock_map m) k es)"
    using assms(2) r by (auto simp: hm_update_def bh_hash_map_update_def Let_def)
  have keys: "map fst es = map fst (elements m ! index_of m k)" by (rule update_elem_keys [OF r])
  have "hm_ok m'" unfolding m'
  proof (rule hm_ok_set_chain [OF assms(1)])
    have "fst ` set es = fst ` set (elements m ! index_of m k)" using keys by (metis set_map)
    then show "\<forall>e \<in> set es. index_of m (fst e) = index_of m k"
      using hm_okD(3) [OF assms(1), where k = k] by (metis (no_types, lifting) image_iff)
    show "sorted_wrt (\<lambda>a b. \<not> key_equal_func m (fst a) (fst b)) es"
      using hm_okD(2) [OF assms(1), of k] keys
      by (simp flip: sorted_wrt_map [of "\<lambda>a b. \<not> key_equal_func m a b" fst])
  qed
  moreover have "hm_lookup m' = (\<lambda>k'. if True \<and> key_equal_func m k k' then Some v else hm_lookup m k')"
    unfolding m' by (rule lookup_set_chain [OF assms(1)]) (simp add: update_elem_find [OF hm_okD(1) [OF assms(1)] r])
  moreover have "hm_lookup m k \<noteq> None"
    using r by (auto simp: hm_lookup_def update_elem_None [of _ _ v, symmetric])
  ultimately show ?thesis using m' by simp
qed

lemma hm_remove_ok:
  assumes "hm_ok m" "hm_remove m k = (b, m')"
  shows "hm_ok m' \<and> key_equal_func m' = key_equal_func m \<and> b = (hm_lookup m k \<noteq> None)
    \<and> hm_lookup m' = (\<lambda>k'. if key_equal_func m k k' then None else hm_lookup m k')"
proof (cases "remove_elem (key_equal_func m) k (elements m ! index_of m k)")
  case None
  then have n: "hm_lookup m k = None" by (simp add: hm_lookup_def remove_elem_None [symmetric])
  have "hm_lookup m k' = None" if "key_equal_func m k k'" for k'
    using n find_elem_same [OF hm_okD(1) [OF assms(1)] that, of "elements m ! index_of m k"] index_same [OF assms(1) that, symmetric]
    by (simp add: hm_lookup_def)
  then have "hm_lookup m = (\<lambda>k'. if key_equal_func m k k' then None else hm_lookup m k')" by auto
  moreover have "b = False" "m' = unlock_map (lock_map m)"
    using assms(2) None by (auto simp: hm_remove_def bh_hash_map_remove_def Let_def)
  ultimately show ?thesis using n hm_ok_unlock [OF assms(1)] by simp
next
  case (Some r)
  then obtain old es where r: "remove_elem (key_equal_func m) k (elements m ! index_of m k) = Some (old, es)"
    by (cases r) auto
  have m': "b" "m' = unlock_map (set_chain (lock_map m) k es)"
    using assms(2) r by (auto simp: hm_remove_def bh_hash_map_remove_def Let_def)
  obtain x y where xy: "elements m ! index_of m k = x @ old # y" "es = x @ y"
    using remove_elem_split [OF r] by blast
  have "hm_ok m'" unfolding m'
    using hm_okD(2,3) [OF assms(1), where k = k] xy
    by (intro hm_ok_set_chain [OF assms(1)]) (auto simp: sorted_wrt_append)
  moreover have "hm_lookup m' = (\<lambda>k'. if True \<and> key_equal_func m k k' then None else hm_lookup m k')"
    unfolding m'
    by (rule lookup_set_chain [OF assms(1)]) (simp add: remove_elem_find [OF hm_okD(1,2) [OF assms(1)] r])
  moreover have "hm_lookup m k \<noteq> None"
    using r by (auto simp: hm_lookup_def remove_elem_None [symmetric])
  ultimately show ?thesis using m' by simp
qed

interpretation hm: dictionary hm_ok key_equal_func hm_lookup "hm_insert ok" hm_update hm_remove
proof
  fix m :: "('a, 'b) HashMap" and k assume "hm_ok m"
  then show "key_equal_func m k k" by (auto simp: hm_ok_def dest: key_functionsD(1))
qed (auto dest: hm_insert_ok hm_update_ok hm_remove_ok)

subsection \<open>Traversal and creation\<close>

lemma find_elem_member:
  assumes "equivp equal" "sorted_wrt (\<lambda>a b. \<not> equal (fst a) (fst b)) es" "(k, v) \<in> set es"
  shows "find_elem equal k es = Some v"
  using assms
proof (induction es)
  case (Cons e es)
  show ?case
  proof (cases "e = (k, v)")
    case True
    with Cons.prems(1) show ?thesis by (simp add: equivp_reflp)
  next
    case False
    with Cons.prems(2,3) have "\<not> equal (fst e) k" by auto
    with False Cons show ?thesis by (cases e) auto
  qed
qed simp

lemma find_elem_in: "find_elem equal k es = Some v \<Longrightarrow> \<exists>k'. (k', v) \<in> set es \<and> equal k' k"
  by (induction es) (auto split: if_splits)

lemma in_elements:
  assumes "hm_ok m" "(k, v) \<in> set (concat (elements m))"
  shows "hm_lookup m k = Some v"
proof -
  obtain i where i: "i < hm_size m" "(k, v) \<in> set (elements m ! i)"
  proof -
    from assms(2) obtain es where "es \<in> set (elements m)" "(k, v) \<in> set es" by auto
    with that assms(1) show thesis by (auto simp: hm_ok_def in_set_conv_nth [of es])
  qed
  then have "index_of m k = i" using assms(1) unfolding hm_ok_def by (metis fst_conv)
  then show ?thesis
    using i find_elem_member [OF hm_okD(1,2) [OF assms(1)], of k v k] by (simp add: hm_lookup_def)
qed

lemma lookup_elements:
  assumes "hm_ok m" "hm_lookup m k = Some v"
  obtains k' where "(k', v) \<in> set (concat (elements m))" "key_equal_func m k' k"
proof -
  obtain k' where "(k', v) \<in> set (elements m ! index_of m k)" "key_equal_func m k' k"
    using assms(2) by (auto simp: hm_lookup_def dest: find_elem_in)
  moreover from this have "(k', v) \<in> set (concat (elements m))"
    using index_less [OF assms(1), of k] by (auto intro: nth_mem)
  ultimately show thesis using that by blast
qed

lemma hm_find_ok:
  "hm_ok m \<Longrightarrow> bh_hash_map_find (Some m) (Some k) = (Option.bind (hm_lookup m k) id, Some m)"
proof -
  assume "hm_ok m"
  then have "unlock_map (lock_map m) = m"
    by (cases m; cases "hm_lock m") (auto simp: hm_ok_def unlock_map_def lock_map_def)
  then show ?thesis
    by (auto simp: bh_hash_map_find_def hm_lookup_def Let_def split: option.split)
qed

lemma hm_create_ok:
  assumes "bh_hash_map_create sizeof_mutex malloc init_ok n use_lock (Some hash) (Some equal) kd vd = Some m"
    and "key_functions hash equal"
  shows "hm_ok m" "hm_lookup m = (\<lambda>_. None)" "key_equal_func m = equal" "hash_func m = hash"
proof -
  show ok: "hm_ok m" "key_equal_func m = equal" "hash_func m = hash"
    using assms by (auto simp: bh_hash_map_create_def Let_def hm_ok_def HASH_MAP_MIN_SIZE_def split: if_splits)
  have "elements m = replicate (hm_size m) []"
    using assms(1) by (auto simp: bh_hash_map_create_def Let_def split: if_splits)
  then show "hm_lookup m = (\<lambda>_. None)"
    using index_less [OF ok(1)] by (auto simp: hm_lookup_def)
qed

section \<open>Strings as keys\<close>

text \<open>\<open>wasm_string_hash\<close> and \<open>wasm_string_equal\<close> of \<open>wasm.h\<close>; a string is the list of its bytes before the terminator.\<close>

definition wasm_string_hash :: "bytes \<Rightarrow> u32" where
  "wasm_string_hash str = fold (\<lambda>b h. (push_bit 5 h - h) + ucast b) str (of_nat (length str))"

definition wasm_string_equal :: "bytes \<Rightarrow> bytes \<Rightarrow> bool" where
  "wasm_string_equal s1 s2 \<longleftrightarrow> s1 = s2"

lemma string_keys: "key_functions wasm_string_hash wasm_string_equal"
  unfolding key_functions_def wasm_string_equal_def by (simp add: identity_equivp)

section \<open>Properties\<close>

text \<open>C36. For every hash and equality function that fit together, the hash map implements a dictionary:
  it starts empty, an insertion fails exactly if the key is present or memory is exhausted, updates and
  removals succeed exactly if the key is present, each operation changes the value of keys equal to its
  argument only, and the lock is released on every path.\<close>

theorem hashmap_refines_map:
  assumes "hm_ok m"
  shows "(hm_insert ok m k v = (b, m') \<longrightarrow> hm_ok m' \<and> (b \<longleftrightarrow> ok \<and> hm_lookup m k = None)
        \<and> hm_lookup m' = (\<lambda>k'. if b \<and> key_equal_func m k k' then Some v else hm_lookup m k'))
    \<and> (hm_update m k v = (b, m') \<longrightarrow> hm_ok m' \<and> (b \<longleftrightarrow> hm_lookup m k \<noteq> None)
        \<and> hm_lookup m' = (\<lambda>k'. if b \<and> key_equal_func m k k' then Some v else hm_lookup m k'))
    \<and> (hm_remove m k = (b, m') \<longrightarrow> hm_ok m' \<and> (b \<longleftrightarrow> hm_lookup m k \<noteq> None)
        \<and> hm_lookup m' = (\<lambda>k'. if key_equal_func m k k' then None else hm_lookup m k'))
    \<and> bh_hash_map_find (Some m) (Some k) = (Option.bind (hm_lookup m k) id, Some m)
    \<and> (hm_insert ok m k v = (True, m1) \<and> hm_remove m1 k = (b, m2) \<longrightarrow>
        b \<and> (\<forall>k'. hm_lookup m2 k' = (if key_equal_func m k k' then None else hm_lookup m k')))"
  using hm_insert_ok [OF assms, of ok k v b m'] hm.update_law [OF assms, of k v b m'] hm.remove_law [OF assms, of k b m']
    hm_find_ok [OF assms, of k] hm.insert_remove [OF assms, of ok k v m1 b m2]
  by blast

definition string_map :: "(bytes, nat) HashMap" where
  "string_map = the (bh_hash_map_create 40 (\<lambda>_. True) True 0 True (Some wasm_string_hash) (Some wasm_string_equal) True False)"

theorem hashmap_refines_map_witness:
  "hm_ok string_map
   \<and> hm_lookup (snd (hm_insert True string_map [1, 2] (Some 5))) [1, 2] = Some (Some 5)
   \<and> hm_lookup (snd (hm_insert True string_map [1, 2] (Some 5))) [3] = None"
proof -
  have c: "bh_hash_map_create 40 (\<lambda>_. True) True 0 True (Some wasm_string_hash) (Some wasm_string_equal) True False
      = Some string_map"
    by (simp add: string_map_def bh_hash_map_create_def Let_def HASH_MAP_MIN_SIZE_def HASH_MAP_MAX_SIZE_def)
  note ok = hm_create_ok [OF c string_keys]
  obtain b m' where i: "hm_insert True string_map [1, 2] (Some 5) = (b, m')" by fastforce
  show ?thesis
    using hashmap_refines_map [OF ok(1), of True "[1, 2]" "Some 5" b m'] i ok by (simp add: wasm_string_equal_def)
qed

end
