(* ===== verification/Externref.thy ===== *)
theory Externref
  imports Bh_Hashmap Loader_Common
begin

text \<open>
  The table of external references (\<open>core/iwasm/common/wasm_runtime_common.c\<close>, reference types without
  garbage collection): it gives an object of the embedder a 32-bit number that a WebAssembly program can
  hold, and reclaims the numbers that an instance no longer holds. It is a client of the hash map. A node
  is reachable through one entry of the map only, so that a write through a pointer to it is an update of
  that entry. Objects and module instances are pointers, as numbers.
\<close>

section \<open>The state\<close>

record ExternRefMapNode =
  extern_obj :: u64
  module_inst :: nat
  retained :: bool
  marked :: bool
  cleanup :: "nat option"

text \<open>\<open>cleaned\<close> is the history of the calls of cleanup functions with their argument.\<close>

record externref_state =
  externref_lock :: bool
  externref_global_id :: u32
  externref_map :: "(u32, ExternRefMapNode) HashMap"
  cleaned :: "(nat \<times> u64) list"

definition NULL_REF :: u32 where "NULL_REF = 0xFFFFFFFF"

definition wasm_externref_hash :: "u32 \<Rightarrow> u32" where
  "wasm_externref_hash key = key"

definition wasm_externref_equal :: "u32 \<Rightarrow> u32 \<Rightarrow> bool" where
  "wasm_externref_equal key1 key2 \<longleftrightarrow> key1 = key2"

definition key_ptr :: "u32 \<Rightarrow> u32 option" where
  "key_ptr idx = (if idx = 0 then None else Some idx)"

definition wasm_externref_map_init :: "bool \<Rightarrow> bool \<Rightarrow> externref_state option" where
  "wasm_externref_map_init init_ok ok =
     (if \<not> init_ok then None else
      case bh_hash_map_create 0 (\<lambda>_. ok) True 32 False (Some wasm_externref_hash) (Some wasm_externref_equal) False True of
        None \<Rightarrow> None
      | Some m \<Rightarrow> Some \<lparr>externref_lock = False, externref_global_id = 1, externref_map = m, cleaned = []\<rparr>)"

definition acquire :: "externref_state \<Rightarrow> externref_state" where
  "acquire st = st\<lparr>externref_lock := True\<rparr>"

definition release :: "externref_state \<Rightarrow> externref_state" where
  "release st = st\<lparr>externref_lock := False\<rparr>"

definition find_node :: "u32 \<Rightarrow> externref_state \<Rightarrow> ExternRefMapNode option" where
  "find_node idx st = fst (bh_hash_map_find (Some (externref_map st)) (key_ptr idx))"

definition write_node :: "u32 \<Rightarrow> ExternRefMapNode \<Rightarrow> externref_state \<Rightarrow> externref_state" where
  "write_node key node st = st\<lparr>externref_map := snd (hm_update (externref_map st) key (Some node))\<rparr>"

definition traverse :: "(u32 \<Rightarrow> ExternRefMapNode \<Rightarrow> 'u \<Rightarrow> 'u) \<Rightarrow> externref_state \<Rightarrow> 'u \<Rightarrow> 'u" where
  "traverse callback st u =
     snd (bh_hash_map_traverse (Some (externref_map st)) (Some (\<lambda>key value. case value of None \<Rightarrow> id | Some node \<Rightarrow> callback key node)) u)"

section \<open>Operations\<close>

definition lookup_extobj_callback ::
  "u64 \<Rightarrow> nat \<Rightarrow> u32 \<Rightarrow> ExternRefMapNode \<Rightarrow> u32 option \<Rightarrow> u32 option" where
  "lookup_extobj_callback obj inst key node found =
     (if extern_obj node = obj \<and> module_inst node = inst then Some key else found)"

definition delete_externref :: "u32 \<Rightarrow> ExternRefMapNode \<Rightarrow> externref_state \<Rightarrow> externref_state" where
  "delete_externref key node st =
     (let st = st\<lparr>externref_map := snd (hm_remove (externref_map st) key)\<rparr> in
      case cleanup node of None \<Rightarrow> st | Some f \<Rightarrow> st\<lparr>cleaned := cleaned st @ [(f, extern_obj node)]\<rparr>)"

definition delete_extobj_callback ::
  "u64 \<Rightarrow> nat \<Rightarrow> u32 \<Rightarrow> ExternRefMapNode \<Rightarrow> bool \<times> externref_state \<Rightarrow> bool \<times> externref_state" where
  "delete_extobj_callback obj inst key node s =
     (if extern_obj node = obj \<and> module_inst node = inst then (True, delete_externref key node (snd s)) else s)"

definition wasm_externref_objdel :: "nat \<Rightarrow> u64 \<Rightarrow> externref_state \<Rightarrow> bool \<times> externref_state" where
  "wasm_externref_objdel inst obj st =
     (let st = acquire st; (found, st') = traverse (delete_extobj_callback obj inst) st (False, st) in (found, release st'))"

text \<open>\<open>None\<close>: the node that was found in the traversal is not found by its key, and a null pointer is
  dereferenced.\<close>

definition wasm_externref_set_cleanup :: "nat \<Rightarrow> u64 \<Rightarrow> nat option \<Rightarrow> externref_state \<Rightarrow> (bool \<times> externref_state) option" where
  "wasm_externref_set_cleanup inst obj f st =
     (let st = acquire st in
      case traverse (lookup_extobj_callback obj inst) st None of
        None \<Rightarrow> Some (False, release st)
      | Some key \<Rightarrow> (case find_node key st of
            None \<Rightarrow> None
          | Some node \<Rightarrow> Some (True, release (write_node key (node\<lparr>cleanup := f\<rparr>) st))))"

text \<open>\<open>node_ok\<close> and \<open>elem_ok\<close>: whether there is memory for the node and for the element of the map. The
  index that is returned is the content of \<open>p_externref_idx\<close>.\<close>

definition wasm_externref_obj2ref :: "bool \<Rightarrow> bool \<Rightarrow> nat \<Rightarrow> u64 \<Rightarrow> externref_state \<Rightarrow> u32 option \<times> externref_state" where
  "wasm_externref_obj2ref node_ok elem_ok inst obj st =
     (if obj = - 1 then (Some NULL_REF, st) else
      let st = acquire st in
      case traverse (lookup_extobj_callback obj inst) st None of
        Some idx \<Rightarrow> (Some idx, release st)
      | None \<Rightarrow>
        if externref_global_id st = NULL_REF \<or> externref_global_id st = 0 then (None, release st)
        else if \<not> node_ok then (None, release st)
        else
          let node = \<lparr>extern_obj = obj, module_inst = inst, retained = False, marked = False, cleanup = None\<rparr>;
              idx = externref_global_id st in
          (case bh_hash_map_insert elem_ok (Some (externref_map st)) (key_ptr idx) (Some node) of
             (False, m) \<Rightarrow> (None, release (st\<lparr>externref_map := the m\<rparr>))
           | (True, m) \<Rightarrow> (Some idx, release (st\<lparr>externref_map := the m, externref_global_id := externref_global_id st + 1\<rparr>))))"

definition wasm_externref_ref2obj :: "u32 \<Rightarrow> externref_state \<Rightarrow> u64 option \<times> externref_state" where
  "wasm_externref_ref2obj idx st =
     (if idx = NULL_REF then (Some 0, st) else
      let st = acquire st; node = find_node idx st; st = release st in
      case node of None \<Rightarrow> (None, st) | Some n \<Rightarrow> (Some (extern_obj n), st))"

definition reclaim_extobj_callback ::
  "nat \<Rightarrow> u32 \<Rightarrow> ExternRefMapNode \<Rightarrow> externref_state \<Rightarrow> externref_state" where
  "reclaim_extobj_callback inst key node st =
     (if module_inst node = inst then
        if \<not> marked node \<and> \<not> retained node then delete_externref key node st
        else write_node key (node\<lparr>marked := False\<rparr>) st
      else st)"

definition mark_externref :: "u32 \<Rightarrow> externref_state \<Rightarrow> externref_state" where
  "mark_externref idx st =
     (if idx \<noteq> NULL_REF then
        case find_node idx st of None \<Rightarrow> st | Some node \<Rightarrow> write_node idx (node\<lparr>marked := True\<rparr>) st
      else st)"

text \<open>The globals of an instance with their type and value, and its tables with the type and the values of
  their elements; the module imports none.\<close>

datatype module_kind = Wasm_Module_Bytecode | Wasm_Module_AoT

record instance_state =
  inst_ptr :: nat
  module_type :: module_kind
  globals :: "(byte \<times> u32) list"
  tables :: "(byte \<times> u32 list) list"

definition interp_mark_all_externrefs :: "instance_state \<Rightarrow> externref_state \<Rightarrow> externref_state" where
  "interp_mark_all_externrefs inst st =
     (let st = fold (\<lambda>(type, value). if type = VALUE_TYPE_EXTERNREF then mark_externref value else id) (globals inst) st in
      fold (\<lambda>(type, elems). if type = VALUE_TYPE_EXTERNREF then fold mark_externref elems else id) (tables inst) st)"

text \<open>The AOT variant: the counter \<open>j\<close> is set to 0 once, before the loop over the tables.\<close>

function aot_mark_table :: "u32 list \<Rightarrow> nat \<Rightarrow> externref_state \<Rightarrow> nat \<times> externref_state" where
  "aot_mark_table elems j st =
     (if j < length elems then aot_mark_table elems (j + 1) (mark_externref (elems ! j) st) else (j, st))"
  by pat_completeness auto
termination
  by (relation "measure (\<lambda>(elems, j, st). length elems - j)") auto

declare aot_mark_table.simps [simp del]

fun aot_mark_tables :: "(byte \<times> u32 list) list \<Rightarrow> nat \<Rightarrow> externref_state \<Rightarrow> externref_state" where
  "aot_mark_tables [] j st = st"
| "aot_mark_tables ((type, elems) # ts) j st =
     (if type = VALUE_TYPE_EXTERNREF
      then case aot_mark_table elems j st of (j, st) \<Rightarrow> aot_mark_tables ts j st
      else aot_mark_tables ts j st)"

definition aot_mark_all_externrefs :: "instance_state \<Rightarrow> externref_state \<Rightarrow> externref_state" where
  "aot_mark_all_externrefs inst st =
     aot_mark_tables (tables inst) 0
       (fold (\<lambda>(type, value). if type = VALUE_TYPE_EXTERNREF then mark_externref value else id) (globals inst) st)"

definition wasm_externref_reclaim :: "instance_state \<Rightarrow> externref_state \<Rightarrow> externref_state" where
  "wasm_externref_reclaim inst st =
     (let st = acquire st;
          st = (case module_type inst of
              Wasm_Module_Bytecode \<Rightarrow> interp_mark_all_externrefs inst st
            | Wasm_Module_AoT \<Rightarrow> aot_mark_all_externrefs inst st) in
      release (traverse (reclaim_extobj_callback (inst_ptr inst)) st st))"

definition cleanup_extobj_callback :: "nat \<Rightarrow> u32 \<Rightarrow> ExternRefMapNode \<Rightarrow> externref_state \<Rightarrow> externref_state" where
  "cleanup_extobj_callback inst key node st = (if module_inst node = inst then delete_externref key node st else st)"

definition wasm_externref_cleanup :: "nat \<Rightarrow> externref_state \<Rightarrow> externref_state" where
  "wasm_externref_cleanup inst st = (let st = acquire st in release (traverse (cleanup_extobj_callback inst) st st))"

definition wasm_externref_retain :: "u32 \<Rightarrow> externref_state \<Rightarrow> bool \<times> externref_state" where
  "wasm_externref_retain idx st =
     (let st = acquire st in
      if idx \<noteq> NULL_REF then
        case find_node idx st of
          None \<Rightarrow> (False, release st)
        | Some node \<Rightarrow> (True, release (write_node idx (node\<lparr>retained := True\<rparr>) st))
      else (False, release st))"

definition wasm_externref_map_destroy :: "externref_state \<Rightarrow> (u32, ExternRefMapNode) destroyed list" where
  "wasm_externref_map_destroy st = snd (bh_hash_map_destroy (Some (externref_map st)))"

section \<open>The table as a partial function\<close>

definition nodes :: "externref_state \<Rightarrow> u32 \<rightharpoonup> ExternRefMapNode" where
  "nodes st k = Option.bind (hm_lookup (externref_map st) k) id"

text \<open>The map is well formed, without a lock, and no entry holds a null pointer.\<close>

definition map_ok :: "externref_state \<Rightarrow> bool" where
  "map_ok st \<longleftrightarrow> hm_ok (externref_map st) \<and> key_equal_func (externref_map st) = (=)
     \<and> (\<forall>k. hm_lookup (externref_map st) k \<noteq> Some None)"

text \<open>The entries of an instance have different objects, and their keys are below the next free one.\<close>

definition ext_ok :: "externref_state \<Rightarrow> bool" where
  "ext_ok st \<longleftrightarrow> map_ok st \<and> \<not> externref_lock st \<and> externref_global_id st \<noteq> 0
     \<and> (\<forall>k n. nodes st k = Some n \<longrightarrow> k \<noteq> 0 \<and> k < externref_global_id st)
     \<and> (\<forall>k1 k2 n1 n2. nodes st k1 = Some n1 \<and> nodes st k2 = Some n2
          \<and> extern_obj n1 = extern_obj n2 \<and> module_inst n1 = module_inst n2 \<longrightarrow> k1 = k2)"

lemma externref_keys: "key_functions wasm_externref_hash wasm_externref_equal"
  unfolding key_functions_def wasm_externref_equal_def by (simp add: identity_equivp)

lemma map_ok_lock [simp]:
  "map_ok (st\<lparr>externref_lock := b\<rparr>) = map_ok st" "nodes (st\<lparr>externref_lock := b\<rparr>) = nodes st"
  "map_ok (st\<lparr>cleaned := c\<rparr>) = map_ok st" "nodes (st\<lparr>cleaned := c\<rparr>) = nodes st"
  "map_ok (st\<lparr>externref_global_id := i\<rparr>) = map_ok st" "nodes (st\<lparr>externref_global_id := i\<rparr>) = nodes st"
  by (auto simp: map_ok_def nodes_def fun_eq_iff)

lemma acquire_simps [simp]:
  "map_ok (acquire st) = map_ok st" "nodes (acquire st) = nodes st" "map_ok (release st) = map_ok st" "nodes (release st) = nodes st"
  "externref_map (acquire st) = externref_map st" "externref_map (release st) = externref_map st"
  "externref_global_id (acquire st) = externref_global_id st" "externref_global_id (release st) = externref_global_id st"
  "externref_lock (release st) = False" "cleaned (acquire st) = cleaned st" "cleaned (release st) = cleaned st"
  by (simp_all add: acquire_def release_def)

lemma nodes_lookup: "map_ok st \<Longrightarrow> nodes st k = Some n \<longleftrightarrow> hm_lookup (externref_map st) k = Some (Some n)"
  by (cases "hm_lookup (externref_map st) k") (auto simp: nodes_def map_ok_def)

lemma find_node_nodes: "map_ok st \<Longrightarrow> idx \<noteq> 0 \<Longrightarrow> find_node idx st = nodes st idx"
  by (simp add: find_node_def key_ptr_def hm_find_ok map_ok_def nodes_def)

lemma find_node_0 [simp]: "find_node 0 st = None"
  by (simp add: find_node_def key_ptr_def bh_hash_map_find_def)

lemma write_node_ok:
  assumes "map_ok st" "nodes st k \<noteq> None"
  shows "map_ok (write_node k n st)" "nodes (write_node k n st) = (nodes st)(k \<mapsto> n)"
proof -
  let ?m = "externref_map st"
  obtain b m' where u: "hm_update ?m k (Some n) = (b, m')" by fastforce
  have "hm_lookup ?m k \<noteq> None" using assms(2) by (auto simp: nodes_def bind_eq_Some_conv)
  then have m': "hm_ok m'" "key_equal_func m' = (=)" "hm_lookup m' = (hm_lookup ?m)(k \<mapsto> Some n)"
    using hm.update_law [OF _ u] assms(1) by (auto simp: map_ok_def fun_eq_iff)
  then show "map_ok (write_node k n st)" "nodes (write_node k n st) = (nodes st)(k \<mapsto> n)"
    using assms(1) by (auto simp: map_ok_def write_node_def u nodes_def fun_eq_iff)
qed

lemma delete_ok:
  assumes "map_ok st"
  shows "map_ok (delete_externref k n st)" "nodes (delete_externref k n st) = (nodes st)(k := None)"
    "cleaned (delete_externref k n st) = cleaned st @ (case cleanup n of None \<Rightarrow> [] | Some f \<Rightarrow> [(f, extern_obj n)])"
proof -
  let ?m = "externref_map st"
  obtain b m' where u: "hm_remove ?m k = (b, m')" by fastforce
  have m': "hm_ok m'" "key_equal_func m' = (=)" "hm_lookup m' = (hm_lookup ?m)(k := None)"
    using hm.remove_law [OF _ u] assms(1) by (auto simp: map_ok_def fun_eq_iff)
  have d: "delete_externref k n st = (case cleanup n of None \<Rightarrow> st\<lparr>externref_map := m'\<rparr>
      | Some f \<Rightarrow> (st\<lparr>externref_map := m'\<rparr>)\<lparr>cleaned := cleaned st @ [(f, extern_obj n)]\<rparr>)"
    by (auto simp: delete_externref_def u split: option.split)
  have "map_ok (st\<lparr>externref_map := m'\<rparr>)" "nodes (st\<lparr>externref_map := m'\<rparr>) = (nodes st)(k := None)"
    using m' assms(1) by (auto simp: map_ok_def nodes_def fun_eq_iff)
  then show "map_ok (delete_externref k n st)" "nodes (delete_externref k n st) = (nodes st)(k := None)"
    "cleaned (delete_externref k n st) = cleaned st @ (case cleanup n of None \<Rightarrow> [] | Some f \<Rightarrow> [(f, extern_obj n)])"
    by (auto simp: d split: option.split)
qed

lemma write_node_fields [simp]:
  "externref_lock (write_node k n st) = externref_lock st" "externref_global_id (write_node k n st) = externref_global_id st"
  "cleaned (write_node k n st) = cleaned st"
  by (simp_all add: write_node_def)

lemma delete_fields [simp]:
  "externref_lock (delete_externref k n st) = externref_lock st"
  "externref_global_id (delete_externref k n st) = externref_global_id st"
  by (simp_all add: delete_externref_def Let_def split: option.split)

section \<open>Traversals\<close>

lemma distinct_chains:
  assumes "\<forall>i < length L. \<forall>e \<in> set (L ! i). h (fst e) = c + i" "\<forall>i < length L. distinct (map fst (L ! i))"
  shows "distinct (map fst (concat L))"
  using assms
proof (induction L arbitrary: c)
  case (Cons es L)
  have "h (fst e) = c" if "e \<in> set es" for e using Cons.prems(1) that by fastforce
  moreover have "h (fst e) \<noteq> c" if e: "e \<in> set (concat L)" for e
  proof -
    obtain es' where "es' \<in> set L" "e \<in> set es'" using e by auto
    then obtain i where "i < length L" "e \<in> set (L ! i)" by (auto simp: in_set_conv_nth [of es'])
    then show ?thesis using Cons.prems(1) [rule_format, of "Suc i" e] by simp
  qed
  ultimately have "fst ` set es \<inter> fst ` set (concat L) = {}" by force
  moreover have "distinct (map fst (concat L))"
    using Cons.prems by (intro Cons.IH [of "Suc c"]) fastforce+
  moreover have "distinct (map fst es)" using Cons.prems(2) by fastforce
  ultimately show ?case by simp
qed simp

lemma keys_distinct:
  assumes "hm_ok m" "key_equal_func m = (=)"
  shows "distinct (map fst (concat (elements m)))"
proof (rule distinct_chains [of _ "index_of m" 0])
  show "\<forall>i < length (elements m). distinct (map fst (elements m ! i))"
    using assms by (auto simp: hm_ok_def distinct_conv_nth sorted_wrt_iff_nth_less) (metis linorder_neqE_nat)
qed (use assms in \<open>simp add: hm_ok_def\<close>)

lemma elements_nodes:
  assumes "map_ok st"
  shows "(k, v) \<in> set (concat (elements (externref_map st))) \<longleftrightarrow> (\<exists>n. v = Some n \<and> nodes st k = Some n)"
proof
  assume "(k, v) \<in> set (concat (elements (externref_map st)))"
  then have "hm_lookup (externref_map st) k = Some v" using assms by (intro in_elements) (simp_all add: map_ok_def)
  then show "\<exists>n. v = Some n \<and> nodes st k = Some n" using assms by (cases v) (auto simp: map_ok_def nodes_def)
next
  assume "\<exists>n. v = Some n \<and> nodes st k = Some n"
  then have "hm_lookup (externref_map st) k = Some v" using assms by (auto simp: nodes_lookup)
  then show "(k, v) \<in> set (concat (elements (externref_map st)))"
    using lookup_elements [of "externref_map st" k v] assms by (auto simp: map_ok_def)
qed

text \<open>The entries a traversal visits.\<close>

definition entries :: "externref_state \<Rightarrow> (u32 \<times> ExternRefMapNode) list" where
  "entries st = map (\<lambda>(k, v). (k, the v)) (concat (elements (externref_map st)))"

lemma traverse_entries:
  assumes "map_ok st"
  shows "traverse f st u = fold (\<lambda>(k, n). f k n) (entries st) u"
proof -
  have "fold (\<lambda>(k, v). case v of None \<Rightarrow> id | Some n \<Rightarrow> f k n) es u = fold (\<lambda>(k, n). f k n) (map (\<lambda>(k, v). (k, the v)) es) u"
    if "\<forall>e \<in> set es. snd e \<noteq> None" for es
    using that by (induction es arbitrary: u) auto
  moreover have "\<forall>e \<in> set (concat (elements (externref_map st))). snd e \<noteq> None"
    using elements_nodes [OF assms] by (metis option.distinct(1) prod.collapse)
  ultimately show ?thesis by (simp add: traverse_def bh_hash_map_traverse_def entries_def)
qed

lemma set_entries: "map_ok st \<Longrightarrow> (k, n) \<in> set (entries st) \<longleftrightarrow> nodes st k = Some n"
proof -
  assume st: "map_ok st"
  have "(k, n) \<in> set (entries st) \<longleftrightarrow> (\<exists>v. (k, v) \<in> set (concat (elements (externref_map st))) \<and> the v = n)"
    unfolding entries_def set_map by (auto simp del: set_concat intro: rev_image_eqI)
  then show ?thesis unfolding elements_nodes [OF st] by auto
qed

lemma distinct_entries: "map_ok st \<Longrightarrow> distinct (map fst (entries st))"
  using keys_distinct [of "externref_map st"] by (simp add: entries_def map_ok_def comp_def case_prod_beta)

text \<open>A traversal whose callback replaces or removes the entry it is called for.\<close>

lemma fold_entries:
  assumes "map_ok st" "distinct (map fst es)" "\<forall>(k, n) \<in> set es. nodes st k = Some n"
    and "\<And>st k n. map_ok st \<Longrightarrow> nodes st k = Some n \<Longrightarrow> map_ok (f k n st) \<and> nodes (f k n st) = (nodes st)(k := g n)
           \<and> externref_global_id (f k n st) = externref_global_id st"
  shows "map_ok (fold (\<lambda>(k, n). f k n) es st)
    \<and> nodes (fold (\<lambda>(k, n). f k n) es st) = (\<lambda>k. if k \<in> fst ` set es then Option.bind (nodes st k) g else nodes st k)
    \<and> externref_global_id (fold (\<lambda>(k, n). f k n) es st) = externref_global_id st"
  using assms(1-3)
proof (induction es arbitrary: st)
  case (Cons e es)
  obtain k n where e: "e = (k, n)" by (cases e)
  have f: "map_ok (f k n st)" "nodes (f k n st) = (nodes st)(k := g n)" "externref_global_id (f k n st) = externref_global_id st"
    using assms(4) [of st k n] Cons.prems e by auto
  have "\<forall>(k', n') \<in> set es. nodes (f k n st) k' = Some n'"
    using Cons.prems e f(2) by (auto simp: rev_image_eqI)
  from Cons.IH [OF f(1) _ this] Cons.prems e f show ?case by (auto simp: fun_eq_iff)
qed auto

lemma traverse_update:
  assumes "map_ok st"
    and "\<And>st k n. map_ok st \<Longrightarrow> nodes st k = Some n \<Longrightarrow> map_ok (f k n st) \<and> nodes (f k n st) = (nodes st)(k := g n)
           \<and> externref_global_id (f k n st) = externref_global_id st"
  shows "map_ok (traverse f st st)" "nodes (traverse f st st) = (\<lambda>k. Option.bind (nodes st k) g)"
    "externref_global_id (traverse f st st) = externref_global_id st"
proof -
  have "\<forall>(k, n) \<in> set (entries st). nodes st k = Some n" using set_entries [OF assms(1)] by auto
  note F = fold_entries [OF assms(1) distinct_entries [OF assms(1)] this assms(2)]
  have "nodes st k = None" if "k \<notin> fst ` set (entries st)" for k
  proof (rule ccontr)
    assume "nodes st k \<noteq> None"
    then obtain n where "(k, n) \<in> set (entries st)" using set_entries [OF assms(1), of k] by auto
    with that show False by (metis fst_conv imageI)
  qed
  with F show "map_ok (traverse f st st)" "nodes (traverse f st st) = (\<lambda>k. Option.bind (nodes st k) g)"
    "externref_global_id (traverse f st st) = externref_global_id st"
    by (auto simp: traverse_entries [OF assms(1)] fun_eq_iff)
qed

section \<open>The invariant is kept\<close>

lemma lookup_fold:
  "fold (\<lambda>(k, n). lookup_extobj_callback obj inst k n) es u = Some idx \<Longrightarrow>
   u = Some idx \<or> (\<exists>n. (idx, n) \<in> set es \<and> extern_obj n = obj \<and> module_inst n = inst)"
proof (induction es arbitrary: u)
  case (Cons e es)
  then show ?case
    using Cons.IH [of "lookup_extobj_callback obj inst (fst e) (snd e) u"]
    by (cases e) (auto simp: lookup_extobj_callback_def split: if_splits)
qed simp

lemma lookup_fold_None:
  "fold (\<lambda>(k, n). lookup_extobj_callback obj inst k n) es u = None \<Longrightarrow>
   u = None \<and> (\<forall>(k, n) \<in> set es. \<not> (extern_obj n = obj \<and> module_inst n = inst))"
proof (induction es arbitrary: u)
  case (Cons e es)
  then show ?case
    using Cons.IH [of "lookup_extobj_callback obj inst (fst e) (snd e) u"]
    by (cases e) (auto simp: lookup_extobj_callback_def split: if_splits)
qed simp

text \<open>The traversal that looks for an object finds its entry, and there is at most one.\<close>

lemma lookup_found:
  assumes "map_ok st" "traverse (lookup_extobj_callback obj inst) st None = Some idx"
  shows "\<exists>n. nodes st idx = Some n \<and> extern_obj n = obj \<and> module_inst n = inst"
  using lookup_fold [of obj inst "entries st" None idx] assms by (auto simp: traverse_entries set_entries)

lemma lookup_missing:
  assumes "map_ok st" "traverse (lookup_extobj_callback obj inst) st None = None" "nodes st k = Some n"
  shows "\<not> (extern_obj n = obj \<and> module_inst n = inst)"
  using lookup_fold_None [of obj inst "entries st" None] assms by (auto simp: traverse_entries set_entries)

lemma ext_okD:
  assumes "ext_ok st"
  shows "map_ok st" "\<not> externref_lock st" "externref_global_id st \<noteq> 0"
    "nodes st k = Some n \<Longrightarrow> k \<noteq> 0" "nodes st k = Some n \<Longrightarrow> k < externref_global_id st"
    "nodes st k1 = Some n1 \<Longrightarrow> nodes st k2 = Some n2 \<Longrightarrow> extern_obj n1 = extern_obj n2 \<Longrightarrow> module_inst n1 = module_inst n2 \<Longrightarrow> k1 = k2"
  using assms by (auto simp: ext_ok_def)

lemma find_node_ok: "ext_ok st \<Longrightarrow> find_node idx st = nodes st idx"
proof (cases "idx = 0")
  case True
  assume "ext_ok st"
  with True show ?thesis using ext_okD(4) [of st 0] by (cases "nodes st 0") auto
qed (simp add: find_node_nodes ext_okD(1))

lemma below_null: "k < externref_global_id st \<Longrightarrow> k \<noteq> NULL_REF"
proof
  assume "k < externref_global_id st" "k = NULL_REF"
  then have "NULL_REF < externref_global_id st" by simp
  then have "unat NULL_REF < unat (externref_global_id st)" by (simp add: word_less_nat_alt)
  moreover have "unat (externref_global_id st) < 2 ^ 32" by (rule unat_u32_less)
  moreover have "unat NULL_REF = 2 ^ 32 - 1" by (simp add: NULL_REF_def)
  ultimately show False by simp
qed

text \<open>Changes that keep the identity of the nodes, or remove some, keep the invariant.\<close>

lemma ext_ok_shrink:
  assumes "ext_ok st" "map_ok st'" "\<not> externref_lock st'" "externref_global_id st' = externref_global_id st"
    and "\<And>k n'. nodes st' k = Some n' \<Longrightarrow>
      \<exists>n. nodes st k = Some n \<and> extern_obj n' = extern_obj n \<and> module_inst n' = module_inst n"
  shows "ext_ok st'"
  unfolding ext_ok_def
proof (intro conjI allI impI)
  fix k n assume "nodes st' k = Some n"
  with assms(5) obtain n0 where "nodes st k = Some n0" by blast
  then show "k \<noteq> 0" "k < externref_global_id st'" using ext_okD [OF assms(1)] assms(4) by auto
next
  fix k1 k2 n1 n2
  assume *: "nodes st' k1 = Some n1 \<and> nodes st' k2 = Some n2 \<and> extern_obj n1 = extern_obj n2 \<and> module_inst n1 = module_inst n2"
  with assms(5) [of k1 n1] assms(5) [of k2 n2] show "k1 = k2" using ext_okD(6) [OF assms(1)] by metis
qed (use assms ext_okD(3) [OF assms(1)] in auto)

lemma obj2ref_ok:
  assumes "ext_ok st" "obj \<noteq> - 1" "wasm_externref_obj2ref node_ok elem_ok inst obj st = (Some idx, st')"
  shows "ext_ok st' \<and> (\<exists>n. nodes st' idx = Some n \<and> extern_obj n = obj \<and> module_inst n = inst)
    \<and> (\<forall>k n. nodes st k = Some n \<longrightarrow> nodes st' k = Some n)
    \<and> (\<forall>k n. nodes st' k = Some n \<longrightarrow> nodes st k = Some n \<or> \<not> marked n \<and> \<not> retained n)"
proof -
  note ok = ext_okD [OF assms(1)]
  show ?thesis
  proof (cases "traverse (lookup_extobj_callback obj inst) (acquire st) None")
    case (Some i)
    then have "i = idx" "st' = release (acquire st)"
      using assms(2,3) by (auto simp: wasm_externref_obj2ref_def Let_def)
    moreover have "ext_ok (release (acquire st))"
      by (rule ext_ok_shrink [OF assms(1)]) (use ok(1) in auto)
    ultimately show ?thesis using lookup_found [OF _ Some] ok(1) by auto
  next
    case None
    define n where "n = \<lparr>extern_obj = obj, module_inst = inst, retained = False, marked = False, cleanup = None\<rparr>"
    let ?id = "externref_global_id st"
    obtain b m' where i: "hm_insert elem_ok (externref_map st) ?id (Some n) = (b, m')" by fastforce
    have ins: "bh_hash_map_insert elem_ok (Some (externref_map st)) (key_ptr ?id) (Some n) = (b, Some m')"
      using i ok(3) by (auto simp: hm_insert_def key_ptr_def bh_hash_map_insert_def Let_def split: if_splits)
    have res: "idx = ?id" "b" "?id \<noteq> NULL_REF"
      "st' = release ((acquire st)\<lparr>externref_map := m', externref_global_id := ?id + 1\<rparr>)"
      using assms(2,3) None ins unfolding n_def
      by (auto simp: wasm_externref_obj2ref_def Let_def split: if_splits bool.splits)
    have m': "hm_ok m'" "key_equal_func m' = (=)" "hm_lookup m' = (hm_lookup (externref_map st))(?id \<mapsto> Some n)"
      using hm.insert_law [OF _ i] ok(1) res(2) by (auto simp: map_ok_def fun_eq_iff)
    have nd: "map_ok st'" "nodes st' = (nodes st)(?id \<mapsto> n)"
      using m' ok(1) by (auto simp: res(4) map_ok_def nodes_def release_def acquire_def fun_eq_iff)
    have "unat ?id + 1 < 2 ^ 32"
      using res(3) unat_u32_less [of ?id] by (auto simp: NULL_REF_def word_unat_eq_iff)
    then have id: "unat (?id + 1) = unat ?id + 1" by (simp add: unat_word_ariths)
    have gid: "externref_global_id st' = ?id + 1" by (simp add: res(4))
    have fresh: "nodes st ?id = None"
      using ok(5) [of ?id] by (cases "nodes st ?id") auto
    have "ext_ok st'"
      unfolding ext_ok_def
    proof (intro conjI allI impI)
      fix k n' assume "nodes st' k = Some n'"
      then show "k \<noteq> 0" "k < externref_global_id st'"
        using ok(3) ok(4,5) [of k n'] id gid by (auto simp: nd(2) word_less_nat_alt split: if_splits)
    next
      fix k1 k2 n1 n2
      assume "nodes st' k1 = Some n1 \<and> nodes st' k2 = Some n2 \<and> extern_obj n1 = extern_obj n2 \<and> module_inst n1 = module_inst n2"
      then show "k1 = k2"
        using ok(6) [of k1 n1 k2 n2] lookup_missing [OF _ None, of k1 n1] lookup_missing [OF _ None, of k2 n2] ok(1)
        by (auto simp: nd(2) n_def split: if_splits)
    next
      have "unat (?id + 1) \<noteq> 0" using id by simp
      then show "externref_global_id st' \<noteq> 0" by (auto simp: res(4))
    qed (use nd(1) in \<open>simp_all add: res(4)\<close>)
    moreover have "nodes st' idx = Some n" by (simp add: nd(2) res(1))
    moreover have "\<forall>k n. nodes st k = Some n \<longrightarrow> nodes st' k = Some n" using fresh by (auto simp: nd(2))
    moreover have "\<forall>k n. nodes st' k = Some n \<longrightarrow> nodes st k = Some n \<or> \<not> marked n \<and> \<not> retained n"
      by (auto simp: nd(2) n_def)
    ultimately show ?thesis by (auto simp: n_def)
  qed
qed

lemma ref2obj_ok:
  assumes "ext_ok st" "nodes st idx = Some n"
  shows "wasm_externref_ref2obj idx st = (Some (extern_obj n), st)"
proof -
  have "idx \<noteq> NULL_REF" by (rule below_null [OF ext_okD(5) [OF assms]])
  moreover have "find_node idx (acquire st) = Some n"
    using assms by (simp add: find_node_nodes ext_okD(1) ext_okD(4) [OF assms])
  moreover have "release (acquire st) = st"
    using ext_okD(2) [OF assms(1)] by (simp add: release_def acquire_def)
  ultimately show ?thesis by (simp add: wasm_externref_ref2obj_def Let_def)
qed

section \<open>Marking and reclaiming\<close>

definition mark :: "u32 set \<Rightarrow> u32 \<Rightarrow> ExternRefMapNode \<Rightarrow> ExternRefMapNode" where
  "mark refs k n = (if k \<in> refs then n\<lparr>marked := True\<rparr> else n)"

text \<open>What the marking phases work on: a well-formed map without the two special keys.\<close>

definition markable :: "externref_state \<Rightarrow> bool" where
  "markable st \<longleftrightarrow> map_ok st \<and> nodes st 0 = None \<and> nodes st NULL_REF = None"

definition marks :: "u32 set \<Rightarrow> externref_state \<Rightarrow> externref_state \<Rightarrow> bool" where
  "marks refs st st' \<longleftrightarrow> markable st' \<and> nodes st' = (\<lambda>k. map_option (mark refs k) (nodes st k))
     \<and> externref_global_id st' = externref_global_id st"

lemma marks_refl: "markable st \<Longrightarrow> marks {} st st"
  by (auto simp: marks_def mark_def fun_eq_iff intro!: option.map_ident_strong [symmetric])

lemma marks_trans: "marks a st st1 \<Longrightarrow> marks b st1 st2 \<Longrightarrow> marks (a \<union> b) st st2"
  by (auto simp: marks_def mark_def fun_eq_iff option.map_comp comp_def intro!: option.map_cong)

lemma markable_marks: "marks a st st' \<Longrightarrow> markable st'"
  by (simp add: marks_def)

lemma mark_externref_marks:
  assumes "markable st"
  shows "marks {idx} st (mark_externref idx st)"
proof (cases "nodes st idx")
  case None
  then have "mark_externref idx st = st"
    using assms by (cases "idx = 0") (auto simp: mark_externref_def find_node_nodes markable_def)
  with None assms show ?thesis by (auto simp: marks_def mark_def fun_eq_iff intro!: option.map_ident_strong [symmetric])
next
  case (Some n)
  then have idx: "idx \<noteq> 0" "idx \<noteq> NULL_REF" using assms by (auto simp: markable_def)
  with Some assms have "mark_externref idx st = write_node idx (n\<lparr>marked := True\<rparr>) st"
    by (simp add: mark_externref_def find_node_nodes markable_def)
  moreover have "map_ok st" using assms by (simp add: markable_def)
  ultimately show ?thesis
    using Some assms idx write_node_ok [of st idx "n\<lparr>marked := True\<rparr>"]
    by (auto simp: marks_def markable_def mark_def fun_eq_iff intro!: option.map_ident_strong [symmetric])
qed

lemma mark_all_marks: "markable st \<Longrightarrow> marks (set refs) st (fold mark_externref refs st)"
proof (induction refs arbitrary: st)
  case (Cons r refs)
  have "marks {r} st (mark_externref r st)" by (rule mark_externref_marks [OF Cons.prems])
  from marks_trans [OF this Cons.IH [OF markable_marks [OF this]]] show ?case by simp
qed (simp add: marks_refl)

definition global_refs :: "instance_state \<Rightarrow> u32 set" where
  "global_refs inst = {v. (VALUE_TYPE_EXTERNREF, v) \<in> set (globals inst)}"

definition table_refs :: "instance_state \<Rightarrow> u32 set" where
  "table_refs inst = (\<Union>(type, elems) \<in> set (tables inst). if type = VALUE_TYPE_EXTERNREF then set elems else {})"

lemma global_marks:
  "markable st \<Longrightarrow> marks {v. (VALUE_TYPE_EXTERNREF, v) \<in> set gs} st
     (fold (\<lambda>(type, value). if type = VALUE_TYPE_EXTERNREF then mark_externref value else id) gs st)"
proof (induction gs arbitrary: st)
  case (Cons g gs)
  obtain type v where g: "g = (type, v)" by (cases g)
  show ?case
  proof (cases "type = VALUE_TYPE_EXTERNREF")
    case True
    have "marks {v} st (mark_externref v st)" by (rule mark_externref_marks [OF Cons.prems])
    note m = marks_trans [OF this Cons.IH [OF markable_marks [OF this]]]
    have "{v. (VALUE_TYPE_EXTERNREF, v) \<in> set (g # gs)} = {v} \<union> {v. (VALUE_TYPE_EXTERNREF, v) \<in> set gs}"
      using True g by auto
    with m True g show ?thesis by simp
  next
    case False
    with Cons.IH [OF Cons.prems] g show ?thesis by auto
  qed
qed (simp add: marks_refl)

lemma table_marks:
  "markable st \<Longrightarrow> marks (\<Union>(type, elems) \<in> set ts. if type = VALUE_TYPE_EXTERNREF then set elems else {}) st
     (fold (\<lambda>(type, elems). if type = VALUE_TYPE_EXTERNREF then fold mark_externref elems else id) ts st)"
proof (induction ts arbitrary: st)
  case (Cons t ts)
  obtain type elems where t: "t = (type, elems)" by (cases t)
  show ?case
  proof (cases "type = VALUE_TYPE_EXTERNREF")
    case True
    have "marks (set elems) st (fold mark_externref elems st)" by (rule mark_all_marks [OF Cons.prems])
    from marks_trans [OF this Cons.IH [OF markable_marks [OF this]]] True t show ?thesis by simp
  qed (use Cons t in simp)
qed (simp add: marks_refl)

lemma interp_marks:
  assumes "markable st"
  shows "marks (global_refs inst \<union> table_refs inst) st (interp_mark_all_externrefs inst st)"
proof -
  note g = global_marks [OF assms, of "globals inst"]
  from marks_trans [OF g table_marks [OF markable_marks [OF g]]] show ?thesis
    by (simp add: interp_mark_all_externrefs_def global_refs_def table_refs_def)
qed

text \<open>The AOT variant marks, of each table, only the elements behind the length of the tables before it.\<close>

fun aot_table_refs :: "(byte \<times> u32 list) list \<Rightarrow> nat \<Rightarrow> u32 set" where
  "aot_table_refs [] j = {}"
| "aot_table_refs ((type, elems) # ts) j =
     (if type = VALUE_TYPE_EXTERNREF then set (drop j elems) \<union> aot_table_refs ts (max j (length elems))
      else aot_table_refs ts j)"

lemma aot_mark_table_eq:
  "aot_mark_table elems j st = (max j (length elems), fold mark_externref (drop j elems) st)"
proof (induction elems j st rule: aot_mark_table.induct)
  case (1 elems j st)
  show ?case
  proof (cases "j < length elems")
    case True
    then have "drop j elems = elems ! j # drop (j + 1) elems" by (simp add: Cons_nth_drop_Suc)
    with True 1 show ?thesis by (subst aot_mark_table.simps) simp
  next
    case False
    then show ?thesis by (subst aot_mark_table.simps) simp
  qed
qed

lemma aot_table_marks: "markable st \<Longrightarrow> marks (aot_table_refs ts j) st (aot_mark_tables ts j st)"
proof (induction ts arbitrary: j st)
  case (Cons t ts)
  obtain type elems where t: "t = (type, elems)" by (cases t)
  show ?case
  proof (cases "type = VALUE_TYPE_EXTERNREF")
    case True
    have "marks (set (drop j elems)) st (fold mark_externref (drop j elems) st)" by (rule mark_all_marks [OF Cons.prems])
    from marks_trans [OF this Cons.IH [OF markable_marks [OF this]]] True t show ?thesis
      by (simp add: aot_mark_table_eq)
  qed (use Cons t in simp)
qed (simp add: marks_refl)

lemma aot_marks:
  assumes "markable st"
  shows "marks (global_refs inst \<union> aot_table_refs (tables inst) 0) st (aot_mark_all_externrefs inst st)"
proof -
  note g = global_marks [OF assms, of "globals inst"]
  from marks_trans [OF g aot_table_marks [OF markable_marks [OF g]]] show ?thesis
    by (simp add: aot_mark_all_externrefs_def global_refs_def)
qed

definition marked_refs :: "instance_state \<Rightarrow> u32 set" where
  "marked_refs inst = global_refs inst \<union>
     (case module_type inst of Wasm_Module_Bytecode \<Rightarrow> table_refs inst | Wasm_Module_AoT \<Rightarrow> aot_table_refs (tables inst) 0)"

definition reclaimed :: "nat \<Rightarrow> u32 set \<Rightarrow> u32 \<Rightarrow> ExternRefMapNode \<Rightarrow> ExternRefMapNode option" where
  "reclaimed inst refs k n =
     (if module_inst n = inst then
        if k \<in> refs \<or> marked n \<or> retained n then Some (n\<lparr>marked := False\<rparr>) else None
      else Some (mark refs k n))"

lemma reclaim_nodes:
  assumes "ext_ok st"
  shows "ext_ok (wasm_externref_reclaim inst st)"
    "nodes (wasm_externref_reclaim inst st) = (\<lambda>k. Option.bind (nodes st k) (reclaimed (inst_ptr inst) (marked_refs inst) k))"
proof -
  define st1 where "st1 = (case module_type inst of Wasm_Module_Bytecode \<Rightarrow> interp_mark_all_externrefs inst (acquire st)
    | Wasm_Module_AoT \<Rightarrow> aot_mark_all_externrefs inst (acquire st))"
  have "nodes st 0 = None" "nodes st NULL_REF = None"
    using ext_okD(4) [OF assms, of 0] below_null [OF ext_okD(5) [OF assms, of NULL_REF]]
    by (cases "nodes st 0"; cases "nodes st NULL_REF"; auto)+
  then have "markable (acquire st)" using ext_okD(1) [OF assms] by (simp add: markable_def)
  then have "marks (marked_refs inst) (acquire st) st1"
    by (auto simp: st1_def marked_refs_def interp_marks aot_marks split: module_kind.split)
  then have m: "map_ok st1" "nodes st1 = (\<lambda>k. map_option (mark (marked_refs inst) k) (nodes st k))"
    "externref_global_id st1 = externref_global_id st"
    by (auto simp: marks_def markable_def)
  let ?f = "reclaim_extobj_callback (inst_ptr inst)"
  let ?g = "\<lambda>n. if module_inst n = inst_ptr inst then if \<not> marked n \<and> \<not> retained n then None else Some (n\<lparr>marked := False\<rparr>)
    else Some n"
  have f: "map_ok (?f k n st) \<and> nodes (?f k n st) = (nodes st)(k := ?g n) \<and> externref_global_id (?f k n st) = externref_global_id st"
    if "map_ok st" "nodes st k = Some n" for st k n
    using that delete_ok [OF that(1)] write_node_ok [OF that(1)] by (auto simp: reclaim_extobj_callback_def fun_eq_iff)
  note t = traverse_update [OF m(1), of ?f ?g, OF f]
  have r: "wasm_externref_reclaim inst st = release (traverse ?f st1 st1)"
    by (simp add: wasm_externref_reclaim_def st1_def Let_def)
  show n: "nodes (wasm_externref_reclaim inst st) = (\<lambda>k. Option.bind (nodes st k) (reclaimed (inst_ptr inst) (marked_refs inst) k))"
    unfolding r by (rule ext, case_tac "nodes st k") (auto simp: t(2) m(2) reclaimed_def mark_def)
  show "ext_ok (wasm_externref_reclaim inst st)"
  proof (rule ext_ok_shrink [OF assms])
    fix k n' assume "nodes (wasm_externref_reclaim inst st) k = Some n'"
    then show "\<exists>n. nodes st k = Some n \<and> extern_obj n' = extern_obj n \<and> module_inst n' = module_inst n"
      by (auto simp: n bind_eq_Some_conv reclaimed_def mark_def split: if_splits)
  qed (use t m in \<open>auto simp: r\<close>)
qed

section \<open>The other operations\<close>

lemma ext_ok_idle: "ext_ok st \<Longrightarrow> release (acquire st) = st"
  by (simp add: release_def acquire_def ext_ok_def)

lemma failed_insert:
  assumes "ext_ok st" "bh_hash_map_insert ok (Some (externref_map st)) (key_ptr (externref_global_id st)) v = (False, m)"
  shows "ext_ok (release ((acquire st)\<lparr>externref_map := the m\<rparr>))"
proof -
  have i: "hm_insert ok (externref_map st) (externref_global_id st) v = (False, the m)"
    using assms(2) ext_okD(3) [OF assms(1)] by (simp add: hm_insert_def key_ptr_def)
  have m: "hm_ok (the m)" "key_equal_func (the m) = (=)" "hm_lookup (the m) = hm_lookup (externref_map st)"
    using hm.insert_law [OF _ i] ext_okD(1) [OF assms(1)] by (auto simp: map_ok_def)
  have n: "nodes (release ((acquire st)\<lparr>externref_map := the m\<rparr>)) = nodes st"
    by (simp add: nodes_def fun_eq_iff release_def acquire_def m(3))
  show ?thesis
    by (rule ext_ok_shrink [OF assms(1)])
      (use m ext_okD(1) [OF assms(1)] n in \<open>auto simp: map_ok_def release_def acquire_def\<close>)
qed

lemma obj2ref_keeps:
  assumes "ext_ok st"
  shows "ext_ok (snd (wasm_externref_obj2ref node_ok elem_ok inst obj st))"
proof (cases "fst (wasm_externref_obj2ref node_ok elem_ok inst obj st)")
  case (Some idx)
  then show ?thesis
    using obj2ref_ok [OF assms, of obj node_ok elem_ok inst idx] assms
    by (cases "obj = - 1") (auto simp: wasm_externref_obj2ref_def prod_eq_iff)
next
  case None
  then show ?thesis
    using failed_insert [OF assms] ext_ok_idle [OF assms] assms
    by (auto simp: wasm_externref_obj2ref_def Let_def split: option.splits prod.splits bool.splits if_splits)
qed

lemma obj2ref_succeeds:
  assumes "ext_ok st" "externref_global_id st \<noteq> NULL_REF"
  shows "\<exists>idx st'. wasm_externref_obj2ref True True inst obj st = (Some idx, st')"
proof -
  let ?id = "externref_global_id st"
  have "nodes st ?id = None" using ext_okD(5) [OF assms(1), of ?id] by (cases "nodes st ?id") auto
  then have "hm_lookup (externref_map st) ?id = None"
    using ext_okD(1) [OF assms(1)] by (cases "hm_lookup (externref_map st) ?id") (auto simp: nodes_def map_ok_def)
  then have "fst (hm_insert True (externref_map st) ?id v) = True" for v
    using hm_insert_ok [of "externref_map st" True ?id v] ext_okD(1) [OF assms(1)]
    by (cases "hm_insert True (externref_map st) ?id v") (auto simp: map_ok_def)
  then have "fst (bh_hash_map_insert True (Some (externref_map st)) (key_ptr ?id) v) = True" for v
    using ext_okD(3) [OF assms(1)] by (simp add: hm_insert_def key_ptr_def)
  then show ?thesis
    using assms(2) ext_okD(3) [OF assms(1)]
    by (auto simp: wasm_externref_obj2ref_def Let_def split: option.split prod.split bool.split)
      (metis fst_conv)
qed

lemma write_keeps:
  assumes "ext_ok st" "nodes st k = Some n" "extern_obj n' = extern_obj n" "module_inst n' = module_inst n"
  shows "ext_ok (release (write_node k n' (acquire st)))"
    "nodes (release (write_node k n' (acquire st))) = (nodes st)(k \<mapsto> n')"
proof -
  have w: "map_ok (write_node k n' (acquire st))" "nodes (write_node k n' (acquire st)) = (nodes st)(k \<mapsto> n')"
    using write_node_ok [of "acquire st" k n'] ext_okD(1) [OF assms(1)] assms(2) by simp_all
  then show "nodes (release (write_node k n' (acquire st))) = (nodes st)(k \<mapsto> n')" by simp
  show "ext_ok (release (write_node k n' (acquire st)))"
    by (rule ext_ok_shrink [OF assms(1)]) (use w assms(2-4) in \<open>auto split: if_splits\<close>)
qed

lemma retain_ok:
  assumes "ext_ok st"
  shows "ext_ok (snd (wasm_externref_retain idx st))"
    "fst (wasm_externref_retain idx st) \<Longrightarrow>
       \<exists>n. nodes st idx = Some n \<and> nodes (snd (wasm_externref_retain idx st)) = (nodes st)(idx \<mapsto> n\<lparr>retained := True\<rparr>)"
proof -
  have f: "find_node idx (acquire st) = nodes st idx"
    using find_node_ok [OF assms, of idx] by (simp add: find_node_def)
  have w: "ext_ok (release (write_node idx (n\<lparr>retained := True\<rparr>) (acquire st)))"
    "nodes (release (write_node idx (n\<lparr>retained := True\<rparr>) (acquire st))) = (nodes st)(idx \<mapsto> n\<lparr>retained := True\<rparr>)"
    if "nodes st idx = Some n" for n
    using write_keeps [OF assms that, of "n\<lparr>retained := True\<rparr>"] by simp_all
  show "ext_ok (snd (wasm_externref_retain idx st))"
    using w ext_ok_idle [OF assms] assms by (auto simp: wasm_externref_retain_def Let_def f split: option.split)
  show "\<exists>n. nodes st idx = Some n \<and> nodes (snd (wasm_externref_retain idx st)) = (nodes st)(idx \<mapsto> n\<lparr>retained := True\<rparr>)"
    if "fst (wasm_externref_retain idx st)"
    using that w by (auto simp: wasm_externref_retain_def Let_def f split: option.splits if_splits)
qed

lemma set_cleanup_ok:
  assumes "ext_ok st"
  obtains b st' where "wasm_externref_set_cleanup inst obj f st = Some (b, st')" "ext_ok st'"
proof (cases "traverse (lookup_extobj_callback obj inst) (acquire st) None")
  case None
  then show ?thesis
    using that [of False st] ext_ok_idle [OF assms] assms by (simp add: wasm_externref_set_cleanup_def Let_def)
next
  case (Some key)
  then obtain n where n: "nodes st key = Some n"
    using lookup_found [OF _ Some] ext_okD(1) [OF assms] by auto
  then have "find_node key (acquire st) = Some n"
    using find_node_ok [OF assms, of key] by (simp add: find_node_def)
  then show ?thesis
    using that write_keeps(1) [OF assms n, of "n\<lparr>cleanup := f\<rparr>"] Some
    by (simp add: wasm_externref_set_cleanup_def Let_def)
qed

lemma delete_step:
  "map_ok st \<Longrightarrow> nodes st k = Some n \<Longrightarrow> map_ok (delete_externref k n st) \<and> nodes (delete_externref k n st) = (nodes st)(k := None)
     \<and> externref_global_id (delete_externref k n st) = externref_global_id st"
  by (simp add: delete_ok)

lemma cleanup_nodes:
  assumes "ext_ok st"
  shows "ext_ok (wasm_externref_cleanup inst st)"
    "nodes (wasm_externref_cleanup inst st) = (\<lambda>k. Option.bind (nodes st k) (\<lambda>n. if module_inst n = inst then None else Some n))"
proof -
  have ok: "map_ok (acquire st)" using ext_okD(1) [OF assms] by simp
  note t = traverse_update [OF ok, of "cleanup_extobj_callback inst" "\<lambda>n. if module_inst n = inst then None else Some n"]
  have f: "map_ok (cleanup_extobj_callback inst k n st)
      \<and> nodes (cleanup_extobj_callback inst k n st) = (nodes st)(k := if module_inst n = inst then None else Some n)
      \<and> externref_global_id (cleanup_extobj_callback inst k n st) = externref_global_id st"
    if "map_ok st" "nodes st k = Some n" for st k n
    using that delete_step [OF that] by (auto simp: cleanup_extobj_callback_def fun_eq_iff)
  show n: "nodes (wasm_externref_cleanup inst st) = (\<lambda>k. Option.bind (nodes st k) (\<lambda>n. if module_inst n = inst then None else Some n))"
    using t(2) f by (simp add: wasm_externref_cleanup_def Let_def)
  show "ext_ok (wasm_externref_cleanup inst st)"
    by (rule ext_ok_shrink [OF assms])
      (use t f in \<open>auto simp: wasm_externref_cleanup_def Let_def bind_eq_Some_conv split: if_splits\<close>)
qed

lemma objdel_fold:
  "snd (fold (\<lambda>(k, n). delete_extobj_callback obj inst k n) es (b, st))
   = fold (\<lambda>(k, n) st. if extern_obj n = obj \<and> module_inst n = inst then delete_externref k n st else st) es st"
  by (induction es arbitrary: b st) (auto simp: delete_extobj_callback_def)

lemma objdel_keeps:
  assumes "ext_ok st"
  shows "ext_ok (snd (wasm_externref_objdel inst obj st))"
proof -
  let ?f = "\<lambda>k n st. if extern_obj n = obj \<and> module_inst n = inst then delete_externref k n st else st"
  let ?g = "\<lambda>n. if extern_obj n = obj \<and> module_inst n = inst then None else Some n"
  have ok: "map_ok (acquire st)" using ext_okD(1) [OF assms] by simp
  have f: "map_ok (?f k n st) \<and> nodes (?f k n st) = (nodes st)(k := ?g n) \<and> externref_global_id (?f k n st) = externref_global_id st"
    if "map_ok st" "nodes st k = Some n" for st k n
    using that delete_step [OF that] by (auto simp: fun_eq_iff)
  note t = traverse_update [OF ok, of ?f ?g, OF f]
  have eq: "snd (wasm_externref_objdel inst obj st) = release (traverse ?f (acquire st) (acquire st))"
  proof -
    have "snd (case p of (a, b) \<Rightarrow> (a, release b)) = release (snd p)" for p :: "bool \<times> externref_state" by (cases p) simp
    then show ?thesis by (simp add: wasm_externref_objdel_def Let_def traverse_entries [OF ok] objdel_fold)
  qed
  show ?thesis
    unfolding eq
    by (rule ext_ok_shrink [OF assms]) (use t in \<open>auto simp: bind_eq_Some_conv split: if_splits\<close>)
qed

section \<open>Reachable states\<close>

text \<open>The table after any sequence of calls of the embedder and the runtime.\<close>

inductive table_step :: "externref_state \<Rightarrow> externref_state \<Rightarrow> bool" where
  obj2ref: "table_step st (snd (wasm_externref_obj2ref node_ok elem_ok inst obj st))"
| ref2obj: "table_step st (snd (wasm_externref_ref2obj idx st))"
| objdel: "table_step st (snd (wasm_externref_objdel inst obj st))"
| set_cleanup: "wasm_externref_set_cleanup inst obj f st = Some (b, st') \<Longrightarrow> table_step st st'"
| retain: "table_step st (snd (wasm_externref_retain idx st))"
| reclaim: "table_step st (wasm_externref_reclaim m st)"
| clean: "table_step st (wasm_externref_cleanup inst st)"

inductive table_reachable :: "externref_state \<Rightarrow> bool" where
  init: "wasm_externref_map_init True True = Some st \<Longrightarrow> table_reachable st"
| step: "table_reachable st \<Longrightarrow> table_step st st' \<Longrightarrow> table_reachable st'"

lemma table_init_ok:
  assumes "wasm_externref_map_init init_ok ok = Some st"
  shows "ext_ok st" "externref_global_id st = 1" "nodes st = Map.empty"
proof -
  obtain m where m: "bh_hash_map_create 0 (\<lambda>_. ok) True 32 False (Some wasm_externref_hash) (Some wasm_externref_equal) False True = Some m"
    "st = \<lparr>externref_lock = False, externref_global_id = 1, externref_map = m, cleaned = []\<rparr>"
    using assms by (auto simp: wasm_externref_map_init_def split: if_splits option.splits)
  note c = hm_create_ok [OF m(1) externref_keys]
  have "key_equal_func m = (=)" using c(3) by (simp add: fun_eq_iff wasm_externref_equal_def)
  then show "nodes st = Map.empty" "externref_global_id st = 1" "ext_ok st"
    using c(1,2) m(2) by (auto simp: nodes_def fun_eq_iff ext_ok_def map_ok_def)
qed

lemma step_ok: "table_step st st' \<Longrightarrow> ext_ok st \<Longrightarrow> ext_ok st'"
proof (induction rule: table_step.induct)
  case (ref2obj st idx)
  then show ?case
    using ext_ok_idle [of st] by (auto simp: wasm_externref_ref2obj_def Let_def split: option.split)
next
  case (set_cleanup inst obj f st b st')
  then show ?case by (auto elim: set_cleanup_ok [of st inst obj f])
qed (simp_all add: obj2ref_keeps objdel_keeps retain_ok reclaim_nodes cleanup_nodes)

lemma reachable_ok: "table_reachable st \<Longrightarrow> ext_ok st"
  by (induction rule: table_reachable.induct) (auto simp: table_init_ok step_ok)

definition initial_table :: externref_state where
  "initial_table = the (wasm_externref_map_init True True)"

lemma initial_table_init: "wasm_externref_map_init True True = Some initial_table"
  by (simp add: initial_table_def wasm_externref_map_init_def bh_hash_map_create_def Let_def
      HASH_MAP_MIN_SIZE_def HASH_MAP_MAX_SIZE_def)

lemma resolves:
  assumes "ext_ok st" "k \<noteq> NULL_REF"
  shows "fst (wasm_externref_ref2obj k st) = map_option extern_obj (nodes st k)"
proof (cases "nodes st k")
  case None
  then have "find_node k (acquire st) = None"
    using find_node_ok [OF assms(1), of k] by (simp add: find_node_def)
  with None assms(2) show ?thesis by (simp add: wasm_externref_ref2obj_def Let_def)
qed (simp add: ref2obj_ok [OF assms(1)])

section \<open>Properties\<close>

text \<open>C37. In every state that calls of the table can reach, the reference that an object is given
  resolves to the object, asking again gives the same reference, and all references given out before
  still resolve to their objects; and a new reference can be given unless memory or the numbers are
  exhausted.\<close>

theorem externref_round_trip:
  assumes "table_reachable st" "obj \<noteq> - 1"
  shows "(wasm_externref_obj2ref node_ok elem_ok inst obj st = (Some idx, st') \<longrightarrow>
        wasm_externref_ref2obj idx st' = (Some obj, st')
        \<and> wasm_externref_obj2ref n' e' inst obj st' = (Some idx, st')
        \<and> (\<forall>k x. fst (wasm_externref_ref2obj k st) = Some x \<longrightarrow> fst (wasm_externref_ref2obj k st') = Some x))
    \<and> (externref_global_id st \<noteq> NULL_REF \<longrightarrow> fst (wasm_externref_obj2ref True True inst obj st) \<noteq> None)"
proof (intro conjI impI)
  have ok: "ext_ok st" by (rule reachable_ok [OF assms(1)])
  {
    assume "wasm_externref_obj2ref node_ok elem_ok inst obj st = (Some idx, st')"
    from obj2ref_ok [OF ok assms(2) this] obtain n where st': "ext_ok st'" and n: "nodes st' idx = Some n" "extern_obj n = obj" "module_inst n = inst"
      and keep: "\<forall>k n. nodes st k = Some n \<longrightarrow> nodes st' k = Some n" by blast
    show "wasm_externref_ref2obj idx st' = (Some obj, st')" using ref2obj_ok [OF st' n(1)] n(2) by simp
    have "traverse (lookup_extobj_callback obj inst) (acquire st') None = Some idx"
    proof (cases "traverse (lookup_extobj_callback obj inst) (acquire st') None")
      case None
      then show ?thesis using lookup_missing [OF _ None, of idx n] ext_okD(1) [OF st'] n by simp
    next
      case (Some i)
      then obtain n' where "nodes st' i = Some n'" "extern_obj n' = obj" "module_inst n' = inst"
        using lookup_found [OF _ Some] ext_okD(1) [OF st'] by auto
      then show ?thesis using Some ext_okD(6) [OF st', of i n' idx n] n by simp
    qed
    then show "wasm_externref_obj2ref n' e' inst obj st' = (Some idx, st')"
      using assms(2) ext_ok_idle [OF st'] by (simp add: wasm_externref_obj2ref_def Let_def)
    show "\<forall>k x. fst (wasm_externref_ref2obj k st) = Some x \<longrightarrow> fst (wasm_externref_ref2obj k st') = Some x"
    proof (intro allI impI)
      fix k x assume "fst (wasm_externref_ref2obj k st) = Some x"
      then show "fst (wasm_externref_ref2obj k st') = Some x"
      proof (cases "k = NULL_REF")
        case False
        then show ?thesis
          using \<open>fst (wasm_externref_ref2obj k st) = Some x\<close> keep resolves [OF ok False] resolves [OF st' False] by auto
      qed (simp add: wasm_externref_ref2obj_def)
    qed
  }
  show "fst (wasm_externref_obj2ref True True inst obj st) \<noteq> None" if "externref_global_id st \<noteq> NULL_REF"
    using obj2ref_succeeds [OF ok that, of inst obj] by auto
qed

theorem externref_round_trip_witness:
  "\<exists>idx st'. wasm_externref_obj2ref True True 7 42 initial_table = (Some idx, st') \<and> wasm_externref_ref2obj idx st' = (Some 42, st')"
proof -
  have r: "table_reachable initial_table" "(42 :: u64) \<noteq> - 1"
    using table_reachable.init [OF initial_table_init] by simp_all
  have "externref_global_id initial_table \<noteq> NULL_REF"
    using table_init_ok(2) [OF initial_table_init] by (simp add: NULL_REF_def)
  then obtain idx st' where "wasm_externref_obj2ref True True 7 42 initial_table = (Some idx, st')"
    using externref_round_trip [OF r, of True True 7] by (metis option.exhaust prod.collapse)
  then show ?thesis using externref_round_trip [OF r] by blast
qed

text \<open>C38. After the collection for an instance of a bytecode module, those references are gone that belong to
  the instance, are not held by its globals or tables, are not retained and carry no mark; everything
  else still resolves to its object. A mark can be left by the collection for another instance that
  holds the number: it keeps the reference for one collection. After two collections in a row exactly
  the references are gone that belong to the instance and are neither held nor retained.\<close>

theorem reclaim_keeps_held_references:
  assumes "table_reachable st" "module_type m = Wasm_Module_Bytecode" "nodes st k = Some n"
  shows "fst (wasm_externref_ref2obj k (wasm_externref_reclaim m st)) =
      (if module_inst n = inst_ptr m \<and> k \<notin> global_refs m \<union> table_refs m \<and> \<not> marked n \<and> \<not> retained n
       then None else Some (extern_obj n))
    \<and> fst (wasm_externref_ref2obj k (wasm_externref_reclaim m (wasm_externref_reclaim m st))) =
      (if module_inst n = inst_ptr m \<and> k \<notin> global_refs m \<union> table_refs m \<and> \<not> retained n
       then None else Some (extern_obj n))"
proof -
  have ok: "ext_ok st" by (rule reachable_ok [OF assms(1)])
  have k: "k \<noteq> NULL_REF" by (rule below_null [OF ext_okD(5) [OF ok assms(3)]])
  note again = reclaim_nodes [OF reclaim_nodes(1) [OF ok], of m m]
  have "fst (wasm_externref_ref2obj k (wasm_externref_reclaim m st)) =
      (if module_inst n = inst_ptr m \<and> k \<notin> global_refs m \<union> table_refs m \<and> \<not> marked n \<and> \<not> retained n
       then None else Some (extern_obj n))"
    using resolves [OF reclaim_nodes(1) [OF ok] k, of m] assms(2,3)
    by (auto simp: reclaim_nodes(2) [OF ok] reclaimed_def marked_refs_def mark_def)
  moreover have "fst (wasm_externref_ref2obj k (wasm_externref_reclaim m (wasm_externref_reclaim m st))) =
      (if module_inst n = inst_ptr m \<and> k \<notin> global_refs m \<union> table_refs m \<and> \<not> retained n
       then None else Some (extern_obj n))"
    using resolves [OF again(1) k] assms(2,3)
    by (auto simp: again(2) reclaim_nodes(2) [OF ok] reclaimed_def marked_refs_def mark_def)
  ultimately show ?thesis by blast
qed

text \<open>For an AOT module this fails: if two tables hold external references, an entry of the second
  table whose position is below the length of the first one is not seen, and the reference that only it
  holds is reclaimed while the program can still use it.\<close>

lemma aot_reclaim_loses_held_references:
  assumes "table_reachable st" "module_type m = Wasm_Module_AoT"
    and "tables m = [(VALUE_TYPE_EXTERNREF, xs), (VALUE_TYPE_EXTERNREF, ys)]"
    and "k \<in> set (take (length xs) ys)" "k \<notin> set xs" "k \<notin> set (drop (length xs) ys)" "k \<notin> global_refs m"
    and "nodes st k = Some n" "module_inst n = inst_ptr m" "\<not> marked n" "\<not> retained n"
  shows "k \<in> table_refs m \<and> fst (wasm_externref_ref2obj k (wasm_externref_reclaim m st)) = None"
proof -
  have ok: "ext_ok st" by (rule reachable_ok [OF assms(1)])
  have k: "k \<noteq> NULL_REF" by (rule below_null [OF ext_okD(5) [OF ok assms(8)]])
  have "k \<in> table_refs m"
    using assms(3,4) by (auto simp: table_refs_def dest: in_set_takeD)
  moreover have "k \<notin> marked_refs m"
    using assms(2,3,5-7) by (auto simp: marked_refs_def)
  ultimately show ?thesis
    using resolves [OF reclaim_nodes(1) [OF ok] k, of m] assms(8-11)
    by (simp add: reclaim_nodes(2) [OF ok] reclaimed_def)
qed

text \<open>A table with one reference, held by the second of two tables of the instance.\<close>

definition one_ref :: "u32 option \<times> externref_state" where
  "one_ref = wasm_externref_obj2ref True True 7 42 initial_table"

definition two_tables :: "module_kind \<Rightarrow> instance_state" where
  "two_tables kind = \<lparr>inst_ptr = 7, module_type = kind, globals = [],
     tables = [(VALUE_TYPE_EXTERNREF, [NULL_REF]), (VALUE_TYPE_EXTERNREF, [the (fst one_ref)])]\<rparr>"

lemma one_ref_node:
  obtains n where "table_reachable (snd one_ref)" "nodes (snd one_ref) (the (fst one_ref)) = Some n"
    "extern_obj n = 42" "module_inst n = 7" "\<not> marked n" "\<not> retained n" "the (fst one_ref) \<noteq> NULL_REF"
proof -
  have r: "table_reachable (snd one_ref)"
    unfolding one_ref_def using table_reachable.init [OF initial_table_init] table_step.obj2ref by (rule table_reachable.step)
  note i = table_init_ok [OF initial_table_init]
  obtain idx st' where o: "one_ref = (Some idx, st')"
    using obj2ref_succeeds [OF i(1), of 7 42] i(2) by (auto simp: one_ref_def NULL_REF_def)
  then have o': "wasm_externref_obj2ref True True 7 42 initial_table = (Some idx, st')" by (simp add: one_ref_def)
  obtain n where n: "nodes st' idx = Some n" "extern_obj n = 42" "module_inst n = 7" "\<not> marked n \<and> \<not> retained n"
    using obj2ref_ok [OF i(1) _ o'] i(3) by fastforce
  moreover have "idx \<noteq> NULL_REF" using below_null [OF ext_okD(5) [OF reachable_ok [OF r]], of idx n] n(1) by (simp add: o)
  ultimately show ?thesis using that [of n] r by (simp add: o)
qed

theorem reclaim_keeps_held_references_witness:
  "fst (wasm_externref_ref2obj (the (fst one_ref)) (wasm_externref_reclaim (two_tables Wasm_Module_Bytecode) (snd one_ref))) = Some 42"
proof -
  obtain n where n: "table_reachable (snd one_ref)" "nodes (snd one_ref) (the (fst one_ref)) = Some n" "extern_obj n = 42"
    by (rule one_ref_node)
  show ?thesis
    using reclaim_keeps_held_references [OF n(1) _ n(2), of "two_tables Wasm_Module_Bytecode"] n(3)
    by (simp add: two_tables_def table_refs_def)
qed

end
