(* ===== verification/Bh_List.thy ===== *)
theory Bh_List
  imports Prelude
begin

text \<open>
  The intrusive list of the runtime (\<open>core/shared/utils/bh_list.c\<close>). The links are in the elements of the
  caller: the heap is the function that gives the \<open>next\<close> field at an address, and address 0 is the null
  pointer. A loop that does not return is \<open>None\<close>.
\<close>

section \<open>Operations\<close>

datatype bh_list_status = BH_LIST_SUCCESS | BH_LIST_ERROR

record bh_list =
  head :: nat
  len :: u32

type_synonym links = "nat \<Rightarrow> nat"

definition bh_list_init :: "bh_list option \<Rightarrow> bh_list_status \<times> bh_list option" where
  "bh_list_init list =
     (case list of None \<Rightarrow> (BH_LIST_ERROR, None) | Some l \<Rightarrow> (BH_LIST_SUCCESS, Some \<lparr>head = 0, len = 0\<rparr>))"

text \<open>The check that the element is not in the list yet is an assertion of debug builds.\<close>

definition bh_list_insert :: "bh_list option \<Rightarrow> nat \<Rightarrow> links \<Rightarrow> bh_list_status \<times> bh_list option \<times> links" where
  "bh_list_insert list elem nxt =
     (case list of None \<Rightarrow> (BH_LIST_ERROR, None, nxt) | Some l \<Rightarrow>
      if elem = 0 then (BH_LIST_ERROR, Some l, nxt)
      else (BH_LIST_SUCCESS, Some (l\<lparr>head := elem, len := len l + 1\<rparr>), nxt(elem := head l)))"

text \<open>The loop of \<open>bh_list_remove\<close>: the predecessor of the element, or nothing.\<close>

partial_function (option) find_prev :: "links \<Rightarrow> nat \<Rightarrow> nat \<Rightarrow> nat \<Rightarrow> nat option option" where
  "find_prev nxt elem cur prev =
     (if cur = 0 then Some None
      else if cur = elem then Some (Some prev)
      else find_prev nxt elem (nxt cur) cur)"

definition bh_list_remove :: "bh_list option \<Rightarrow> nat \<Rightarrow> links \<Rightarrow> (bh_list_status \<times> bh_list option \<times> links) option" where
  "bh_list_remove list elem nxt =
     (case list of None \<Rightarrow> Some (BH_LIST_ERROR, None, nxt) | Some l \<Rightarrow>
      if elem = 0 then Some (BH_LIST_ERROR, Some l, nxt) else
      case find_prev nxt elem (head l) 0 of
        None \<Rightarrow> None
      | Some None \<Rightarrow> Some (BH_LIST_ERROR, Some l, nxt)
      | Some (Some prev) \<Rightarrow>
          if prev \<noteq> 0 then Some (BH_LIST_SUCCESS, Some (l\<lparr>len := len l - 1\<rparr>), nxt(prev := nxt elem))
          else Some (BH_LIST_SUCCESS, Some (l\<lparr>head := nxt elem, len := len l - 1\<rparr>), nxt))"

definition bh_list_length :: "bh_list option \<Rightarrow> u32" where
  "bh_list_length list = (case list of None \<Rightarrow> 0 | Some l \<Rightarrow> len l)"

definition bh_list_first_elem :: "bh_list option \<Rightarrow> nat" where
  "bh_list_first_elem list = (case list of None \<Rightarrow> 0 | Some l \<Rightarrow> head l)"

definition bh_list_elem_next :: "nat \<Rightarrow> links \<Rightarrow> nat" where
  "bh_list_elem_next node nxt = (if node \<noteq> 0 then nxt node else 0)"

partial_function (option) walk :: "links \<Rightarrow> nat \<Rightarrow> nat \<Rightarrow> nat option" where
  "walk nxt elem p = (if p \<noteq> 0 \<and> p \<noteq> elem then walk nxt elem (nxt p) else Some p)"

definition bh_list_is_elem_exist :: "bh_list option \<Rightarrow> nat \<Rightarrow> links \<Rightarrow> bool option" where
  "bh_list_is_elem_exist list elem nxt =
     (case list of None \<Rightarrow> Some False | Some l \<Rightarrow>
      if elem = 0 then Some False else map_option (\<lambda>p. p \<noteq> 0) (walk nxt elem (head l)))"

section \<open>The list that the links represent\<close>

fun path :: "links \<Rightarrow> nat \<Rightarrow> nat list \<Rightarrow> nat \<Rightarrow> bool" where
  "path nxt p [] q = (p = q)"
| "path nxt p (a # as) q = (p = a \<and> a \<noteq> 0 \<and> path nxt (nxt a) as q)"

definition represents :: "bh_list \<Rightarrow> links \<Rightarrow> nat list \<Rightarrow> bool" where
  "represents l nxt as \<longleftrightarrow> path nxt (head l) as 0 \<and> distinct as \<and> len l = of_nat (length as)"

lemma path_append: "path nxt p (as @ bs) q \<longleftrightarrow> (\<exists>m. path nxt p as m \<and> path nxt m bs q)"
  by (induction as arbitrary: p) auto

lemma path_upd [simp]: "u \<notin> set as \<Longrightarrow> path (nxt(u := v)) p as q = path nxt p as q"
  by (induction as arbitrary: p) auto

lemma path_nonzero: "path nxt p as q \<Longrightarrow> 0 \<notin> set as"
  by (induction as arbitrary: p) auto

lemma find_prev_path:
  assumes "path nxt cur as q" "elem \<notin> set as"
  shows "find_prev nxt elem cur prev = find_prev nxt elem q (if as = [] then prev else last as)"
  using assms
proof (induction as arbitrary: cur prev)
  case (Cons a as)
  then have "find_prev nxt elem cur prev = find_prev nxt elem (nxt a) a"
    by (subst find_prev.simps) auto
  also have "\<dots> = find_prev nxt elem q (if as = [] then a else last as)"
    using Cons by simp
  finally show ?case by simp
qed simp

lemma walk_path: "path nxt p as q \<Longrightarrow> elem \<notin> set as \<Longrightarrow> walk nxt elem p = walk nxt elem q"
proof (induction as arbitrary: p)
  case (Cons a as)
  then show ?case by (subst walk.simps) auto
qed simp

lemma list_remove_ok:
  assumes "represents l nxt as" "elem \<noteq> 0"
  shows "\<exists>l' nxt'. bh_list_remove (Some l) elem nxt =
      Some (if elem \<in> set as then BH_LIST_SUCCESS else BH_LIST_ERROR, Some l', nxt')
    \<and> represents l' nxt' (remove1 elem as)"
proof (cases "elem \<in> set as")
  case False
  then have "find_prev nxt elem (head l) 0 = Some None"
    using find_prev_path [of nxt "head l" as 0 elem 0] assms(1) by (simp add: represents_def find_prev.simps)
  with False assms show ?thesis by (simp add: bh_list_remove_def remove1_idem)
next
  case True
  then obtain xs ys where as: "as = xs @ elem # ys" "elem \<notin> set xs" by (meson split_list_first)
  then have p: "path nxt (head l) xs elem" "path nxt (nxt elem) ys 0" and d: "distinct (xs @ elem # ys)"
    using assms(1) by (auto simp: represents_def path_append)
  have f: "find_prev nxt elem (head l) 0 = Some (Some (if xs = [] then 0 else last xs))"
    using find_prev_path [OF p(1) as(2), of 0] assms(2) by (simp add: find_prev.simps)
  have len: "len l - 1 = of_nat (length (xs @ ys))" using assms(1) as by (simp add: represents_def)
  show ?thesis
  proof (cases xs rule: rev_cases)
    case Nil
    with f p d len as True assms(2) show ?thesis
      by (auto simp: bh_list_remove_def represents_def)
  next
    case (snoc zs z)
    then have "z \<noteq> 0" "path nxt (head l) zs z" "z \<notin> set zs" "z \<notin> set ys"
      using p(1) d by (auto simp: path_append)
    with f p(2) d len as True assms(2) snoc show ?thesis
      by (auto simp: bh_list_remove_def represents_def path_append remove1_append)
  qed
qed

lemma list_insert_ok:
  assumes "represents l nxt as" "elem \<noteq> 0" "elem \<notin> set as"
  shows "\<exists>l' nxt'. bh_list_insert (Some l) elem nxt = (BH_LIST_SUCCESS, Some l', nxt')
    \<and> represents l' nxt' (elem # as)"
  using assms by (auto simp: bh_list_insert_def represents_def)

lemma exist_ok:
  assumes "represents l nxt as" "elem \<noteq> 0"
  shows "bh_list_is_elem_exist (Some l) elem nxt = Some (elem \<in> set as)"
proof (cases "elem \<in> set as")
  case False
  then show ?thesis
    using walk_path [of nxt "head l" as 0 elem] assms
    by (simp add: represents_def bh_list_is_elem_exist_def walk.simps)
next
  case True
  then obtain xs ys where "as = xs @ elem # ys" "elem \<notin> set xs" by (meson split_list_first)
  then show ?thesis
    using walk_path [of nxt "head l" xs elem elem] assms
    by (auto simp: represents_def bh_list_is_elem_exist_def path_append walk.simps)
qed

section \<open>Cycles\<close>

text \<open>A search that stays in a set of elements without the one it looks for never ends.\<close>

lemma find_prev_in_cycle:
  assumes "\<forall>s \<in> S. nxt s \<in> S" "0 \<notin> S" "elem \<notin> S" "cur \<in> S"
  shows "find_prev nxt elem cur prev = None"
proof (rule ccontr)
  assume "find_prev nxt elem cur prev \<noteq> None"
  then obtain r where "find_prev nxt elem cur prev = Some r" by blast
  then have "(\<forall>s \<in> S. nxt s \<in> S) \<longrightarrow> 0 \<notin> S \<longrightarrow> elem \<notin> S \<longrightarrow> cur \<notin> S"
    by (rule find_prev.raw_induct [where P = "\<lambda>nxt elem cur prev r. (\<forall>s \<in> S. nxt s \<in> S) \<longrightarrow> 0 \<notin> S \<longrightarrow> elem \<notin> S \<longrightarrow> cur \<notin> S", rotated])
      (metis option.distinct(1))
  with assms show False by blast
qed

text \<open>Inserting an element that is in the list already closes a cycle.\<close>

lemma path_closed: "path nxt p xs e \<Longrightarrow> (\<forall>s \<in> set xs. nxt s \<in> insert e (set xs)) \<and> p \<in> insert e (set xs)"
  by (induction xs arbitrary: p) auto

lemma second_insert_cycle:
  assumes "represents l nxt as" "e \<in> set as"
  obtains S where "\<forall>s \<in> S. (nxt(e := head l)) s \<in> S" "e \<in> S" "0 \<notin> S" "S \<subseteq> set as"
proof -
  obtain xs ys where as: "as = xs @ e # ys" "e \<notin> set xs" using assms(2) by (meson split_list_first)
  have p: "path nxt (head l) xs e" and z: "0 \<notin> set as"
    using assms(1) as by (auto simp: represents_def path_append dest: path_nonzero)
  let ?S = "insert e (set xs)"
  have "\<forall>s \<in> ?S. (nxt(e := head l)) s \<in> ?S" using path_closed [OF p] by simp
  moreover have "0 \<notin> ?S" "?S \<subseteq> set as" using as z by auto
  ultimately show thesis using that by blast
qed

section \<open>Properties\<close>

text \<open>C40. On a list without cycles the removal loop ends, finds the element exactly if it is there and
  takes it out; inserting a new element keeps the list free of cycles. But a release build does not check
  that the element is new: inserting one that is in the list closes a cycle, and removing any element
  that is not in the list then never returns.\<close>

theorem list_remove_terminates:
  assumes "represents l nxt as" "elem \<noteq> 0"
  shows "(\<exists>l' nxt'. bh_list_remove (Some l) elem nxt =
        Some (if elem \<in> set as then BH_LIST_SUCCESS else BH_LIST_ERROR, Some l', nxt') \<and> represents l' nxt' (remove1 elem as))
    \<and> (\<exists>l' nxt'. bh_list_insert (Some l) elem nxt = (BH_LIST_SUCCESS, Some l', nxt')
        \<and> (elem \<notin> set as \<longrightarrow> represents l' nxt' (elem # as))
        \<and> (elem \<in> set as \<longrightarrow> (\<forall>x. x \<noteq> 0 \<and> x \<notin> set as \<longrightarrow> bh_list_remove (Some l') x nxt' = None)))"
proof (intro conjI)
  show "\<exists>l' nxt'. bh_list_remove (Some l) elem nxt =
      Some (if elem \<in> set as then BH_LIST_SUCCESS else BH_LIST_ERROR, Some l', nxt') \<and> represents l' nxt' (remove1 elem as)"
    by (rule list_remove_ok [OF assms])
  let ?l = "l\<lparr>head := elem, len := len l + 1\<rparr>" and ?nxt = "nxt(elem := head l)"
  have ins: "bh_list_insert (Some l) elem nxt = (BH_LIST_SUCCESS, Some ?l, ?nxt)"
    using assms(2) by (simp add: bh_list_insert_def)
  have "bh_list_remove (Some ?l) x ?nxt = None" if x: "elem \<in> set as" "x \<noteq> 0" "x \<notin> set as" for x
  proof -
    obtain S where S: "\<forall>s \<in> S. ?nxt s \<in> S" "elem \<in> S" "0 \<notin> S" "S \<subseteq> set as"
      using second_insert_cycle [OF assms(1) x(1)] .
    then have "find_prev ?nxt x elem 0 = None" using x(3) by (intro find_prev_in_cycle [of S]) auto
    with x(2) show ?thesis by (simp add: bh_list_remove_def)
  qed
  moreover have "elem \<notin> set as \<Longrightarrow> represents ?l ?nxt (elem # as)"
    using list_insert_ok [OF assms] ins by simp
  ultimately show "\<exists>l' nxt'. bh_list_insert (Some l) elem nxt = (BH_LIST_SUCCESS, Some l', nxt')
      \<and> (elem \<notin> set as \<longrightarrow> represents l' nxt' (elem # as))
      \<and> (elem \<in> set as \<longrightarrow> (\<forall>x. x \<noteq> 0 \<and> x \<notin> set as \<longrightarrow> bh_list_remove (Some l') x nxt' = None))"
    using ins by blast
qed

theorem list_remove_terminates_witness:
  "\<exists>l' nxt'. bh_list_remove (Some \<lparr>head = 8, len = 2\<rparr>) 16 (\<lambda>a. if a = 8 then 16 else 0) = Some (BH_LIST_SUCCESS, Some l', nxt')
     \<and> represents l' nxt' [8]"
  using list_remove_terminates [of "\<lparr>head = 8, len = 2\<rparr>" "\<lambda>a. if a = 8 then 16 else 0" "[8, 16]" 16]
  by (simp add: represents_def)

end
