(* ===== verification/Wasm_Memory.thy ===== *)
theory Wasm_Memory
  imports Tz_Spec
begin

text \<open>
  Linear memories: \<open>core/iwasm/common/wasm_memory.c\<close>, and the instantiation of a memory and its application
  heap from an AOT file in \<open>core/iwasm/aot/aot_runtime.c\<close>, in the configuration of the port: no shared
  memories and heaps, 32-bit memories, bounds checks by software, memory from the platform layer. A native
  address is a number below 2 to the 64th, with sums written out modulo that; the null pointer is 0. The
  allocator of the application heap inside a memory answers through arguments.
\<close>

unbundle bit_operations_syntax

section \<open>State\<close>

record WASMMemoryInstance =
  num_bytes_per_page :: u32
  cur_page_count :: u32
  max_page_count :: u32
  memory_data_size :: u64
  memory_data :: nat
  memory_data_end :: nat
  heap_data :: nat
  heap_data_end :: nat
  mem_bound_check_1byte :: u64
  mem_bound_check_2bytes :: u64
  mem_bound_check_4bytes :: u64
  mem_bound_check_8bytes :: u64
  mem_bound_check_16bytes :: u64

text \<open>The part of a module instance that the functions use: its memories and the pending exception.\<close>

record module_inst =
  memories :: "WASMMemoryInstance list"
  cur_exception :: "string option"

definition MAX_LINEAR_MEMORY_SIZE :: u64 where "MAX_LINEAR_MEMORY_SIZE = 4294967296"

definition uintptr :: "nat \<Rightarrow> nat" where
  "uintptr n = n mod 2 ^ 64"

definition wasm_set_exception :: "string \<Rightarrow> module_inst \<Rightarrow> module_inst" where
  "wasm_set_exception e inst = inst\<lparr>cur_exception := Some (take 127 (''Exception: '' @ e))\<rparr>"

definition wasm_get_default_memory :: "module_inst \<Rightarrow> WASMMemoryInstance option" where
  "wasm_get_default_memory inst = (case memories inst of [] \<Rightarrow> None | m # _ \<Rightarrow> Some m)"

definition wasm_get_memory_with_idx :: "module_inst \<Rightarrow> nat \<Rightarrow> WASMMemoryInstance option" where
  "wasm_get_memory_with_idx inst index = (if length (memories inst) \<le> index then None else Some (memories inst ! index))"

definition oob :: "module_inst \<Rightarrow> bool \<times> module_inst" where
  "oob inst = (False, wasm_set_exception ''out of bounds memory access'' inst)"

section \<open>Address checks\<close>

definition wasm_runtime_validate_app_addr :: "module_inst \<Rightarrow> u64 \<Rightarrow> u64 \<Rightarrow> bool \<times> module_inst" where
  "wasm_runtime_validate_app_addr inst app_offset sz =
     (case wasm_get_default_memory inst of None \<Rightarrow> oob inst | Some m \<Rightarrow>
      if MAX_LINEAR_MEMORY_SIZE < sz \<or> MAX_LINEAR_MEMORY_SIZE - sz < app_offset then oob inst
      else if app_offset + sz \<le> memory_data_size m then (True, inst)
      else oob inst)"

definition wasm_runtime_get_app_addr_range :: "module_inst \<Rightarrow> u64 \<Rightarrow> (u64 \<times> u64) option" where
  "wasm_runtime_get_app_addr_range inst app_offset =
     (case wasm_get_default_memory inst of None \<Rightarrow> None | Some m \<Rightarrow>
      if app_offset < memory_data_size m then Some (0, memory_data_size m) else None)"

definition wasm_runtime_addr_app_to_native :: "module_inst \<Rightarrow> u64 \<Rightarrow> nat" where
  "wasm_runtime_addr_app_to_native inst app_offset =
     (case wasm_get_default_memory inst of None \<Rightarrow> 0 | Some m \<Rightarrow>
      let addr = uintptr (memory_data m + unat app_offset) in
      if memory_data m \<le> addr \<and> addr < memory_data_end m then addr else 0)"

definition wasm_runtime_addr_native_to_app :: "module_inst \<Rightarrow> nat \<Rightarrow> u64" where
  "wasm_runtime_addr_native_to_app inst addr =
     (case wasm_get_default_memory inst of None \<Rightarrow> 0 | Some m \<Rightarrow>
      if memory_data m \<le> addr \<and> addr < memory_data_end m then of_nat (addr - memory_data m) else 0)"

definition wasm_runtime_validate_native_addr :: "module_inst \<Rightarrow> nat \<Rightarrow> u64 \<Rightarrow> bool \<times> module_inst" where
  "wasm_runtime_validate_native_addr inst addr sz =
     (case wasm_get_default_memory inst of None \<Rightarrow> oob inst | Some m \<Rightarrow>
      if MAX_LINEAR_MEMORY_SIZE < sz \<or> 2 ^ 64 - 1 - unat sz < addr then oob inst
      else if memory_data m \<le> addr \<and> uintptr (addr + unat sz) \<le> memory_data_end m then (True, inst)
      else oob inst)"

definition wasm_runtime_get_native_addr_range :: "module_inst \<Rightarrow> nat \<Rightarrow> (nat \<times> nat) option" where
  "wasm_runtime_get_native_addr_range inst addr =
     (case wasm_get_default_memory inst of None \<Rightarrow> None | Some m \<Rightarrow>
      if memory_data m \<le> addr \<and> addr < memory_data_end m then Some (memory_data m, memory_data_end m) else None)"

text \<open>The loop over a string; \<open>mem\<close> is the memory of the process.\<close>

function scan_str :: "(nat \<Rightarrow> byte) \<Rightarrow> nat \<Rightarrow> nat \<Rightarrow> nat" where
  "scan_str mem str str_end = (if str < str_end \<and> mem str \<noteq> 0 then scan_str mem (str + 1) str_end else str)"
  by pat_completeness auto
termination
  by (relation "measure (\<lambda>(mem, str, str_end). str_end - str)") auto

declare scan_str.simps [simp del]

definition wasm_runtime_validate_app_str_addr :: "(nat \<Rightarrow> byte) \<Rightarrow> module_inst \<Rightarrow> u64 \<Rightarrow> bool \<times> module_inst" where
  "wasm_runtime_validate_app_str_addr mem inst app_str_offset =
     (case wasm_get_default_memory inst of None \<Rightarrow> oob inst | Some m \<Rightarrow>
      case wasm_runtime_get_app_addr_range inst app_str_offset of None \<Rightarrow> oob inst | Some (_, app_end_offset) \<Rightarrow>
      if MAX_LINEAR_MEMORY_SIZE \<le> app_str_offset \<or> MAX_LINEAR_MEMORY_SIZE < app_end_offset then oob inst else
      let str = wasm_runtime_addr_app_to_native inst app_str_offset;
          str_end = str + unat (app_end_offset - app_str_offset) in
      if scan_str mem str str_end = str_end then oob inst else (True, inst))"

definition wasm_check_app_addr_and_convert ::
  "(nat \<Rightarrow> byte) \<Rightarrow> module_inst \<Rightarrow> bool \<Rightarrow> u64 \<Rightarrow> u64 \<Rightarrow> nat option \<times> module_inst" where
  "wasm_check_app_addr_and_convert mem inst is_str app_buf_addr app_buf_size =
     (case wasm_get_default_memory inst of None \<Rightarrow> (None, snd (oob inst)) | Some m \<Rightarrow>
      let native_addr = uintptr (memory_data m + unat app_buf_addr) in
      if memory_data_size m \<le> app_buf_addr then (None, snd (oob inst))
      else if \<not> is_str \<and> memory_data_size m - app_buf_addr < app_buf_size then (None, snd (oob inst))
      else if is_str \<and> scan_str mem native_addr (memory_data_end m) = memory_data_end m then (None, snd (oob inst))
      else (Some native_addr, inst))"

section \<open>Mapping and growing\<close>

definition align_as_and_cast :: "u64 \<Rightarrow> u64 \<Rightarrow> u64" where
  "align_as_and_cast sz alignment = (sz + alignment - 1) AND NOT (alignment - 1)"

definition wasm_runtime_set_mem_bound_check_bytes :: "WASMMemoryInstance \<Rightarrow> u64 \<Rightarrow> WASMMemoryInstance" where
  "wasm_runtime_set_mem_bound_check_bytes m data_size =
     m\<lparr>mem_bound_check_1byte := data_size - 1, mem_bound_check_2bytes := data_size - 2,
       mem_bound_check_4bytes := data_size - 4, mem_bound_check_8bytes := data_size - 8,
       mem_bound_check_16bytes := data_size - 16\<rparr>"

definition wasm_munmap_linear_memory :: "handle \<Rightarrow> u64 \<Rightarrow> u64 \<Rightarrow> unit tee" where
  "wasm_munmap_linear_memory mapped_mem commit_size map_size = os_munmap mapped_mem map_size"

definition wasm_mremap_linear_memory :: "handle \<Rightarrow> u64 \<Rightarrow> u64 \<Rightarrow> u64 \<Rightarrow> handle tee" where
  "wasm_mremap_linear_memory mapped_mem old_size new_size commit_size =
     bind (if mapped_mem \<noteq> 0 then os_mremap mapped_mem old_size new_size else os_mmap new_size 0 (-1)) (\<lambda>new_mem.
     if new_mem = 0 then return 0 else
     bind (os_mprotect new_mem commit_size (MMAP_PROT_READ OR MMAP_PROT_WRITE)) (\<lambda>r.
     if r \<noteq> 0 then bind (wasm_munmap_linear_memory new_mem new_size new_size) (\<lambda>_. return 0)
     else return new_mem))"

definition wasm_mmap_linear_memory :: "u64 \<Rightarrow> u64 \<Rightarrow> handle tee" where
  "wasm_mmap_linear_memory map_size commit_size = wasm_mremap_linear_memory 0 0 map_size commit_size"

text \<open>The reason that is passed to the error callback, with the size before.\<close>

datatype enlarge_memory_error_reason = INTERNAL_ERROR | MAX_SIZE_REACHED

definition shift_ptr :: "nat \<Rightarrow> nat \<Rightarrow> nat \<Rightarrow> nat" where
  "shift_ptr new p old = nat ((int new + (int p - int old)) mod 2 ^ 64)"

text \<open>The fields after the block was replaced.\<close>

definition enlarged :: "handle \<Rightarrow> u32 \<Rightarrow> u32 \<Rightarrow> u64 \<Rightarrow> WASMMemoryInstance \<Rightarrow> WASMMemoryInstance" where
  "enlarged memory_data_new heap_size total_page_count total_size_new m =
     (let heap_new = shift_ptr memory_data_new (heap_data m) (memory_data m) in
      wasm_runtime_set_mem_bound_check_bytes
        (m\<lparr>heap_data := heap_new, heap_data_end := uintptr (heap_new + unat heap_size),
           memory_data := memory_data_new, cur_page_count := total_page_count,
           memory_data_size := total_size_new, memory_data_end := uintptr (memory_data_new + unat total_size_new)\<rparr>)
        total_size_new)"

text \<open>\<open>corrupted\<close> and \<open>migrate_ok\<close>: the answers of \<open>mem_allocator_is_heap_corrupted\<close> and
  \<open>mem_allocator_migrate\<close>.\<close>

definition wasm_enlarge_memory_internal ::
  "bool \<Rightarrow> bool \<Rightarrow> WASMMemoryInstance option \<Rightarrow> u32
   \<Rightarrow> (bool \<times> WASMMemoryInstance option \<times> (u64 \<times> enlarge_memory_error_reason) option) tee" where
  "wasm_enlarge_memory_internal corrupted migrate_ok memory inc_page_count =
     (case memory of None \<Rightarrow> return (False, None, Some (0, INTERNAL_ERROR)) | Some m \<Rightarrow>
      let total_size_old = memory_data_size m;
          heap_size = of_nat (heap_data_end m) - of_nat (heap_data m);
          total_page_count = inc_page_count + cur_page_count m;
          total_size_new = ucast (num_bytes_per_page m) * ucast total_page_count in
      if inc_page_count = 0 then return (True, memory, None)
      else if total_page_count < cur_page_count m then return (False, memory, Some (total_size_old, INTERNAL_ERROR))
      else if max_page_count m < total_page_count then return (False, memory, Some (total_size_old, MAX_SIZE_REACHED))
      else if heap_size > 0 \<and> corrupted then return (False, memory, Some (total_size_old, INTERNAL_ERROR))
      else bind (wasm_mremap_linear_memory (memory_data m) total_size_old total_size_new total_size_new) (\<lambda>memory_data_new.
      if memory_data_new = 0 then return (False, memory, Some (total_size_old, INTERNAL_ERROR)) else
      let ret = \<not> (heap_size > 0 \<and> \<not> migrate_ok) in
      return (ret, Some (enlarged memory_data_new heap_size total_page_count total_size_new m),
        if ret then None else Some (total_size_old, INTERNAL_ERROR))))"

definition wasm_enlarge_memory_with_idx :: "bool \<Rightarrow> bool \<Rightarrow> module_inst \<Rightarrow> u32 \<Rightarrow> nat \<Rightarrow> (bool \<times> module_inst) tee" where
  "wasm_enlarge_memory_with_idx corrupted migrate_ok inst inc_page_count memidx =
     (if memidx < length (memories inst) then
        bind (wasm_enlarge_memory_internal corrupted migrate_ok (Some (memories inst ! memidx)) inc_page_count)
          (\<lambda>(ret, m, _). return (ret, inst\<lparr>memories := (memories inst)[memidx := the m]\<rparr>))
      else return (False, inst))"

definition wasm_enlarge_memory :: "bool \<Rightarrow> bool \<Rightarrow> module_inst \<Rightarrow> u32 \<Rightarrow> (bool \<times> module_inst) tee" where
  "wasm_enlarge_memory corrupted migrate_ok inst inc_page_count =
     (if 0 < length (memories inst) then
        bind (wasm_enlarge_memory_internal corrupted migrate_ok (Some (memories inst ! 0)) inc_page_count)
          (\<lambda>(ret, m, _). return (ret, inst\<lparr>memories := (memories inst)[0 := the m]\<rparr>))
      else return (False, inst))"

definition wasm_runtime_enlarge_memory :: "bool \<Rightarrow> bool \<Rightarrow> module_inst \<Rightarrow> u64 \<Rightarrow> (bool \<times> module_inst) tee" where
  "wasm_runtime_enlarge_memory corrupted migrate_ok inst inc_page_count =
     (if 0xFFFFFFFF < inc_page_count then return (False, inst)
      else wasm_enlarge_memory corrupted migrate_ok inst (ucast inc_page_count))"

text \<open>The count is cut to 32 bits.\<close>

definition wasm_memory_enlarge ::
  "bool \<Rightarrow> bool \<Rightarrow> WASMMemoryInstance option \<Rightarrow> u64 \<Rightarrow> (bool \<times> WASMMemoryInstance option) tee" where
  "wasm_memory_enlarge corrupted migrate_ok memory inc_page_count =
     (if memory = None then return (False, None) else
      bind (wasm_enlarge_memory_internal corrupted migrate_ok memory (ucast inc_page_count)) (\<lambda>(ret, m, _). return (ret, m)))"

definition wasm_deallocate_linear_memory :: "WASMMemoryInstance \<Rightarrow> WASMMemoryInstance tee" where
  "wasm_deallocate_linear_memory m =
     bind (wasm_munmap_linear_memory (memory_data m) (memory_data_size m)
         (ucast (num_bytes_per_page m) * ucast (cur_page_count m)))
       (\<lambda>_. return (m\<lparr>memory_data := 0\<rparr>))"

text \<open>The result code, the address and the size; \<open>data\<close> is the address before.\<close>

definition wasm_allocate_linear_memory :: "handle \<Rightarrow> u64 \<Rightarrow> u64 \<Rightarrow> (int \<times> handle \<times> u64) tee" where
  "wasm_allocate_linear_memory data bytes_per_page init_page_count =
     (let map_size = init_page_count * bytes_per_page;
          data_size = align_as_and_cast (init_page_count * bytes_per_page) PAGE_SIZE in
      if 0 < map_size then
        bind (wasm_mmap_linear_memory map_size data_size) (\<lambda>d. return (if d = 0 then -1 else 0, d, data_size))
      else return (0, data, data_size))"

section \<open>Instantiation\<close>

text \<open>The entry of a memory in an AOT file, and the fields of the module that place the application heap.\<close>

record AOTMemory =
  am_num_bytes_per_page :: u32
  am_init_page_count :: u32
  am_max_page_count :: u32

record AOTModule =
  malloc_func_index :: u32
  free_func_index :: u32
  aux_heap_base_global_index :: u32
  aux_heap_base :: u64

definition DEFAULT_MAX_PAGES :: u32 where "DEFAULT_MAX_PAGES = 65536"

definition APP_HEAP_SIZE_MAX :: u32 where "APP_HEAP_SIZE_MAX = 1024 * 1024 * 1024"

definition wasm_runtime_get_max_mem :: "u32 \<Rightarrow> u32 \<Rightarrow> u32 \<Rightarrow> u32" where
  "wasm_runtime_get_max_mem max_memory_pages module_init_page_count module_max_page_count =
     (if max_memory_pages = 0 then module_max_page_count
      else if max_memory_pages < module_init_page_count then module_init_page_count
      else if module_max_page_count < max_memory_pages then module_max_page_count
      else max_memory_pages)"

definition bytes_to_page_end :: "u32 \<Rightarrow> u64 \<Rightarrow> u32" where
  "bytes_to_page_end bytes_per_page base =
     (let bytes_of_last_page = ucast (base mod ucast bytes_per_page) in
      bytes_per_page - (if bytes_of_last_page = 0 then bytes_per_page else bytes_of_last_page))"

text \<open>The heap in front of \<open>__heap_base\<close>: the pages to add and the new value of the global.\<close>

definition heap_before_base :: "u64 \<Rightarrow> u32 \<Rightarrow> u32 \<Rightarrow> u32 \<times> u64" where
  "heap_before_base base bytes_per_page heap_size =
     (let inc_page_count = (heap_size - bytes_to_page_end bytes_per_page base + bytes_per_page - 1) div bytes_per_page;
          base = base + ucast heap_size in
      if bytes_to_page_end bytes_per_page base < 1024 then (inc_page_count + 1, base + 1024)
      else (inc_page_count, base))"

record mem_layout =
  l_bytes_per_page :: u32
  l_init :: u32
  l_max :: u32
  l_heap_offset :: u64
  l_heap_size :: u32
  l_heap_base :: "u32 option"

text \<open>The computation of the sizes; \<open>None\<close> is a division by zero. The last field is what is written to the
  global \<open>__heap_base\<close>; after an error the caller discards the instance with its globals.\<close>

definition layout_failed :: "(string + mem_layout) option" where
  "layout_failed = Some (Inl ''failed to insert app heap into linear memory, try using `--heap-size=0` option'')"

definition add_pages :: "u32 \<Rightarrow> u32 \<Rightarrow> u32 \<Rightarrow> u32 \<Rightarrow> u64 \<Rightarrow> u32 \<Rightarrow> u32 option \<Rightarrow> (string + mem_layout) option" where
  "add_pages init maxp bytes inc heap_offset heap_size base =
     (if DEFAULT_MAX_PAGES < init + inc then layout_failed
      else Some (Inr \<lparr>l_bytes_per_page = bytes, l_init = init + inc,
        l_max = (if DEFAULT_MAX_PAGES < maxp + inc then DEFAULT_MAX_PAGES else maxp + inc),
        l_heap_offset = heap_offset, l_heap_size = heap_size, l_heap_base = base\<rparr>))"

definition place_heap :: "AOTModule \<Rightarrow> u32 \<Rightarrow> u32 \<Rightarrow> u32 \<Rightarrow> u32 \<Rightarrow> (string + mem_layout) option" where
  "place_heap md bytes init maxp heap_size =
     (let heap_offset = (ucast bytes * ucast init :: u64) in
      if heap_size > 0 \<and> heap_offset = MAX_LINEAR_MEMORY_SIZE then layout_failed
      else if init = maxp \<and> init = 1 then
        if bytes + heap_size < heap_size then layout_failed
        else Some (Inr \<lparr>l_bytes_per_page = bytes + heap_size, l_init = init, l_max = maxp,
               l_heap_offset = ucast bytes, l_heap_size = heap_size, l_heap_base = None\<rparr>)
      else if heap_size > 0 then
        if init = maxp \<and> init = 0 then add_pages init maxp heap_size 1 0 heap_size None
        else if aux_heap_base_global_index md \<noteq> -1 \<and> aux_heap_base md < heap_offset then
          (case heap_before_base (aux_heap_base md) bytes heap_size of (inc, base) \<Rightarrow>
           add_pages init maxp bytes inc (aux_heap_base md) heap_size (Some (ucast base)))
        else if bytes = 0 then None
        else let inc = (heap_size + bytes - 1) div bytes;
                 heap_size = ucast (ucast bytes * ucast inc :: u64) in
          add_pages init maxp bytes inc heap_offset (if heap_size > 0 then heap_size - 1024 else heap_size) None
      else Some (Inr \<lparr>l_bytes_per_page = bytes, l_init = init, l_max = maxp,
             l_heap_offset = heap_offset, l_heap_size = heap_size, l_heap_base = None\<rparr>))"

definition memory_layout :: "AOTModule \<Rightarrow> AOTMemory \<Rightarrow> u32 \<Rightarrow> u32 \<Rightarrow> (string + mem_layout) option" where
  "memory_layout md memory heap_size max_memory_pages =
     place_heap md (am_num_bytes_per_page memory) (am_init_page_count memory)
       (wasm_runtime_get_max_mem max_memory_pages (am_init_page_count memory) (am_max_page_count memory))
       (if heap_size > 0 \<and> malloc_func_index md \<noteq> -1 \<and> free_func_index md \<noteq> -1 then 0 else heap_size)"

definition init_memory_info :: "mem_layout \<Rightarrow> handle \<Rightarrow> u64 \<Rightarrow> WASMMemoryInstance \<Rightarrow> WASMMemoryInstance" where
  "init_memory_info l p data_size memory_inst =
     memory_inst\<lparr>num_bytes_per_page := l_bytes_per_page l, cur_page_count := l_init l, max_page_count := l_max l,
       memory_data_size := data_size, memory_data := p, memory_data_end := uintptr (p + unat data_size),
       heap_data := uintptr (p + unat (l_heap_offset l)),
       heap_data_end := uintptr (p + unat (l_heap_offset l) + unat (l_heap_size l))\<rparr>"

text \<open>\<open>handle_ok\<close> and \<open>create_ok\<close>: whether the heap structure could be allocated, and the answer of
  \<open>mem_allocator_create_with_struct_and_pool\<close>. \<open>p\<close> is null before the allocation.\<close>

definition memory_instantiate ::
  "bool \<Rightarrow> bool \<Rightarrow> AOTModule \<Rightarrow> WASMMemoryInstance \<Rightarrow> AOTMemory \<Rightarrow> u32 \<Rightarrow> u32
   \<Rightarrow> (string + WASMMemoryInstance \<times> u32 option) tee" where
  "memory_instantiate handle_ok create_ok md memory_inst memory heap_size max_memory_pages =
     (let layout = memory_layout md memory heap_size max_memory_pages in
      within (layout \<noteq> None) (case the layout of Inl e \<Rightarrow> return (Inl e) | Inr l \<Rightarrow>
      bind (wasm_allocate_linear_memory 0 (ucast (l_bytes_per_page l)) (ucast (l_init l))) (\<lambda>(r, p, data_size).
      if r \<noteq> 0 then return (Inl ''allocate linear memory failed'') else
      let m = init_memory_info l p data_size memory_inst in
      if l_heap_size l > 0 \<and> \<not> handle_ok then
        bind (wasm_deallocate_linear_memory m) (\<lambda>_. return (Inl ''allocate memory failed''))
      else if l_heap_size l > 0 \<and> \<not> create_ok then
        bind (wasm_deallocate_linear_memory m) (\<lambda>_. return (Inl ''init app heap failed''))
      else return (Inr (if data_size > 0 then wasm_runtime_set_mem_bound_check_bytes m data_size else m,
             l_heap_base l)))))"

end
