(* ===== verification/Wasm_Memory_Spec.thy ===== *)
theory Wasm_Memory_Spec
  imports Wasm_Memory
begin

text \<open>
  What linear memories guarantee: an invariant that ties pages, block, bounds and application heap together,
  that instantiation establishes it and growth keeps it, exact address checks for memories that satisfy it,
  and which blocks are mapped after each operation.
\<close>

unbundle bit_operations_syntax

section \<open>Well-formed memories\<close>

text \<open>The pages are within the limit and, if the memory can grow, fill it; the end and the bounds for the generated code fit the size,
  and the application heap lies inside.\<close>

definition bounds_ok :: "WASMMemoryInstance \<Rightarrow> bool" where
  "bounds_ok m \<longleftrightarrow> (let n = memory_data_size m in n \<noteq> 0 \<longrightarrow>
     mem_bound_check_1byte m = n - 1 \<and> mem_bound_check_2bytes m = n - 2 \<and> mem_bound_check_4bytes m = n - 4
     \<and> mem_bound_check_8bytes m = n - 8 \<and> mem_bound_check_16bytes m = n - 16)"

definition mem_ok :: "WASMMemoryInstance \<Rightarrow> bool" where
  "mem_ok m \<longleftrightarrow> unat (num_bytes_per_page m) * unat (cur_page_count m) \<le> unat (memory_data_size m)
     \<and> (cur_page_count m < max_page_count m \<longrightarrow>
          unat (memory_data_size m) = unat (num_bytes_per_page m) * unat (cur_page_count m))
     \<and> unat (memory_data_size m) \<le> 2 ^ 32
     \<and> unat (num_bytes_per_page m) * unat (max_page_count m) \<le> 2 ^ 32
     \<and> cur_page_count m \<le> max_page_count m
     \<and> (memory_data m = 0 \<longrightarrow> memory_data_size m = 0)
     \<and> memory_data_end m = memory_data m + unat (memory_data_size m) \<and> memory_data_end m < 2 ^ 64
     \<and> memory_data m \<le> heap_data m \<and> heap_data m \<le> heap_data_end m \<and> heap_data_end m \<le> memory_data_end m
     \<and> heap_data_end m - heap_data m < 2 ^ 32 \<and> bounds_ok m"

lemma mem_okD:
  assumes "mem_ok m"
  shows "unat (memory_data_size m) \<le> 2 ^ 32" "memory_data_end m = memory_data m + unat (memory_data_size m)"
    "memory_data_end m < 2 ^ 64" "memory_data m = 0 \<longrightarrow> memory_data_size m = 0"
  using assms unfolding mem_ok_def by blast+

lemma max_size: "unat MAX_LINEAR_MEMORY_SIZE = 2 ^ 32"
  by (simp add: MAX_LINEAR_MEMORY_SIZE_def)

lemma unat_add_small: "unat (a :: u64) + unat b < 2 ^ 64 \<Longrightarrow> unat (a + b) = unat a + unat b"
  by (simp add: unat_word_ariths)

lemma scan_str_end:
  assumes "str \<le> str_end"
  shows "scan_str mem str str_end = str_end \<longleftrightarrow> (\<forall>a. str \<le> a \<and> a < str_end \<longrightarrow> mem a \<noteq> 0)"
  using assms
proof (induction mem str str_end rule: scan_str.induct)
  case (1 mem str str_end)
  show ?case
  proof (cases "str < str_end \<and> mem str \<noteq> 0")
    case True
    then have "scan_str mem str str_end = str_end \<longleftrightarrow> (\<forall>a. str + 1 \<le> a \<and> a < str_end \<longrightarrow> mem a \<noteq> 0)"
      using 1 by (subst scan_str.simps) simp
    also have "\<dots> \<longleftrightarrow> (\<forall>a. str \<le> a \<and> a < str_end \<longrightarrow> mem a \<noteq> 0)"
      using True by (metis Suc_eq_plus1 Suc_leD le_antisym not_less_eq_eq)
    finally show ?thesis .
  next
    case False
    with 1 show ?thesis by (subst scan_str.simps) auto
  qed
qed

lemma zero_byte_shift:
  "(\<exists>a. base + off \<le> a \<and> a < base + n \<and> mem a = 0) \<longleftrightarrow> (\<exists>k. off \<le> k \<and> k < n \<and> mem (base + k) = 0)"
  for base off n :: nat and mem :: "nat \<Rightarrow> byte"
proof
  assume "\<exists>a. base + off \<le> a \<and> a < base + n \<and> mem a = 0"
  then obtain a where "base + off \<le> a" "a < base + n" "mem a = 0" by blast
  then show "\<exists>k. off \<le> k \<and> k < n \<and> mem (base + k) = 0" by (intro exI [of _ "a - base"]) auto
next
  assume "\<exists>k. off \<le> k \<and> k < n \<and> mem (base + k) = 0"
  then obtain k where "off \<le> k" "k < n" "mem (base + k) = 0" by blast
  then show "\<exists>a. base + off \<le> a \<and> a < base + n \<and> mem a = 0" by (intro exI [of _ "base + k"]) auto
qed

text \<open>The checks in terms of numbers.\<close>

lemma validate_app_addr_iff:
  assumes "wasm_get_default_memory inst = Some m" "mem_ok m"
  shows "fst (wasm_runtime_validate_app_addr inst off n) \<longleftrightarrow> unat off + unat n \<le> unat (memory_data_size m)"
proof (cases "MAX_LINEAR_MEMORY_SIZE < n \<or> MAX_LINEAR_MEMORY_SIZE - n < off")
  case True
  have "unat (memory_data_size m) < unat off + unat n"
  proof (cases "MAX_LINEAR_MEMORY_SIZE < n")
    case False
    then have "n \<le> MAX_LINEAR_MEMORY_SIZE" by (simp add: not_less)
    then have "unat (MAX_LINEAR_MEMORY_SIZE - n) = 2 ^ 32 - unat n" using max_size by (simp add: unat_sub)
    with True False mem_okD(1) [OF assms(2)] show ?thesis by (simp add: word_less_nat_alt max_size)
  qed (use mem_okD(1) [OF assms(2)] in \<open>simp add: word_less_nat_alt max_size\<close>)
  with True assms(1) show ?thesis by (simp add: wasm_runtime_validate_app_addr_def oob_def)
next
  case False
  then have n: "n \<le> MAX_LINEAR_MEMORY_SIZE" by (simp add: not_less)
  then have "unat (MAX_LINEAR_MEMORY_SIZE - n) = 2 ^ 32 - unat n" using max_size by (simp add: unat_sub)
  moreover have "unat n \<le> 2 ^ 32" using n by (simp add: word_le_nat_alt max_size)
  ultimately have "unat off + unat n \<le> 2 ^ 32" using False by (auto simp: word_less_nat_alt not_less)
  then have "unat (off + n) = unat off + unat n" by (intro unat_add_small) simp
  with False assms(1) show ?thesis by (simp add: wasm_runtime_validate_app_addr_def oob_def word_le_nat_alt)
qed

lemma native_addr:
  assumes "mem_ok m"
  shows "memory_data m \<le> uintptr (memory_data m + unat (off :: u64)) \<and> uintptr (memory_data m + unat off) < memory_data_end m
    \<longleftrightarrow> off < memory_data_size m"
    "off < memory_data_size m \<Longrightarrow> uintptr (memory_data m + unat off) = memory_data m + unat off"
proof -
  note d = mem_okD [OF assms]
  show eq: "uintptr (memory_data m + unat off) = memory_data m + unat off" if "off < memory_data_size m"
    using that d by (simp add: uintptr_def word_less_nat_alt)
  have "unat off < 2 ^ 64" by (rule unat_u64_less)
  have "off < memory_data_size m"
    if "memory_data m \<le> uintptr (memory_data m + unat off)" "uintptr (memory_data m + unat off) < memory_data_end m"
  proof (cases "memory_data m + unat off < 2 ^ 64")
    case True
    with that(2) d show ?thesis by (simp add: uintptr_def word_less_nat_alt)
  next
    case False
    then have "uintptr (memory_data m + unat off) = memory_data m + unat off - 2 ^ 64"
      using d \<open>unat off < 2 ^ 64\<close> by (simp add: uintptr_def mod_if)
    with that(1) False \<open>unat off < 2 ^ 64\<close> show ?thesis by simp
  qed
  then show "memory_data m \<le> uintptr (memory_data m + unat off) \<and> uintptr (memory_data m + unat off) < memory_data_end m
    \<longleftrightarrow> off < memory_data_size m"
    using eq d by (auto simp: word_less_nat_alt)
qed

lemma app_to_native_eq:
  assumes "wasm_get_default_memory inst = Some m" "mem_ok m"
  shows "wasm_runtime_addr_app_to_native inst off = (if off < memory_data_size m then memory_data m + unat off else 0)"
  using native_addr [OF assms(2), of off] assms(1) by (auto simp: wasm_runtime_addr_app_to_native_def Let_def)

lemma native_to_app_eq:
  assumes "wasm_get_default_memory inst = Some m" "mem_ok m" "off < memory_data_size m"
  shows "wasm_runtime_addr_native_to_app inst (memory_data m + unat off) = off"
  using assms mem_okD [OF assms(2)] by (simp add: wasm_runtime_addr_native_to_app_def word_less_nat_alt)

lemma validate_native_addr_iff:
  assumes "wasm_get_default_memory inst = Some m" "mem_ok m" "addr < 2 ^ 64"
  shows "fst (wasm_runtime_validate_native_addr inst addr n) \<longleftrightarrow>
    memory_data m \<le> addr \<and> addr + unat n \<le> memory_data_end m"
proof -
  note d = mem_okD [OF assms(2)]
  have n: "unat n < 2 ^ 64" by (rule unat_u64_less)
  have "uintptr (addr + unat n) = addr + unat n" if "\<not> 2 ^ 64 - 1 - unat n < addr"
    using that n assms(3) by (simp add: uintptr_def)
  then show ?thesis
    using assms(1) d n by (auto simp: wasm_runtime_validate_native_addr_def oob_def word_less_nat_alt max_size)
qed

lemma validate_str_iff:
  assumes "wasm_get_default_memory inst = Some m" "mem_ok m"
  shows "fst (wasm_runtime_validate_app_str_addr mem inst off) \<longleftrightarrow>
    (\<exists>k. unat off \<le> k \<and> k < unat (memory_data_size m) \<and> mem (memory_data m + k) = 0)"
proof (cases "off < memory_data_size m")
  case True
  note d = mem_okD [OF assms(2)]
  have lim: "\<not> MAX_LINEAR_MEMORY_SIZE \<le> off" "\<not> MAX_LINEAR_MEMORY_SIZE < memory_data_size m"
    using True d(1) by (simp_all add: word_le_nat_alt word_less_nat_alt max_size)
  have "unat (memory_data_size m - off) = unat (memory_data_size m) - unat off"
    using True by (simp add: unat_sub)
  then have e: "memory_data m + unat off + unat (memory_data_size m - off) = memory_data_end m"
    using True d(2) by (simp add: word_less_nat_alt)
  have le: "memory_data m + unat off \<le> memory_data_end m" using True d(2) by (simp add: word_less_nat_alt)
  have "fst (wasm_runtime_validate_app_str_addr mem inst off) \<longleftrightarrow>
      (\<exists>a. memory_data m + unat off \<le> a \<and> a < memory_data_end m \<and> mem a = 0)"
    using True lim assms(1) scan_str_end [OF le, of mem]
    by (auto simp: wasm_runtime_validate_app_str_addr_def wasm_runtime_get_app_addr_range_def
        app_to_native_eq [OF assms] e oob_def Let_def)
  also have "\<dots> \<longleftrightarrow> (\<exists>k. unat off \<le> k \<and> k < unat (memory_data_size m) \<and> mem (memory_data m + k) = 0)"
    unfolding d(2) by (rule zero_byte_shift)
  finally show ?thesis .
next
  case False
  then show ?thesis
    using assms(1) by (auto simp: wasm_runtime_validate_app_str_addr_def wasm_runtime_get_app_addr_range_def oob_def word_less_nat_alt)
qed

lemma convert_eq:
  assumes "wasm_get_default_memory inst = Some m" "mem_ok m"
  shows "fst (wasm_check_app_addr_and_convert mem inst is_str off n) =
    (if off < memory_data_size m \<and>
        (if is_str then \<exists>k. unat off \<le> k \<and> k < unat (memory_data_size m) \<and> mem (memory_data m + k) = 0
         else unat off + unat n \<le> unat (memory_data_size m))
     then Some (memory_data m + unat off) else None)"
proof (cases "off < memory_data_size m")
  case True
  note d = mem_okD [OF assms(2)]
  have le: "memory_data m + unat off \<le> memory_data_end m" using True d(2) by (simp add: word_less_nat_alt)
  have "(\<exists>a. memory_data m + unat off \<le> a \<and> a < memory_data_end m \<and> mem a = 0) \<longleftrightarrow>
      (\<exists>k. unat off \<le> k \<and> k < unat (memory_data_size m) \<and> mem (memory_data m + k) = 0)"
    unfolding d(2) by (rule zero_byte_shift)
  moreover have "memory_data_size m - off < n \<longleftrightarrow> \<not> unat off + unat n \<le> unat (memory_data_size m)"
    using True unat_sub [OF less_imp_le [OF True]] by (auto simp: word_less_nat_alt)
  ultimately show ?thesis
    using True assms(1) scan_str_end [OF le, of mem] native_addr(2) [OF assms(2) True]
    by (auto simp: wasm_check_app_addr_and_convert_def Let_def)
qed (use assms(1) in \<open>auto simp: wasm_check_app_addr_and_convert_def Let_def\<close>)

section \<open>Placing the application heap\<close>

text \<open>What a compiler writes for a memory: pages of 64 KiB within the limit, or a single page of any size.\<close>

definition aot_memory_ok :: "AOTMemory \<Rightarrow> bool" where
  "aot_memory_ok memory \<longleftrightarrow>
     am_num_bytes_per_page memory = 65536 \<and> am_init_page_count memory \<le> am_max_page_count memory
       \<and> am_max_page_count memory \<le> DEFAULT_MAX_PAGES
     \<or> am_init_page_count memory = 1 \<and> am_max_page_count memory = 1"

definition layout_ok :: "mem_layout \<Rightarrow> bool" where
  "layout_ok l \<longleftrightarrow> unat (l_bytes_per_page l) * unat (l_max l) \<le> 2 ^ 32 \<and> l_init l \<le> l_max l
     \<and> (l_init l < l_max l \<longrightarrow> l_bytes_per_page l = 65536)
     \<and> unat (l_heap_offset l) + unat (l_heap_size l) \<le> unat (l_bytes_per_page l) * unat (l_init l)
     \<and> (\<forall>b. l_heap_base l = Some b \<longrightarrow> unat (l_heap_offset l) + unat (l_heap_size l) \<le> unat b
          \<and> unat b < unat (l_bytes_per_page l) * unat (l_init l))"

lemma get_max_mem_between:
  "i \<le> m \<Longrightarrow> i \<le> wasm_runtime_get_max_mem x i m \<and> wasm_runtime_get_max_mem x i m \<le> m"
  by (auto simp: wasm_runtime_get_max_mem_def)

lemma unat_ucast_32_64 [simp]: "unat (ucast (x :: u32) :: u64) = unat x"
proof -
  have "unat x < 2 ^ 64" using unsigned_less [of x, where ?'a = nat] by simp
  then show ?thesis by (simp add: unsigned_ucast_eq take_bit_nat_eq_self)
qed

lemma unat_mult_32_64: "unat (ucast (x :: u32) * ucast (y :: u32) :: u64) = unat x * unat y"
proof -
  have "unat x * unat y < 2 ^ 32 * 2 ^ 32"
    using unsigned_less [of x] unsigned_less [of y] by (intro mult_strict_mono) auto
  then show ?thesis by (simp add: unat_word_ariths)
qed

lemma unat_small_32: "unat (x :: u32) < 2 ^ 32"
  using unsigned_less [of x] by simp

text \<open>With pages of 64 KiB the arithmetic does not wrap.\<close>

lemma bytes_to_page_end_64K:
  "unat (bytes_to_page_end 65536 a) = (if unat a mod 65536 = 0 then 0 else 65536 - unat a mod 65536)"
proof -
  have m: "unat (a mod 65536) = unat a mod 65536" by (simp add: unat_mod)
  have c: "unat (ucast (a mod 65536) :: u32) = unat a mod 65536"
    using m by (simp add: unsigned_ucast_eq take_bit_nat_eq_self)
  show ?thesis
  proof (cases "unat a mod 65536 = 0")
    case True
    with c have "(ucast (a mod 65536) :: u32) = 0" by (simp only: unat_eq_zero)
    with True show ?thesis by (simp add: bytes_to_page_end_def Let_def)
  next
    case False
    with c have n: "(ucast (a mod 65536) :: u32) \<noteq> 0" by (metis unat_0)
    have "(ucast (a mod 65536) :: u32) \<le> 65536" using c by (simp add: word_le_nat_alt)
    then have "unat (65536 - (ucast (a mod 65536) :: u32)) = 65536 - unat a mod 65536" using c by (simp add: unat_sub)
    with False n show ?thesis by (simp add: bytes_to_page_end_def Let_def)
  qed
qed

lemma pages_for:
  assumes "H \<le> 2 ^ 30" "r \<le> 65536" "0 < r"
  shows "unat ((of_nat H - of_nat (65536 - r) + 65536 - 1 :: u32) div 65536) = (H + r - 1) div 65536"
proof -
  have "(of_nat H - of_nat (65536 - r) + 65536 - 1 :: u32) = of_nat (H + r - 1)"
    using assms by (simp add: of_nat_diff algebra_simps)
  moreover have "unat (of_nat (H + r - 1) :: u32) = H + r - 1"
    using assms by (subst unat_of_nat) simp
  ultimately show ?thesis by (simp only: unat_div) simp
qed

lemma page_end_room:
  fixes A H I r :: nat
  assumes "A < 65536 * I" and r: "r = (if A mod 65536 = 0 then 65536 else A mod 65536)"
  shows "A + H \<le> 65536 * (I + (H + r - 1) div 65536)"
proof -
  have "A div 65536 + 1 \<le> I" using assms(1) by (simp add: div_less_iff_less_mult Suc_le_eq mult.commute)
  then have "65536 * (A div 65536) + 65536 \<le> 65536 * I" by simp
  moreover have "A = 65536 * (A div 65536) + A mod 65536" "A mod 65536 < 65536" by simp_all
  ultimately have "A + (65536 - r) \<le> 65536 * I"
    using assms(1) unfolding r by (cases "A mod 65536 = 0", unfold if_P if_not_P) linarith+
  moreover have "H + r - 1 < 65536 * ((H + r - 1) div 65536) + 65536"
    using div_mult_mod_eq [of "H + r - 1" 65536] mod_less_divisor [of 65536 "H + r - 1"] by linarith
  moreover have "0 < r" "r \<le> 65536" by (simp_all add: r)
  ultimately show ?thesis unfolding distrib_left by linarith
qed

text \<open>The heap in front of \<open>__heap_base\<close>: it ends before the new base, which lies inside the pages.\<close>

lemma heap_before_base_64K:
  assumes "unat base < 65536 * I" "I \<le> 65536" "unat heap \<le> 2 ^ 30" "heap_before_base base 65536 heap = (inc, base')"
  shows "unat base + unat heap \<le> unat base' \<and> unat base' < 65536 * (I + unat inc) \<and> unat inc \<le> 2 ^ 15"
proof -
  define r where "r = (if unat base mod 65536 = 0 then 65536 else unat base mod 65536)"
  define e where "e = (\<lambda>a :: u64. unat (bytes_to_page_end 65536 a))"
  have e: "e a = (if unat a mod 65536 = 0 then 0 else 65536 - unat a mod 65536)" for a
    by (simp add: e_def bytes_to_page_end_64K)
  have r_le: "0 < r" "r \<le> 65536" "e base = 65536 - r" by (auto simp: r_def e)
  define inc0 where "inc0 = (heap - bytes_to_page_end 65536 base + 65536 - 1) div 65536"
  have "inc0 = (of_nat (unat heap) - of_nat (65536 - r) + 65536 - 1) div 65536"
    unfolding inc0_def r_le(3) [symmetric] e_def by simp
  then have inc0: "unat inc0 = (unat heap + r - 1) div 65536" using pages_for [OF assms(3) r_le(2,1)] by simp
  have room: "unat base + unat heap \<le> 65536 * (I + unat inc0)"
    unfolding inc0 by (rule page_end_room [OF assms(1) r_def])
  have base0: "unat (base + ucast heap) = unat base + unat heap"
    using assms(1-3) by (subst unat_add_small) simp_all
  have small: "unat inc0 \<le> 2 ^ 14 + 1" using inc0 assms(3) r_le by simp
  show "unat base + unat heap \<le> unat base' \<and> unat base' < 65536 * (I + unat inc) \<and> unat inc \<le> 2 ^ 15"
  proof (cases "e (base + ucast heap) < 1024")
    case True
    then have eq: "inc = inc0 + 1" "base' = base + ucast heap + 1024"
      using assms(4) by (simp_all add: heap_before_base_def inc0_def Let_def e_def word_less_nat_alt)
    have "unat inc = unat inc0 + 1" unfolding eq using small by (simp add: unat_word_ariths)
    moreover have "unat base' = unat base + unat heap + 1024"
      unfolding eq using base0 assms(1-3) by (subst unat_add_small) simp_all
    ultimately show "unat base + unat heap \<le> unat base' \<and> unat base' < 65536 * (I + unat inc) \<and> unat inc \<le> 2 ^ 15"
      using room small by simp
  next
    case False
    then have eq: "inc = inc0" "base' = base + ucast heap"
      using assms(4) by (simp_all add: heap_before_base_def inc0_def Let_def e_def word_less_nat_alt)
    have "(unat base + unat heap) mod 65536 \<noteq> 0" using False base0 by (simp add: e split: if_splits)
    then have "unat base + unat heap \<noteq> 65536 * (I + unat inc0)" by auto
    with room small base0 show "unat base + unat heap \<le> unat base' \<and> unat base' < 65536 * (I + unat inc) \<and> unat inc \<le> 2 ^ 15"
      unfolding eq by simp
  qed
qed

lemma heap_in_new_pages:
  fixes heap inc room :: u32
  assumes "unat heap \<le> 2 ^ 30" "inc = (heap + 65536 - 1) div 65536" "room = ucast (65536 * ucast inc :: u64)"
  shows "unat inc \<le> 2 ^ 15" "unat (if room > 0 then room - 1024 else room) \<le> 65536 * unat inc"
proof -
  have "unat (heap + 65536 - 1) = unat heap + 65535"
    using assms(1) unat_word_ariths(1) [of 65535 heap] by simp
  then have "unat inc = (unat heap + 65535) div 65536" using assms(2) by (simp add: unat_div)
  with assms(1) show inc: "unat inc \<le> 2 ^ 15" by simp
  then have "unat (65536 * ucast inc :: u64) = 65536 * unat inc" by (simp add: unat_word_ariths)
  with inc have room: "unat room = 65536 * unat inc"
    unfolding assms(3) by (simp add: unsigned_ucast_eq take_bit_nat_eq_self)
  have "1024 \<le> room" if "room > 0" using that room by (simp add: word_less_nat_alt word_le_nat_alt)
  then show "unat (if room > 0 then room - 1024 else room) \<le> 65536 * unat inc" using room by (auto simp: unat_sub)
qed

lemma add_pages_ok:
  assumes "init \<le> maxp" "maxp \<le> 65536" "unat inc \<le> 2 ^ 15" "bytes = 65536 \<or> maxp = 0 \<and> inc = 1"
    "unat off + unat heap \<le> unat bytes * (unat init + unat inc)"
    "\<And>b. base = Some b \<Longrightarrow> unat off + unat heap \<le> unat b \<and> unat b < unat bytes * (unat init + unat inc)"
    "add_pages init maxp bytes inc off heap base = Some (Inr l)"
  shows "layout_ok l"
proof -
  have le: "unat init \<le> unat maxp" "unat maxp \<le> 65536" using assms(1,2) by (simp_all add: word_le_nat_alt)
  have add: "unat (init + inc) = unat init + unat inc" "unat (maxp + inc) = unat maxp + unat inc"
    using le assms(3) by (simp_all add: unat_word_ariths)
  define top where "top = (if DEFAULT_MAX_PAGES < maxp + inc then DEFAULT_MAX_PAGES else maxp + inc)"
  have top: "unat top = min 65536 (unat maxp + unat inc)"
    unfolding top_def DEFAULT_MAX_PAGES_def using add by (simp add: word_less_nat_alt)
  have "unat init + unat inc \<le> 65536"
    and l: "l = \<lparr>l_bytes_per_page = bytes, l_init = init + inc, l_max = top, l_heap_offset = off, l_heap_size = heap, l_heap_base = base\<rparr>"
    using assms(7) add by (auto simp: add_pages_def layout_failed_def top_def DEFAULT_MAX_PAGES_def word_less_nat_alt split: if_splits)
  then have "init + inc \<le> top" using le top add by (simp add: word_le_nat_alt)
  moreover have "unat bytes * unat top \<le> 2 ^ 32"
    using assms(4)
  proof
    assume "bytes = 65536"
    then show ?thesis using top by simp
  next
    assume "maxp = 0 \<and> inc = 1"
    then have "unat top = 1" using top by simp
    then show ?thesis using unat_small_32 [of bytes] by simp
  qed
  moreover have "bytes = 65536" if "init + inc < top"
    using that assms(4) top add le by (auto simp: word_less_nat_alt)
  ultimately show ?thesis using assms(5,6) unfolding l layout_ok_def by (simp add: add)
qed

lemma place_heap_ok:
  assumes ok: "bytes = 65536 \<and> init \<le> maxp \<and> maxp \<le> 65536 \<or> init = 1 \<and> maxp = 1"
    and heap: "unat heap \<le> 2 ^ 30"
  shows "place_heap md bytes init maxp heap \<noteq> None"
    "place_heap md bytes init maxp heap = Some (Inr l) \<Longrightarrow> layout_ok l"
proof -
  have div: "bytes \<noteq> 0" if "\<not> (init = maxp \<and> init = 1)" using ok that by auto
  then show "place_heap md bytes init maxp heap \<noteq> None"
    by (auto simp: place_heap_def add_pages_def layout_failed_def Let_def split: prod.splits)
  assume l: "place_heap md bytes init maxp heap = Some (Inr l)"
  show "layout_ok l"
  proof (cases "init = maxp \<and> init = 1")
    case True
    with l have "\<not> bytes + heap < heap" and eq: "l = \<lparr>l_bytes_per_page = bytes + heap, l_init = init, l_max = maxp,
        l_heap_offset = ucast bytes, l_heap_size = heap, l_heap_base = None\<rparr>"
      by (auto simp: place_heap_def layout_failed_def Let_def split: if_splits)
    then have "unat (bytes + heap) = unat bytes + unat heap"
      using unat_plus_simple [of heap bytes] by (simp add: add.commute not_less)
    moreover have "init = 1" "maxp = 1" using True by auto
    ultimately show ?thesis using unat_small_32 [of "bytes + heap"] unfolding eq by (simp add: layout_ok_def)
  next
    case multi: False
    then have P: "bytes = 65536" and le: "init \<le> maxp" "maxp \<le> 65536" using ok by auto
    show ?thesis
    proof (cases "heap > 0")
      case False
      with l multi have "l = \<lparr>l_bytes_per_page = bytes, l_init = init, l_max = maxp,
          l_heap_offset = ucast bytes * ucast init, l_heap_size = heap, l_heap_base = None\<rparr>"
        by (auto simp: place_heap_def Let_def split: if_splits)
      then show ?thesis
        using False le P unat_mult_32_64 [of bytes init] by (simp add: layout_ok_def word_le_nat_alt word_less_nat_alt)
    next
      case True
      have le': "unat init \<le> 65536" using le by (simp add: word_le_nat_alt)
      consider (empty) "init = maxp" "init = 0" "add_pages init maxp heap 1 0 heap None = Some (Inr l)"
        | (base) inc base where "unat (aux_heap_base md) < 65536 * unat init"
            "heap_before_base (aux_heap_base md) 65536 heap = (inc, base)"
            "add_pages init maxp 65536 inc (aux_heap_base md) heap (Some (ucast base)) = Some (Inr l)"
        | (pages) inc room where "inc = (heap + 65536 - 1) div 65536" "room = ucast (65536 * ucast inc :: u64)"
            "add_pages init maxp 65536 inc (ucast bytes * ucast init) (if room > 0 then room - 1024 else room) None = Some (Inr l)"
        using l True multi P unat_mult_32_64 [of bytes init]
        by (auto simp: place_heap_def layout_failed_def Let_def word_less_nat_alt split: if_splits prod.splits)
      then show ?thesis
      proof cases
        case empty
        then show ?thesis using le by (intro add_pages_ok [OF le _ _ _ _ empty(3)]) simp_all
      next
        case base
        note b = heap_before_base_64K [OF base(1) le' heap base(2)]
        have "unat init + unat inc \<le> 65536"
          using base(3) le' b by (auto simp: add_pages_def layout_failed_def DEFAULT_MAX_PAGES_def word_less_nat_alt unat_word_ariths split: if_splits)
        with b have "unat (ucast base :: u32) = unat base" by (simp add: unsigned_ucast_eq take_bit_nat_eq_self)
        with b show ?thesis by (intro add_pages_ok [OF le _ _ _ _ base(3)]) auto
      next
        case pages
        note h = heap_in_new_pages [OF heap pages(1,2)]
        show ?thesis
          using h P unat_mult_32_64 [of bytes init] by (intro add_pages_ok [OF le _ _ _ _ pages(3)]) (simp_all add: distrib_left)
      qed
    qed
  qed
qed

lemma layout_of:
  assumes "aot_memory_ok memory" "heap_size \<le> APP_HEAP_SIZE_MAX"
  shows "memory_layout md memory heap_size pages \<noteq> None"
    "memory_layout md memory heap_size pages = Some (Inr l) \<Longrightarrow> layout_ok l"
proof -
  have "wasm_runtime_get_max_mem pages 1 1 = 1" using get_max_mem_between [of 1 1 pages] by (auto intro: antisym)
  moreover have "wasm_runtime_get_max_mem pages i m \<le> 65536" if "i \<le> m" "m \<le> 65536" for i m
    using get_max_mem_between [OF that(1), of pages] that(2) by (blast intro: order_trans)
  ultimately have ok: "am_num_bytes_per_page memory = 65536
      \<and> am_init_page_count memory \<le> wasm_runtime_get_max_mem pages (am_init_page_count memory) (am_max_page_count memory)
      \<and> wasm_runtime_get_max_mem pages (am_init_page_count memory) (am_max_page_count memory) \<le> 65536
    \<or> am_init_page_count memory = 1 \<and> wasm_runtime_get_max_mem pages (am_init_page_count memory) (am_max_page_count memory) = 1"
    using assms(1) get_max_mem_between by (auto simp: aot_memory_ok_def DEFAULT_MAX_PAGES_def)
  have "unat (if heap_size > 0 \<and> malloc_func_index md \<noteq> -1 \<and> free_func_index md \<noteq> -1 then 0 else heap_size) \<le> 2 ^ 30"
    using assms(2) by (simp add: APP_HEAP_SIZE_MAX_def word_le_nat_alt)
  note place = place_heap_ok [OF ok this]
  show "memory_layout md memory heap_size pages \<noteq> None" unfolding memory_layout_def by (rule place(1))
  show "layout_ok l" if "memory_layout md memory heap_size pages = Some (Inr l)"
    using that unfolding memory_layout_def by (rule place(2))
qed

section \<open>Blocks that are mapped\<close>

text \<open>What is assumed of the kernel: a block does not reach the end of the address space. That new blocks are not
  at an address that is mapped is \<open>blocks_fresh\<close>.\<close>

definition blocks_fit :: "env \<Rightarrow> bool" where
  "blocks_fit env \<longleftrightarrow>
     (\<forall>tr n a. env tr (Map (tee_map_zi n)) = Some a \<longrightarrow> ans_handle a + n < 2 ^ 64)
     \<and> (\<forall>tr n old a. env tr (Map (tee_remap n old)) = Some a \<longrightarrow> ans_handle a + n < 2 ^ 64)"

text \<open>The block of a memory is mapped with the size of the memory in whole pages.\<close>

definition mapped :: "WASMMemoryInstance \<Rightarrow> trace \<Rightarrow> bool" where
  "mapped m tr \<longleftrightarrow> memory_data m = 0 \<or> (memory_data m, align_up 4096 (unat (memory_data_size m))) \<in> mappings tr"

text \<open>The memory was remapped, but the new block could not be protected. If the kernel takes the new block back,
  nothing is mapped at the address of the memory; otherwise the new block stays mapped.\<close>

definition remap_refused :: "WASMMemoryInstance \<Rightarrow> trace \<Rightarrow> trace \<Rightarrow> bool" where
  "remap_refused m tr tr' \<longleftrightarrow> (\<exists>n k p i a b c. ans_handle a \<noteq> 0 \<and> ans_res b \<noteq> TEE_SUCCESS \<and>
     tr' = (Map (tee_unmap (ans_handle a) i), c) # (Map (tee_mprotect (ans_handle a) k p), b)
       # (Map (tee_remap n (memory_data m)), a) # tr \<and>
     (if ans_res c = TEE_SUCCESS then memory_data m \<notin> fst ` mappings tr'
      else (ans_handle a, align_up 4096 n) \<in> mappings tr'))"

lemma aligned_le: "unat n + 4095 < 2 ^ 64 \<Longrightarrow> unat n \<le> unat (aligned_size n)"
  by (simp add: aligned_size_exact align_up_def)

lemma blocks_fitD:
  assumes "blocks_fit env"
  shows "env tr (Map (tee_map_zi k)) = Some a \<Longrightarrow> n \<le> k \<Longrightarrow> ans_handle a + n < 2 ^ 64"
    "env tr (Map (tee_remap k old)) = Some a \<Longrightarrow> n \<le> k \<Longrightarrow> ans_handle a + n < 2 ^ 64"
  using assms unfolding blocks_fit_def by (meson add_left_mono le_less_trans)+

lemma mprotect_spec:
  "wp (os_mprotect h n p) env tr False (\<lambda>r tr'. \<exists>k q b. tr' = (Map (tee_mprotect h k q), b) # tr
     \<and> (r = 0 \<longleftrightarrow> ans_res b = TEE_SUCCESS))"
  by (auto simp: os_mprotect_def wp_call wp_simps)

text \<open>Nothing was added to the mappings, or one new block could not be taken back.\<close>

definition only_refused_left :: "trace \<Rightarrow> trace \<Rightarrow> bool" where
  "only_refused_left tr tr' \<longleftrightarrow> mappings tr' = mappings tr
     \<or> (\<exists>h n. unmap_refused tr' h n \<and> h \<notin> fst ` mappings tr \<and> mappings tr' = insert (h, n) (mappings tr))"

text \<open>A new block: it fits and is fresh, or nothing stays mapped but what the kernel does not take back.\<close>

lemma mmap_linear_spec:
  assumes "blocks_fit env" "blocks_fresh env"
  shows "wp (wasm_mmap_linear_memory n c) env tr False (\<lambda>h tr'.
     if h = 0 then only_refused_left tr tr'
     else h + unat (aligned_size n) < 2 ^ 64 \<and> h \<notin> fst ` mappings tr
       \<and> mappings tr' = insert (h, unat (aligned_size n)) (mappings tr))"
proof -
  have "ans_handle a \<notin> fst ` mappings tr" "(ans_handle a, j) \<notin> mappings tr"
    if "env tr (Map (tee_map_zi k)) = Some a" for a k j
    using that assms(2) blocks_freshD [OF assms(2) that] by (auto simp: blocks_fresh_def)
  then show ?thesis
    using blocks_fitD(1) [OF assms(1) _ order_refl]
    by (auto simp: wasm_mmap_linear_memory_def wasm_mremap_linear_memory_def wasm_munmap_linear_memory_def os_mmap_def
      os_munmap_def os_mprotect_def only_refused_left_def unmap_refused_def Let_def wp_simps wp_call)
qed

text \<open>A block that is replaced.\<close>

lemma mremap_linear_spec:
  assumes "blocks_fit env" "old = memory_data m" "old \<noteq> 0" "unat n \<le> 2 ^ 32"
  shows "wp (wasm_mremap_linear_memory old osz n c) env tr False (\<lambda>h tr'.
     if h = 0 then mappings tr' = mappings tr \<or> remap_refused m tr tr'
     else h + unat n < 2 ^ 64 \<and> (h, align_up 4096 (unat n)) \<in> mappings tr')"
proof -
  have "unat (aligned_size n) = align_up 4096 (unat n)"
    using assms(4) by (intro aligned_size_exact) simp
  then show ?thesis
    using blocks_fitD(2) [OF assms(1) _ order_refl] assms(2,3)
    by (auto simp: wasm_mremap_linear_memory_def wasm_munmap_linear_memory_def os_mremap_def os_munmap_def os_mprotect_def
      remap_refused_def Let_def wp_simps wp_call)
qed

section \<open>Growth\<close>

definition heap_bytes :: "WASMMemoryInstance \<Rightarrow> nat" where
  "heap_bytes m = heap_data_end m - heap_data m"

text \<open>A memory with more pages; the application heap keeps its place.\<close>

definition grown :: "u32 \<Rightarrow> WASMMemoryInstance \<Rightarrow> WASMMemoryInstance \<Rightarrow> bool" where
  "grown inc m m' \<longleftrightarrow> unat (cur_page_count m') = unat (cur_page_count m) + unat inc
     \<and> num_bytes_per_page m' = num_bytes_per_page m \<and> max_page_count m' = max_page_count m
     \<and> heap_data m' - memory_data m' = heap_data m - memory_data m \<and> heap_bytes m' = heap_bytes m"

lemma heap_size_word:
  assumes "mem_ok m"
  shows "unat (of_nat (heap_data_end m) - of_nat (heap_data m) :: u32) = heap_bytes m"
proof -
  have "heap_data m \<le> heap_data_end m" "heap_bytes m < 2 ^ 32" using assms by (simp_all add: mem_ok_def heap_bytes_def)
  then have "(of_nat (heap_data_end m) - of_nat (heap_data m) :: u32) = of_nat (heap_bytes m)"
    by (simp add: heap_bytes_def of_nat_diff)
  with \<open>heap_bytes m < 2 ^ 32\<close> show ?thesis by (simp add: unat_of_nat)
qed

lemma enlarged_ok:
  assumes ok: "mem_ok m" and max: "unat (cur_page_count m) + unat inc \<le> unat (max_page_count m)" and "inc \<noteq> 0"
    and h: "h \<noteq> 0" "h + unat (num_bytes_per_page m) * (unat (cur_page_count m) + unat inc) < 2 ^ 64"
    and w: "unat heap_size = heap_bytes m" "unat pages = unat (cur_page_count m) + unat inc"
      "unat sz = unat (num_bytes_per_page m) * unat pages"
  shows "mem_ok (enlarged h heap_size pages sz m) \<and> grown inc m (enlarged h heap_size pages sz m)
    \<and> memory_data (enlarged h heap_size pages sz m) = h"
proof -
  note d = ok [unfolded mem_ok_def]
  have "0 < unat inc" using \<open>inc \<noteq> 0\<close> by (simp add: unat_gt_0)
  then have full: "unat (memory_data_size m) = unat (num_bytes_per_page m) * unat (cur_page_count m)"
    using d max by (simp add: word_less_nat_alt)
  have le: "unat (memory_data_size m) \<le> unat sz" unfolding full w by simp
  have lim: "unat sz \<le> 2 ^ 32" "unat pages \<le> unat (max_page_count m)"
    unfolding w using d max order_trans [OF mult_le_mono2 [OF max]] by blast+
  have sz: "h + unat sz < 2 ^ 64" using h(2) w by simp
  have off: "heap_data m - memory_data m + heap_bytes m \<le> unat sz" "memory_data m \<le> heap_data m"
    "heap_data_end m = heap_data m + heap_bytes m"
    using d le by (auto simp: heap_bytes_def)
  have "int h + (int (heap_data m) - int (memory_data m)) = int (h + (heap_data m - memory_data m))"
    using off(2) by simp
  then have s: "shift_ptr h (heap_data m) (memory_data m) = h + (heap_data m - memory_data m)"
    unfolding shift_ptr_def using off sz by (simp add: nat_mod_distrib flip: of_nat_add)
  have u: "uintptr (h + unat sz) = h + unat sz"
    "uintptr (h + (heap_data m - memory_data m) + unat heap_size) = h + (heap_data m - memory_data m) + heap_bytes m"
    using sz off(1) w(1) by (simp_all add: uintptr_def)
  define m' where "m' = enlarged h heap_size pages sz m"
  have f: "memory_data m' = h" "memory_data_end m' = h + unat sz" "memory_data_size m' = sz" "cur_page_count m' = pages"
    "num_bytes_per_page m' = num_bytes_per_page m" "max_page_count m' = max_page_count m"
    "heap_data m' = h + (heap_data m - memory_data m)" "heap_data_end m' = h + (heap_data m - memory_data m) + heap_bytes m"
    "bounds_ok m'"
    unfolding m'_def enlarged_def s Let_def wasm_runtime_set_mem_bound_check_bytes_def bounds_ok_def by (simp_all add: u)
  have "heap_bytes m < 2 ^ 32" using d by (auto simp: heap_bytes_def)
  moreover have "unat (num_bytes_per_page m) * unat (max_page_count m) \<le> 2 ^ 32" using d by blast
  ultimately have "mem_ok m'"
    unfolding mem_ok_def f(1-8) using f(9) h(1) sz off(1) lim w(3) by (simp add: word_le_nat_alt)
  moreover have "grown inc m m'" unfolding grown_def heap_bytes_def [of m'] f by (simp add: w(2))
  ultimately show ?thesis using f(1) unfolding m'_def by blast
qed

lemma word_sum_32:
  "(x :: u32) + y < y \<longleftrightarrow> 2 ^ 32 \<le> unat y + unat x" "\<not> x + y < y \<Longrightarrow> unat (x + y) = unat y + unat x"
proof -
  have iff: "\<not> x + y < y \<longleftrightarrow> unat (y + x) = unat y + unat x"
    using unat_plus_simple [of y x] by (simp add: not_less add.commute)
  have "unat (y + x) = (unat y + unat x) mod 2 ^ 32" by (simp add: unat_word_ariths)
  then have "unat (y + x) = unat y + unat x \<longleftrightarrow> unat y + unat x < 2 ^ 32"
    using unat_small_32 [of "y + x"] by (metis mod_less)
  with iff show "x + y < y \<longleftrightarrow> 2 ^ 32 \<le> unat y + unat x" by linarith
  show "\<not> x + y < y \<Longrightarrow> unat (x + y) = unat y + unat x" using iff by (simp add: add.commute)
qed

text \<open>What is left of the block of a memory that did not grow.\<close>

definition kept_or_refused :: "WASMMemoryInstance \<Rightarrow> trace \<Rightarrow> trace \<Rightarrow> bool" where
  "kept_or_refused m tr tr' \<longleftrightarrow>
     mapped m tr' \<and> only_refused_left tr tr' \<or> memory_data m \<noteq> 0 \<and> remap_refused m tr tr'"

lemma block_spec:
  assumes "mapped m tr" "blocks_fit env" "blocks_fresh env" "unat n \<le> 2 ^ 32"
  shows "wp (wasm_mremap_linear_memory (memory_data m) osz n n) env tr False (\<lambda>h tr'.
     if h = 0 then kept_or_refused m tr tr' else h + unat n < 2 ^ 64 \<and> (h, align_up 4096 (unat n)) \<in> mappings tr')"
proof (cases "memory_data m = 0")
  case True
  have "wasm_mremap_linear_memory (memory_data m) osz n n = wasm_mmap_linear_memory n n"
    by (simp add: True wasm_mmap_linear_memory_def wasm_mremap_linear_memory_def)
  moreover have "unat n \<le> unat (aligned_size n)" "unat (aligned_size n) = align_up 4096 (unat n)"
    using assms(4) by (auto intro!: aligned_le aligned_size_exact)
  ultimately show ?thesis
    using True by (auto simp: mapped_def kept_or_refused_def intro!: wp_mono [OF mmap_linear_spec [OF assms(2,3)]] split: if_splits)
next
  case False
  then show ?thesis using assms(1)
    by (intro wp_mono [OF mremap_linear_spec [OF assms(2) refl _ assms(4)]])
      (auto simp: mapped_def kept_or_refused_def only_refused_left_def split: if_splits)
qed

lemma growth_spec:
  assumes "mem_ok m" "mapped m tr" "blocks_fit env" "blocks_fresh env"
  shows "wp (wasm_enlarge_memory_internal corrupted migrate_ok (Some m) inc) env tr False (\<lambda>(ret, r, why) tr'.
    (unat (max_page_count m) < unat (cur_page_count m) + unat inc \<longrightarrow> \<not> ret \<and> r = Some m \<and> tr' = tr) \<and>
    (\<exists>m'. r = Some m' \<and> mem_ok m' \<and>
      (if ret then grown inc m m' \<and> mapped m' tr'
       else m' = m \<and> kept_or_refused m tr tr'
         \<or> grown inc m m' \<and> mapped m' tr' \<and> 0 < heap_bytes m \<and> \<not> migrate_ok)))"
proof -
  define pages where "pages = inc + cur_page_count m"
  define sz where "sz = (ucast (num_bytes_per_page m) * ucast pages :: u64)"
  define heap where "heap = (of_nat (heap_data_end m) - of_nat (heap_data m) :: u32)"
  have heap: "unat heap = heap_bytes m" "heap > 0 \<longleftrightarrow> 0 < heap_bytes m"
    using heap_size_word [OF assms(1)] by (simp_all add: heap_def word_less_nat_alt)
  have sz: "unat sz = unat (num_bytes_per_page m) * unat pages" by (simp add: sz_def unat_mult_32_64)
  have le: "unat (cur_page_count m) \<le> unat (max_page_count m)" using assms(1) by (simp add: mem_ok_def word_le_nat_alt)
  have over: "pages < cur_page_count m \<or> max_page_count m < pages \<longleftrightarrow>
      unat (max_page_count m) < unat (cur_page_count m) + unat inc"
    using word_sum_32 [of inc "cur_page_count m"] unat_small_32 [of "max_page_count m"]
    unfolding pages_def by (cases "inc + cur_page_count m < cur_page_count m") (simp_all add: word_less_nat_alt)
  show ?thesis
  proof (cases "inc = 0 \<or> pages < cur_page_count m \<or> max_page_count m < pages \<or> heap > 0 \<and> corrupted")
    case True
    then show ?thesis
      using assms(1,2) le over unfolding wasm_enlarge_memory_internal_def option.case Let_def
      by (fold pages_def, fold sz_def heap_def) (auto simp: wp_simps grown_def kept_or_refused_def only_refused_left_def)
  next
    case False
    then have max: "unat (cur_page_count m) + unat inc \<le> unat (max_page_count m)" using over by auto
    have pages: "unat pages = unat (cur_page_count m) + unat inc"
      using False word_sum_32(2) [of inc "cur_page_count m"] by (simp add: pages_def)
    have "unat (num_bytes_per_page m) * unat (max_page_count m) \<le> 2 ^ 32" using assms(1) by (simp add: mem_ok_def)
    then have lim: "unat sz \<le> 2 ^ 32" unfolding sz pages by (rule order_trans [OF mult_le_mono2 [OF max]])
    have e: "mem_ok (enlarged h heap pages sz m)" "grown inc m (enlarged h heap pages sz m)"
      "memory_data (enlarged h heap pages sz m) = h" "memory_data_size (enlarged h heap pages sz m) = sz"
      if "h \<noteq> 0" "h + unat sz < 2 ^ 64" for h
      using enlarged_ok [OF assms(1) max _ that(1) _ heap(1) pages sz] False that(2)
      by (simp_all add: sz pages enlarged_def wasm_runtime_set_mem_bound_check_bytes_def Let_def)
    have no: "(inc = 0) = False" "(pages < cur_page_count m) = False" "(max_page_count m < pages) = False"
      "(heap > 0 \<and> corrupted) = False" using False by simp_all
    have "wp (wasm_enlarge_memory_internal corrupted migrate_ok (Some m) inc) env tr False Q =
        wp (wasm_mremap_linear_memory (memory_data m) (memory_data_size m) sz sz) env tr False (\<lambda>h tr'.
          if h = 0 then Q (False, Some m, Some (memory_data_size m, INTERNAL_ERROR)) tr' else
          let ret = \<not> (heap > 0 \<and> \<not> migrate_ok) in
          Q (ret, Some (enlarged h heap pages sz m), if ret then None else Some (memory_data_size m, INTERNAL_ERROR)) tr')" for Q
      unfolding wasm_enlarge_memory_internal_def option.case Let_def
      by (fold pages_def, fold sz_def heap_def) (simp only: no if_False wp_simps)
    then show ?thesis
      using max assms(1) heap(2) e
      by (auto simp: mapped_def Let_def intro!: wp_mono [OF block_spec [OF assms(2-4) lim]] split: if_splits)
  qed
qed

section \<open>A new memory\<close>

lemma align_up_facts:
  "n \<le> align_up 4096 n" "n \<le> 2 ^ 32 \<Longrightarrow> align_up 4096 n \<le> 2 ^ 32" "align_up 4096 (65536 * k) = 65536 * k"
proof -
  show "n \<le> align_up 4096 n" by (rule align_up_ge) simp
  show "align_up 4096 n \<le> 2 ^ 32" if "n \<le> 2 ^ 32"
    using div_le_mono [of "n + 4095" "2 ^ 32 + 4095" 4096] that by (simp add: align_up_def)
  show "align_up 4096 (65536 * k) = 65536 * k"
  proof -
    have "65536 * k + 4096 - 1 = 4095 + 16 * k * 4096" by simp
    then have "align_up 4096 (65536 * k) = (4095 + 16 * k * 4096) div 4096 * 4096" by (simp only: align_up_def)
    also have "\<dots> = 16 * k * 4096" by (subst div_mult_self1) simp_all
    finally show ?thesis by simp
  qed
qed

lemma align_as_aligned: "align_as_and_cast n PAGE_SIZE = aligned_size n"
  by (simp add: align_as_and_cast_def aligned_size_def)

lemma allocate_spec:
  assumes "blocks_fit env" "blocks_fresh env" "unat bytes * unat init \<le> 2 ^ 32"
  shows "wp (wasm_allocate_linear_memory 0 (ucast (bytes :: u32)) (ucast (init :: u32))) env tr False (\<lambda>(r, p, n) tr'.
    unat n = align_up 4096 (unat bytes * unat init) \<and> (r \<noteq> 0 \<longrightarrow> only_refused_left tr tr') \<and>
    (r = 0 \<longrightarrow> p + unat n < 2 ^ 64 \<and> (p = 0 \<longleftrightarrow> unat bytes * unat init = 0) \<and>
      (p = 0 \<longrightarrow> mappings tr' = mappings tr) \<and>
      (p \<noteq> 0 \<longrightarrow> p \<notin> fst ` mappings tr \<and> mappings tr' = insert (p, unat n) (mappings tr))))"
proof -
  define n where "n = (ucast init * ucast bytes :: u64)"
  have n: "unat n = unat bytes * unat init" by (simp add: n_def unat_mult_32_64 mult.commute)
  have a: "unat (aligned_size n) = align_up 4096 (unat bytes * unat init)"
    using assms(3) by (simp add: aligned_size_exact n)
  have pos: "0 < n \<longleftrightarrow> 0 < unat bytes * unat init" by (simp add: word_less_nat_alt n)
  show ?thesis
    using a pos assms(3) unfolding wasm_allocate_linear_memory_def Let_def align_as_aligned n_def [symmetric]
    by (auto simp: wp_simps align_up_def intro!: wp_mono [OF mmap_linear_spec [OF assms(1,2)]] split: if_splits)
      (metis fst_conv image_eqI)
qed

lemma instantiated_ok:
  assumes l: "layout_ok l" and n: "unat n = align_up 4096 (unat (l_bytes_per_page l) * unat (l_init l))"
    and p: "p + unat n < 2 ^ 64" "p = 0 \<longleftrightarrow> unat (l_bytes_per_page l) * unat (l_init l) = 0"
    and f: "num_bytes_per_page m = l_bytes_per_page l" "cur_page_count m = l_init l" "max_page_count m = l_max l"
      "memory_data_size m = n" "memory_data m = p" "memory_data_end m = uintptr (p + unat n)"
      "heap_data m = uintptr (p + unat (l_heap_offset l))"
      "heap_data_end m = uintptr (p + unat (l_heap_offset l) + unat (l_heap_size l))" "bounds_ok m"
  shows "mem_ok m \<and> heap_data_end m = p + unat (l_heap_offset l) + unat (l_heap_size l)"
proof -
  note d = l [unfolded layout_ok_def]
  define k where "k = unat (l_bytes_per_page l) * unat (l_init l)"
  have "k \<le> unat (l_bytes_per_page l) * unat (l_max l)"
    unfolding k_def using d by (intro mult_le_mono2) (simp add: word_le_nat_alt)
  then have k: "k \<le> 2 ^ 32" using d by (blast intro: order_trans)
  then have nk: "k \<le> unat n" "unat n \<le> 2 ^ 32" using align_up_facts [of k] n by (simp_all add: k_def)
  have h: "unat (l_heap_offset l) + unat (l_heap_size l) \<le> k" using d by (simp add: k_def)
  have u: "uintptr (p + unat n) = p + unat n" "uintptr (p + unat (l_heap_offset l)) = p + unat (l_heap_offset l)"
    "uintptr (p + unat (l_heap_offset l) + unat (l_heap_size l)) = p + unat (l_heap_offset l) + unat (l_heap_size l)"
    using p(1) h nk by (simp_all add: uintptr_def)
  have "unat n = k" if "l_init l < l_max l" using that d n align_up_facts(3) by (simp add: k_def)
  moreover have "n = 0" if "p = 0" using that p(2) n by (simp add: align_up_def flip: unat_eq_0)
  ultimately show ?thesis
    unfolding mem_ok_def f(1-8) u k_def [symmetric] using d k nk h p(1) f(9) unat_small_32 [of "l_heap_size l"] by auto
qed

lemma new_memory_ok:
  assumes "layout_ok l" "unat n = align_up 4096 (unat (l_bytes_per_page l) * unat (l_init l))"
    "p + unat n < 2 ^ 64" "p = 0 \<longleftrightarrow> unat (l_bytes_per_page l) * unat (l_init l) = 0"
    and m: "m = (if n > 0 then wasm_runtime_set_mem_bound_check_bytes (init_memory_info l p n memory_inst) n
      else init_memory_info l p n memory_inst)"
  shows "mem_ok m \<and> memory_data m = p \<and>
    (\<forall>b. l_heap_base l = Some b \<longrightarrow> heap_data_end m \<le> memory_data m + unat b \<and> unat b < unat (memory_data_size m))"
proof -
  have "bounds_ok m" unfolding m bounds_ok_def wasm_runtime_set_mem_bound_check_bytes_def init_memory_info_def Let_def
    by (simp add: word_gt_0)
  then have ok: "mem_ok m \<and> heap_data_end m = p + unat (l_heap_offset l) + unat (l_heap_size l)"
    by (intro instantiated_ok [OF assms(1-4)]) (simp_all add: m wasm_runtime_set_mem_bound_check_bytes_def init_memory_info_def)
  moreover have f: "memory_data m = p" "memory_data_size m = n"
    by (simp_all add: m wasm_runtime_set_mem_bound_check_bytes_def init_memory_info_def)
  moreover have "unat (l_bytes_per_page l) * unat (l_init l) \<le> unat n" unfolding assms(2) by (rule align_up_facts(1))
  ultimately show ?thesis using assms(1) by (auto simp: layout_ok_def)
qed

lemma deallocate_spec:
  assumes "unat (num_bytes_per_page m) * unat (cur_page_count m) \<le> 2 ^ 32"
    and "mappings tr = insert (memory_data m, align_up 4096 (unat (num_bytes_per_page m) * unat (cur_page_count m))) M"
    and "memory_data m \<notin> fst ` M"
  shows "wp (wasm_deallocate_linear_memory m) env tr False (\<lambda>m' tr'. mappings tr' = M
    \<or> (\<exists>h n. unmap_refused tr' h n \<and> h \<notin> fst ` M \<and> mappings tr' = insert (h, n) M))"
proof -
  define sz where "sz = (ucast (num_bytes_per_page m) * ucast (cur_page_count m) :: u64)"
  have sz: "unat sz = unat (num_bytes_per_page m) * unat (cur_page_count m)" by (simp add: sz_def unat_mult_32_64)
  have a: "unat (aligned_size sz) = align_up 4096 (unat (num_bytes_per_page m) * unat (cur_page_count m))"
    using assms(1) by (simp add: aligned_size_exact sz)
  have out: "(memory_data m, k) \<notin> M" for k using assms(3) by force
  show ?thesis
    unfolding wasm_deallocate_linear_memory_def sz_def [symmetric]
    using assms(2,3) out
    by (auto simp: wasm_munmap_linear_memory_def os_munmap_def unmap_refused_def a wp_simps wp_call)
qed

text \<open>The block of a new memory is the only mapping that was added.\<close>

definition new_block :: "WASMMemoryInstance \<Rightarrow> trace \<Rightarrow> trace \<Rightarrow> bool" where
  "new_block m tr tr' \<longleftrightarrow> (if memory_data m = 0 then mappings tr' = mappings tr
     else memory_data m \<notin> fst ` mappings tr
       \<and> mappings tr' = insert (memory_data m, unat (memory_data_size m)) (mappings tr))"

lemma instantiate_spec:
  assumes "aot_memory_ok memory" "heap_size \<le> APP_HEAP_SIZE_MAX" "blocks_fit env" "blocks_fresh env"
  shows "wp (memory_instantiate handle_ok create_ok md memory_inst memory heap_size pages) env tr False (\<lambda>r tr'.
    case r of
      Inl e \<Rightarrow> only_refused_left tr tr'
    | Inr (m, base) \<Rightarrow> mem_ok m \<and> new_block m tr tr'
        \<and> (\<forall>b. base = Some b \<longrightarrow> heap_data_end m \<le> memory_data m + unat b \<and> unat b < unat (memory_data_size m)))"
proof (cases "memory_layout md memory heap_size pages")
  case None
  then show ?thesis using layout_of(1) [OF assms(1,2)] by blast
next
  case (Some e)
  show ?thesis
  proof (cases e)
    case (Inl x)
    with Some show ?thesis by (simp add: memory_instantiate_def wp_simps only_refused_left_def)
  next
    case (Inr l)
    have l: "layout_ok l" using layout_of(2) [OF assms(1,2)] Some Inr by blast
    then have "unat (l_bytes_per_page l) * unat (l_init l) \<le> unat (l_bytes_per_page l) * unat (l_max l)"
      by (intro mult_le_mono2) (simp add: layout_ok_def word_le_nat_alt)
    then have lim: "unat (l_bytes_per_page l) * unat (l_init l) \<le> 2 ^ 32"
      using l unfolding layout_ok_def by (blast intro: order_trans)
    show ?thesis
      unfolding memory_instantiate_def Let_def Some Inr option.sel sum.case wp_within
      apply (simp only: option.distinct not_True_eq_False not_False_eq_True if_True simp_thms)
    proof (rule wp_bindI [OF allocate_spec [OF assms(3,4) lim]], goal_cases)
      case (1 x tr')
      obtain r p n where x: "x = (r, p, n)" by (cases x) auto
      show ?case
      proof (cases "r = 0")
        case False
        with 1 x show ?thesis by (simp add: wp_simps)
      next
        case True
        have n: "unat n = align_up 4096 (unat (l_bytes_per_page l) * unat (l_init l))"
          and p: "p + unat n < 2 ^ 64" "p = 0 \<longleftrightarrow> unat (l_bytes_per_page l) * unat (l_init l) = 0"
            "p = 0 \<longrightarrow> mappings tr' = mappings tr"
            "p \<noteq> 0 \<longrightarrow> p \<notin> fst ` mappings tr \<and> mappings tr' = insert (p, unat n) (mappings tr)"
          using 1 True unfolding x prod.case by blast+
        note m = new_memory_ok [OF l n p(1,2) refl, of memory_inst]
        have size: "memory_data_size (if n > 0 then wasm_runtime_set_mem_bound_check_bytes (init_memory_info l p n memory_inst) n
            else init_memory_info l p n memory_inst) = n"
          by (simp add: wasm_runtime_set_mem_bound_check_bytes_def init_memory_info_def)
        have "p \<noteq> 0" if "l_heap_size l > 0"
          using that l p(2) by (auto simp: layout_ok_def word_less_nat_alt)
        then have new: "p \<notin> fst ` mappings tr" "mappings tr' = insert (p, unat n) (mappings tr)" if "l_heap_size l > 0"
          using that p(4) by auto
        have del: "wp (bind (wasm_deallocate_linear_memory (init_memory_info l p n memory_inst)) (\<lambda>_. return (Inl e)))
            env tr' False (\<lambda>r tr''. case r of Inl e \<Rightarrow> only_refused_left tr tr'' | Inr y \<Rightarrow> R y tr'')" if "l_heap_size l > 0" for e R
          by (rule wp_bindI [OF deallocate_spec [where M = "mappings tr"]])
            (use new [OF that] lim n in \<open>auto simp: wp_return init_memory_info_def only_refused_left_def\<close>)
        show ?thesis
        proof (cases "l_heap_size l > 0 \<and> \<not> (handle_ok \<and> create_ok)")
          case bad: True
          then show ?thesis using del x True by (cases handle_ok) simp_all
        next
          case False
          then have "\<not> (l_heap_size l > 0 \<and> \<not> handle_ok)" "\<not> (l_heap_size l > 0 \<and> \<not> create_ok)" by auto
          then show ?thesis using m p(3,4) size unfolding x prod.case True by (auto simp: wp_return new_block_def)
        qed
      qed
    qed
  qed
qed

section \<open>Limits of the code\<close>

text \<open>A file with pages of no bytes makes the placement of the heap divide by zero.\<close>

lemma empty_pages_divide_by_zero:
  assumes "am_num_bytes_per_page memory = 0" "am_init_page_count memory = 2" "am_max_page_count memory = 2"
    "malloc_func_index md = -1" "heap_size > 0"
  shows "memory_instantiate handle_ok create_ok md memory_inst memory heap_size 0 env tr = (Oob, tr)"
  using assms by (simp add: memory_instantiate_def memory_layout_def place_heap_def wasm_runtime_get_max_mem_def
      MAX_LINEAR_MEMORY_SIZE_def within_def Let_def)

text \<open>A growth by a multiple of 2 to the 32nd pages reports success and does nothing.\<close>

lemma enlarge_truncates_count:
  "(ucast inc :: u32) = 0 \<Longrightarrow> wasm_memory_enlarge corrupted migrate_ok (Some m) inc env tr = (Ret (True, Some m), tr)"
  by (simp add: wasm_memory_enlarge_def wasm_enlarge_memory_internal_def tee_defs Let_def)

text \<open>Without a memory no check succeeds.\<close>

lemma no_memory_no_access:
  assumes "wasm_get_default_memory inst = None"
  shows "\<not> fst (wasm_runtime_validate_app_addr inst off n)" "\<not> fst (wasm_runtime_validate_native_addr inst addr n)"
    "\<not> fst (wasm_runtime_validate_app_str_addr mem inst off)" "wasm_runtime_addr_app_to_native inst off = 0"
    "fst (wasm_check_app_addr_and_convert mem inst is_str off n) = None"
  using assms by (simp_all add: wasm_runtime_validate_app_addr_def wasm_runtime_validate_native_addr_def oob_def
      wasm_runtime_validate_app_str_addr_def wasm_runtime_addr_app_to_native_def wasm_check_app_addr_and_convert_def)

section \<open>Properties\<close>

text \<open>C27. For a well-formed memory the checks of addresses are exact, without wrap-around: a range is accepted if
  it ends inside the memory, a native range if it lies in the block, and a string if there is a zero before
  the end. Addresses inside the memory, and only these, have a native address, which leads back; the
  combined check converts exactly what the separate checks accept.\<close>

theorem address_checks_exact:
  assumes "wasm_get_default_memory inst = Some m" "mem_ok m" "addr < 2 ^ 64"
  shows "(fst (wasm_runtime_validate_app_addr inst off n) \<longleftrightarrow> unat off + unat n \<le> unat (memory_data_size m))
     \<and> (fst (wasm_runtime_validate_native_addr inst addr n) \<longleftrightarrow>
          memory_data m \<le> addr \<and> addr + unat n \<le> memory_data m + unat (memory_data_size m))
     \<and> (fst (wasm_runtime_validate_app_str_addr mem inst off) \<longleftrightarrow>
          (\<exists>k. unat off \<le> k \<and> k < unat (memory_data_size m) \<and> mem (memory_data m + k) = 0))
     \<and> (if off < memory_data_size m
         then wasm_runtime_addr_app_to_native inst off = memory_data m + unat off
           \<and> wasm_runtime_addr_app_to_native inst off \<noteq> 0
           \<and> wasm_runtime_addr_native_to_app inst (memory_data m + unat off) = off
         else wasm_runtime_addr_app_to_native inst off = 0)
     \<and> (fst (wasm_check_app_addr_and_convert mem inst is_str off n) = Some a \<longleftrightarrow>
          off < memory_data_size m \<and> a = memory_data m + unat off \<and>
          fst (if is_str then wasm_runtime_validate_app_str_addr mem inst off else wasm_runtime_validate_app_addr inst off n))"
proof -
  have "memory_data m \<noteq> 0" if "off < memory_data_size m"
    using that mem_okD(4) [OF assms(2)] by auto
  then show ?thesis
    unfolding app_to_native_eq [OF assms(1,2)] convert_eq [OF assms(1,2)]
    using validate_app_addr_iff [OF assms(1,2)] validate_str_iff [OF assms(1,2)] native_to_app_eq [OF assms(1,2)]
      validate_native_addr_iff [OF assms] mem_okD(2) [OF assms(2)]
    by (cases is_str) auto
qed

text \<open>A memory of one page in a block at 65536, without a heap.\<close>

definition one_page :: WASMMemoryInstance where
  "one_page = \<lparr>num_bytes_per_page = 65536, cur_page_count = 1, max_page_count = 4, memory_data_size = 65536,
     memory_data = 65536, memory_data_end = 131072, heap_data = 131072, heap_data_end = 131072,
     mem_bound_check_1byte = 65535, mem_bound_check_2bytes = 65534, mem_bound_check_4bytes = 65532,
     mem_bound_check_8bytes = 65528, mem_bound_check_16bytes = 65520\<rparr>"

lemma one_page_ok: "mem_ok one_page"
  by (simp add: mem_ok_def bounds_ok_def one_page_def)

theorem address_checks_exact_witness:
  "\<not> fst (wasm_runtime_validate_app_addr \<lparr>memories = [one_page], cur_exception = None\<rparr> 65535 2)
   \<and> \<not> fst (wasm_runtime_validate_app_addr \<lparr>memories = [one_page], cur_exception = None\<rparr> 0xFFFFFFFFFFFFFFFF 2)
   \<and> wasm_runtime_addr_app_to_native \<lparr>memories = [one_page], cur_exception = None\<rparr> 65535 = 131071"
  using address_checks_exact [of "\<lparr>memories = [one_page], cur_exception = None\<rparr>" one_page 0 65535 2 "\<lambda>_. 0" False 0]
    address_checks_exact [of "\<lparr>memories = [one_page], cur_exception = None\<rparr>" one_page 0 "0xFFFFFFFFFFFFFFFF" 2 "\<lambda>_. 0" False 0]
    one_page_ok
  by (simp add: wasm_get_default_memory_def one_page_def)

text \<open>C32. A memory that is instantiated from a valid description is well-formed: pages, limit, end, bounds and the
  place of the application heap fit together, its block is at a new address, has the size of the memory and is the only one added, and a moved
  \<open>__heap_base\<close> lies behind the heap and inside the memory. After an error nothing stays mapped, unless the kernel
  refuses to take the new block back: then exactly this block stays, and nothing refers to it. No division by zero occurs.\<close>

theorem instantiated_memory_is_well_formed:
  assumes "aot_memory_ok memory" "heap_size \<le> APP_HEAP_SIZE_MAX" "blocks_fit env" "blocks_fresh env"
  shows "case memory_instantiate handle_ok create_ok md memory_inst memory heap_size pages env tr of
      (Ret (Inl e), tr') \<Rightarrow> mappings tr' = mappings tr
        \<or> (\<exists>h n. unmap_refused tr' h n \<and> h \<notin> fst ` mappings tr \<and> mappings tr' = insert (h, n) (mappings tr))
    | (Ret (Inr (m, base)), tr') \<Rightarrow> mem_ok m
        \<and> (if memory_data m = 0 then mappings tr' = mappings tr
           else memory_data m \<notin> fst ` mappings tr
             \<and> mappings tr' = insert (memory_data m, unat (memory_data_size m)) (mappings tr))
        \<and> (\<forall>b. base = Some b \<longrightarrow> heap_data_end m \<le> memory_data m + unat b \<and> unat b < unat (memory_data_size m))
    | (Panic, tr') \<Rightarrow> True
    | (Oob, tr') \<Rightarrow> False"
  using instantiate_spec [OF assms, of handle_ok create_ok md memory_inst pages tr]
  unfolding only_refused_left_def new_block_def
  by (auto simp: wp_def split: prod.splits outcome.splits sum.splits)

text \<open>A kernel that maps one block, moves it once, and protects what \<open>p\<close> allows.\<close>

definition block_env :: "bool \<Rightarrow> env" where
  "block_env p tr c = (case c of
       Map (tee_map_zi n) \<Rightarrow> if tr = [] \<and> n < 2 ^ 40 then Some (ok 65536 [] []) else None
     | Map (tee_remap n old) \<Rightarrow> if n < 2 ^ 40 then Some (ok 262144 [] []) else None
     | Map (tee_mprotect h n q) \<Rightarrow> Some (if p then ok 0 [] [] else err TEE_ERROR_GENERIC)
     | _ \<Rightarrow> Some (ok 0 [] []))"

lemma block_env_ok: "blocks_fit (block_env p)" "blocks_fresh (block_env p)"
  by (auto simp: blocks_fit_def blocks_fresh_def block_env_def ok_def split: if_splits)

text \<open>The description of a memory with two pages, and a module with \<open>__heap_base\<close> in the second one.\<close>

definition two_pages :: AOTMemory where
  "two_pages = \<lparr>am_num_bytes_per_page = 65536, am_init_page_count = 2, am_max_page_count = 3\<rparr>"

definition with_base :: AOTModule where
  "with_base = \<lparr>malloc_func_index = -1, free_func_index = -1, aux_heap_base_global_index = 0, aux_heap_base = 66000\<rparr>"

lemma two_pages_layout:
  "memory_layout with_base two_pages 65536 0 = Some (Inr \<lparr>l_bytes_per_page = 65536, l_init = 3, l_max = 4,
     l_heap_offset = 66000, l_heap_size = 65536, l_heap_base = Some 131536\<rparr>)"
  by (simp add: memory_layout_def place_heap_def two_pages_def with_base_def wasm_runtime_get_max_mem_def add_pages_def
      heap_before_base_def bytes_to_page_end_def DEFAULT_MAX_PAGES_def MAX_LINEAR_MEMORY_SIZE_def Let_def)

theorem instantiated_memory_is_well_formed_witness:
  "\<exists>m tr'. memory_instantiate True True with_base one_page two_pages 65536 0 (block_env True) [] = (Ret (Inr (m, Some 131536)), tr')
     \<and> mem_ok m \<and> mappings tr' = {(65536, 196608)}"
proof -
  have "aligned_size 196608 = 196608" by (simp add: aligned_size_def PAGE_SIZE_def)
  then obtain m tr' where r: "memory_instantiate True True with_base one_page two_pages 65536 0 (block_env True) []
      = (Ret (Inr (m, Some 131536)), tr')" "memory_data m = 65536" "memory_data_size m = 196608"
    by (simp add: memory_instantiate_def two_pages_layout tee_defs wasm_allocate_linear_memory_def wasm_mmap_linear_memory_def
        wasm_mremap_linear_memory_def align_as_aligned os_mmap_def os_mprotect_def block_env_def ok_def Let_def
        wasm_runtime_set_mem_bound_check_bytes_def init_memory_info_def)
  have "aot_memory_ok two_pages" "(65536 :: u32) \<le> APP_HEAP_SIZE_MAX"
    by (simp_all add: aot_memory_ok_def two_pages_def DEFAULT_MAX_PAGES_def APP_HEAP_SIZE_MAX_def)
  from instantiated_memory_is_well_formed [OF this block_env_ok [of True], where handle_ok = True and create_ok = True
      and md = with_base and memory_inst = one_page and pages = 0 and tr = "[]"] r
  have "mem_ok m" "mappings tr' = {(65536, 196608)}" by simp_all
  with r show ?thesis by blast
qed

text \<open>C35. Growing a well-formed memory whose block is mapped: success adds the pages and keeps the place of the heap,
  and the result is well-formed and mapped with its new size. A growth beyond the maximum fails, also if the sum of the page
  counts wraps, and has no effect. There are three other ways to fail. The memory is as before and still
  mapped. Or it has grown all the same, but the allocator of its heap could not be moved: the failure is reported for a memory that is
  larger than before. Or the kernel replaced the block and then refused to protect
  it: the memory is left as it was although its block is gone, and nothing is mapped at its address once the new block is
  released; a new block that the kernel does not take back stays mapped.\<close>

theorem growth_keeps_memory:
  assumes "mem_ok m" "mapped m tr" "blocks_fit env" "blocks_fresh env"
  shows "case wasm_enlarge_memory_internal corrupted migrate_ok (Some m) inc env tr of
      (Ret (ret, r, why), tr') \<Rightarrow>
        (unat (max_page_count m) < unat (cur_page_count m) + unat inc \<longrightarrow> \<not> ret \<and> r = Some m \<and> tr' = tr) \<and>
        (\<exists>m'. r = Some m' \<and> mem_ok m' \<and>
          (if ret then grown inc m m' \<and> mapped m' tr'
           else m' = m \<and> kept_or_refused m tr tr'
             \<or> grown inc m m' \<and> mapped m' tr' \<and> 0 < heap_bytes m \<and> \<not> migrate_ok))
    | (Panic, tr') \<Rightarrow> True
    | (Oob, tr') \<Rightarrow> False"
proof (cases "wasm_enlarge_memory_internal corrupted migrate_ok (Some m) inc env tr")
  case (Pair oc tr')
  note g = growth_spec [OF assms, of corrupted migrate_ok inc, unfolded wp_def Pair prod.case]
  show ?thesis
  proof (cases oc)
    case (Ret x)
    then show ?thesis using g unfolding Pair by (cases x) (simp only: prod.case outcome.case, blast)
  qed (use g in \<open>simp_all add: Pair\<close>)
qed

theorem growth_keeps_memory_witness:
  "(\<exists>m' why tr'. wasm_enlarge_memory_internal False True (Some one_page) 2 (block_env True) [(Map (tee_map_zi 65536), ok 65536 [] [])]
       = (Ret (True, Some m', why), tr') \<and> mem_ok m' \<and> grown 2 one_page m')
   \<and> (\<exists>why tr'. wasm_enlarge_memory_internal False True (Some one_page) 2 (block_env False) [(Map (tee_map_zi 65536), ok 65536 [] [])]
       = (Ret (False, Some one_page, why), tr') \<and> \<not> mapped one_page tr')"
proof -
  let ?tr = "[(Map (tee_map_zi 65536), ok 65536 [] [])]"
  have m: "mapped one_page ?tr" by (simp add: mapped_def one_page_def ok_def align_up_def)
  note defs = wasm_enlarge_memory_internal_def tee_defs wasm_mremap_linear_memory_def os_mremap_def os_mprotect_def
    wasm_munmap_linear_memory_def os_munmap_def block_env_def ok_def err_def TEE_SUCCESS_def TEE_ERROR_GENERIC_def Let_def one_page_def
  have gone: "65536 \<notin> fst ` (insert (262144 :: nat, x :: nat) {b. b = (65536, y) \<and> fst b \<noteq> 65536} - Z)" for x y Z
    by auto
  obtain m' why tr' where yes: "wasm_enlarge_memory_internal False True (Some one_page) 2 (block_env True) ?tr = (Ret (True, Some m', why), tr')"
    by (simp add: defs)
  obtain why2 tr2 where no: "wasm_enlarge_memory_internal False True (Some one_page) 2 (block_env False) ?tr = (Ret (False, Some one_page, why2), tr2)"
    "65536 \<notin> fst ` mappings tr2"
    by (simp add: defs gone)
  from growth_keeps_memory [OF one_page_ok m block_env_ok [of True], where corrupted = False and migrate_ok = True and inc = 2] yes have "mem_ok m'" "grown 2 one_page m'" by simp_all
  moreover have "\<not> mapped one_page tr2" using no(2) by (force simp: mapped_def one_page_def)
  ultimately show ?thesis using yes no(1) by blast
qed

end
