(* ===== verification/Data_Segments.thy ===== *)
theory Data_Segments
  imports Wasm_Memory_Spec Bh_Common
begin

text \<open>
  The data segments of an AOT module, copied into its first memory at instantiation
  (\<open>memories_instantiate\<close> in \<open>core/iwasm/aot/aot_runtime.c\<close>), in the configuration of the port: bulk memory
  and reference types, no extended constant expressions, offsets of 32 bits. A memory is its bytes, \<open>None\<close> is a
  null pointer; the outer \<open>None\<close> of a result is an access outside of the block.
\<close>

section \<open>Data\<close>

datatype seg_error = Unknown_Global u32 | Constant_Expression_Required | Out_Of_Bounds_Memory_Access | No_Message

datatype init_expr = INIT_EXPR_TYPE_I32_CONST u32 | INIT_EXPR_TYPE_I64_CONST u64 | INIT_EXPR_TYPE_GET_GLOBAL u32
  | Other_Init_Expr byte

record AOTMemInitData =
  is_passive :: bool
  seg_offset :: init_expr
  seg_bytes :: bytes

text \<open>An imported global is its mutability and the value that was linked and copied to the global data.\<close>

record seg_globals =
  import_globals :: "(bool \<times> u32) list"
  global_count :: u32

section \<open>Offsets\<close>

definition check_global_init_expr :: "seg_globals \<Rightarrow> u32 \<Rightarrow> seg_error option" where
  "check_global_init_expr md index =
     (let import_global_count = of_nat (length (import_globals md)) in
      if import_global_count + global_count md \<le> index then Some (Unknown_Global index)
      else if import_global_count \<le> index then Some (Unknown_Global index)
      else if fst (import_globals md ! unat index) then Some Constant_Expression_Required
      else None)"

definition get_init_value_recursive :: "seg_globals \<Rightarrow> init_expr \<Rightarrow> seg_error + u32" where
  "get_init_value_recursive md e =
     (case e of
       INIT_EXPR_TYPE_GET_GLOBAL index \<Rightarrow>
         (case check_global_init_expr md index of Some er \<Rightarrow> Inl er | None \<Rightarrow> Inr (snd (import_globals md ! unat index)))
     | INIT_EXPR_TYPE_I32_CONST v \<Rightarrow> Inr v
     | INIT_EXPR_TYPE_I64_CONST v \<Rightarrow> Inr (ucast v)
     | Other_Init_Expr _ \<Rightarrow> Inl No_Message)"

definition base_offset_of :: "seg_globals \<Rightarrow> init_expr \<Rightarrow> seg_error + u32" where
  "base_offset_of md e =
     (case e of
       INIT_EXPR_TYPE_GET_GLOBAL index \<Rightarrow>
         (case check_global_init_expr md index of Some er \<Rightarrow> Inl er | None \<Rightarrow> Inr (snd (import_globals md ! unat index)))
     | _ \<Rightarrow> get_init_value_recursive md e)"

section \<open>Copying\<close>

text \<open>The sum of offset and length is computed in 32 bits.\<close>

definition copy_segment :: "u64 \<Rightarrow> bytes option \<Rightarrow> u32 \<Rightarrow> bytes \<Rightarrow> (seg_error + bytes option) option" where
  "copy_segment sz mem base_offset byts =
     (let len = (of_nat (length byts) :: u32) in
      if sz < ucast base_offset then Some (Inl Out_Of_Bounds_Memory_Access)
      else if sz < ucast (base_offset + len) then Some (Inl Out_Of_Bounds_Memory_Access)
      else case mem of None \<Rightarrow> Some (Inr None) | Some block \<Rightarrow>
        map_option (Inr \<circ> Some)
          (bh_memcpy_s (Some (block, unat base_offset)) (unat (ucast (sz - ucast base_offset) :: u32))
             (Some (byts, 0)) (unat len)))"

fun init_data_segments ::
  "bool \<Rightarrow> seg_globals \<Rightarrow> u64 \<Rightarrow> bytes option \<Rightarrow> AOTMemInitData list \<Rightarrow> (seg_error + bytes option) option" where
  "init_data_segments has_parent md sz mem [] = Some (Inr mem)"
| "init_data_segments has_parent md sz mem (data_seg # segs) =
     (if is_passive data_seg then init_data_segments has_parent md sz mem segs
      else if has_parent then init_data_segments has_parent md sz mem segs
      else case base_offset_of md (seg_offset data_seg) of Inl e \<Rightarrow> Some (Inl e) | Inr base_offset \<Rightarrow>
        case copy_segment sz mem base_offset (seg_bytes data_seg) of
          None \<Rightarrow> None
        | Some (Inl e) \<Rightarrow> Some (Inl e)
        | Some (Inr mem) \<Rightarrow> init_data_segments has_parent md sz mem segs)"

section \<open>What the copying achieves\<close>

text \<open>The reference: each active segment has to fit and is written at its offset, in order.\<close>

fun place_segments :: "seg_globals \<Rightarrow> AOTMemInitData list \<Rightarrow> bytes \<Rightarrow> seg_error + bytes" where
  "place_segments md [] mem = Inr mem"
| "place_segments md (s # segs) mem =
     (if is_passive s then place_segments md segs mem
      else case base_offset_of md (seg_offset s) of Inl e \<Rightarrow> Inl e | Inr base \<Rightarrow>
        if length mem < unat base + length (seg_bytes s) then Inl Out_Of_Bounds_Memory_Access
        else place_segments md segs (splice mem (unat base) (seg_bytes s)))"

text \<open>No sum of an offset and a length reaches 2 to the 32nd.\<close>

definition sums_fit :: "seg_globals \<Rightarrow> AOTMemInitData list \<Rightarrow> bool" where
  "sums_fit md segs \<longleftrightarrow> list_all (\<lambda>s. case base_offset_of md (seg_offset s) of Inl e \<Rightarrow> True
     | Inr base \<Rightarrow> unat base + length (seg_bytes s) < 2 ^ 32) segs"

text \<open>What is left behind the offset, in 64 bits and cut to 32 bits.\<close>

lemma rest_of_memory:
  assumes "unat (sz :: u64) \<le> 2 ^ 32" "\<not> sz < ucast (base :: u32)"
  shows "unat (ucast (sz - ucast base) :: u32) = (unat sz - unat base) mod 2 ^ 32"
proof -
  have "ucast base \<le> sz" using assms(2) by simp
  then show ?thesis by (simp add: unat_sub unsigned_ucast_eq take_bit_eq_mod)
qed

lemma of_nat_len: "n < 2 ^ 32 \<Longrightarrow> unat (of_nat n :: u32) = n"
  by (simp add: unat_of_nat)

lemmas copy_defs = copy_segment_def bh_memcpy_s_def b_memcpy_s_def copy_s_def object_def store_def load_def

text \<open>The copy stays inside the block, whatever wraps.\<close>

lemma copy_segment_inside:
  assumes "unat sz = length block" "length block \<le> 2 ^ 32" "length d < 2 ^ 32"
  shows "\<exists>r. copy_segment sz (Some block) base d = Some r \<and>
    (\<forall>m. r = Inr m \<longrightarrow> (\<exists>b. m = Some b \<and> length b = length block))"
proof (cases "sz < ucast base")
  case True
  then show ?thesis by (simp add: copy_segment_def Let_def)
next
  case False
  define room where "room = unat (ucast (sz - ucast base) :: u32)"
  have "unat base \<le> length block" using False assms(1) by (simp add: word_less_nat_alt)
  moreover have "room \<le> length block - unat base"
    using rest_of_memory [OF _ False] assms(1,2) by (simp add: room_def)
  ultimately have "unat base + room \<le> length block" by simp
  with False show ?thesis
    by (auto simp: copy_defs of_nat_len [OF assms(3)] Let_def simp flip: room_def)
qed

lemma copy_segment_exact:
  assumes "unat sz = length block" "length block < 2 ^ 32" "unat base + length d < 2 ^ 32"
  shows "copy_segment sz (Some block) base d =
    Some (if length block < unat base + length d then Inl Out_Of_Bounds_Memory_Access else Inr (Some (splice block (unat base) d)))"
proof -
  have len: "unat (of_nat (length d) :: u32) = length d" using assms(3) by (intro of_nat_len) simp
  then have sum: "unat (base + of_nat (length d)) = unat base + length d" using assms(3) by (simp add: unat_word_ariths)
  have rest: "unat (ucast (sz - ucast base) :: u32) = length block - unat base" if "\<not> sz < ucast base"
    using rest_of_memory [OF _ that] assms(1,2) by simp
  show ?thesis
    using assms rest
    by (auto simp: copy_defs len sum Let_def word_less_nat_alt splice_def)
qed

text \<open>A segment whose sum wraps is not rejected: the copy is refused and clears the memory behind the offset,
  and the instantiation goes on.\<close>

lemma wrapped_segment_clears_memory:
  assumes "unat sz = length block" "length block < 2 ^ 32" "length d < 2 ^ 32"
    "unat base \<le> length block" "2 ^ 32 \<le> unat base + length d"
  shows "copy_segment sz (Some block) base d =
    Some (Inr (Some (take (unat base) block @ replicate (length block - unat base) 0)))"
proof -
  have len: "unat (of_nat (length d) :: u32) = length d" by (rule of_nat_len [OF assms(3)])
  have "unat (base + of_nat (length d)) = (unat base + length d) mod 2 ^ 32" using len by (simp add: unat_word_ariths)
  also have "\<dots> = unat base + length d - 2 ^ 32"
    using assms(3,5) unat_small_32 [of base] by (simp add: mod_if)
  finally have sum: "unat (base + of_nat (length d)) \<le> unat base" using assms(3) by simp
  have rest: "unat (ucast (sz - ucast base) :: u32) = length block - unat base"
    using rest_of_memory [of sz base] assms(1,2,4) by (simp add: word_less_nat_alt)
  have "d \<noteq> []" "length block - unat base < length d" using assms by auto
  then show ?thesis
    using assms(1,4) sum by (auto simp: copy_defs len rest Let_def word_less_nat_alt splice_def)
qed

lemma segments_inside:
  assumes "unat sz = length block" "length block \<le> 2 ^ 32" "\<forall>s \<in> set segs. length (seg_bytes s) < 2 ^ 32"
  shows "\<exists>r. init_data_segments False md sz (Some block) segs = Some r \<and>
      (\<forall>m. r = Inr m \<longrightarrow> (\<exists>b. m = Some b \<and> length b = length block))"
  using assms
proof (induction segs arbitrary: block)
  case (Cons s segs)
  show ?case
  proof (cases "is_passive s \<or> (\<exists>e. base_offset_of md (seg_offset s) = Inl e)")
    case True
    then show ?thesis using Cons by auto
  next
    case False
    then obtain base where base: "\<not> is_passive s" "base_offset_of md (seg_offset s) = Inr base"
      by (cases "base_offset_of md (seg_offset s)") auto
    obtain r where r: "copy_segment sz (Some block) base (seg_bytes s) = Some r"
      "\<forall>m. r = Inr m \<longrightarrow> (\<exists>b. m = Some b \<and> length b = length block)"
      using copy_segment_inside [OF Cons.prems(1,2)] Cons.prems(3) by (metis list.set_intros(1))
    show ?thesis
    proof (cases r)
      case (Inr m)
      with r(2) obtain b where "m = Some b" "length b = length block" by blast
      with Cons.IH [of b] Cons.prems base r(1) Inr show ?thesis by simp
    qed (use base r(1) in simp)
  qed
qed simp

lemma segments_exact:
  assumes "unat sz = length block" "length block < 2 ^ 32" "sums_fit md segs"
  shows "init_data_segments False md sz (Some block) segs = Some (map_sum id Some (place_segments md segs block))"
  using assms
proof (induction segs arbitrary: block)
  case (Cons s segs)
  then show ?case
    by (cases "base_offset_of md (seg_offset s)") (auto simp: sums_fit_def copy_segment_exact)
qed simp

text \<open>C26. Copying the data segments never leaves the block of the memory, even if the sum of an offset and a
  length wraps; and if no sum wraps and the memory is below 4 GiB, it is exactly the reference: every active
  segment has to fit and is written at its offset, in order, and the first that does not is an error.\<close>

theorem data_segments_in_place:
  assumes "unat sz = length block" "length block \<le> 2 ^ 32" "\<forall>s \<in> set segs. length (seg_bytes s) < 2 ^ 32"
  shows "(\<exists>r. init_data_segments False md sz (Some block) segs = Some r \<and>
      (\<forall>m. r = Inr m \<longrightarrow> (\<exists>b. m = Some b \<and> length b = length block)))
    \<and> (length block < 2 ^ 32 \<longrightarrow> sums_fit md segs \<longrightarrow>
      init_data_segments False md sz (Some block) segs = Some (map_sum id Some (place_segments md segs block)))"
  using segments_inside [OF assms] segments_exact [of sz block md segs] assms(1) by blast

theorem data_segments_in_place_witness:
  "init_data_segments False \<lparr>import_globals = [(False, 2)], global_count = 0\<rparr> 4 (Some [0, 0, 0, 0])
     [\<lparr>is_passive = False, seg_offset = INIT_EXPR_TYPE_GET_GLOBAL 0, seg_bytes = [7, 8]\<rparr>,
      \<lparr>is_passive = False, seg_offset = INIT_EXPR_TYPE_I32_CONST 1, seg_bytes = [5]\<rparr>] = Some (Inr (Some [0, 5, 7, 8]))"
  using data_segments_in_place [of 4 "[0, 0, 0, 0]"
     "[\<lparr>is_passive = False, seg_offset = INIT_EXPR_TYPE_GET_GLOBAL 0, seg_bytes = [7, 8]\<rparr>,
      \<lparr>is_passive = False, seg_offset = INIT_EXPR_TYPE_I32_CONST 1, seg_bytes = [5]\<rparr>]"
     "\<lparr>import_globals = [(False, 2)], global_count = 0\<rparr>"]
  by (simp add: sums_fit_def base_offset_of_def get_init_value_recursive_def check_global_init_expr_def splice_def)

end
