(* ===== verification/Ems_Heap.thy ===== *)
theory Ems_Heap
  imports Prelude "HOL-Library.Tree" "HOL-Library.Monad_Syntax"
begin

text \<open>
  The pool allocator of the runtime (\<open>core/shared/mem-alloc/ems\<close>) in the configuration of the port: the
  corruption check, no collector, no verification of paddings. The trusted application gives it the heap of
  the runtime, and every linear memory can hold an application heap of the same kind.

  A position is a byte offset from \<open>base_addr\<close>, so that a pointer below the pool is negative. The pool is a map
  from positions of 32-bit words to their contents: headers, the size at the end of a free chunk, the links of
  the lists of small free chunks and the data of the users share it. The tree of large free chunks is kept as a
  tree of positions and sizes: its links lie inside of chunks of at least 248 bytes, where nothing else is
  stored while the chunk is free. A heap that is marked as corrupted serves no request any more; where the code finds
  corruption in the middle of a change of the tree, the model marks the heap and leaves the tree as it was. The outer \<open>None\<close> of a result is a search that does not end. The locks of the
  platform do nothing.
\<close>

unbundle bit_operations_syntax

section \<open>Headers\<close>

definition SETBIT :: "u32 \<Rightarrow> nat \<Rightarrow> u32" where
  "SETBIT v k = v OR push_bit k 1"

definition GETBIT :: "u32 \<Rightarrow> nat \<Rightarrow> bool" where
  "GETBIT v k \<longleftrightarrow> v AND push_bit k 1 \<noteq> 0"

definition CLRBIT :: "u32 \<Rightarrow> nat \<Rightarrow> u32" where
  "CLRBIT v k = v AND NOT (push_bit k 1)"

definition SETBITS :: "u32 \<Rightarrow> nat \<Rightarrow> nat \<Rightarrow> u32 \<Rightarrow> u32" where
  "SETBITS v k n x = (v AND NOT (push_bit k (push_bit n 1 - 1))) OR push_bit k x"

definition GETBITS :: "u32 \<Rightarrow> nat \<Rightarrow> nat \<Rightarrow> u32" where
  "GETBITS v k n = drop_bit k (v AND push_bit k (push_bit n 1 - 1))"

definition HMU_VO :: u32 where "HMU_VO = 2"
definition HMU_FC :: u32 where "HMU_FC = 1"

definition hmu_get_ut :: "u32 \<Rightarrow> u32" where "hmu_get_ut w = GETBITS w 30 2"
definition hmu_set_ut :: "u32 \<Rightarrow> u32 \<Rightarrow> u32" where "hmu_set_ut w t = SETBITS w 30 2 t"
definition hmu_mark_pinuse :: "u32 \<Rightarrow> u32" where "hmu_mark_pinuse w = SETBIT w 29"
definition hmu_unmark_pinuse :: "u32 \<Rightarrow> u32" where "hmu_unmark_pinuse w = CLRBIT w 29"
definition hmu_get_pinuse :: "u32 \<Rightarrow> bool" where "hmu_get_pinuse w = GETBIT w 29"
definition hmu_is_vo_freed :: "u32 \<Rightarrow> bool" where "hmu_is_vo_freed w = GETBIT w 28"
definition hmu_unfree_vo :: "u32 \<Rightarrow> u32" where "hmu_unfree_vo w = CLRBIT w 28"
definition hmu_get_size :: "u32 \<Rightarrow> int" where "hmu_get_size w = uint (push_bit 3 (GETBITS w 0 27))"
definition hmu_set_size :: "u32 \<Rightarrow> int \<Rightarrow> u32" where "hmu_set_size w sz = SETBITS w 0 27 (drop_bit 3 (word_of_int sz))"

section \<open>State\<close>

definition gc_uint32 :: "int \<Rightarrow> int" where
  "gc_uint32 n = n mod 2 ^ 32"

definition GC_ALIGN_8 :: "int \<Rightarrow> int" where
  "GC_ALIGN_8 n = gc_uint32 (n + 7) div 8 * 8"

definition HMU_SIZE :: int where "HMU_SIZE = 4"
definition GC_SMALLEST_SIZE :: int where "GC_SMALLEST_SIZE = GC_ALIGN_8 (HMU_SIZE + 8)"
definition HMU_NORMAL_NODE_CNT :: nat where "HMU_NORMAL_NODE_CNT = 32"
definition HMU_IS_FC_NORMAL :: "int \<Rightarrow> bool" where "HMU_IS_FC_NORMAL sz \<longleftrightarrow> sz < (int HMU_NORMAL_NODE_CNT - 1) * 8"
definition APP_HEAP_SIZE_MIN :: int where "APP_HEAP_SIZE_MIN = 256"
definition GC_HEAD_PADDING :: int where "GC_HEAD_PADDING = 4"

datatype gc_result = GC_SUCCESS | GC_ERROR

record gc_heap =
  base_addr :: int
  current_size :: int
  mem :: "int \<Rightarrow> u32"
  kfc_normal_list :: "nat \<Rightarrow> int option"
  kfc_tree :: "(int \<times> int) tree"
  is_heap_corrupted :: bool
  highmark_size :: int
  total_free_size :: int

definition hmu_is_in_heap :: "gc_heap \<Rightarrow> int \<Rightarrow> bool" where
  "hmu_is_in_heap hp p \<longleftrightarrow> 0 \<le> p \<and> p < current_size hp"

definition write_word :: "int \<Rightarrow> u32 \<Rightarrow> gc_heap \<Rightarrow> gc_heap" where
  "write_word p w hp = hp\<lparr>mem := (mem hp)(p := w)\<rparr>"

definition corrupted :: "gc_heap \<Rightarrow> gc_heap" where
  "corrupted hp = hp\<lparr>is_heap_corrupted := True\<rparr>"

section \<open>The lists of small free chunks\<close>

definition get_hmu_normal_node_next :: "(int \<Rightarrow> u32) \<Rightarrow> int \<Rightarrow> int option" where
  "get_hmu_normal_node_next m node = (if m (node + 4) = 0 then None else Some (node + sint (m (node + 4))))"

definition set_hmu_normal_node_next :: "int \<Rightarrow> int option \<Rightarrow> gc_heap \<Rightarrow> gc_heap" where
  "set_hmu_normal_node_next node nxt =
     write_word (node + 4) (case nxt of None \<Rightarrow> 0 | Some q \<Rightarrow> word_of_int (q - node))"

text \<open>The search in a list: \<open>Inl\<close> is a node outside of the pool; otherwise the node before and the node after.\<close>

partial_function (option) find_normal ::
  "gc_heap \<Rightarrow> int \<Rightarrow> int option \<Rightarrow> int option \<Rightarrow> (unit + (int option \<times> int option) option) option" where
  "find_normal hp hmu node_prev node =
     (if node = None then Some (Inr None)
      else if \<not> hmu_is_in_heap hp (the node) then Some (Inl ())
      else if the node = hmu then Some (Inr (Some (node_prev, get_hmu_normal_node_next (mem hp) (the node))))
      else find_normal hp hmu node (get_hmu_normal_node_next (mem hp) (the node)))"

section \<open>The tree of large free chunks\<close>

text \<open>The root node belongs to the heap structure and is smaller than every chunk: \<open>kfc_tree\<close> is its right
  subtree.\<close>

fun root_in_heap :: "gc_heap \<Rightarrow> (int \<times> int) tree \<Rightarrow> bool" where
  "root_in_heap hp Leaf = True"
| "root_in_heap hp (Node l a r) = hmu_is_in_heap hp (fst a)"

text \<open>The predecessor of a node is the last node of its left subtree; it is removed from there.\<close>

fun remove_pred :: "gc_heap \<Rightarrow> (int \<times> int) tree \<Rightarrow> ((int \<times> int) \<times> (int \<times> int) tree) option" where
  "remove_pred hp Leaf = None"
| "remove_pred hp (Node l a r) =
     (if \<not> hmu_is_in_heap hp (fst a) then None
      else if r = Leaf then (if root_in_heap hp l then Some (a, l) else None)
      else do { (q, r') \<leftarrow> remove_pred hp r; Some (q, Node l a r') })"

definition replace_node :: "gc_heap \<Rightarrow> (int \<times> int) tree \<Rightarrow> (int \<times> int) tree \<Rightarrow> (int \<times> int) tree option" where
  "replace_node hp l r =
     (if l = Leaf then (if root_in_heap hp r then Some r else None)
      else if r = Leaf then (if root_in_heap hp l then Some l else None)
      else do { (q, l') \<leftarrow> remove_pred hp l;
                if root_in_heap hp l' \<and> root_in_heap hp r then Some (Node l' q r) else None })"

text \<open>The code finds the node through its pointer and its slot through the pointer to its parent; \<open>parent_ok\<close>
  says that the parent is the root or in the pool. A node that is not in the tree is not the child of its
  parent.\<close>

fun remove_at :: "gc_heap \<Rightarrow> bool \<Rightarrow> int \<Rightarrow> (int \<times> int) tree \<Rightarrow> (int \<times> int) tree option" where
  "remove_at hp parent_ok p Leaf = None"
| "remove_at hp parent_ok p (Node l a r) =
     (if fst a = p then (if hmu_is_in_heap hp p \<and> parent_ok then replace_node hp l r else None)
      else case remove_at hp (hmu_is_in_heap hp (fst a)) p l of
        Some l' \<Rightarrow> Some (Node l' a r)
      | None \<Rightarrow> map_option (Node l a) (remove_at hp (hmu_is_in_heap hp (fst a)) p r))"

definition remove_tree_node :: "gc_heap \<Rightarrow> int \<Rightarrow> bool \<times> gc_heap" where
  "remove_tree_node hp p =
     (case remove_at hp True p (kfc_tree hp) of
       None \<Rightarrow> (False, corrupted hp)
     | Some t \<Rightarrow> (True, hp\<lparr>kfc_tree := t\<rparr>))"

fun insert_node :: "gc_heap \<Rightarrow> int \<times> int \<Rightarrow> (int \<times> int) tree \<Rightarrow> (int \<times> int) tree option" where
  "insert_node hp x Leaf = Some (Node Leaf x Leaf)"
| "insert_node hp x (Node l a r) =
     (if \<not> hmu_is_in_heap hp (fst a) then None
      else if snd a < snd x then map_option (Node l a) (insert_node hp x r)
      else map_option (\<lambda>l'. Node l' a r) (insert_node hp x l))"

text \<open>The last node on the way that is large enough; \<open>None\<close> is a node outside of the pool.\<close>

fun best_node :: "gc_heap \<Rightarrow> int \<Rightarrow> (int \<times> int) option \<Rightarrow> (int \<times> int) tree \<Rightarrow> (int \<times> int) option option" where
  "best_node hp sz last_tp Leaf = Some last_tp"
| "best_node hp sz last_tp (Node l a r) =
     (if \<not> hmu_is_in_heap hp (fst a) then None
      else if snd a < sz then best_node hp sz last_tp r
      else best_node hp sz (Some a) l)"

section \<open>Chunks\<close>

definition unlink_hmu :: "gc_heap \<Rightarrow> int \<Rightarrow> (bool \<times> gc_heap) option" where
  "unlink_hmu hp hmu =
     (if hmu_get_ut (mem hp hmu) \<noteq> HMU_FC then Some (False, corrupted hp) else
      let sz = hmu_get_size (mem hp hmu) in
      if HMU_IS_FC_NORMAL sz then
        let node_idx = nat (sz div 8) in
        do { r \<leftarrow> find_normal hp hmu None (kfc_normal_list hp node_idx);
          Some (case r of
            Inl _ \<Rightarrow> (False, corrupted hp)
          | Inr None \<Rightarrow> (True, hp)
          | Inr (Some (None, node_next)) \<Rightarrow>
              (True, hp\<lparr>kfc_normal_list := (kfc_normal_list hp)(node_idx := node_next)\<rparr>)
          | Inr (Some (Some node_prev, node_next)) \<Rightarrow> (True, set_hmu_normal_node_next node_prev node_next hp)) }
      else Some (remove_tree_node hp hmu))"

definition hmu_set_free_size :: "int \<Rightarrow> gc_heap \<Rightarrow> gc_heap" where
  "hmu_set_free_size hmu hp =
     (let sz = hmu_get_size (mem hp hmu) in write_word (hmu + sz - 4) (word_of_int sz) hp)"

definition gci_add_fc :: "gc_heap \<Rightarrow> int \<Rightarrow> int \<Rightarrow> bool \<times> gc_heap" where
  "gci_add_fc hp hmu sz =
     (let hp = write_word hmu (hmu_set_size (hmu_set_ut (mem hp hmu) HMU_FC) sz) hp;
          hp = hmu_set_free_size hmu hp in
      if HMU_IS_FC_NORMAL sz then
        if \<not> hmu_is_in_heap hp hmu then (False, corrupted hp) else
        let node_idx = nat (sz div 8);
            hp = set_hmu_normal_node_next hmu (kfc_normal_list hp node_idx) hp in
        (True, hp\<lparr>kfc_normal_list := (kfc_normal_list hp)(node_idx := Some hmu)\<rparr>)
      else case insert_node hp (hmu, sz) (kfc_tree hp) of
          None \<Rightarrow> (False, corrupted hp)
        | Some t \<Rightarrow> (True, hp\<lparr>kfc_tree := t\<rparr>))"

text \<open>What is left of a chunk becomes a free chunk if it is large enough; otherwise all of it is given away.
  The result is the size that is given away.\<close>

definition split_chunk :: "gc_heap \<Rightarrow> int \<Rightarrow> int \<Rightarrow> int \<Rightarrow> bool \<Rightarrow> int option \<times> gc_heap" where
  "split_chunk hp p have sz may_split =
     (if may_split \<and> have \<ge> sz + GC_SMALLEST_SIZE then
        let rest = p + sz in
        (case gci_add_fc hp rest (have - sz) of
          (False, hp) \<Rightarrow> (None, hp)
        | (True, hp) \<Rightarrow> (Some sz, write_word rest (hmu_mark_pinuse (mem hp rest)) hp))
      else
        let nxt = p + have in
        (Some have, if hmu_is_in_heap hp nxt then write_word nxt (hmu_mark_pinuse (mem hp nxt)) hp else hp))"

definition take_chunk :: "int \<Rightarrow> int \<Rightarrow> gc_heap \<Rightarrow> gc_heap" where
  "take_chunk p sz hp =
     (let hp = hp\<lparr>total_free_size := gc_uint32 (total_free_size hp - sz)\<rparr>;
          used = gc_uint32 (current_size hp - total_free_size hp);
          hp = (if used > highmark_size hp then hp\<lparr>highmark_size := used\<rparr> else hp) in
      write_word p (hmu_set_size (mem hp p) sz) hp)"

definition alloc_hmu :: "gc_heap \<Rightarrow> int \<Rightarrow> int option \<times> gc_heap" where
  "alloc_hmu hp sz =
     (let sz = (if sz < GC_SMALLEST_SIZE then GC_SMALLEST_SIZE else sz);
          init_node_idx = nat (sz div 8);
          found = (if HMU_IS_FC_NORMAL sz
                   then find (\<lambda>i. kfc_normal_list hp i \<noteq> None) [init_node_idx..<HMU_NORMAL_NODE_CNT] else None) in
      case found of
        Some node_idx \<Rightarrow>
          let p = the (kfc_normal_list hp node_idx) in
          if \<not> hmu_is_in_heap hp p then (None, corrupted hp) else
          let hp = hp\<lparr>kfc_normal_list := (kfc_normal_list hp)(node_idx := get_hmu_normal_node_next (mem hp) p)\<rparr> in
          if (base_addr hp + p + HMU_SIZE) mod 8 \<noteq> 0 then (None, corrupted hp) else
          (case split_chunk hp p (int node_idx * 8) sz (node_idx \<noteq> init_node_idx) of
            (None, hp) \<Rightarrow> (None, hp)
          | (Some sz, hp) \<Rightarrow> (Some p, take_chunk p sz hp))
      | None \<Rightarrow>
          (case best_node hp sz None (kfc_tree hp) of
            None \<Rightarrow> (None, corrupted hp)
          | Some None \<Rightarrow> (None, hp)
          | Some (Some (p, have)) \<Rightarrow>
              (case remove_tree_node hp p of
                (False, hp) \<Rightarrow> (None, hp)
              | (True, hp) \<Rightarrow>
                (case split_chunk hp p have sz True of
                  (None, hp) \<Rightarrow> (None, hp)
                | (Some sz, hp) \<Rightarrow> (Some p, take_chunk p sz hp)))))"

section \<open>Operations\<close>

text \<open>\<open>memset\<close> with zero on the bytes from \<open>a\<close> to \<open>b\<close>, where \<open>b\<close> is the end of a word.\<close>

definition clear_bytes :: "int \<Rightarrow> int \<Rightarrow> (int \<Rightarrow> u32) \<Rightarrow> int \<Rightarrow> u32" where
  "clear_bytes a b m w =
     (if a \<le> w \<and> w < b then 0 else if w < a \<and> a < w + 4 \<and> a < b then take_bit (8 * nat (a - w)) (m w) else m w)"

definition alloc_size :: "int \<Rightarrow> int \<times> int" where
  "alloc_size sz = (let unaligned = gc_uint32 (HMU_SIZE + sz) in (unaligned, GC_ALIGN_8 unaligned))"

definition gc_alloc_vo :: "gc_heap \<Rightarrow> int \<Rightarrow> int option \<times> gc_heap" where
  "gc_alloc_vo hp sz =
     (let (tot_size_unaligned, tot_size) = alloc_size sz in
      if tot_size < sz then (None, hp)
      else if is_heap_corrupted hp then (None, hp)
      else case alloc_hmu hp tot_size of
        (None, hp) \<Rightarrow> (None, hp)
      | (Some hmu, hp) \<Rightarrow>
          let tot_size = hmu_get_size (mem hp hmu);
              hp = write_word hmu (hmu_unfree_vo (hmu_set_ut (mem hp hmu) HMU_VO)) hp;
              ret = hmu + HMU_SIZE in
          (Some ret, if tot_size > tot_size_unaligned
             then hp\<lparr>mem := clear_bytes (ret + sz) (ret + sz + (tot_size - tot_size_unaligned)) (mem hp)\<rparr> else hp))"

text \<open>The merges of a chunk that is freed with the free chunks in front of it and behind it.\<close>

definition merge_prev :: "gc_heap \<Rightarrow> int \<Rightarrow> int \<Rightarrow> (bool \<times> int \<times> int \<times> gc_heap) option" where
  "merge_prev hp hmu sz =
     (let prev = hmu - sint (mem hp (hmu - 4)) in
      if \<not> hmu_get_pinuse (mem hp hmu) \<and> hmu_is_in_heap hp prev \<and> hmu_get_ut (mem hp prev) = HMU_FC
      then do { (ok, hp') \<leftarrow> unlink_hmu hp prev; Some (ok, prev, sz + hmu_get_size (mem hp prev), hp') }
      else Some (True, hmu, sz, hp))"

definition merge_next :: "gc_heap \<Rightarrow> int \<Rightarrow> int \<Rightarrow> (bool \<times> int \<times> gc_heap) option" where
  "merge_next hp hmu sz =
     (let nxt = hmu + sz in
      if hmu_is_in_heap hp nxt \<and> hmu_get_ut (mem hp nxt) = HMU_FC
      then do { (ok, hp') \<leftarrow> unlink_hmu hp nxt; Some (ok, sz + hmu_get_size (mem hp nxt), hp') }
      else Some (True, sz, hp))"

definition gc_free_vo :: "gc_heap \<Rightarrow> int option \<Rightarrow> (gc_result \<times> gc_heap) option" where
  "gc_free_vo hp obj =
     (case obj of None \<Rightarrow> Some (GC_SUCCESS, hp) | Some ob \<Rightarrow>
      if is_heap_corrupted hp then Some (GC_ERROR, hp) else
      let hmu = ob - HMU_SIZE in
      if \<not> hmu_is_in_heap hp hmu then Some (GC_SUCCESS, hp)
      else if hmu_get_ut (mem hp hmu) \<noteq> HMU_VO then Some (GC_ERROR, hp)
      else if hmu_is_vo_freed (mem hp hmu) then Some (GC_ERROR, hp) else
      let sz = hmu_get_size (mem hp hmu) in
      do { (ok, hmu, sz, hp) \<leftarrow> merge_prev (hp\<lparr>total_free_size := gc_uint32 (total_free_size hp + sz)\<rparr>) hmu sz;
           if \<not> ok then Some (GC_ERROR, hp) else
           do { (ok, sz, hp) \<leftarrow> merge_next hp hmu sz;
                if \<not> ok then Some (GC_ERROR, hp) else
                let nxt = hmu + sz in
                (case gci_add_fc hp hmu sz of
                  (False, hp) \<Rightarrow> Some (GC_ERROR, hp)
                | (True, hp) \<Rightarrow>
                    Some (GC_SUCCESS, if hmu_is_in_heap hp nxt
                      then write_word nxt (hmu_unmark_pinuse (mem hp nxt)) hp else hp)) } })"

text \<open>The copy of an object to its new place, after that was cleared; both consist of whole words.\<close>

definition move_object :: "int \<Rightarrow> int \<Rightarrow> int \<Rightarrow> int \<Rightarrow> (int \<Rightarrow> u32) \<Rightarrow> int \<Rightarrow> u32" where
  "move_object ret obj_size obj_old obj_size_old m w =
     (if ret \<le> w \<and> w < ret + obj_size_old then m (obj_old + (w - ret))
      else clear_bytes ret (ret + obj_size) m w)"

definition realloc_move :: "gc_heap \<Rightarrow> int option \<Rightarrow> int \<Rightarrow> int \<Rightarrow> (int option \<times> gc_heap) option" where
  "realloc_move hp ptr tot_size tot_size_old =
     (case alloc_hmu hp tot_size of
       (None, hp) \<Rightarrow> Some (None, hp)
     | (Some hmu, hp) \<Rightarrow>
         let tot_size = hmu_get_size (mem hp hmu);
             hp = write_word hmu (hmu_unfree_vo (hmu_set_ut (mem hp hmu) HMU_VO)) hp;
             ret = hmu + HMU_SIZE in
         (case ptr of
           None \<Rightarrow> Some (Some ret, hp\<lparr>mem := clear_bytes ret (ret + (tot_size - HMU_SIZE)) (mem hp)\<rparr>)
         | Some obj_old \<Rightarrow>
             do { (_, hp) \<leftarrow> gc_free_vo
                    (hp\<lparr>mem := move_object ret (tot_size - HMU_SIZE) obj_old (tot_size_old - HMU_SIZE) (mem hp)\<rparr>) ptr;
                  Some (Some ret, hp) }))"

definition gc_realloc_vo :: "gc_heap \<Rightarrow> int option \<Rightarrow> int \<Rightarrow> (int option \<times> gc_heap) option" where
  "gc_realloc_vo hp ptr sz =
     (let (tot_size_unaligned, tot_size) = alloc_size sz in
      if tot_size < sz then Some (None, hp)
      else if is_heap_corrupted hp then Some (None, hp) else
      let hmu_old = map_option (\<lambda>ob. ob - HMU_SIZE) ptr;
          tot_size_old = (case hmu_old of None \<Rightarrow> 0 | Some o' \<Rightarrow> hmu_get_size (mem hp o')) in
      case hmu_old of None \<Rightarrow> realloc_move hp ptr tot_size tot_size_old | Some hmu_old \<Rightarrow>
      if tot_size \<le> tot_size_old then Some (ptr, hp) else
      let hmu_next = hmu_old + tot_size_old;
          tot_size_next = hmu_get_size (mem hp hmu_next) in
      if hmu_is_in_heap hp hmu_next \<and> hmu_get_ut (mem hp hmu_next) = HMU_FC \<and> tot_size \<le> tot_size_old + tot_size_next then
        do { (ok, hp) \<leftarrow> unlink_hmu hp hmu_next;
             if \<not> ok then Some (None, hp) else
             let hp = write_word hmu_old (hmu_set_size (mem hp hmu_old) tot_size) hp;
                 hp = hp\<lparr>mem := clear_bytes (hmu_old + tot_size_old) (hmu_old + tot_size) (mem hp)\<rparr> in
             if tot_size < tot_size_old + tot_size_next then
               let hmu_next = hmu_old + tot_size in
               (case gci_add_fc hp hmu_next (tot_size_old + tot_size_next - tot_size) of
                 (False, hp) \<Rightarrow> Some (None, hp)
               | (True, hp) \<Rightarrow> Some (ptr, write_word hmu_next (hmu_mark_pinuse (mem hp hmu_next)) hp))
             else Some (ptr, hp) }
      else realloc_move hp ptr tot_size tot_size_old)"

section \<open>Creation and migration\<close>

text \<open>\<open>lock_ok\<close>: the answer of \<open>os_mutex_init\<close>. The chunk that covers the pool has no size at its end.\<close>

definition gc_init_internal :: "bool \<Rightarrow> int \<Rightarrow> int \<Rightarrow> gc_heap option" where
  "gc_init_internal lock_ok base heap_max_size =
     (if \<not> lock_ok then None else
      Some \<lparr>base_addr = base, current_size = heap_max_size,
        mem = (\<lambda>_. 0)(0 := hmu_mark_pinuse (hmu_set_size (hmu_set_ut 0 HMU_FC) heap_max_size)),
        kfc_normal_list = (\<lambda>_. None), kfc_tree = Node Leaf (0, heap_max_size) Leaf, is_heap_corrupted = False,
        highmark_size = 0, total_free_size = heap_max_size\<rparr>)"

text \<open>\<open>struct_size\<close> is the size of the heap structure, which depends on the mutex of the platform. The outer \<open>None\<close>
  is a \<open>memset\<close> that leaves the buffer.\<close>

definition gc_init_with_pool :: "int \<Rightarrow> bool \<Rightarrow> int \<Rightarrow> int \<Rightarrow> gc_heap option option" where
  "gc_init_with_pool struct_size lock_ok buf buf_size =
     (let buf_end = buf + buf_size;
          buf_aligned = (buf + 7) div 8 * 8;
          base = (buf_aligned + struct_size + 7) div 8 * 8 + GC_HEAD_PADDING;
          heap_max_size = gc_uint32 (buf_end - base) div 8 * 8 in
      if buf_size < APP_HEAP_SIZE_MIN then Some None
      else if buf_end < buf_aligned + struct_size \<or> buf_end < base + heap_max_size then None
      else Some (gc_init_internal lock_ok base heap_max_size))"

definition gc_init_with_struct_and_pool :: "bool \<Rightarrow> int \<Rightarrow> int \<Rightarrow> int \<Rightarrow> int \<Rightarrow> gc_heap option" where
  "gc_init_with_struct_and_pool lock_ok struct_buf struct_buf_size pool_buf pool_buf_size =
     (let base = pool_buf + GC_HEAD_PADDING;
          pool_buf_end = pool_buf + pool_buf_size in
      if struct_buf mod 8 \<noteq> 0 then None
      else if struct_buf_size < 8 then None
      else if pool_buf mod 8 \<noteq> 0 then None
      else if pool_buf_size < APP_HEAP_SIZE_MIN then None
      else gc_init_internal lock_ok base (gc_uint32 (pool_buf_end - base) div 8 * 8))"

text \<open>The walk over all chunks; it fails at a chunk without a size or beyond the end. Positions are relative to the
  base, so that the links of the tree that it adjusts do not change.\<close>

function walk_chunks :: "(int \<Rightarrow> u32) \<Rightarrow> int \<Rightarrow> int \<Rightarrow> bool" where
  "walk_chunks m cur end' =
     (if cur < end' then
        let sz = hmu_get_size (m cur) in
        if sz \<le> 0 \<or> sz > gc_uint32 (end' - cur) then False else walk_chunks m (cur + sz) end'
      else cur = end')"
  by pat_completeness auto
termination
  by (relation "measure (\<lambda>(m, cur, end'). nat (end' - cur))") auto

text \<open>The heads of the lists are absolute pointers that are not adjusted: relative to the new base, they are moved by
  the negative distance.\<close>

definition gc_migrate :: "gc_heap \<Rightarrow> int \<Rightarrow> int \<Rightarrow> gc_result \<times> gc_heap" where
  "gc_migrate hp pool_buf_new pool_buf_size =
     (let base_addr_new = pool_buf_new + GC_HEAD_PADDING;
          pool_buf_end = pool_buf_new + pool_buf_size;
          heap_max_size = gc_uint32 (pool_buf_end - base_addr_new) div 8 * 8 in
      if pool_buf_new mod 8 \<noteq> 0 then (GC_ERROR, hp)
      else if pool_buf_end < base_addr_new \<or> heap_max_size < current_size hp then (GC_ERROR, hp)
      else if base_addr_new = base_addr hp then (GC_SUCCESS, hp)
      else if is_heap_corrupted hp then (GC_ERROR, hp) else
      let offset = base_addr_new - base_addr hp;
          hp = hp\<lparr>base_addr := base_addr_new, kfc_normal_list := \<lambda>i. map_option (\<lambda>p. p - offset) (kfc_normal_list hp i)\<rparr> in
      if walk_chunks (mem hp) 0 (current_size hp) then (GC_SUCCESS, hp) else (GC_ERROR, corrupted hp))"

definition gc_is_heap_corrupted :: "gc_heap \<Rightarrow> bool" where
  "gc_is_heap_corrupted hp = is_heap_corrupted hp"

text \<open>The statistics: total, free and highest use.\<close>

definition gc_heap_stats :: "gc_heap \<Rightarrow> int list" where
  "gc_heap_stats hp = [current_size hp, total_free_size hp, highmark_size hp]"

text \<open>Destruction clears the pool, whose positions are then those from the former base, and the structure.\<close>

definition gc_destroy_with_pool :: "gc_heap \<Rightarrow> gc_result \<times> gc_heap" where
  "gc_destroy_with_pool hp =
     (GC_SUCCESS, \<lparr>base_addr = 0, current_size = 0, mem = clear_bytes 0 (current_size hp) (mem hp), kfc_normal_list = (\<lambda>_. None),
        kfc_tree = Leaf, is_heap_corrupted = False, highmark_size = 0, total_free_size = 0\<rparr>)"

text \<open>The interface of the allocator.\<close>

definition mem_allocator_create :: "int \<Rightarrow> bool \<Rightarrow> int \<Rightarrow> int \<Rightarrow> gc_heap option option" where
  "mem_allocator_create struct_size lock_ok buf n = gc_init_with_pool struct_size lock_ok buf n"

definition mem_allocator_create_with_struct_and_pool :: "bool \<Rightarrow> int \<Rightarrow> int \<Rightarrow> int \<Rightarrow> int \<Rightarrow> gc_heap option" where
  "mem_allocator_create_with_struct_and_pool lock_ok struct_buf struct_buf_size pool_buf pool_buf_size =
     gc_init_with_struct_and_pool lock_ok struct_buf struct_buf_size pool_buf pool_buf_size"

definition mem_allocator_destroy :: "gc_heap \<Rightarrow> gc_result \<times> gc_heap" where
  "mem_allocator_destroy hp = gc_destroy_with_pool hp"

definition mem_allocator_malloc :: "gc_heap \<Rightarrow> int \<Rightarrow> int option \<times> gc_heap" where
  "mem_allocator_malloc hp sz = gc_alloc_vo hp sz"

definition mem_allocator_realloc :: "gc_heap \<Rightarrow> int option \<Rightarrow> int \<Rightarrow> (int option \<times> gc_heap) option" where
  "mem_allocator_realloc hp ptr sz = gc_realloc_vo hp ptr sz"

definition mem_allocator_free :: "gc_heap \<Rightarrow> int option \<Rightarrow> gc_heap option" where
  "mem_allocator_free hp ptr = (if ptr = None then Some hp else map_option snd (gc_free_vo hp ptr))"

definition mem_allocator_migrate :: "gc_heap \<Rightarrow> int \<Rightarrow> int \<Rightarrow> gc_result \<times> gc_heap" where
  "mem_allocator_migrate hp pool_buf_new pool_buf_size = gc_migrate hp pool_buf_new pool_buf_size"

definition mem_allocator_is_heap_corrupted :: "gc_heap \<Rightarrow> bool" where
  "mem_allocator_is_heap_corrupted hp = gc_is_heap_corrupted hp"

definition mem_allocator_get_alloc_info :: "gc_heap \<Rightarrow> bool \<times> int list" where
  "mem_allocator_get_alloc_info hp = (True, gc_heap_stats hp)"

end
