(* ===== verification/Ems_Spec.thy ===== *)
theory Ems_Spec
  imports Ems_Heap
begin

text \<open>
  The bits of chunk headers, the layout of a pool as a sequence of chunks, the lists of small free chunks as chains of
  links, the tree of large free chunks as an ordered tree, and the index of the free chunks, which consists of both.
  Adding a free chunk extends the index by exactly that chunk.
\<close>

unbundle bit_operations_syntax

section \<open>Headers\<close>

lemma bits_mask: "push_bit n 1 - 1 = (mask n :: u32)"
  by (simp add: mask_eq_exp_minus_1 push_bit_eq_mult)

lemma bit_GETBITS: "bit (GETBITS v k n) i \<longleftrightarrow> i < n \<and> bit v (k + i)"
  unfolding GETBITS_def bits_mask by (auto simp: bit_simps add.commute dest: bit_imp_le_length)

lemma bit_SETBITS:
  assumes "k + n \<le> 32" "\<And>j. bit x j \<Longrightarrow> j < n"
  shows "bit (SETBITS v k n x) i \<longleftrightarrow> (if k \<le> i \<and> i < k + n then bit x (i - k) else bit v i)"
proof -
  have "bit x (i - k) \<Longrightarrow> k \<le> i \<Longrightarrow> i < k + n" using assms(2) [of "i - k"] by simp
  then show ?thesis
    unfolding SETBITS_def bits_mask using assms(1) by (auto simp: bit_simps dest: bit_imp_le_length)
qed

lemma bit_flags:
  "GETBIT v k \<longleftrightarrow> bit v k"
  "bit (SETBIT v k) i \<longleftrightarrow> bit v i \<or> k = i \<and> i < 32"
  "bit (CLRBIT v k) i \<longleftrightarrow> bit v i \<and> k \<noteq> i"
  by (auto simp: GETBIT_def SETBIT_def CLRBIT_def and_exp_eq_0_iff_not_bit bit_simps dest: bit_imp_le_length)

text \<open>A size that fits into a header.\<close>

definition size_ok :: "int \<Rightarrow> bool" where
  "size_ok s \<longleftrightarrow> 16 \<le> s \<and> s < 2 ^ 30 \<and> 8 dvd s"

lemma bit_size_int:
  assumes "size_ok s" "bit s i"
  shows "3 \<le> i \<and> i < 30"
proof -
  have "take_bit 30 s = s" using assms(1) by (simp add: size_ok_def take_bit_int_eq_self_iff)
  then have "i < 30" using assms(2) by (metis bit_take_bit_iff)
  moreover have "3 \<le> i"
  proof (rule ccontr)
    assume "\<not> 3 \<le> i"
    have "take_bit 3 s = 0" using assms(1) by (simp add: size_ok_def take_bit_eq_mod mod_eq_0_iff_dvd)
    with assms(2) \<open>\<not> 3 \<le> i\<close> show False by (metis bit_0_eq bit_take_bit_iff bot_apply bot_bool_def not_le)
  qed
  ultimately show ?thesis by blast
qed

lemma bit_size_word: "size_ok s \<Longrightarrow> bit (drop_bit 3 (word_of_int s :: u32)) j \<longleftrightarrow> bit s (3 + j)"
  using bit_size_int [of s "3 + j"] by (auto simp: bit_simps)

lemma size_bits: "size_ok s \<Longrightarrow> bit (drop_bit 3 (word_of_int s :: u32)) j \<Longrightarrow> j < 27"
  using bit_size_int [of s "3 + j"] bit_size_word by force

lemma bit_set_size:
  "size_ok s \<Longrightarrow> bit (hmu_set_size w s) i \<longleftrightarrow> (if i < 27 then bit s (3 + i) else bit w i)"
  unfolding hmu_set_size_def by (subst bit_SETBITS) (auto simp: bit_size_word dest: bit_size_int)

lemma bit_set_ut:
  "t = HMU_FC \<or> t = HMU_VO \<Longrightarrow> bit (hmu_set_ut w t) i \<longleftrightarrow> (if 30 \<le> i \<and> i < 32 then bit t (i - 30) else bit w i)"
proof -
  assume t: "t = HMU_FC \<or> t = HMU_VO"
  have "bit t j \<Longrightarrow> j < 2" for j
    using t by (cases j; cases "j - 1") (auto simp: HMU_FC_def HMU_VO_def bit_numeral_rec bit_1_iff)
  then show ?thesis unfolding hmu_set_ut_def by (subst bit_SETBITS) auto
qed

lemma ut_eq: "hmu_get_ut w = GETBITS w 30 2" and pinuse_bit: "hmu_get_pinuse w \<longleftrightarrow> bit w 29"
  and freed_bit: "hmu_is_vo_freed w \<longleftrightarrow> bit w 28"
  by (simp_all add: hmu_get_ut_def hmu_get_pinuse_def hmu_is_vo_freed_def bit_flags)

lemma get_ut_cong: "(\<And>i. 30 \<le> i \<Longrightarrow> i < 32 \<Longrightarrow> bit v i = bit w i) \<Longrightarrow> hmu_get_ut v = hmu_get_ut w"
  unfolding hmu_get_ut_def by (rule bit_eqI) (auto simp: bit_GETBITS)

lemma get_size_cong: "(\<And>i. i < 27 \<Longrightarrow> bit v i = bit w i) \<Longrightarrow> hmu_get_size v = hmu_get_size w"
proof -
  assume "\<And>i. i < 27 \<Longrightarrow> bit v i = bit w i"
  then have "GETBITS v 0 27 = GETBITS w 0 27" by (intro bit_eqI) (auto simp: bit_GETBITS)
  then show ?thesis by (simp add: hmu_get_size_def)
qed

lemma get_set_size [simp]: "size_ok s \<Longrightarrow> hmu_get_size (hmu_set_size w s) = s"
proof -
  assume s: "size_ok s"
  have "push_bit 3 (GETBITS (hmu_set_size w s) 0 27) = (word_of_int s :: u32)"
  proof (rule bit_eqI)
    fix n
    show "bit (push_bit 3 (GETBITS (hmu_set_size w s) 0 27)) n = bit (word_of_int s :: u32) n"
      using bit_size_int [OF s, of n] by (cases "3 \<le> n") (auto simp: bit_simps bit_GETBITS bit_set_size [OF s])
  qed
  then show ?thesis using s by (simp add: hmu_get_size_def size_ok_def unsigned_of_int take_bit_int_eq_self_iff)
qed

lemma header_size [simp]:
  "hmu_get_size (hmu_mark_pinuse w) = hmu_get_size w" "hmu_get_size (hmu_unmark_pinuse w) = hmu_get_size w"
  "hmu_get_size (hmu_unfree_vo w) = hmu_get_size w"
  "t = HMU_FC \<or> t = HMU_VO \<Longrightarrow> hmu_get_size (hmu_set_ut w t) = hmu_get_size w"
  by (rule get_size_cong, simp add: hmu_mark_pinuse_def hmu_unmark_pinuse_def hmu_unfree_vo_def bit_flags bit_set_ut)+

lemma get_set_ut [simp]: "t = HMU_FC \<or> t = HMU_VO \<Longrightarrow> hmu_get_ut (hmu_set_ut w t) = t"
proof -
  assume t: "t = HMU_FC \<or> t = HMU_VO"
  then have "bit t j \<Longrightarrow> j < 2" for j
    by (cases j; cases "j - 1") (auto simp: HMU_FC_def HMU_VO_def bit_numeral_rec bit_1_iff)
  then show ?thesis
    unfolding hmu_get_ut_def by (intro bit_eqI) (auto simp: bit_GETBITS bit_set_ut [OF t])
qed

lemma header_ut [simp]:
  "hmu_get_ut (hmu_mark_pinuse w) = hmu_get_ut w" "hmu_get_ut (hmu_unmark_pinuse w) = hmu_get_ut w"
  "hmu_get_ut (hmu_unfree_vo w) = hmu_get_ut w" "size_ok s \<Longrightarrow> hmu_get_ut (hmu_set_size w s) = hmu_get_ut w"
  by (rule get_ut_cong, simp add: hmu_mark_pinuse_def hmu_unmark_pinuse_def hmu_unfree_vo_def bit_flags bit_set_size)+

lemma header_pinuse [simp]:
  "hmu_get_pinuse (hmu_mark_pinuse w)" "\<not> hmu_get_pinuse (hmu_unmark_pinuse w)"
  "hmu_get_pinuse (hmu_unfree_vo w) = hmu_get_pinuse w"
  "t = HMU_FC \<or> t = HMU_VO \<Longrightarrow> hmu_get_pinuse (hmu_set_ut w t) = hmu_get_pinuse w"
  "size_ok s \<Longrightarrow> hmu_get_pinuse (hmu_set_size w s) = hmu_get_pinuse w"
  by (simp_all add: pinuse_bit hmu_mark_pinuse_def hmu_unmark_pinuse_def hmu_unfree_vo_def bit_flags bit_set_ut bit_set_size)

lemma header_freed [simp]:
  "\<not> hmu_is_vo_freed (hmu_unfree_vo w)" "hmu_is_vo_freed (hmu_mark_pinuse w) = hmu_is_vo_freed w"
  "hmu_is_vo_freed (hmu_unmark_pinuse w) = hmu_is_vo_freed w"
  by (simp_all add: freed_bit hmu_mark_pinuse_def hmu_unmark_pinuse_def hmu_unfree_vo_def bit_flags)

section \<open>The layout of the pool\<close>

text \<open>A chunk is its position, its size and whether it is in use. Chunks fill the pool.\<close>

type_synonym chunk = "int \<times> int \<times> bool"

fun tiles :: "int \<Rightarrow> chunk list \<Rightarrow> int \<Rightarrow> bool" where
  "tiles a [] b = (a = b)"
| "tiles a ((p, s, u) # cs) b = (p = a \<and> size_ok s \<and> tiles (a + s) cs b)"

text \<open>What the headers say: \<open>prev\<close> is the size of the chunk before if that is free. The chunk behind a free
  chunk is in use and finds the size of the free chunk in front of its header.\<close>

fun agree :: "(int \<Rightarrow> u32) \<Rightarrow> int option \<Rightarrow> chunk list \<Rightarrow> bool" where
  "agree m prev [] = True"
| "agree m prev ((p, s, u) # cs) =
     (hmu_get_size (m p) = s \<and> hmu_get_ut (m p) = (if u then HMU_VO else HMU_FC) \<and> (u \<longrightarrow> \<not> hmu_is_vo_freed (m p))
      \<and> (hmu_get_pinuse (m p) \<longleftrightarrow> prev = None) \<and> (\<forall>t. prev = Some t \<longrightarrow> u \<and> m (p - 4) = word_of_int t)
      \<and> agree m (if u then None else Some s) cs)"

fun last_free :: "int option \<Rightarrow> chunk list \<Rightarrow> int option" where
  "last_free prev [] = prev"
| "last_free prev ((p, s, u) # cs) = last_free (if u then None else Some s) cs"

lemma last_free_append [simp]: "last_free prev (xs @ ys) = last_free (last_free prev xs) ys"
  by (induction prev xs rule: last_free.induct) auto

lemma agree_append [simp]: "agree m prev (xs @ ys) \<longleftrightarrow> agree m prev xs \<and> agree m (last_free prev xs) ys"
  by (induction m prev xs rule: agree.induct) auto

definition span :: "chunk list \<Rightarrow> int" where
  "span cs = (\<Sum>(p, s, u) \<leftarrow> cs. s)"

lemma span_simps [simp]: "span [] = 0" "span ((p, s, u) # cs) = s + span cs" "span (xs @ ys) = span xs + span ys"
  by (simp_all add: span_def)

lemma tiles_append [simp]: "tiles a (xs @ ys) b \<longleftrightarrow> tiles a xs (a + span xs) \<and> tiles (a + span xs) ys b"
  by (induction xs arbitrary: a) (auto simp: add.assoc)

lemma tiles_span: "tiles a cs b \<Longrightarrow> b = a + span cs \<and> 0 \<le> span cs"
  by (induction a cs b rule: tiles.induct) (auto simp: size_ok_def)

lemma tiles_8: "tiles a cs b \<Longrightarrow> 8 dvd b - a"
  by (induction a cs b rule: tiles.induct) (auto simp: size_ok_def, presburger)

lemma tiles_in:
  assumes "tiles a cs b" "(p, s, u) \<in> set cs"
  shows "a \<le> p \<and> p + s \<le> b \<and> size_ok s \<and> 8 dvd p - a"
  using assms
proof (induction a cs b rule: tiles.induct)
  case (2 a q t v cs b)
  then have "size_ok t" "b = a + t + span cs" "0 \<le> span cs" using tiles_span [of "a + t" cs b] by auto
  with 2 show ?case by (auto simp: size_ok_def) (metis add_diff_cancel_left' diff_add_eq dvd_add dvd_diff_commute minus_diff_eq)+
qed simp

text \<open>Chunks do not overlap.\<close>

lemma tiles_disjoint:
  assumes "tiles a cs b" "(p, s, u) \<in> set cs" "(q, t, v) \<in> set cs" "(p, s, u) \<noteq> (q, t, v)"
  shows "p + s \<le> q \<or> q + t \<le> p"
  using assms
proof (induction a cs b rule: tiles.induct)
  case (2 a c d e cs b)
  then show ?case using tiles_in [of "a + d" cs b] by fastforce
qed simp

section \<open>The lists of small free chunks\<close>

fun chain :: "(int \<Rightarrow> u32) \<Rightarrow> int option \<Rightarrow> int list \<Rightarrow> bool" where
  "chain m q [] = (q = None)"
| "chain m q (x # xs) = (q = Some x \<and> chain m (get_hmu_normal_node_next m x) xs)"

lemma chain_cong:
  assumes "\<And>x. x \<in> set xs \<Longrightarrow> m' (x + 4) = m (x + 4)"
  shows "chain m' q xs = chain m q xs"
  using assms by (induction xs arbitrary: q) (simp_all add: get_hmu_normal_node_next_def)

lemma sint_small: "- (2 ^ 31) \<le> d \<Longrightarrow> d < 2 ^ 31 \<Longrightarrow> sint (word_of_int d :: u32) = d"
  by (simp add: signed_of_int signed_take_bit_int_eq_self_iff)

lemma next_written:
  assumes "\<And>y. nxt = Some y \<Longrightarrow> y \<noteq> x \<and> \<bar>y - x\<bar> < 2 ^ 31"
  shows "get_hmu_normal_node_next (m(x + 4 := case nxt of None \<Rightarrow> 0 | Some y \<Rightarrow> word_of_int (y - x))) x = nxt"
proof (cases nxt)
  case (Some y)
  then have y: "y - x \<noteq> 0" "- (2 ^ 31) \<le> y - x" "y - x < 2 ^ 31" using assms [OF Some] by auto
  then have "sint (word_of_int (y - x) :: u32) = y - x" by (intro sint_small)
  moreover from this y(1) have "(word_of_int (y - x) :: u32) \<noteq> 0" by (metis sint_0)
  ultimately show ?thesis using Some by (simp add: get_hmu_normal_node_next_def)
qed (simp add: get_hmu_normal_node_next_def)

text \<open>The search finds a node of a list.\<close>

lemma find_normal_found:
  assumes "chain (mem hp) q (ys @ x # zs)" "x \<notin> set ys" "\<forall>y \<in> set ys \<union> {x}. hmu_is_in_heap hp y"
  shows "find_normal hp x prev q =
    Some (Inr (Some (if ys = [] then prev else Some (List.last ys), get_hmu_normal_node_next (mem hp) x)))"
  using assms
proof (induction ys arbitrary: q prev)
  case Nil
  then show ?case by (simp add: find_normal.simps)
next
  case (Cons y ys)
  then have "find_normal hp x prev q = find_normal hp x (Some y) (get_hmu_normal_node_next (mem hp) y)"
    by (subst find_normal.simps) auto
  also have "\<dots> = Some (Inr (Some (if ys = [] then Some y else Some (List.last ys), get_hmu_normal_node_next (mem hp) x)))"
    using Cons by simp
  finally show ?case by simp
qed

text \<open>Taking a node out of a list, at its head or by the link of the node before.\<close>

lemma chain_split: "chain m q (ys @ x # zs) \<Longrightarrow> chain m (get_hmu_normal_node_next m x) zs"
  by (induction ys arbitrary: q) auto

lemma chain_unlink:
  assumes "chain m q (ys @ y # x # zs)" "distinct (ys @ y # x # zs)"
    "\<And>z. z \<in> set (ys @ y # x # zs) \<Longrightarrow> 0 \<le> z \<and> z < 2 ^ 30"
  shows "chain (m(y + 4 := case get_hmu_normal_node_next m x of None \<Rightarrow> 0 | Some z \<Rightarrow> word_of_int (z - y))) q (ys @ y # zs)"
proof -
  define m' where "m' = m(y + 4 := case get_hmu_normal_node_next m x of None \<Rightarrow> 0 | Some z \<Rightarrow> word_of_int (z - y))"
  have same: "m' (w + 4) = m (w + 4)" if "w \<noteq> y" for w using that by (simp add: m'_def)
  have x: "chain m (get_hmu_normal_node_next m x) zs" by (rule chain_split [of m q "ys @ [y]"]) (use assms(1) in simp)
  have "z \<noteq> y \<and> \<bar>z - y\<bar> < 2 ^ 31" if "get_hmu_normal_node_next m x = Some z" for z
  proof -
    have "z \<in> set zs" using x that by (cases zs) auto
    with assms(2,3) have "z \<noteq> y" "0 \<le> z" "z < 2 ^ 30" "0 \<le> y" "y < 2 ^ 30" by auto
    then show ?thesis by auto
  qed
  then have y: "get_hmu_normal_node_next m' y = get_hmu_normal_node_next m x" unfolding m'_def by (intro next_written) auto
  have zs: "chain m' r zs = chain m r zs" for r using assms(2) by (intro chain_cong same) auto
  have "chain m' q (ys @ y # zs)" if "chain m q (ys @ y # x # zs)" "y \<notin> set ys"
    using that
  proof (induction ys arbitrary: q)
    case Nil
    then show ?case using x y zs by simp
  next
    case (Cons w ws)
    then have "get_hmu_normal_node_next m' w = get_hmu_normal_node_next m w" by (simp add: get_hmu_normal_node_next_def same)
    with Cons show ?case by simp
  qed
  with assms(1,2) show ?thesis unfolding m'_def by simp
qed

lemma chain_add:
  assumes "chain m q xs" "x \<notin> set xs" "0 \<le> x" "x < 2 ^ 30" "\<And>z. z \<in> set xs \<Longrightarrow> 0 \<le> z \<and> z < 2 ^ 30"
  shows "chain (m(x + 4 := case q of None \<Rightarrow> 0 | Some z \<Rightarrow> word_of_int (z - x))) (Some x) (x # xs)"
proof -
  have "z \<noteq> x \<and> \<bar>z - x\<bar> < 2 ^ 31" if "q = Some z" for z
  proof -
    have "z \<in> set xs" using assms(1) that by (cases xs) auto
    with assms(2-5) show ?thesis by fastforce
  qed
  then have "get_hmu_normal_node_next (m(x + 4 := case q of None \<Rightarrow> 0 | Some z \<Rightarrow> word_of_int (z - x))) x = q"
    by (intro next_written) auto
  moreover have "chain (m(x + 4 := w)) q xs = chain m q xs" for w using assms(2) by (intro chain_cong) auto
  ultimately show ?thesis using assms(1) by simp
qed

section \<open>The tree of large free chunks\<close>

text \<open>The order of the tree: sizes on the left are at most, on the right above the size of a node.\<close>

fun ordered :: "(int \<times> int) tree \<Rightarrow> bool" where
  "ordered Leaf = True"
| "ordered (Node l a r) =
     ((\<forall>x \<in> set_tree l. snd x \<le> snd a) \<and> (\<forall>x \<in> set_tree r. snd a < snd x) \<and> ordered l \<and> ordered r)"

abbreviation tree_in_heap :: "gc_heap \<Rightarrow> (int \<times> int) tree \<Rightarrow> bool" where
  "tree_in_heap hp t \<equiv> \<forall>x \<in> set_tree t. hmu_is_in_heap hp (fst x)"

lemma root_in_heap: "tree_in_heap hp t \<Longrightarrow> root_in_heap hp t"
  by (cases t) auto

lemma remove_pred_spec:
  assumes "t \<noteq> Leaf" "tree_in_heap hp t" "ordered t" "distinct (inorder t)"
  shows "\<exists>q t'. remove_pred hp t = Some (q, t') \<and> inorder t = inorder t' @ [q] \<and> ordered t' \<and>
    (\<forall>x \<in> set_tree t'. snd x \<le> snd q) \<and> tree_in_heap hp t' \<and> set_tree t' \<union> {q} = set_tree t"
  using assms
proof (induction t)
  case (Node l a r)
  show ?case
  proof (cases "r = Leaf")
    case True
    then show ?thesis using Node root_in_heap [of l hp] by auto
  next
    case False
    then obtain q r' where r': "remove_pred hp r = Some (q, r')" "inorder r = inorder r' @ [q]" "ordered r'"
      "\<forall>x \<in> set_tree r'. snd x \<le> snd q" "tree_in_heap hp r'" "set_tree r' \<union> {q} = set_tree r"
      using Node by auto
    then have q: "q \<in> set_tree r" "set_tree r' \<subseteq> set_tree r" by auto
    have lq: "\<forall>x \<in> set_tree l. snd x \<le> snd q" "snd a \<le> snd q" using Node.prems(3) q by fastforce+
    have "ordered (Node l a r')" using Node.prems(3) r'(3) q(2) by auto
    moreover have "remove_pred hp (Node l a r) = Some (q, Node l a r')" using False r'(1) Node.prems(2) by simp
    ultimately show ?thesis using r' lq Node.prems(2) q by (intro exI [of _ q] exI [of _ "Node l a r'"]) auto
  qed
qed simp

lemma replace_node_spec:
  assumes "tree_in_heap hp l" "tree_in_heap hp r" "ordered (Node l a r)" "distinct (inorder (Node l a r))"
  shows "\<exists>t. replace_node hp l r = Some t \<and> inorder t = inorder l @ inorder r \<and> ordered t"
proof (cases "l = Leaf \<or> r = Leaf")
  case True
  then show ?thesis using assms root_in_heap [of l hp] root_in_heap [of r hp] by (auto simp: replace_node_def)
next
  case False
  then obtain q l' where l': "remove_pred hp l = Some (q, l')" "inorder l = inorder l' @ [q]" "ordered l'"
    "\<forall>x \<in> set_tree l'. snd x \<le> snd q" "tree_in_heap hp l'" "set_tree l' \<union> {q} = set_tree l"
    using remove_pred_spec [of l hp] assms by auto
  have "q \<in> set_tree l" using l'(6) by blast
  then have "\<forall>x \<in> set_tree r. snd q < snd x" using assms(3) by force
  then have "ordered (Node l' q r)" using l' assms(3) by auto
  then show ?thesis
    using False l' assms(2) root_in_heap [of l' hp] root_in_heap [of r hp] by (auto simp: replace_node_def)
qed

lemma remove_at_none: "p \<notin> fst ` set_tree t \<Longrightarrow> remove_at hp ok p t = None"
  by (induction t arbitrary: ok) (auto simp: image_Un)

lemma remove_at_spec:
  assumes "(p, s) \<in> set_tree t" "tree_in_heap hp t" "ordered t" "distinct (map fst (inorder t))"
  shows "\<exists>t' xs ys. remove_at hp True p t = Some t' \<and> ordered t' \<and> inorder t = xs @ (p, s) # ys \<and> inorder t' = xs @ ys"
  using assms
proof (induction t)
  case (Node l a r)
  have d: "distinct (inorder (Node l a r))" "distinct (map fst (inorder l))" "distinct (map fst (inorder r))"
    "fst a \<notin> fst ` set_tree l" "fst a \<notin> fst ` set_tree r" "fst ` set_tree l \<inter> fst ` set_tree r = {}"
    using Node.prems(4) by (auto simp: distinct_map)
  have ok: "hmu_is_in_heap hp (fst a)" "tree_in_heap hp l" "tree_in_heap hp r" using Node.prems(2) by auto
  have sub: "ordered (Node t1 a t2)"
    if "ordered t1" "ordered t2" "set_tree t1 \<subseteq> set_tree l" "set_tree t2 \<subseteq> set_tree r" for t1 t2
    using that Node.prems(3) by auto
  consider "(p, s) = a" | "(p, s) \<in> set_tree l" | "(p, s) \<in> set_tree r" using Node.prems(1) by auto
  then show ?case
  proof cases
    case 1
    then show ?thesis
      using replace_node_spec [OF ok(2,3) Node.prems(3) d(1)] ok(1) by fastforce
  next
    case 2
    then obtain t' xs ys where t': "remove_at hp True p l = Some t'" "ordered t'" "inorder l = xs @ (p, s) # ys" "inorder t' = xs @ ys"
      using Node.IH(1) ok(2) Node.prems(3) d(2) by auto
    have "set_tree t' \<subseteq> set_tree l" using t'(3,4) by (metis Un_iff list.set_intros(2) set_append set_inorder subsetI)
    then have "ordered (Node t' a r)" using sub [of t' r] t'(2) Node.prems(3) by simp
    moreover have "fst a \<noteq> p" using imageI [OF 2, of fst] d(4) by auto
    ultimately show ?thesis using t' ok(1) by (intro exI [of _ "Node t' a r"] exI [of _ xs] exI [of _ "ys @ a # inorder r"]) simp
  next
    case 3
    then obtain t' xs ys where t': "remove_at hp True p r = Some t'" "ordered t'" "inorder r = xs @ (p, s) # ys" "inorder t' = xs @ ys"
      using Node.IH(2) ok(3) Node.prems(3) d(3) by auto
    have "set_tree t' \<subseteq> set_tree r" using t'(3,4) by (metis Un_iff list.set_intros(2) set_append set_inorder subsetI)
    then have "ordered (Node l a t')" using sub [of l t'] t'(2) Node.prems(3) by simp
    moreover have "fst a \<noteq> p" "p \<notin> fst ` set_tree l" using imageI [OF 3, of fst] d(5,6) by auto
    ultimately show ?thesis using t' ok(1) remove_at_none [of p l hp True]
      by (intro exI [of _ "Node l a t'"] exI [of _ "inorder l @ a # xs"] exI [of _ ys]) simp
  qed
qed simp

lemma insert_node_spec:
  assumes "tree_in_heap hp t" "ordered t"
  shows "\<exists>t' xs ys. insert_node hp x t = Some t' \<and> ordered t' \<and> inorder t = xs @ ys \<and> inorder t' = xs @ x # ys"
  using assms
proof (induction t)
  case (Node l a r)
  show ?case
  proof (cases "snd a < snd x")
    case True
    then obtain t' xs ys where t': "insert_node hp x r = Some t'" "ordered t'" "inorder r = xs @ ys" "inorder t' = xs @ x # ys"
      using Node by auto
    have "set_tree t' = insert x (set_tree r)" using t'(3,4) by (metis list.simps(15) set_append set_inorder Un_insert_right)
    then have "ordered (Node l a t')" using True Node.prems(2) t'(2) by auto
    then show ?thesis using True t' Node.prems(1)
      by (intro exI [of _ "Node l a t'"] exI [of _ "inorder l @ a # xs"] exI [of _ ys]) simp
  next
    case False
    then obtain t' xs ys where t': "insert_node hp x l = Some t'" "ordered t'" "inorder l = xs @ ys" "inorder t' = xs @ x # ys"
      using Node by auto
    have "set_tree t' = insert x (set_tree l)" using t'(3,4) by (metis list.simps(15) set_append set_inorder Un_insert_right)
    then have "ordered (Node t' a r)" using False Node.prems(2) t'(2) by auto
    then show ?thesis using False t' Node.prems(1)
      by (intro exI [of _ "Node t' a r"] exI [of _ xs] exI [of _ "ys @ a # inorder r"]) simp
  qed
qed simp

text \<open>The search finds a smallest node that is large enough.\<close>

lemma best_node_spec:
  assumes "tree_in_heap hp t" "ordered t"
  shows "\<exists>b. best_node hp n prev t = Some b \<and>
    (if \<exists>x \<in> set_tree t. n \<le> snd x then \<exists>x \<in> set_tree t. b = Some x \<and> n \<le> snd x \<and> (\<forall>y \<in> set_tree t. n \<le> snd y \<longrightarrow> snd x \<le> snd y)
     else b = prev)"
  using assms
proof (induction t arbitrary: prev)
  case (Node l a r)
  show ?case
  proof (cases "snd a < n")
    case True
    then have no: "\<not> n \<le> snd x" if "x \<in> insert a (set_tree l)" for x using that Node.prems(2) by auto
    have "\<exists>b. best_node hp n prev r = Some b \<and> (if \<exists>x \<in> set_tree r. n \<le> snd x
        then \<exists>x \<in> set_tree r. b = Some x \<and> n \<le> snd x \<and> (\<forall>y \<in> set_tree r. n \<le> snd y \<longrightarrow> snd x \<le> snd y) else b = prev)"
      using Node.IH(2) [of prev] Node.prems by simp
    then show ?thesis using True no Node.prems(1) by (simp split: if_splits) blast+
  next
    case False
    have "\<exists>b. best_node hp n (Some a) l = Some b \<and> (if \<exists>x \<in> set_tree l. n \<le> snd x
        then \<exists>x \<in> set_tree l. b = Some x \<and> n \<le> snd x \<and> (\<forall>y \<in> set_tree l. n \<le> snd y \<longrightarrow> snd x \<le> snd y) else b = Some a)"
      using Node.IH(1) [of "Some a"] Node.prems by simp
    moreover have "\<forall>x \<in> set_tree l. snd x \<le> snd a" "\<forall>x \<in> set_tree r. snd a < snd x" using Node.prems(2) by auto
    ultimately show ?thesis using False Node.prems(1) by (force split: if_splits)
  qed
qed simp

section \<open>The index of the free chunks\<close>

text \<open>The lists and the tree hold exactly the free chunks \<open>F\<close>, given by position and size.\<close>

definition places_ok :: "gc_heap \<Rightarrow> (int \<times> int) set \<Rightarrow> bool" where
  "places_ok hp F \<longleftrightarrow> current_size hp < 2 ^ 30 \<and>
     (\<forall>(p, s) \<in> F. size_ok s \<and> 0 \<le> p \<and> p + s \<le> current_size hp \<and> 8 dvd p) \<and>
     (\<forall>(p, s) \<in> F. \<forall>(q, t) \<in> F. (p, s) \<noteq> (q, t) \<longrightarrow> p + s \<le> q \<or> q + t \<le> p)"

definition lists_ok :: "gc_heap \<Rightarrow> (int \<times> int) set \<Rightarrow> bool" where
  "lists_ok hp F \<longleftrightarrow> (\<forall>i < HMU_NORMAL_NODE_CNT. \<exists>xs. chain (mem hp) (kfc_normal_list hp i) xs \<and> distinct xs
     \<and> set xs = {p. (p, 8 * int i) \<in> F \<and> HMU_IS_FC_NORMAL (8 * int i)})"

definition tree_ok :: "gc_heap \<Rightarrow> (int \<times> int) set \<Rightarrow> bool" where
  "tree_ok hp F \<longleftrightarrow> ordered (kfc_tree hp) \<and> distinct (inorder (kfc_tree hp)) \<and>
     set_tree (kfc_tree hp) = {x \<in> F. \<not> HMU_IS_FC_NORMAL (snd x)}"

definition index_ok :: "gc_heap \<Rightarrow> (int \<times> int) set \<Rightarrow> bool" where
  "index_ok hp F \<longleftrightarrow> places_ok hp F \<and> lists_ok hp F \<and> tree_ok hp F"

lemma lists_okE:
  assumes "lists_ok hp F" "i < HMU_NORMAL_NODE_CNT"
  obtains xs where "chain (mem hp) (kfc_normal_list hp i) xs" "distinct xs"
    "set xs = {p. (p, 8 * int i) \<in> F \<and> HMU_IS_FC_NORMAL (8 * int i)}"
  using assms unfolding lists_ok_def by blast

lemma place_bounds:
  assumes "places_ok hp F" "(p, s) \<in> F"
  shows "hmu_is_in_heap hp p" "size_ok s" "0 \<le> p" "p < 2 ^ 30" "8 dvd p" "p + s \<le> current_size hp" "s < 2 ^ 30" "16 \<le> s" "8 dvd s"
  using assms by (force simp: places_ok_def hmu_is_in_heap_def size_ok_def)+

lemma place_unique: "places_ok hp F \<Longrightarrow> (p, s) \<in> F \<Longrightarrow> (p, t) \<in> F \<Longrightarrow> s = t"
  using place_bounds(8) [of hp F p] by (fastforce simp: places_ok_def)

lemma tree_places:
  assumes "places_ok hp F" "tree_ok hp F"
  shows "tree_in_heap hp (kfc_tree hp)" "distinct (map fst (inorder (kfc_tree hp)))"
proof -
  show "tree_in_heap hp (kfc_tree hp)" using assms place_bounds(1) by (fastforce simp: tree_ok_def)
  have "inj_on fst (set_tree (kfc_tree hp))"
    using assms place_unique by (fastforce simp: tree_ok_def inj_on_def)
  then show "distinct (map fst (inorder (kfc_tree hp)))" using assms(2) by (simp add: tree_ok_def distinct_map)
qed

text \<open>Writing elsewhere does not change the index.\<close>

lemma index_ok_cong:
  assumes "index_ok hp F" "kfc_normal_list hp' = kfc_normal_list hp" "kfc_tree hp' = kfc_tree hp" "current_size hp' = current_size hp"
    "\<And>p s. (p, s) \<in> F \<Longrightarrow> mem hp' (p + 4) = mem hp (p + 4)"
  shows "index_ok hp' F"
proof -
  have "\<exists>xs. chain (mem hp') (kfc_normal_list hp' i) xs \<and> distinct xs
      \<and> set xs = {p. (p, 8 * int i) \<in> F \<and> HMU_IS_FC_NORMAL (8 * int i)}" if "i < HMU_NORMAL_NODE_CNT" for i
  proof -
    have "lists_ok hp F" using assms(1) by (simp add: index_ok_def)
    from lists_okE [OF this \<open>i < HMU_NORMAL_NODE_CNT\<close>] obtain xs where xs: "chain (mem hp) (kfc_normal_list hp i) xs" "distinct xs"
      "set xs = {p. (p, 8 * int i) \<in> F \<and> HMU_IS_FC_NORMAL (8 * int i)}" by blast
    then have "chain (mem hp') q xs = chain (mem hp) q xs" for q using assms(5) by (intro chain_cong) auto
    with xs assms(2) show ?thesis by auto
  qed
  then have "lists_ok hp' F" unfolding lists_ok_def by blast
  with assms show ?thesis by (simp add: index_ok_def places_ok_def tree_ok_def)
qed

text \<open>The fields that the index does not touch.\<close>

definition same_rest :: "gc_heap \<Rightarrow> gc_heap \<Rightarrow> bool" where
  "same_rest hp hp' \<longleftrightarrow> base_addr hp' = base_addr hp \<and> current_size hp' = current_size hp \<and>
     is_heap_corrupted hp' = is_heap_corrupted hp \<and> highmark_size hp' = highmark_size hp \<and> total_free_size hp' = total_free_size hp"

lemma places_insert:
  assumes "places_ok hp F" "size_ok s" "0 \<le> p" "p + s \<le> current_size hp" "8 dvd p"
    "\<And>q t. (q, t) \<in> F \<Longrightarrow> p + s \<le> q \<or> q + t \<le> p"
  shows "places_ok hp (insert (p, s) F)" "p \<notin> fst ` F"
proof -
  show "places_ok hp (insert (p, s) F)" using assms by (fastforce simp: places_ok_def)
  have False if "(p, t) \<in> F" for t
    using assms(6) [OF that] place_bounds(8) [OF assms(1) that] assms(2) by (auto simp: size_ok_def)
  then show "p \<notin> fst ` F" by auto
qed

lemma tree_add:
  assumes "places_ok hp F" "tree_ok hp F" "p \<notin> fst ` F" "\<not> HMU_IS_FC_NORMAL s"
  shows "\<exists>t. insert_node hp (p, s) (kfc_tree hp) = Some t \<and> tree_ok (hp\<lparr>kfc_tree := t\<rparr>) (insert (p, s) F)"
proof -
  obtain t xs ys where t: "insert_node hp (p, s) (kfc_tree hp) = Some t" "ordered t"
    "inorder (kfc_tree hp) = xs @ ys" "inorder t = xs @ (p, s) # ys"
    using insert_node_spec [where hp = hp and t = "kfc_tree hp" and x = "(p, s)"] tree_places [OF assms(1,2)] assms(2) by (auto simp: tree_ok_def)
  have set: "set_tree t = insert (p, s) (set_tree (kfc_tree hp))"
    using t(3,4) by (metis list.simps(15) set_append set_inorder Un_insert_right)
  have "(p, s) \<notin> set_tree (kfc_tree hp)" using assms(2,3) by (force simp: tree_ok_def)
  then have "tree_ok (hp\<lparr>kfc_tree := t\<rparr>) (insert (p, s) F)"
    using assms(2,4) set t by (auto simp: tree_ok_def simp flip: set_inorder)
  with t(1) show ?thesis by blast
qed

lemma list_add:
  assumes "places_ok hp F" "lists_ok hp F" "p \<notin> fst ` F" "0 \<le> p" "p < 2 ^ 30" "HMU_IS_FC_NORMAL s" "8 * int k = s"
    "mem hp' = (mem hp)(p + 4 := case kfc_normal_list hp k of None \<Rightarrow> 0 | Some q \<Rightarrow> word_of_int (q - p))"
    "kfc_normal_list hp' = (kfc_normal_list hp)(k := Some p)"
  shows "lists_ok hp' (insert (p, s) F)"
  unfolding lists_ok_def
proof (intro allI impI)
  fix i assume i: "i < HMU_NORMAL_NODE_CNT"
  obtain xs where xs: "chain (mem hp) (kfc_normal_list hp i) xs" "distinct xs"
    "set xs = {q. (q, 8 * int i) \<in> F \<and> HMU_IS_FC_NORMAL (8 * int i)}" by (rule lists_okE [OF assms(2) i])
  have p: "p \<notin> set xs" using assms(3) xs(3) by force
  show "\<exists>xs. chain (mem hp') (kfc_normal_list hp' i) xs \<and> distinct xs
      \<and> set xs = {q. (q, 8 * int i) \<in> insert (p, s) F \<and> HMU_IS_FC_NORMAL (8 * int i)}"
  proof (cases "i = k")
    case True
    have "chain (mem hp') (Some p) (p # xs)"
      unfolding assms(8) using xs(1) p assms(4,5) place_bounds [OF assms(1)] xs(3) True by (intro chain_add) auto
    then show ?thesis using True assms(6,7,9) p xs(2,3) by (intro exI [of _ "p # xs"]) auto
  next
    case False
    have "chain (mem hp') q xs = chain (mem hp) q xs" for q using p by (intro chain_cong) (auto simp: assms(8))
    moreover have "8 * int i \<noteq> s" using False assms(7) by auto
    ultimately show ?thesis using False assms(9) xs by (intro exI [of _ xs]) auto
  qed
qed

lemma add_fc_spec:
  assumes "index_ok hp F" "size_ok s" "0 \<le> p" "p + s \<le> current_size hp" "8 dvd p"
    "\<And>q t. (q, t) \<in> F \<Longrightarrow> p + s \<le> q \<or> q + t \<le> p"
  shows "\<exists>hp'. gci_add_fc hp p s = (True, hp') \<and> index_ok hp' (insert (p, s) F) \<and> same_rest hp hp'
    \<and> mem hp' p = hmu_set_size (hmu_set_ut (mem hp p) HMU_FC) s \<and> mem hp' (p + s - 4) = word_of_int s
    \<and> (\<forall>w. w \<noteq> p \<and> w \<noteq> p + 4 \<and> w \<noteq> p + s - 4 \<longrightarrow> mem hp' w = mem hp w)"
proof -
  have pl: "places_ok hp F" "tree_ok hp F" "lists_ok hp F" using assms(1) by (auto simp: index_ok_def)
  note new = places_insert [OF pl(1) assms(2-6)]
  define hp1 where "hp1 = hmu_set_free_size p (write_word p (hmu_set_size (hmu_set_ut (mem hp p) HMU_FC) s) hp)"
  have s: "16 \<le> s" "s < 2 ^ 30" using assms(2) by (auto simp: size_ok_def)
  have m1: "mem hp1 = (mem hp)(p := hmu_set_size (hmu_set_ut (mem hp p) HMU_FC) s, p + s - 4 := word_of_int s)"
    and r1: "same_rest hp hp1" "kfc_normal_list hp1 = kfc_normal_list hp" "kfc_tree hp1 = kfc_tree hp"
    using assms(2) by (simp_all add: hp1_def hmu_set_free_size_def write_word_def same_rest_def)
  have links: "mem hp1 (q + 4) = mem hp (q + 4)" if "(q, t) \<in> F" for q t
  proof -
    have "8 dvd q" "16 \<le> t" using place_bounds [OF pl(1) that] by auto
    then have "q + 4 \<noteq> p" using assms(5) by presburger
    moreover have "q + 4 \<noteq> p + s - 4" using \<open>16 \<le> t\<close> assms(6) [OF that] s(1) by linarith
    ultimately show ?thesis by (simp add: m1)
  qed
  have i1: "index_ok hp1 F"
    by (rule index_ok_cong [OF assms(1) r1(2,3) _ links]) (use r1(1) in \<open>simp_all add: same_rest_def\<close>)
  have inh: "hmu_is_in_heap hp1 p" using assms(3,4) s(1) r1(1) by (simp add: hmu_is_in_heap_def same_rest_def)
  have pl1: "places_ok hp1 F" "tree_ok hp1 F" "lists_ok hp1 F" using i1 by (auto simp: index_ok_def)
  have pos: "places_ok hp1 (insert (p, s) F)" using new(1) r1(1) by (simp add: places_ok_def same_rest_def)
  show ?thesis
  proof (cases "HMU_IS_FC_NORMAL s")
    case False
    from tree_add [OF pl1(1,2) new(2) False] obtain t where t: "insert_node hp1 (p, s) (kfc_tree hp1) = Some t"
      "tree_ok (hp1\<lparr>kfc_tree := t\<rparr>) (insert (p, s) F)" by blast
    have "{q. (q, 8 * int i) \<in> insert (p, s) F \<and> HMU_IS_FC_NORMAL (8 * int i)} = {q. (q, 8 * int i) \<in> F \<and> HMU_IS_FC_NORMAL (8 * int i)}" for i
      using False by auto
    then have "lists_ok (hp1\<lparr>kfc_tree := t\<rparr>) (insert (p, s) F)" using pl1(3) by (simp add: lists_ok_def)
    then have "index_ok (hp1\<lparr>kfc_tree := t\<rparr>) (insert (p, s) F)" using t(2) pos by (simp add: index_ok_def places_ok_def)
    moreover have "gci_add_fc hp p s = (True, hp1\<lparr>kfc_tree := t\<rparr>)"
      using False t(1) by (simp add: gci_add_fc_def hp1_def Let_def)
    ultimately show ?thesis using m1 r1(1) s by (auto simp: same_rest_def)
  next
    case True
    define k where "k = nat (s div 8)"
    define hp3 where "hp3 = (let hp2 = set_hmu_normal_node_next p (kfc_normal_list hp1 k) hp1 in
      hp2\<lparr>kfc_normal_list := (kfc_normal_list hp2)(k := Some p)\<rparr>)"
    have k: "8 * int k = s" using assms(2) by (auto simp: k_def size_ok_def)
    have m2: "mem hp3 = (mem hp1)(p + 4 := case kfc_normal_list hp1 k of None \<Rightarrow> 0 | Some q \<Rightarrow> word_of_int (q - p))"
      and r3: "same_rest hp1 hp3" "kfc_normal_list hp3 = (kfc_normal_list hp1)(k := Some p)" "kfc_tree hp3 = kfc_tree hp1"
      by (simp_all add: hp3_def set_hmu_normal_node_next_def write_word_def same_rest_def)
    have "p < 2 ^ 30" using assms(4) s pl(1) by (simp add: places_ok_def)
    from list_add [OF pl1(1,3) new(2) assms(3) this True k m2 r3(2)] have "lists_ok hp3 (insert (p, s) F)" .
    moreover have "tree_ok hp3 (insert (p, s) F)" using True pl1(2) r3(3) by (auto simp: tree_ok_def)
    ultimately have "index_ok hp3 (insert (p, s) F)" using pos r3(1) by (simp add: index_ok_def places_ok_def same_rest_def)
    moreover have "gci_add_fc hp p s = (True, hp3)"
      using True inh by (simp add: gci_add_fc_def hp1_def hp3_def k_def Let_def)
    ultimately show ?thesis using m1 m2 r1(1) r3(1) s by (auto simp: same_rest_def)
  qed
qed

end
