(* ===== verification/Ems_Index.thy ===== *)
theory Ems_Index
  imports Ems_Spec
begin

text \<open>
  Taking a free chunk out of the index, wherever it is in its list or in the tree.
\<close>

lemma places_subset: "places_ok hp F \<Longrightarrow> G \<subseteq> F \<Longrightarrow> places_ok hp G"
  unfolding places_ok_def by blast

text \<open>The lists of other sizes stay as they are.\<close>

lemma other_list:
  assumes "lists_ok hp F" "i < HMU_NORMAL_NODE_CNT" "8 * int i \<noteq> s" "kfc_normal_list hp' i = kfc_normal_list hp i"
    "\<And>q. (q, 8 * int i) \<in> F \<Longrightarrow> mem hp' (q + 4) = mem hp (q + 4)"
  shows "\<exists>us. chain (mem hp') (kfc_normal_list hp' i) us \<and> distinct us
      \<and> set us = {q. (q, 8 * int i) \<in> F - {(p, s)} \<and> HMU_IS_FC_NORMAL (8 * int i)}"
proof -
  from lists_okE [OF assms(1,2)] obtain us where us: "chain (mem hp) (kfc_normal_list hp i) us" "distinct us"
    "set us = {q. (q, 8 * int i) \<in> F \<and> HMU_IS_FC_NORMAL (8 * int i)}" by metis
  have "chain (mem hp') q us = chain (mem hp) q us" for q using us(3) assms(5) by (intro chain_cong) auto
  with us assms(3,4) show ?thesis by (intro exI [of _ us]) auto
qed

lemma list_removed:
  assumes "lists_ok hp F" "8 * int k = s" "chain (mem hp') (kfc_normal_list hp' k) us" "distinct us"
    "set us = {q. (q, s) \<in> F - {(p, s)} \<and> HMU_IS_FC_NORMAL s}" "\<And>i. i \<noteq> k \<Longrightarrow> kfc_normal_list hp' i = kfc_normal_list hp i"
    "\<And>i q. i \<noteq> k \<Longrightarrow> (q, 8 * int i) \<in> F \<Longrightarrow> mem hp' (q + 4) = mem hp (q + 4)"
  shows "lists_ok hp' (F - {(p, s)})"
  unfolding lists_ok_def
proof (intro allI impI)
  fix i assume i: "i < HMU_NORMAL_NODE_CNT"
  show "\<exists>us. chain (mem hp') (kfc_normal_list hp' i) us \<and> distinct us
      \<and> set us = {q. (q, 8 * int i) \<in> F - {(p, s)} \<and> HMU_IS_FC_NORMAL (8 * int i)}"
  proof (cases "i = k")
    case True
    then show ?thesis using assms(2-5) by (intro exI [of _ us]) simp
  next
    case False
    then show ?thesis using assms(2,6,7) by (intro other_list [OF assms(1) i]) auto
  qed
qed

text \<open>The head of a list, and every other node of it, can be taken out.\<close>

lemma list_unlink:
  assumes "places_ok hp F" "lists_ok hp F" "(p, s) \<in> F" "HMU_IS_FC_NORMAL s"
  shows "\<exists>r m' l'. find_normal hp p None (kfc_normal_list hp (nat (s div 8))) = Some (Inr (Some r)) \<and>
    (case r of (None, n) \<Rightarrow> m' = mem hp \<and> l' = (kfc_normal_list hp)(nat (s div 8) := n)
     | (Some y, n) \<Rightarrow> m' = (mem hp)(y + 4 := case n of None \<Rightarrow> 0 | Some z \<Rightarrow> word_of_int (z - y)) \<and> l' = kfc_normal_list hp) \<and>
    lists_ok (hp\<lparr>mem := m', kfc_normal_list := l'\<rparr>) (F - {(p, s)}) \<and>
    (\<forall>w. (\<forall>(q, t) \<in> F. w \<noteq> q + 4) \<longrightarrow> m' w = mem hp w)"
proof -
  define k where "k = nat (s div 8)"
  have k: "8 * int k = s" "k < HMU_NORMAL_NODE_CNT"
    using assms(4) place_bounds [OF assms(1,3)] by (auto simp: k_def HMU_IS_FC_NORMAL_def HMU_NORMAL_NODE_CNT_def)
  from lists_okE [OF assms(2) k(2)] obtain xs where xs: "chain (mem hp) (kfc_normal_list hp k) xs" "distinct xs"
    "set xs = {q. (q, s) \<in> F \<and> HMU_IS_FC_NORMAL s}" using k(1) by metis
  have "p \<in> set xs" using assms(3,4) xs(3) by simp
  then obtain ys zs where split: "xs = ys @ p # zs" by (meson split_list)
  have b: "0 \<le> z \<and> z < 2 ^ 30" "hmu_is_in_heap hp z" if "z \<in> set xs" for z
    using that xs(3) place_bounds [OF assms(1)] by auto
  have f: "find_normal hp p None (kfc_normal_list hp k) =
      Some (Inr (Some (if ys = [] then None else Some (List.last ys), get_hmu_normal_node_next (mem hp) p)))"
    using xs b(2) by (intro find_normal_found [of _ _ _ _ zs]) (auto simp: split)
  have rest: "distinct (ys @ zs)" "set (ys @ zs) = {q. (q, s) \<in> F - {(p, s)} \<and> HMU_IS_FC_NORMAL s}"
    using xs(2,3) split by auto
  show ?thesis
  proof (cases "ys = []")
    case True
    let ?l = "(kfc_normal_list hp)(k := get_hmu_normal_node_next (mem hp) p)"
    have "lists_ok (hp\<lparr>mem := mem hp, kfc_normal_list := ?l\<rparr>) (F - {(p, s)})"
      by (rule list_removed [OF assms(2) k(1) _ rest]) (use True chain_split [of "mem hp" _ ys p zs] xs(1) split in auto)
    then show ?thesis using f True unfolding k_def [symmetric] by auto
  next
    case False
    then obtain vs y where ys: "ys = vs @ [y]" by (metis append_butlast_last_id)
    let ?m = "(mem hp)(y + 4 := case get_hmu_normal_node_next (mem hp) p of None \<Rightarrow> 0 | Some z \<Rightarrow> word_of_int (z - y))"
    have y: "(y, s) \<in> F" using xs(3) split ys by auto
    have "chain ?m (kfc_normal_list hp k) (vs @ y # zs)" using xs(1,2) b(1) split ys by (intro chain_unlink) auto
    moreover have "q \<noteq> y" if "i \<noteq> k" "(q, 8 * int i) \<in> F" for q i using place_unique [OF assms(1) y] that k(1) by fastforce
    ultimately have "lists_ok (hp\<lparr>mem := ?m, kfc_normal_list := kfc_normal_list hp\<rparr>) (F - {(p, s)})"
      by (intro list_removed [OF assms(2) k(1) _ rest]) (auto simp: ys)
    moreover have "\<forall>w. (\<forall>(q, t) \<in> F. w \<noteq> q + 4) \<longrightarrow> ?m w = mem hp w" using y by auto
    ultimately show ?thesis using f False ys unfolding k_def [symmetric]
      by (intro exI [of _ "(Some y, get_hmu_normal_node_next (mem hp) p)"] exI [of _ ?m] exI [of _ "kfc_normal_list hp"]) simp
  qed
qed

lemma tree_unlink:
  assumes "places_ok hp F" "tree_ok hp F" "(p, s) \<in> F" "\<not> HMU_IS_FC_NORMAL s"
  shows "\<exists>t. remove_tree_node hp p = (True, hp\<lparr>kfc_tree := t\<rparr>) \<and> tree_ok (hp\<lparr>kfc_tree := t\<rparr>) (F - {(p, s)})"
proof -
  have "(p, s) \<in> set_tree (kfc_tree hp)" using assms by (simp add: tree_ok_def)
  then obtain t xs ys where t: "remove_at hp True p (kfc_tree hp) = Some t" "ordered t"
    "inorder (kfc_tree hp) = xs @ (p, s) # ys" "inorder t = xs @ ys"
    using remove_at_spec tree_places [OF assms(1,2)] assms(2) unfolding tree_ok_def by blast
  have "set_tree t = set_tree (kfc_tree hp) - {(p, s)}" "distinct (inorder t)"
    using t(3,4) assms(2) by (auto simp: tree_ok_def simp flip: set_inorder)
  then show ?thesis using t(1,2) assms(2) by (auto simp: remove_tree_node_def tree_ok_def)
qed

lemma unlink_spec:
  assumes "index_ok hp F" "(p, s) \<in> F" "hmu_get_ut (mem hp p) = HMU_FC" "hmu_get_size (mem hp p) = s"
  shows "\<exists>hp'. unlink_hmu hp p = Some (True, hp') \<and> index_ok hp' (F - {(p, s)}) \<and> same_rest hp hp'
    \<and> (\<forall>w. (\<forall>(q, t) \<in> F. w \<noteq> q + 4) \<longrightarrow> mem hp' w = mem hp w)"
proof -
  have pl: "places_ok hp F" "tree_ok hp F" "lists_ok hp F" using assms(1) by (auto simp: index_ok_def)
  have sub: "places_ok hp (F - {(p, s)})" using pl(1) by (rule places_subset) auto
  show ?thesis
  proof (cases "HMU_IS_FC_NORMAL s")
    case True
    from list_unlink [OF pl(1,3) assms(2) True] obtain r m' l' where
      r: "find_normal hp p None (kfc_normal_list hp (nat (s div 8))) = Some (Inr (Some r))"
        "case r of (None, n) \<Rightarrow> m' = mem hp \<and> l' = (kfc_normal_list hp)(nat (s div 8) := n)
          | (Some y, n) \<Rightarrow> m' = (mem hp)(y + 4 := case n of None \<Rightarrow> 0 | Some z \<Rightarrow> word_of_int (z - y)) \<and> l' = kfc_normal_list hp"
        "lists_ok (hp\<lparr>mem := m', kfc_normal_list := l'\<rparr>) (F - {(p, s)})"
        "\<forall>w. (\<forall>(q, t) \<in> F. w \<noteq> q + 4) \<longrightarrow> m' w = mem hp w" by blast
    have "unlink_hmu hp p = Some (True, hp\<lparr>mem := m', kfc_normal_list := l'\<rparr>)"
      using True assms(3,4) r(1,2)
      by (auto simp: unlink_hmu_def Let_def set_hmu_normal_node_next_def write_word_def split: prod.splits option.splits)
    moreover have "tree_ok (hp\<lparr>mem := m', kfc_normal_list := l'\<rparr>) (F - {(p, s)})" using pl(2) True by (auto simp: tree_ok_def)
    ultimately show ?thesis using r(3,4) sub by (auto simp: index_ok_def same_rest_def places_ok_def)
  next
    case False
    from tree_unlink [OF pl(1,2) assms(2) False] obtain t where t: "remove_tree_node hp p = (True, hp\<lparr>kfc_tree := t\<rparr>)"
      "tree_ok (hp\<lparr>kfc_tree := t\<rparr>) (F - {(p, s)})" by blast
    have "{q. (q, 8 * int i) \<in> F - {(p, s)} \<and> HMU_IS_FC_NORMAL (8 * int i)} = {q. (q, 8 * int i) \<in> F \<and> HMU_IS_FC_NORMAL (8 * int i)}" for i
      using False by auto
    then have "lists_ok (hp\<lparr>kfc_tree := t\<rparr>) (F - {(p, s)})" using pl(3) by (simp add: lists_ok_def)
    then show ?thesis using False t sub assms(3,4)
      by (auto simp: unlink_hmu_def Let_def index_ok_def same_rest_def places_ok_def)
  qed
qed

end
