(* ===== verification/Ems_Pool.thy ===== *)
theory Ems_Pool
  imports Ems_Index
begin

text \<open>
  The invariant of a pool: the chunks fill it, the headers agree with them, no two free chunks are neighbours, and the
  index holds exactly the free chunks. A chunk that was taken out of the index can be split or given away as a whole.
\<close>

section \<open>The invariant of a pool\<close>

definition frees :: "chunk list \<Rightarrow> (int \<times> int) set" where
  "frees cs = {(p, s). (p, s, False) \<in> set cs}"

definition useds :: "chunk list \<Rightarrow> (int \<times> int) set" where
  "useds cs = {(p, s). (p, s, True) \<in> set cs}"

definition pool_ok :: "gc_heap \<Rightarrow> chunk list \<Rightarrow> bool" where
  "pool_ok hp cs \<longleftrightarrow> tiles 0 cs (current_size hp) \<and> agree (mem hp) None cs \<and> index_ok hp (frees cs) \<and>
     \<not> is_heap_corrupted hp \<and> base_addr hp mod 8 = 4"

lemma frees_simps [simp]:
  "frees [] = {}" "frees ((p, s, True) # cs) = frees cs" "frees ((p, s, False) # cs) = insert (p, s) (frees cs)"
  "frees (xs @ ys) = frees xs \<union> frees ys"
  by (auto simp: frees_def)

lemma useds_simps [simp]:
  "useds [] = {}" "useds ((p, s, True) # cs) = insert (p, s) (useds cs)" "useds ((p, s, False) # cs) = useds cs"
  "useds (xs @ ys) = useds xs \<union> useds ys"
  by (auto simp: useds_def)

lemma frees_in: "tiles a cs b \<Longrightarrow> (p, s) \<in> frees cs \<Longrightarrow> a \<le> p \<and> p + s \<le> b \<and> size_ok s \<and> 8 dvd p - a"
  using tiles_in by (fastforce simp: frees_def)

lemma useds_in: "tiles a cs b \<Longrightarrow> (p, s) \<in> useds cs \<Longrightarrow> a \<le> p \<and> p + s \<le> b \<and> size_ok s \<and> 8 dvd p - a"
  using tiles_in by (fastforce simp: useds_def)

lemma frees_split: "(p, s) \<in> frees cs \<Longrightarrow> \<exists>xs ys. cs = xs @ (p, s, False) # ys"
  by (auto simp: frees_def dest: split_list)

lemma useds_split: "(p, s) \<in> useds cs \<Longrightarrow> \<exists>xs ys. cs = xs @ (p, s, True) # ys"
  by (auto simp: useds_def dest: split_list)

text \<open>The headers and the sizes at the ends of free chunks decide what the headers say.\<close>

lemma agree_cong:
  assumes "tiles a cs b" "\<And>p s u. (p, s, u) \<in> set cs \<Longrightarrow> m' p = m p"
    "\<And>p s. (p, s) \<in> frees cs \<Longrightarrow> m' (p + s - 4) = m (p + s - 4)" "prev \<noteq> None \<Longrightarrow> m' (a - 4) = m (a - 4)"
  shows "agree m' prev cs = agree m prev cs"
  using assms
proof (induction m prev cs arbitrary: a rule: agree.induct)
  case (2 m prev p s u cs)
  have "agree m' (if u then None else Some s) cs = agree m (if u then None else Some s) cs"
  proof (rule "2.IH" [of "a + s"])
    show "m' p = m p" if "(p, s, u) \<in> set cs" for p s u using "2.prems"(2) that by (meson list.set_intros(2))
    show "m' (p + s - 4) = m (p + s - 4)" if "(p, s) \<in> frees cs" for p s using "2.prems"(3) that by (auto simp: frees_def)
    show "m' (a + s - 4) = m (a + s - 4)" if "(if u then None else Some s) \<noteq> None"
      using "2.prems"(1,3) that by (cases u) auto
  qed (use "2.prems"(1) in simp)
  moreover have "m' p = m p" using "2.prems"(2) by (meson list.set_intros(1))
  moreover have "prev \<noteq> None \<Longrightarrow> m' (p - 4) = m (p - 4)" using "2.prems"(1,4) by simp
  ultimately show ?case by auto
qed simp

lemma agree_front:
  assumes "tiles a xs b" "\<And>w. w < b \<Longrightarrow> m' w = m w"
  shows "agree m' None xs = agree m None xs"
  using assms
proof (intro agree_cong [OF assms(1)] assms(2))
  fix p s u assume "(p, s, u) \<in> set xs"
  from tiles_in [OF assms(1) this] show "p < b" by (simp add: size_ok_def)
next
  fix p s assume "(p, s) \<in> frees xs"
  from frees_in [OF assms(1) this] show "p + s - 4 < b" by (simp add: size_ok_def)
qed simp

lemma agree_behind:
  assumes "tiles a ys b" "agree m prev ys" "\<And>w. a < w \<Longrightarrow> m' w = m w"
    "ys \<noteq> [] \<Longrightarrow> hmu_get_size (m' a) = hmu_get_size (m a) \<and> hmu_get_ut (m' a) = hmu_get_ut (m a)
       \<and> hmu_is_vo_freed (m' a) = hmu_is_vo_freed (m a) \<and> (hmu_get_pinuse (m' a) \<longleftrightarrow> prev' = None)"
    "\<And>t. prev' = Some t \<Longrightarrow> m' (a - 4) = word_of_int t \<and> (\<forall>y zs. ys = y # zs \<longrightarrow> snd (snd y))"
  shows "agree m' prev' ys"
proof (cases ys)
  case (Cons y zs)
  obtain s u where y: "y = (a, s, u)" and t: "size_ok s" "tiles (a + s) zs b" using assms(1) Cons by (cases y) auto
  have "agree m (if u then None else Some s) zs" using assms(2) Cons y by simp
  moreover have "agree m' (if u then None else Some s) zs = agree m (if u then None else Some s) zs"
  proof (rule agree_cong [OF t(2)]; intro assms(3))
    show "a < p" if "(p, r, v) \<in> set zs" for p r v using tiles_in [OF t(2) that] t(1) by (simp add: size_ok_def)
    show "a < p + r - 4" if "(p, r) \<in> frees zs" for p r using frees_in [OF t(2) that] t(1) by (simp add: size_ok_def)
    show "a < a + s - 4" using t(1) by (simp add: size_ok_def)
  qed
  ultimately show ?thesis using assms(2,4,5) Cons y by auto
qed simp

lemma pool_index: "pool_ok hp cs \<Longrightarrow> places_ok hp (frees cs) \<and> lists_ok hp (frees cs) \<and> tree_ok hp (frees cs) \<and> current_size hp < 2 ^ 30"
  by (auto simp: pool_ok_def index_ok_def places_ok_def)

text \<open>The word of a link belongs neither to a header nor to the size at the end of a free chunk.\<close>

lemma agree_links:
  assumes "tiles 0 cs b" "agree m None cs" "\<And>w. (\<forall>(q, t) \<in> frees cs. w \<noteq> q + 4) \<Longrightarrow> m' w = m w"
  shows "agree m' None cs"
proof -
  have *: "p \<noteq> q + 4" if "(p, s, u) \<in> set cs" "(q, t) \<in> frees cs" for p s u q t
  proof -
    have "8 dvd p" "8 dvd q" using tiles_in [OF assms(1) that(1)] frees_in [OF assms(1) that(2)] by simp_all
    then show ?thesis by presburger
  qed
  have **: "p + s - 4 \<noteq> q + 4" if "(p, s) \<in> frees cs" "(q, t) \<in> frees cs" for p s q t
  proof (cases "(p, s) = (q, t)")
    case True
    then show ?thesis using frees_in [OF assms(1) that(2)] by (auto simp: size_ok_def)
  next
    case False
    have "p + s \<le> q \<or> q + t \<le> p" using tiles_disjoint [OF assms(1), of p s False q t False] that False by (auto simp: frees_def)
    then show ?thesis using frees_in [OF assms(1) that(1)] frees_in [OF assms(1) that(2)] unfolding size_ok_def by linarith
  qed
  have "agree m' None cs = agree m None cs"
  proof (rule agree_cong [OF assms(1)]; (intro assms(3))?)
    show "\<forall>(q, t) \<in> frees cs. p \<noteq> q + 4" if "(p, s, u) \<in> set cs" for p s u using *[OF that] by auto
    show "\<forall>(q, t) \<in> frees cs. p + s - 4 \<noteq> q + 4" if "(p, s) \<in> frees cs" for p s using **[OF that] by auto
  qed simp
  then show ?thesis using assms(2) by simp
qed

text \<open>What a pool says of one of its chunks and of the chunks around it.\<close>

lemma pool_chunk:
  assumes "pool_ok hp (xs @ (p, s, u) # ys)"
  shows "p = span xs" "tiles 0 xs p" "tiles (p + s) ys (current_size hp)" "size_ok s" "8 dvd p" "0 \<le> p" "p + s \<le> current_size hp"
    "agree (mem hp) None xs" "agree (mem hp) (if u then None else Some s) ys"
    "hmu_get_size (mem hp p) = s" "hmu_get_ut (mem hp p) = (if u then HMU_VO else HMU_FC)" "u \<Longrightarrow> \<not> hmu_is_vo_freed (mem hp p)"
    "hmu_get_pinuse (mem hp p) \<longleftrightarrow> last_free None xs = None"
    "\<And>t. last_free None xs = Some t \<Longrightarrow> u \<and> mem hp (p - 4) = word_of_int t"
    "hmu_is_in_heap hp p" "p < 2 ^ 30"
proof -
  have t: "tiles 0 (xs @ (p, s, u) # ys) (current_size hp)" "agree (mem hp) None (xs @ (p, s, u) # ys)"
    using assms by (auto simp: pool_ok_def)
  show p: "p = span xs" "tiles 0 xs p" "tiles (p + s) ys (current_size hp)" and s: "size_ok s" using t(1) by auto
  from tiles_in [OF t(1), of p s u] show b: "8 dvd p" "0 \<le> p" "p + s \<le> current_size hp" by auto
  show "agree (mem hp) None xs" "agree (mem hp) (if u then None else Some s) ys"
    "hmu_get_size (mem hp p) = s" "hmu_get_ut (mem hp p) = (if u then HMU_VO else HMU_FC)" "u \<Longrightarrow> \<not> hmu_is_vo_freed (mem hp p)"
    "hmu_get_pinuse (mem hp p) \<longleftrightarrow> last_free None xs = None"
    "\<And>t. last_free None xs = Some t \<Longrightarrow> u \<and> mem hp (p - 4) = word_of_int t"
    using t(2) by auto
  show "hmu_is_in_heap hp p" "p < 2 ^ 30" using b s pool_index [OF assms] by (auto simp: hmu_is_in_heap_def size_ok_def)
qed

section \<open>Taking a chunk\<close>

text \<open>A pool whose free chunk \<open>p\<close> was taken out of the index.\<close>

definition opened :: "gc_heap \<Rightarrow> chunk list \<Rightarrow> int \<Rightarrow> int \<Rightarrow> chunk list \<Rightarrow> bool" where
  "opened hp xs p s ys \<longleftrightarrow> tiles 0 (xs @ (p, s, False) # ys) (current_size hp) \<and> agree (mem hp) None (xs @ (p, s, False) # ys) \<and>
     index_ok hp (frees xs \<union> frees ys) \<and> \<not> is_heap_corrupted hp \<and> base_addr hp mod 8 = 4"

definition given :: "int \<Rightarrow> int \<Rightarrow> int \<Rightarrow> chunk list" where
  "given p s n = (if n + 16 \<le> s then [(p, n, True), (p + n, s - n, False)] else [(p, s, True)])"

definition given_size :: "int \<Rightarrow> int \<Rightarrow> int" where
  "given_size s n = (if n + 16 \<le> s then n else s)"

lemma opened_parts:
  assumes "opened hp xs p s ys"
  shows "tiles 0 xs p" "tiles (p + s) ys (current_size hp)" "size_ok s" "8 dvd p" "0 \<le> p" "p + s \<le> current_size hp"
    "agree (mem hp) None xs" "agree (mem hp) (Some s) ys" "last_free None xs = None" "hmu_get_pinuse (mem hp p)"
    "current_size hp < 2 ^ 30"
proof -
  have t: "tiles 0 (xs @ (p, s, False) # ys) (current_size hp)" "agree (mem hp) None (xs @ (p, s, False) # ys)"
    using assms by (auto simp: opened_def)
  show "tiles 0 xs p" "tiles (p + s) ys (current_size hp)" "size_ok s" using t(1) by auto
  from tiles_in [OF t(1), of p s False] show "8 dvd p" "0 \<le> p" "p + s \<le> current_size hp" by auto
  show "agree (mem hp) None xs" "agree (mem hp) (Some s) ys" "last_free None xs = None" "hmu_get_pinuse (mem hp p)"
    using t(2) by (cases "last_free None xs"; simp)+
  show "current_size hp < 2 ^ 30" using assms by (simp add: opened_def index_ok_def places_ok_def)
qed

lemma opened_free: "opened hp xs p s ys \<Longrightarrow> (q, t) \<in> frees xs \<union> frees ys \<Longrightarrow> (0 \<le> q \<and> q + t \<le> p \<or> p + s \<le> q) \<and> 8 dvd q \<and> size_ok t"
  using frees_in [OF opened_parts(1), of hp xs p s ys q t] frees_in [OF opened_parts(2), of hp xs p s ys q t] opened_parts(3-5) [of hp xs p s ys]
  by (auto simp: size_ok_def) (metis dvd_add dvd_diff_commute dvd_add_right_iff diff_add_cancel)+

lemma smallest_size: "GC_SMALLEST_SIZE = 16"
  by (simp add: GC_SMALLEST_SIZE_def GC_ALIGN_8_def HMU_SIZE_def gc_uint32_def)

lemma head_used: "agree m (Some s) ys \<Longrightarrow> \<forall>y zs. ys = y # zs \<longrightarrow> snd (snd y)"
  by (cases ys) auto

lemma tiles_start: "tiles a ys b \<Longrightarrow> ys \<noteq> [] \<Longrightarrow> a < b"
proof (cases ys)
  case (Cons y zs)
  assume "tiles a ys b"
  with Cons show ?thesis using tiles_in [of a ys b "fst y" "fst (snd y)" "snd (snd y)"] by (auto simp: size_ok_def)
qed simp

text \<open>Splitting a chunk: its first part is in use as soon as its header says so, whatever else is written there.\<close>

lemma split_rest_spec:
  assumes "opened hp xs p s ys" "size_ok n" "n + 16 \<le> s"
  shows "\<exists>hp'. split_chunk hp p s n True = (Some n, hp') \<and> same_rest hp hp' \<and>
    index_ok hp' (insert (p + n, s - n) (frees xs \<union> frees ys)) \<and> (\<forall>w. w \<le> p \<or> p + s \<le> w \<longrightarrow> mem hp' w = mem hp w) \<and>
    hmu_get_size (mem hp' (p + n)) = s - n \<and> hmu_get_ut (mem hp' (p + n)) = HMU_FC \<and> hmu_get_pinuse (mem hp' (p + n)) \<and>
    mem hp' (p + s - 4) = word_of_int (s - n)"
proof -
  note o = opened_parts [OF assms(1)]
  have n: "16 \<le> n" "8 dvd n" "s < 2 ^ 30" "8 dvd s" using assms(2) o(3) by (auto simp: size_ok_def)
  have r: "size_ok (s - n)" using assms(3) n by (auto simp: size_ok_def)
  have d: "p + n + (s - n) \<le> q \<or> q + t \<le> p + n" if "(q, t) \<in> frees xs \<union> frees ys" for q t
    using opened_free [OF assms(1) that] n(1) by auto
  have "index_ok hp (frees xs \<union> frees ys)" using assms(1) by (simp add: opened_def)
  from add_fc_spec [OF this r _ _ _ d] obtain hp1 where hp1: "gci_add_fc hp (p + n) (s - n) = (True, hp1)"
    "index_ok hp1 (insert (p + n, s - n) (frees xs \<union> frees ys))" "same_rest hp hp1"
    "mem hp1 (p + n) = hmu_set_size (hmu_set_ut (mem hp (p + n)) HMU_FC) (s - n)" "mem hp1 (p + s - 4) = word_of_int (s - n)"
    "\<And>w. w \<noteq> p + n \<Longrightarrow> w \<noteq> p + n + 4 \<Longrightarrow> w \<noteq> p + s - 4 \<Longrightarrow> mem hp1 w = mem hp w"
    using o n by auto
  let ?hp = "write_word (p + n) (hmu_mark_pinuse (mem hp1 (p + n))) hp1"
  have "index_ok ?hp (insert (p + n, s - n) (frees xs \<union> frees ys))"
  proof (rule index_ok_cong [OF hp1(2)])
    fix q t assume "(q, t) \<in> insert (p + n, s - n) (frees xs \<union> frees ys)"
    then have "8 dvd q" using opened_free [OF assms(1), of q t] n(2) o(4) by auto
    then have "q + 4 \<noteq> p + n" using n(2) o(4) by presburger
    then show "mem ?hp (q + 4) = mem hp1 (q + 4)" by (simp add: write_word_def)
  qed (simp_all add: write_word_def)
  moreover have "split_chunk hp p s n True = (Some n, ?hp)"
    using hp1(1) assms(3) by (simp add: split_chunk_def smallest_size Let_def)
  moreover have "mem ?hp w = mem hp w" if "w \<le> p \<or> p + s \<le> w" for w
    using that n assms(3) by (auto simp: write_word_def intro!: hp1(6))
  moreover have "mem ?hp (p + s - 4) = word_of_int (s - n)" using assms(3) hp1(5) by (auto simp: write_word_def)
  ultimately show ?thesis using hp1(3,4) r by (intro exI [of _ ?hp]) (auto simp: write_word_def same_rest_def)
qed

definition split_ok :: "gc_heap \<Rightarrow> chunk list \<Rightarrow> int \<Rightarrow> int \<Rightarrow> chunk list \<Rightarrow> int \<Rightarrow> gc_heap \<Rightarrow> bool" where
  "split_ok hp xs p s ys n hp' \<longleftrightarrow> same_rest hp hp' \<and> index_ok hp' (frees (xs @ given p s n @ ys)) \<and>
    (\<forall>w. w \<le> p \<or> p + s < w \<longrightarrow> mem hp' w = mem hp w) \<and>
    (\<forall>m'. (\<forall>w. w < p \<or> p + given_size s n \<le> w \<longrightarrow> m' w = mem hp' w) \<and> hmu_get_size (m' p) = given_size s n \<and>
       hmu_get_ut (m' p) = HMU_VO \<and> \<not> hmu_is_vo_freed (m' p) \<and> hmu_get_pinuse (m' p) \<longrightarrow> agree m' None (xs @ given p s n @ ys))"

lemma split_rest_ok:
  assumes "opened hp xs p s ys" "size_ok n" "n + 16 \<le> s"
  shows "\<exists>hp'. split_chunk hp p s n True = (Some (given_size s n), hp') \<and> split_ok hp xs p s ys n hp'"
proof -
  note o = opened_parts [OF assms(1)]
  have n: "16 \<le> n" "16 \<le> s" using assms(2) o(3) by (auto simp: size_ok_def)
  from split_rest_spec [OF assms] obtain hp' where hp': "split_chunk hp p s n True = (Some n, hp')" "same_rest hp hp'"
    "index_ok hp' (insert (p + n, s - n) (frees xs \<union> frees ys))" "\<And>w. w \<le> p \<or> p + s \<le> w \<Longrightarrow> mem hp' w = mem hp w"
    "hmu_get_size (mem hp' (p + n)) = s - n" "hmu_get_ut (mem hp' (p + n)) = HMU_FC" "hmu_get_pinuse (mem hp' (p + n))"
    "mem hp' (p + s - 4) = word_of_int (s - n)" by blast
  have "agree m' None (xs @ given p s n @ ys)"
    if m': "\<forall>w. w < p \<or> p + n \<le> w \<longrightarrow> m' w = mem hp' w" "hmu_get_size (m' p) = n"
      "hmu_get_ut (m' p) = HMU_VO" "\<not> hmu_is_vo_freed (m' p)" "hmu_get_pinuse (m' p)" for m'
  proof -
    have "agree m' (Some (s - n)) ys"
    proof (rule agree_behind [OF o(2,8)])
      show "m' w = mem hp w" if "p + s < w" for w using that m'(1) hp'(4) assms(3) n by simp
      have "m' (p + s) = mem hp (p + s)" using m'(1) hp'(4) assms(3) n by simp
      moreover have "ys \<noteq> [] \<Longrightarrow> \<not> hmu_get_pinuse (mem hp (p + s))" using o(2,8) by (cases ys) auto
      ultimately show "ys \<noteq> [] \<Longrightarrow> hmu_get_size (m' (p + s)) = hmu_get_size (mem hp (p + s)) \<and>
          hmu_get_ut (m' (p + s)) = hmu_get_ut (mem hp (p + s)) \<and>
          hmu_is_vo_freed (m' (p + s)) = hmu_is_vo_freed (mem hp (p + s)) \<and> (hmu_get_pinuse (m' (p + s)) \<longleftrightarrow> Some (s - n) = None)"
        by auto
      show "m' (p + s - 4) = word_of_int t \<and> (\<forall>y zs. ys = y # zs \<longrightarrow> snd (snd y))" if "Some (s - n) = Some t" for t
        using that m'(1) hp'(8) assms(3) head_used [OF o(8)] by auto
    qed
    moreover have "agree m' None xs" by (subst agree_front [OF o(1), of m' "mem hp"]) (use m'(1) hp'(4) o(7) in auto)
    ultimately show ?thesis using assms(3) m' hp'(5-7) o(9) by (simp add: given_def)
  qed
  moreover have "frees (xs @ given p s n @ ys) = insert (p + n, s - n) (frees xs \<union> frees ys)"
    using assms(3) by (auto simp: given_def)
  ultimately show ?thesis using assms(3) hp' by (intro exI [of _ hp']) (auto simp: given_size_def split_ok_def)
qed

lemma split_whole_ok:
  assumes "opened hp xs p s ys" "\<not> n + 16 \<le> s"
  shows "\<exists>hp'. split_chunk hp p s n may = (Some (given_size s n), hp') \<and> split_ok hp xs p s ys n hp'"
proof -
  note o = opened_parts [OF assms(1)]
  have n: "16 \<le> s" using o(3) by (auto simp: size_ok_def)
  define hp1 where "hp1 = (if hmu_is_in_heap hp (p + s) then write_word (p + s) (hmu_mark_pinuse (mem hp (p + s))) hp else hp)"
  have in_heap: "hmu_is_in_heap hp (p + s)" if "ys \<noteq> []"
    using tiles_start [OF o(2) that] o(5) n by (simp add: hmu_is_in_heap_def)
  have "split_chunk hp p s n may = (Some s, hp1)"
    using assms(2) by (simp add: split_chunk_def smallest_size Let_def hp1_def)
  moreover have "index_ok hp1 (frees xs \<union> frees ys)"
  proof (rule index_ok_cong [of hp])
    fix q t assume "(q, t) \<in> frees xs \<union> frees ys"
    then have "8 dvd q" using opened_free [OF assms(1)] by blast
    then have "q + 4 \<noteq> p + s" using o(3,4) unfolding size_ok_def by presburger
    then show "mem hp1 (q + 4) = mem hp (q + 4)" by (simp add: write_word_def hp1_def)
  qed (use assms(1) in \<open>auto simp: write_word_def hp1_def opened_def\<close>)
  moreover have "agree m' None (xs @ given p s n @ ys)"
    if m': "\<forall>w. w < p \<or> p + s \<le> w \<longrightarrow> m' w = mem hp1 w" "hmu_get_size (m' p) = s"
      "hmu_get_ut (m' p) = HMU_VO" "\<not> hmu_is_vo_freed (m' p)" "hmu_get_pinuse (m' p)" for m'
  proof -
    have "agree m' None ys"
    proof (rule agree_behind [OF o(2,8)])
      show "m' w = mem hp w" if "p + s < w" for w using that m'(1) by (simp add: write_word_def hp1_def)
      have "m' (p + s) = hmu_mark_pinuse (mem hp (p + s))" if "ys \<noteq> []"
        using m'(1) in_heap [OF that] by (simp add: write_word_def hp1_def)
      then show "ys \<noteq> [] \<Longrightarrow> hmu_get_size (m' (p + s)) = hmu_get_size (mem hp (p + s)) \<and>
          hmu_get_ut (m' (p + s)) = hmu_get_ut (mem hp (p + s)) \<and>
          hmu_is_vo_freed (m' (p + s)) = hmu_is_vo_freed (mem hp (p + s)) \<and> (hmu_get_pinuse (m' (p + s)) \<longleftrightarrow> None = None)"
        by simp
    qed simp
    moreover have "agree m' None xs" by (subst agree_front [OF o(1), of m' "mem hp"]) (use m'(1) n o(7) in \<open>auto simp: write_word_def hp1_def\<close>)
    ultimately show ?thesis using assms(2) m' o(9) by (simp add: given_def)
  qed
  moreover have "same_rest hp hp1" "\<forall>w. w \<le> p \<or> p + s < w \<longrightarrow> mem hp1 w = mem hp w"
    using n by (auto simp: same_rest_def write_word_def hp1_def)
  moreover have "frees (xs @ given p s n @ ys) = frees xs \<union> frees ys" using assms(2) by (simp add: given_def)
  ultimately show ?thesis using assms(2) by (intro exI [of _ hp1]) (auto simp: given_size_def split_ok_def)
qed

lemma split_spec:
  assumes "opened hp xs p s ys" "size_ok n" "may \<or> s = n"
  shows "\<exists>hp'. split_chunk hp p s n may = (Some (given_size s n), hp') \<and> split_ok hp xs p s ys n hp'"
  using split_rest_ok [OF assms(1,2)] split_whole_ok [OF assms(1), of n may] assms(3) by (cases "n + 16 \<le> s") auto

end
