(* ===== verification/Ems_Alloc.thy ===== *)
theory Ems_Alloc
  imports Ems_Pool
begin

text \<open>
  The search of \<open>alloc_hmu\<close> finds a smallest free chunk that is large enough whenever there is one.
\<close>

section \<open>Taking a free chunk out of the index\<close>

lemma openedI:
  assumes "pool_ok hp (xs @ (p, s, False) # ys)" "index_ok hp' (frees (xs @ (p, s, False) # ys) - {(p, s)})" "same_rest hp hp'"
    "\<And>w. (\<forall>(q, t) \<in> frees (xs @ (p, s, False) # ys). w \<noteq> q + 4) \<Longrightarrow> mem hp' w = mem hp w"
  shows "opened hp' xs p s ys"
proof -
  note o = pool_chunk [OF assms(1)]
  have "(p, s) \<notin> frees xs" using frees_in [OF o(2)] o(4) by (force simp: size_ok_def)
  moreover have "(p, s) \<notin> frees ys" using frees_in [OF o(3)] o(4) by (force simp: size_ok_def)
  ultimately have "frees (xs @ (p, s, False) # ys) - {(p, s)} = frees xs \<union> frees ys" by auto
  moreover have "agree (mem hp') None (xs @ (p, s, False) # ys)"
    by (rule agree_links [OF _ _ assms(4)]) (use assms(1) in \<open>auto simp: pool_ok_def\<close>)
  ultimately show ?thesis using assms(1-3) by (simp add: opened_def pool_ok_def same_rest_def)
qed

lemma open_unlink:
  assumes "pool_ok hp (xs @ (p, s, False) # ys)"
  shows "\<exists>hp'. unlink_hmu hp p = Some (True, hp') \<and> opened hp' xs p s ys \<and> same_rest hp hp' \<and>
    (\<forall>w. (\<forall>(q, t) \<in> frees (xs @ (p, s, False) # ys). w \<noteq> q + 4) \<longrightarrow> mem hp' w = mem hp w)"
proof -
  let ?cs = "xs @ (p, s, False) # ys"
  have "index_ok hp (frees ?cs)" "(p, s) \<in> frees ?cs" using assms by (auto simp: pool_ok_def)
  then obtain hp' where hp': "unlink_hmu hp p = Some (True, hp')" "index_ok hp' (frees ?cs - {(p, s)})" "same_rest hp hp'"
    "\<forall>w. (\<forall>(q, t) \<in> frees ?cs. w \<noteq> q + 4) \<longrightarrow> mem hp' w = mem hp w"
    using unlink_spec [of hp "frees ?cs" p s] pool_chunk(10,11) [OF assms] by auto
  moreover have "opened hp' xs p s ys" using hp' by (intro openedI [OF assms]) auto
  ultimately show ?thesis by blast
qed

lemma open_tree:
  assumes "pool_ok hp (xs @ (p, s, False) # ys)" "\<not> HMU_IS_FC_NORMAL s"
  shows "\<exists>hp'. remove_tree_node hp p = (True, hp') \<and> opened hp' xs p s ys \<and> same_rest hp hp' \<and> mem hp' = mem hp"
proof -
  obtain hp' where hp': "unlink_hmu hp p = Some (True, hp')" "opened hp' xs p s ys" "same_rest hp hp'"
    using open_unlink [OF assms(1)] by blast
  then have "remove_tree_node hp p = (True, hp')" using assms pool_chunk(10,11) [OF assms(1)] by (auto simp: unlink_hmu_def Let_def split: if_splits)
  moreover from this have "mem hp' = mem hp" by (auto simp: remove_tree_node_def split: option.splits)
  ultimately show ?thesis using hp' by blast
qed

lemma open_list:
  assumes "pool_ok hp (xs @ (p, s, False) # ys)" "HMU_IS_FC_NORMAL s" "kfc_normal_list hp (nat (s div 8)) = Some p"
  shows "opened (hp\<lparr>kfc_normal_list := (kfc_normal_list hp)(nat (s div 8) := get_hmu_normal_node_next (mem hp) p)\<rparr>) xs p s ys"
proof -
  obtain hp' where hp': "unlink_hmu hp p = Some (True, hp')" "opened hp' xs p s ys"
    using open_unlink [OF assms(1)] by blast
  have "find_normal hp p None (Some p) = Some (Inr (Some (None, get_hmu_normal_node_next (mem hp) p)))"
    using pool_chunk(15) [OF assms(1)] by (simp add: find_normal.simps)
  then show ?thesis using hp' assms(2,3) pool_chunk(10,11) [OF assms(1)] by (simp add: unlink_hmu_def Let_def split: if_splits)
qed

section \<open>The search for a free chunk\<close>

text \<open>The smallest chunk that is large enough.\<close>

definition best_fit :: "chunk list \<Rightarrow> int \<Rightarrow> int \<Rightarrow> int \<Rightarrow> bool" where
  "best_fit cs n p s \<longleftrightarrow> (p, s) \<in> frees cs \<and> n \<le> s \<and> (\<forall>(q, t) \<in> frees cs. n \<le> t \<longrightarrow> s \<le> t)"

lemma chain_head: "chain m q xs \<Longrightarrow> q = None \<longleftrightarrow> set xs = {}" "chain m (Some p) xs \<Longrightarrow> p \<in> set xs"
  by (cases xs; auto)+

lemma list_head:
  assumes "places_ok hp F" "lists_ok hp F" "i < HMU_NORMAL_NODE_CNT"
  shows "kfc_normal_list hp i = None \<longleftrightarrow> (\<forall>p. (p, 8 * int i) \<in> F \<longrightarrow> \<not> HMU_IS_FC_NORMAL (8 * int i))"
    "kfc_normal_list hp i = Some p \<Longrightarrow> (p, 8 * int i) \<in> F \<and> HMU_IS_FC_NORMAL (8 * int i)"
proof -
  obtain xs where xs: "chain (mem hp) (kfc_normal_list hp i) xs" "distinct xs"
    "set xs = {p. (p, 8 * int i) \<in> F \<and> HMU_IS_FC_NORMAL (8 * int i)}" by (rule lists_okE [OF assms(2,3)])
  show "kfc_normal_list hp i = None \<longleftrightarrow> (\<forall>p. (p, 8 * int i) \<in> F \<longrightarrow> \<not> HMU_IS_FC_NORMAL (8 * int i))"
    unfolding chain_head(1) [OF xs(1)] xs(3) by blast
  show "kfc_normal_list hp i = Some p \<Longrightarrow> (p, 8 * int i) \<in> F \<and> HMU_IS_FC_NORMAL (8 * int i)"
    using chain_head(2) [of "mem hp" p xs] xs(1,3) by simp
qed

lemma normal_index: "size_ok t \<Longrightarrow> HMU_IS_FC_NORMAL t \<Longrightarrow> 8 * int (nat (t div 8)) = t \<and> nat (t div 8) < HMU_NORMAL_NODE_CNT"
  by (auto simp: size_ok_def HMU_IS_FC_NORMAL_def HMU_NORMAL_NODE_CNT_def)

lemma lists_searched:
  assumes "pool_ok hp cs" "size_ok n"
  shows "find (\<lambda>i. kfc_normal_list hp i \<noteq> None) [nat (n div 8)..<HMU_NORMAL_NODE_CNT] = Some k \<Longrightarrow>
      \<exists>p. kfc_normal_list hp k = Some p \<and> best_fit cs n p (8 * int k) \<and> HMU_IS_FC_NORMAL (8 * int k)"
    "find (\<lambda>i. kfc_normal_list hp i \<noteq> None) [nat (n div 8)..<HMU_NORMAL_NODE_CNT] = None \<Longrightarrow>
      (p, t) \<in> frees cs \<Longrightarrow> n \<le> t \<Longrightarrow> \<not> HMU_IS_FC_NORMAL t"
proof -
  note ix = pool_index [OF assms(1)]
  have n: "8 * int (nat (n div 8)) = n" using assms(2) by (auto simp: size_ok_def)
  have t: "size_ok t" if "(q, t) \<in> frees cs" for q t using ix place_bounds(2) that by blast
  show "\<not> HMU_IS_FC_NORMAL t"
    if "find (\<lambda>i. kfc_normal_list hp i \<noteq> None) [nat (n div 8)..<HMU_NORMAL_NODE_CNT] = None" "(p, t) \<in> frees cs" "n \<le> t"
  proof
    assume t': "HMU_IS_FC_NORMAL t"
    note i = normal_index [OF t [OF that(2)] t']
    have "nat (n div 8) \<le> nat (t div 8)" using that(3) by (simp add: nat_mono zdiv_mono1)
    then have "kfc_normal_list hp (nat (t div 8)) = None" using that(1) i by (auto simp: find_None_iff)
    then show False using list_head(1) ix i that(2) t' by metis
  qed
  assume f: "find (\<lambda>i. kfc_normal_list hp i \<noteq> None) [nat (n div 8)..<HMU_NORMAL_NODE_CNT] = Some k"
  then obtain j where j: "k = nat (n div 8) + j" "k < HMU_NORMAL_NODE_CNT" "kfc_normal_list hp k \<noteq> None"
    "\<forall>i < j. kfc_normal_list hp (nat (n div 8) + i) = None"
    unfolding find_Some_iff by fastforce
  then have k: "kfc_normal_list hp k \<noteq> None" "nat (n div 8) \<le> k" "k < HMU_NORMAL_NODE_CNT" by simp_all
  have min: "kfc_normal_list hp i = None" if "nat (n div 8) \<le> i" "i < k" for i
    using j(4) [rule_format, of "i - nat (n div 8)"] j(1) that by simp
  obtain p where p: "kfc_normal_list hp k = Some p" "(p, 8 * int k) \<in> frees cs" "HMU_IS_FC_NORMAL (8 * int k)"
    using k list_head(2) ix by blast
  have "8 * int k \<le> t" if "(q, t) \<in> frees cs" "n \<le> t" for q t
  proof (rule ccontr)
    assume "\<not> 8 * int k \<le> t"
    then have "HMU_IS_FC_NORMAL t" using p(3) by (simp add: HMU_IS_FC_NORMAL_def)
    note i = normal_index [OF t [OF that(1)] this]
    have "nat (n div 8) \<le> nat (t div 8)" using that(2) by (simp add: nat_mono zdiv_mono1)
    moreover have "nat (t div 8) < k" using \<open>\<not> 8 * int k \<le> t\<close> i by linarith
    ultimately have "kfc_normal_list hp (nat (t div 8)) = None" by (rule min)
    then show False using list_head(1) ix i that(1) \<open>HMU_IS_FC_NORMAL t\<close> by metis
  qed
  moreover have "n \<le> 8 * int k" using k(2) n by linarith
  ultimately have "best_fit cs n p (8 * int k)" using p(2) by (auto simp: best_fit_def)
  then show "\<exists>p. kfc_normal_list hp k = Some p \<and> best_fit cs n p (8 * int k) \<and> HMU_IS_FC_NORMAL (8 * int k)"
    using p by blast
qed

lemma tree_searched:
  assumes "pool_ok hp cs" "\<And>p t. (p, t) \<in> frees cs \<Longrightarrow> n \<le> t \<Longrightarrow> \<not> HMU_IS_FC_NORMAL t"
  shows "if \<exists>(p, s) \<in> frees cs. n \<le> s then \<exists>p s. best_node hp n None (kfc_tree hp) = Some (Some (p, s)) \<and> best_fit cs n p s \<and> \<not> HMU_IS_FC_NORMAL s
    else best_node hp n None (kfc_tree hp) = Some None"
proof -
  note ix = pool_index [OF assms(1)]
  have tr: "set_tree (kfc_tree hp) = {x \<in> frees cs. \<not> HMU_IS_FC_NORMAL (snd x)}" "ordered (kfc_tree hp)" using ix by (auto simp: tree_ok_def)
  have fit: "x \<in> set_tree (kfc_tree hp)" if "x \<in> frees cs" "n \<le> snd x" for x using that assms(2) tr(1) by (cases x) auto
  obtain b where b: "best_node hp n None (kfc_tree hp) = Some b"
    "if \<exists>x \<in> set_tree (kfc_tree hp). n \<le> snd x then \<exists>x \<in> set_tree (kfc_tree hp). b = Some x \<and> n \<le> snd x \<and>
       (\<forall>y \<in> set_tree (kfc_tree hp). n \<le> snd y \<longrightarrow> snd x \<le> snd y) else b = None"
    using best_node_spec tree_places(1) ix tr(2) by blast
  show ?thesis
  proof (cases "\<exists>x \<in> set_tree (kfc_tree hp). n \<le> snd x")
    case True
    with b(2) obtain p s where x: "(p, s) \<in> set_tree (kfc_tree hp)" "b = Some (p, s)" "n \<le> s" "\<forall>y \<in> set_tree (kfc_tree hp). n \<le> snd y \<longrightarrow> s \<le> snd y"
      by auto
    then have "best_fit cs n p s" using fit tr(1) by (force simp: best_fit_def)
    then show ?thesis using b(1) x tr(1) by (auto simp: best_fit_def)
  next
    case False
    then show ?thesis using b fit by force
  qed
qed

section \<open>Allocation\<close>

lemma base_aligned: "pool_ok hp cs \<Longrightarrow> (p, s) \<in> frees cs \<Longrightarrow> (base_addr hp + p + HMU_SIZE) mod 8 = 0"
proof -
  assume "pool_ok hp cs" "(p, s) \<in> frees cs"
  then have "base_addr hp mod 8 = 4" "8 dvd p"
    using place_bounds(5) [of hp "frees cs" p s] pool_index [of hp cs] unfolding pool_ok_def by blast+
  then show ?thesis unfolding HMU_SIZE_def by presburger
qed

lemma best_fit_split:
  assumes "pool_ok hp cs" "best_fit cs n p s"
  obtains xs ys where "cs = xs @ (p, s, False) # ys" "pool_ok hp (xs @ (p, s, False) # ys)" "hmu_is_in_heap hp p"
    "(base_addr hp + p + HMU_SIZE) mod 8 = 0" "n \<le> s" "size_ok s"
proof -
  have f: "(p, s) \<in> frees cs" "n \<le> s" using assms(2) by (auto simp: best_fit_def)
  from frees_split [OF f(1)] obtain xs ys where cs: "cs = xs @ (p, s, False) # ys" by blast
  show ?thesis
    using that [OF cs] assms(1) base_aligned [OF assms(1) f(1)] f(2) pool_chunk(4,15) [OF assms(1) [unfolded cs]] cs by blast
qed

text \<open>Either no chunk is large enough, or a smallest one that is large enough is taken.\<close>

definition alloc_spec :: "gc_heap \<Rightarrow> chunk list \<Rightarrow> int \<Rightarrow> int option \<times> gc_heap \<Rightarrow> bool" where
  "alloc_spec hp cs n res \<longleftrightarrow>
     (if \<exists>(p, s) \<in> frees cs. n \<le> s then
        \<exists>xs p s ys hp0 hp1. cs = xs @ (p, s, False) # ys \<and> best_fit cs n p s \<and> opened hp0 xs p s ys \<and> same_rest hp hp0 \<and>
          mem hp0 = mem hp \<and> split_ok hp0 xs p s ys n hp1 \<and> res = (Some p, take_chunk p (given_size s n) hp1)
      else res = (None, hp))"

lemma alloc_specI:
  assumes "cs = xs @ (p, s, False) # ys" "best_fit cs n p s" "opened hp0 xs p s ys" "same_rest hp hp0" "mem hp0 = mem hp"
    "split_ok hp0 xs p s ys n hp1" "res = (Some p, take_chunk p (given_size s n) hp1)"
  shows "alloc_spec hp cs n res"
proof -
  have "\<exists>(p, s) \<in> frees cs. n \<le> s" using assms(2) by (force simp: best_fit_def)
  moreover have "\<exists>xs p s ys hp0 hp1. cs = xs @ (p, s, False) # ys \<and> best_fit cs n p s \<and> opened hp0 xs p s ys \<and> same_rest hp hp0 \<and>
          mem hp0 = mem hp \<and> split_ok hp0 xs p s ys n hp1 \<and> res = (Some p, take_chunk p (given_size s n) hp1)"
    using assms by blast
  ultimately show ?thesis unfolding alloc_spec_def by presburger
qed

lemma alloc_from_list:
  assumes "pool_ok hp cs" "size_ok n" "HMU_IS_FC_NORMAL n"
    "find (\<lambda>i. kfc_normal_list hp i \<noteq> None) [nat (n div 8)..<HMU_NORMAL_NODE_CNT] = Some k"
  shows "alloc_spec hp cs n (alloc_hmu hp n)"
proof -
  from lists_searched(1) [OF assms(1,2,4)] obtain p where p: "kfc_normal_list hp k = Some p" "best_fit cs n p (8 * int k)"
    "HMU_IS_FC_NORMAL (8 * int k)" by blast
  obtain xs ys where o: "cs = xs @ (p, 8 * int k, False) # ys" "pool_ok hp (xs @ (p, 8 * int k, False) # ys)" "hmu_is_in_heap hp p"
    "(base_addr hp + p + HMU_SIZE) mod 8 = 0" "n \<le> 8 * int k" "size_ok (8 * int k)" by (rule best_fit_split [OF assms(1) p(2)])
  define hp0 where "hp0 = hp\<lparr>kfc_normal_list := (kfc_normal_list hp)(k := get_hmu_normal_node_next (mem hp) p)\<rparr>"
  have op: "opened hp0 xs p (8 * int k) ys" using open_list [OF o(2) p(3)] p(1) by (simp add: hp0_def)
  have may: "k \<noteq> nat (n div 8) \<or> 8 * int k = n" using assms(2) by (auto simp: size_ok_def)
  from split_spec [OF op assms(2) may] obtain hp1 where hp1: "split_chunk hp0 p (8 * int k) n (k \<noteq> nat (n div 8)) = (Some (given_size (8 * int k) n), hp1)"
    "split_ok hp0 xs p (8 * int k) ys n hp1" by blast
  have "alloc_hmu hp n = (Some p, take_chunk p (given_size (8 * int k) n) hp1)"
    using assms(2-4) p(1) o(3,4) hp1(1)
    by (simp add: alloc_hmu_def smallest_size size_ok_def Let_def mult.commute flip: hp0_def) (simp add: hp0_def)
  moreover have "same_rest hp hp0" "mem hp0 = mem hp" by (simp_all add: hp0_def same_rest_def)
  ultimately show ?thesis by (intro alloc_specI [OF o(1) p(2) op _ _ hp1(2)])
qed

lemma alloc_from_tree:
  assumes "pool_ok hp cs" "16 \<le> n" "8 dvd n"
    "HMU_IS_FC_NORMAL n \<Longrightarrow> find (\<lambda>i. kfc_normal_list hp i \<noteq> None) [nat (n div 8)..<HMU_NORMAL_NODE_CNT] = None"
  shows "alloc_spec hp cs n (alloc_hmu hp n)"
proof -
  have large: "\<not> HMU_IS_FC_NORMAL t" if "(p, t) \<in> frees cs" "n \<le> t" for p t
  proof (cases "HMU_IS_FC_NORMAL n")
    case True
    then have "size_ok n" using assms(2,3) by (simp add: size_ok_def HMU_IS_FC_NORMAL_def HMU_NORMAL_NODE_CNT_def)
    then show ?thesis using lists_searched(2) [OF assms(1) _ assms(4)] True that by blast
  qed (use that in \<open>simp add: HMU_IS_FC_NORMAL_def\<close>)
  have searched: "if \<exists>(p, s) \<in> frees cs. n \<le> s then \<exists>p s. best_node hp n None (kfc_tree hp) = Some (Some (p, s)) \<and> best_fit cs n p s \<and> \<not> HMU_IS_FC_NORMAL s
    else best_node hp n None (kfc_tree hp) = Some None" by (rule tree_searched [OF assms(1)]) (fact large)
  have tree: "alloc_hmu hp n = (case best_node hp n None (kfc_tree hp) of
            None \<Rightarrow> (None, corrupted hp) | Some None \<Rightarrow> (None, hp)
          | Some (Some (p, have)) \<Rightarrow> (case remove_tree_node hp p of (False, hp) \<Rightarrow> (None, hp)
              | (True, hp) \<Rightarrow> (case split_chunk hp p have n True of (None, hp) \<Rightarrow> (None, hp)
                | (Some sz, hp) \<Rightarrow> (Some p, take_chunk p sz hp))))"
    using assms(2,4) by (cases "HMU_IS_FC_NORMAL n") (simp_all add: alloc_hmu_def smallest_size Let_def)
  show ?thesis
  proof (cases "\<exists>(p, s) \<in> frees cs. n \<le> s")
    case True
    with searched obtain p s where p: "best_node hp n None (kfc_tree hp) = Some (Some (p, s))"
      "best_fit cs n p s" "\<not> HMU_IS_FC_NORMAL s" by (simp only: if_True) blast
    obtain xs ys where o: "cs = xs @ (p, s, False) # ys" "pool_ok hp (xs @ (p, s, False) # ys)" "hmu_is_in_heap hp p"
      "(base_addr hp + p + HMU_SIZE) mod 8 = 0" "n \<le> s" "size_ok s" by (rule best_fit_split [OF assms(1) p(2)])
    from open_tree [OF o(2) p(3)] obtain hp0 where hp0: "remove_tree_node hp p = (True, hp0)" "opened hp0 xs p s ys" "same_rest hp hp0" "mem hp0 = mem hp" by blast
    have "size_ok n" using assms(2,3) o(5,6) by (simp add: size_ok_def)
    from split_spec [OF hp0(2) this, of True] obtain hp1 where hp1: "split_chunk hp0 p s n True = (Some (given_size s n), hp1)"
      "split_ok hp0 xs p s ys n hp1" by blast
    have "alloc_hmu hp n = (Some p, take_chunk p (given_size s n) hp1)" using tree p(1) hp0(1) hp1(1) by simp
    then show ?thesis by (rule alloc_specI [OF o(1) p(2) hp0(2-4) hp1(2)])
  next
    case False
    with searched tree show ?thesis unfolding alloc_spec_def by simp
  qed
qed

lemma alloc_hmu_spec:
  assumes "pool_ok hp cs" "8 dvd n"
  shows "alloc_spec hp cs (max 16 n) (alloc_hmu hp n)"
proof -
  have eq: "alloc_hmu hp n = alloc_hmu hp (max 16 n)" by (simp add: alloc_hmu_def smallest_size max_def)
  have n: "16 \<le> max 16 n" "8 dvd max 16 n" using assms(2) by (auto simp: max_def)
  have "HMU_IS_FC_NORMAL (max 16 n) \<Longrightarrow> size_ok (max 16 n)"
    using n by (simp add: size_ok_def HMU_IS_FC_NORMAL_def HMU_NORMAL_NODE_CNT_def)
  then show ?thesis unfolding eq
    using alloc_from_list [OF assms(1)] alloc_from_tree [OF assms(1) n]
    by (cases "find (\<lambda>i. kfc_normal_list hp i \<noteq> None) [nat (max 16 n div 8)..<HMU_NORMAL_NODE_CNT]") auto
qed

text \<open>The chunk is in use once its header says so, whatever is written to its data.\<close>

lemma given_frees: "tiles 0 (xs @ (p, s, False) # ys) b \<Longrightarrow> size_ok n \<Longrightarrow> n \<le> s \<Longrightarrow> tiles 0 (xs @ given p s n @ ys) b"
  by (auto simp: given_def size_ok_def add.assoc)

lemma given_size_ok: "size_ok s \<Longrightarrow> size_ok n \<Longrightarrow> n \<le> s \<Longrightarrow> size_ok (given_size s n) \<and> n \<le> given_size s n \<and> given_size s n \<le> s"
  by (auto simp: given_size_def size_ok_def)

definition vo_header :: "u32 \<Rightarrow> int \<Rightarrow> u32" where
  "vo_header w g = hmu_unfree_vo (hmu_set_ut (hmu_set_size w g) HMU_VO)"

lemma vo_header [simp]:
  "size_ok g \<Longrightarrow> hmu_get_size (vo_header w g) = g" "hmu_get_ut (vo_header w g) = HMU_VO" "\<not> hmu_is_vo_freed (vo_header w g)"
  "size_ok g \<Longrightarrow> hmu_get_pinuse (vo_header w g) = hmu_get_pinuse w"
  by (simp_all add: vo_header_def)

lemma taken_ok:
  assumes "opened hp0 xs p s ys" "split_ok hp0 xs p s ys n hp1" "size_ok n" "n \<le> s"
    "current_size hp' = current_size hp1" "base_addr hp' = base_addr hp1" "is_heap_corrupted hp' = is_heap_corrupted hp1"
    "kfc_normal_list hp' = kfc_normal_list hp1" "kfc_tree hp' = kfc_tree hp1" "mem hp' p = vo_header (mem hp1 p) (given_size s n)"
    "\<And>w. w < p \<or> p + given_size s n \<le> w \<Longrightarrow> mem hp' w = mem hp1 w"
  shows "pool_ok hp' (xs @ given p s n @ ys)" "\<And>w. w < p \<or> p + s < w \<Longrightarrow> mem hp' w = mem hp0 w"
proof -
  note o = opened_parts [OF assms(1)]
  note sp = assms(2) [unfolded split_ok_def]
  note g = given_size_ok [OF o(3) assms(3,4)]
  have "mem hp1 p = mem hp0 p" using sp by auto
  then have pin: "hmu_get_pinuse (mem hp' p)" using o(10) g assms(10) by simp
  have "agree (mem hp') None (xs @ given p s n @ ys)"
    using sp assms(10,11) g pin by simp
  moreover have "index_ok hp' (frees (xs @ given p s n @ ys))"
  proof (rule index_ok_cong [of hp1])
    fix q t assume "(q, t) \<in> frees (xs @ given p s n @ ys)"
    then consider "(q, t) \<in> frees xs \<union> frees ys" | "q = p + given_size s n" by (auto simp: given_def given_size_def split: if_splits)
    then show "mem hp' (q + 4) = mem hp1 (q + 4)"
    proof cases
      case 1
      from opened_free [OF assms(1) 1] have "q + 4 < p \<or> p + given_size s n \<le> q + 4" using g by (auto simp: size_ok_def)
      then show ?thesis by (rule assms(11))
    qed (simp add: assms(11))
  qed (use sp assms(5,8,9) in auto)
  moreover have "tiles 0 (xs @ given p s n @ ys) (current_size hp0)"
    using assms(1,3,4) by (intro given_frees) (auto simp: opened_def)
  ultimately show "pool_ok hp' (xs @ given p s n @ ys)"
    using sp assms(1,5-7) unfolding pool_ok_def opened_def same_rest_def by simp
  show "mem hp' w = mem hp0 w" if "w < p \<or> p + s < w" for w
    using that sp assms(11) [of w] g by auto
qed

end
