(* ===== verification/Ems_Malloc.thy ===== *)
theory Ems_Malloc
  imports Ems_Alloc
begin

text \<open>
  Allocation keeps the invariant; sizes that wrap around are refused.
\<close>

text \<open>The size of the chunk for a request.\<close>

definition need :: "int \<Rightarrow> int" where
  "need n = max 16 ((n + 11) div 8 * 8)"

lemma need_ok: "0 \<le> n \<Longrightarrow> n + 4 \<le> need n \<and> 16 \<le> need n \<and> 8 dvd need n"
  unfolding need_def by (auto simp: max_def)

lemma alloc_size_fits: "0 \<le> n \<Longrightarrow> n + 11 < 2 ^ 32 \<Longrightarrow> alloc_size n = (n + 4, (n + 11) div 8 * 8)"
  by (simp add: alloc_size_def GC_ALIGN_8_def HMU_SIZE_def gc_uint32_def Let_def add.commute)

lemma gc_uint32_wraps: "2 ^ 32 \<le> x \<Longrightarrow> x < 2 * 2 ^ 32 \<Longrightarrow> gc_uint32 x = x - 2 ^ 32"
proof -
  assume x: "2 ^ 32 \<le> x" "x < 2 * 2 ^ 32"
  have "gc_uint32 x = (x - 2 ^ 32) mod 2 ^ 32" unfolding gc_uint32_def by (rule minus_mod_self2 [symmetric])
  also have "\<dots> = x - 2 ^ 32" using x by (intro mod_pos_pos_trivial) auto
  finally show ?thesis .
qed

lemma alloc_size_wraps: "n < 2 ^ 32 \<Longrightarrow> 2 ^ 32 \<le> n + 11 \<Longrightarrow> snd (alloc_size n) < n"
proof -
  assume n: "n < 2 ^ 32" "2 ^ 32 \<le> n + 11"
  have "gc_uint32 (gc_uint32 (4 + n) + 7) < 11"
  proof (cases "n + 4 < 2 ^ 32")
    case True
    then have "gc_uint32 (4 + n) + 7 = n + 11" using n by (simp add: gc_uint32_def)
    then show ?thesis using True n gc_uint32_wraps [of "n + 11"] by (simp add: add.commute)
  next
    case False
    then have "gc_uint32 (4 + n) = n + 4 - 2 ^ 32" using n gc_uint32_wraps [of "4 + n"] by simp
    then show ?thesis using n False by (simp add: gc_uint32_def)
  qed
  moreover have "gc_uint32 (gc_uint32 (4 + n) + 7) div 8 * 8 \<le> gc_uint32 (gc_uint32 (4 + n) + 7)" by presburger
  ultimately show ?thesis using n by (simp add: alloc_size_def GC_ALIGN_8_def HMU_SIZE_def Let_def)
qed

lemma clear_outside: "w \<le> p \<or> p + g \<le> w \<Longrightarrow> 0 \<le> n \<Longrightarrow> clear_bytes (p + 4 + n) (p + g) m w = m w"
  by (auto simp: clear_bytes_def)

lemma take_chunk_fields [simp]:
  "current_size (take_chunk p g hp) = current_size hp" "base_addr (take_chunk p g hp) = base_addr hp"
  "is_heap_corrupted (take_chunk p g hp) = is_heap_corrupted hp" "kfc_normal_list (take_chunk p g hp) = kfc_normal_list hp"
  "kfc_tree (take_chunk p g hp) = kfc_tree hp" "total_free_size (take_chunk p g hp) = gc_uint32 (total_free_size hp - g)"
  "mem (take_chunk p g hp) = (mem hp)(p := hmu_set_size (mem hp p) g)"
  by (simp_all add: take_chunk_def Let_def write_word_def)

definition given_ok :: "gc_heap \<Rightarrow> chunk list \<Rightarrow> int \<Rightarrow> int \<Rightarrow> gc_heap \<Rightarrow> bool" where
  "given_ok hp cs n p hp' \<longleftrightarrow> (\<exists>xs s ys. cs = xs @ (p, s, False) # ys \<and> best_fit cs n p s \<and> pool_ok hp' (xs @ given p s n @ ys) \<and>
     current_size hp' = current_size hp \<and> base_addr hp' = base_addr hp \<and> total_free_size hp' = gc_uint32 (total_free_size hp - given_size s n) \<and>
     (\<forall>w. w < p \<or> p + s < w \<longrightarrow> mem hp' w = mem hp w))"

text \<open>The end of an allocation: the header is set, then data is written.\<close>

lemma alloc_finish:
  assumes "pool_ok hp cs" "16 \<le> n" "8 dvd n" "alloc_spec hp cs n res" "\<exists>(p, s) \<in> frees cs. n \<le> s"
  shows "\<exists>p g hp2. res = (Some p, hp2) \<and> size_ok g \<and> n \<le> g \<and> hmu_get_size (mem hp2 p) = g \<and>
    (\<forall>f. (\<forall>m w. w \<le> p \<or> p + g \<le> w \<longrightarrow> f m w = m w) \<longrightarrow>
       given_ok hp cs n p (hp2\<lparr>mem := f ((mem hp2)(p := hmu_unfree_vo (hmu_set_ut (mem hp2 p) HMU_VO)))\<rparr>))"
proof -
  from assms(4,5) obtain xs p s ys hp0 hp1 where r: "cs = xs @ (p, s, False) # ys" "best_fit cs n p s" "opened hp0 xs p s ys" "same_rest hp hp0"
    "mem hp0 = mem hp" "split_ok hp0 xs p s ys n hp1" "res = (Some p, take_chunk p (given_size s n) hp1)"
    unfolding alloc_spec_def by (simp only: if_True) blast
  define g where "g = given_size s n"
  define hp2 where "hp2 = take_chunk p g hp1"
  have s: "size_ok s" "n \<le> s" using opened_parts(3) [OF r(3)] r(2) by (auto simp: best_fit_def)
  have n: "size_ok n" using assms(2,3) s by (auto simp: size_ok_def)
  have g: "size_ok g" "n \<le> g" using given_size_ok [OF s(1) n s(2)] by (simp_all add: g_def)
  have given: "given_ok hp cs n p (hp2\<lparr>mem := f ((mem hp2)(p := hmu_unfree_vo (hmu_set_ut (mem hp2 p) HMU_VO)))\<rparr>)"
    if f: "\<And>m w. w \<le> p \<or> p + g \<le> w \<Longrightarrow> f m w = m w" for f :: "(int \<Rightarrow> u32) \<Rightarrow> int \<Rightarrow> u32"
  proof -
    define hp3 where "hp3 = hp2\<lparr>mem := f ((mem hp2)(p := hmu_unfree_vo (hmu_set_ut (mem hp2 p) HMU_VO)))\<rparr>"
    have f3: "current_size hp3 = current_size hp1" "base_addr hp3 = base_addr hp1" "is_heap_corrupted hp3 = is_heap_corrupted hp1"
      "kfc_normal_list hp3 = kfc_normal_list hp1" "kfc_tree hp3 = kfc_tree hp1" "total_free_size hp3 = gc_uint32 (total_free_size hp1 - g)"
      by (simp_all add: hp3_def hp2_def)
    have m3: "mem hp3 p = vo_header (mem hp1 p) g" "\<And>w. w < p \<or> p + g \<le> w \<Longrightarrow> mem hp3 w = mem hp1 w"
      using g f by (auto simp: hp3_def hp2_def vo_header_def size_ok_def)
    note ok = taken_ok [OF r(3,6) n s(2) f3(1-5) m3(1) [unfolded g_def] m3(2) [unfolded g_def]]
    show "given_ok hp cs n p hp3"
      unfolding given_ok_def using r(1,2,4,5) r(6) [unfolded split_ok_def] ok f3(1,2,6)
      by (intro exI [of _ xs] exI [of _ s] exI [of _ ys]) (simp add: g_def same_rest_def)
  qed
  have "hmu_get_size (mem hp2 p) = g" using g by (simp add: hp2_def)
  then show ?thesis using r(7) g given unfolding hp2_def [symmetric] g_def [symmetric] by (intro exI [of _ p] exI [of _ g] exI [of _ hp2]) blast
qed

lemma alloc_vo_spec:
  assumes "pool_ok hp cs" "0 \<le> n" "n < 2 ^ 32"
  shows "if \<exists>(p, s) \<in> frees cs. need n \<le> s then \<exists>p hp'. gc_alloc_vo hp n = (Some (p + 4), hp') \<and> given_ok hp cs (need n) p hp'
    else gc_alloc_vo hp n = (None, hp)"
proof (cases "n + 11 < 2 ^ 32")
  case False
  have "s < 2 ^ 30" if "(p, s) \<in> frees cs" for p s using pool_index [OF assms(1)] place_bounds(7) that by blast
  then have "\<not> (\<exists>(p, s) \<in> frees cs. need n \<le> s)" using need_ok [OF assms(2)] False by force
  moreover have "gc_alloc_vo hp n = (None, hp)" using False alloc_size_wraps assms(3) by (simp add: gc_alloc_vo_def case_prod_beta)
  ultimately show ?thesis by simp
next
  case True
  define t where "t = (n + 11) div 8 * 8"
  have t: "n + 4 \<le> t" "8 dvd t" "max 16 t = need n" by (auto simp: t_def need_def)
  note sp = alloc_hmu_spec [OF assms(1) t(2), unfolded t(3)]
  have vo: "gc_alloc_vo hp n = (case alloc_hmu hp t of (None, hp) \<Rightarrow> (None, hp) | (Some hmu, hp) \<Rightarrow>
      let tot_size = hmu_get_size (mem hp hmu); hp = write_word hmu (hmu_unfree_vo (hmu_set_ut (mem hp hmu) HMU_VO)) hp; ret = hmu + HMU_SIZE in
      (Some ret, if tot_size > n + 4 then hp\<lparr>mem := clear_bytes (ret + n) (ret + n + (tot_size - (n + 4))) (mem hp)\<rparr> else hp))"
    using alloc_size_fits [OF assms(2) True] t(1) assms(1) by (simp add: gc_alloc_vo_def t_def pool_ok_def)
  show ?thesis
  proof (cases "\<exists>(p, s) \<in> frees cs. need n \<le> s")
    case True
    from need_ok [OF assms(2)] have n: "16 \<le> need n" "8 dvd need n" by auto
    obtain p g hp2 where r: "alloc_hmu hp t = (Some p, hp2)" "size_ok g" "need n \<le> g" "hmu_get_size (mem hp2 p) = g"
      "\<And>f. \<forall>m w. w \<le> p \<or> p + g \<le> w \<longrightarrow> f m w = m w \<Longrightarrow>
         given_ok hp cs (need n) p (hp2\<lparr>mem := f ((mem hp2)(p := hmu_unfree_vo (hmu_set_ut (mem hp2 p) HMU_VO)))\<rparr>)"
      using alloc_finish [OF assms(1) n sp True] by blast
    define f :: "(int \<Rightarrow> u32) \<Rightarrow> int \<Rightarrow> u32" where "f = (if g > n + 4 then clear_bytes (p + 4 + n) (p + g) else id)"
    have "gc_alloc_vo hp n = (Some (p + 4), hp2\<lparr>mem := f ((mem hp2)(p := hmu_unfree_vo (hmu_set_ut (mem hp2 p) HMU_VO)))\<rparr>)"
      by (simp add: vo r(1,4) HMU_SIZE_def Let_def f_def write_word_def)
    moreover have "f m w = m w" if "w \<le> p \<or> p + g \<le> w" for m w using clear_outside [OF that assms(2)] by (simp add: f_def)
    ultimately show ?thesis using True r(5) [of f] by auto
  next
    case False
    then have "alloc_hmu hp t = (None, hp)" using sp unfolding alloc_spec_def by simp
    then have "gc_alloc_vo hp n = (None, hp)" by (simp add: vo)
    then show ?thesis using False by simp
  qed
qed

end
