(* ===== verification/Ems_Free.thy ===== *)
theory Ems_Free
  imports Ems_Malloc
begin

text \<open>
  Release merges a chunk with the free chunks in front of it and behind it, and keeps the invariant.
\<close>

section \<open>Chunks outside of the index\<close>

text \<open>A pool whose chunks \<open>ms\<close> are not in the index.\<close>

definition gap :: "gc_heap \<Rightarrow> chunk list \<Rightarrow> chunk list \<Rightarrow> chunk list \<Rightarrow> bool" where
  "gap hp xs ms ys \<longleftrightarrow> tiles 0 (xs @ ms @ ys) (current_size hp) \<and> agree (mem hp) None (xs @ ms @ ys) \<and>
     index_ok hp (frees xs \<union> frees ys) \<and> \<not> is_heap_corrupted hp \<and> base_addr hp mod 8 = 4"

lemma gap_unlink:
  assumes "gap hp xs ms ys" "xs @ ms @ ys = us @ (q, t, False) # vs" "(q, t) \<in> frees xs \<union> frees ys"
    "xs' @ ms' @ ys' = xs @ ms @ ys" "frees xs' \<union> frees ys' = frees xs \<union> frees ys - {(q, t)}"
  shows "\<exists>hp'. unlink_hmu hp q = Some (True, hp') \<and> gap hp' xs' ms' ys' \<and> same_rest hp hp' \<and>
    (\<forall>w. (\<forall>(a, b) \<in> frees (us @ (q, t, False) # vs). w \<noteq> a + 4) \<longrightarrow> mem hp' w = mem hp w)"
proof -
  have "agree (mem hp) None (us @ (q, t, False) # vs)" using assms(1) unfolding gap_def assms(2) by blast
  then have q: "hmu_get_ut (mem hp q) = HMU_FC" "hmu_get_size (mem hp q) = t" by auto
  from assms(1) have "index_ok hp (frees xs \<union> frees ys)" by (simp add: gap_def)
  from unlink_spec [OF this assms(3) q] obtain hp' where hp': "unlink_hmu hp q = Some (True, hp')"
    "index_ok hp' (frees xs \<union> frees ys - {(q, t)})" "same_rest hp hp'"
    "\<forall>w. (\<forall>(a, b) \<in> frees xs \<union> frees ys. w \<noteq> a + 4) \<longrightarrow> mem hp' w = mem hp w" by blast
  have frame: "mem hp' w = mem hp w" if "\<forall>(a, b) \<in> frees (xs @ ms @ ys). w \<noteq> a + 4" for w using hp'(4) that by auto
  have "agree (mem hp') None (xs @ ms @ ys)"
    by (rule agree_links [of _ "current_size hp" "mem hp"]) (use assms(1) frame in \<open>auto simp: gap_def\<close>)
  then have "gap hp' xs' ms' ys'" using assms(1,4,5) hp'(2,3) by (simp add: gap_def same_rest_def)
  then show ?thesis using hp'(1,3) frame unfolding assms(2) by blast
qed

lemma chunk_not_free:
  assumes "tiles 0 (us @ (q, t, u) # vs) b"
  shows "(q, t) \<notin> frees us" "(q, t) \<notin> frees vs" "(q, t) \<notin> useds us" "(q, t) \<notin> useds vs"
proof -
  have t: "tiles 0 us q" "tiles (q + t) vs b" "size_ok t" using assms by auto
  show "(q, t) \<notin> frees us" "(q, t) \<notin> useds us" using frees_in [OF t(1)] useds_in [OF t(1)] t(3) by (force simp: size_ok_def)+
  show "(q, t) \<notin> frees vs" "(q, t) \<notin> useds vs" using frees_in [OF t(2)] useds_in [OF t(2)] t(3) by (force simp: size_ok_def)+
qed

lemma gap_unlink_prev:
  assumes "gap hp (xs @ [(q, t, False)]) ms ys"
  shows "\<exists>hp'. unlink_hmu hp q = Some (True, hp') \<and> gap hp' xs ((q, t, False) # ms) ys \<and> same_rest hp hp' \<and>
    (\<forall>w. (\<forall>(a, b) \<in> frees (xs @ (q, t, False) # ms @ ys). w \<noteq> a + 4) \<longrightarrow> mem hp' w = mem hp w)"
proof -
  have "tiles 0 (xs @ (q, t, False) # ms @ ys) (current_size hp)" using assms by (simp add: gap_def)
  from chunk_not_free [OF this] have "(q, t) \<notin> frees xs" "(q, t) \<notin> frees ys" by auto
  then show ?thesis by (intro gap_unlink [OF assms]) auto
qed

lemma gap_unlink_next:
  assumes "gap hp xs ms ((q, t, False) # ys)"
  shows "\<exists>hp'. unlink_hmu hp q = Some (True, hp') \<and> gap hp' xs (ms @ [(q, t, False)]) ys \<and> same_rest hp hp' \<and>
    (\<forall>w. (\<forall>(a, b) \<in> frees (xs @ ms @ (q, t, False) # ys). w \<noteq> a + 4) \<longrightarrow> mem hp' w = mem hp w)"
proof -
  have "tiles 0 ((xs @ ms) @ (q, t, False) # ys) (current_size hp)" using assms by (simp add: gap_def)
  from chunk_not_free [OF this] have "(q, t) \<notin> frees xs" "(q, t) \<notin> frees ys" by auto
  then have "\<exists>hp'. unlink_hmu hp q = Some (True, hp') \<and> gap hp' xs (ms @ [(q, t, False)]) ys \<and> same_rest hp hp' \<and>
    (\<forall>w. (\<forall>(a, b) \<in> frees ((xs @ ms) @ (q, t, False) # ys). w \<noteq> a + 4) \<longrightarrow> mem hp' w = mem hp w)"
    by (intro gap_unlink [OF assms]) auto
  then show ?thesis unfolding append_assoc .
qed

text \<open>The chunks outside of the index become one free chunk.\<close>

lemma gap_bounds:
  assumes "gap hp xs ms ys" "ms \<noteq> []"
  shows "tiles 0 xs (span xs)" "tiles (span xs + span ms) ys (current_size hp)" "size_ok (span ms)" "8 dvd span xs" "0 \<le> span xs"
    "span xs + span ms \<le> current_size hp" "agree (mem hp) None xs" "\<exists>prev. agree (mem hp) prev ys"
    "last_free None xs = None \<Longrightarrow> hmu_get_pinuse (mem hp (span xs))"
proof -
  have t: "tiles 0 (xs @ ms @ ys) (current_size hp)" "agree (mem hp) None (xs @ ms @ ys)" using assms by (auto simp: gap_def)
  show "tiles 0 xs (span xs)" "tiles (span xs + span ms) ys (current_size hp)" using t(1) by auto
  obtain s u ns where ms: "ms = (span xs, s, u) # ns" using assms(2) t(1) by (cases ms; cases "hd ms") auto
  have m: "size_ok s" "tiles (span xs + s) ns (span xs + span ms)" using t(1) ms by (auto simp: add.assoc)
  have c: "current_size hp < 2 ^ 30" using assms(1) by (simp add: gap_def index_ok_def places_ok_def)
  show "8 dvd span xs" "0 \<le> span xs" using tiles_8 [of 0 xs "span xs"] tiles_span [of 0 xs "span xs"] t(1) by auto
  show le: "span xs + span ms \<le> current_size hp" using t(1) tiles_span [of "span xs + span ms" ys "current_size hp"] by auto
  show "size_ok (span ms)"
    using tiles_8 [OF m(2)] tiles_span [OF m(2)] m(1) ms c le \<open>0 \<le> span xs\<close> by (auto simp: size_ok_def)
  show "agree (mem hp) None xs" "\<exists>prev. agree (mem hp) prev ys" using t(2) by auto
  show "last_free None xs = None \<Longrightarrow> hmu_get_pinuse (mem hp (span xs))" using t(2) ms by simp
qed

lemma gap_close:
  assumes "gap hp xs ms ys" "ms \<noteq> []" "last_free None xs = None" "\<forall>y zs. ys = y # zs \<longrightarrow> snd (snd y)"
  defines "p \<equiv> span xs" and "s \<equiv> span ms"
  shows "\<exists>hp1. gci_add_fc hp p s = (True, hp1) \<and> same_rest hp hp1 \<and>
    (let hp' = if hmu_is_in_heap hp1 (p + s) then write_word (p + s) (hmu_unmark_pinuse (mem hp1 (p + s))) hp1 else hp1 in
      pool_ok hp' (xs @ (p, s, False) # ys) \<and> (\<forall>w. w < p \<or> p + s < w \<longrightarrow> mem hp' w = mem hp w))"
proof -
  note o = gap_bounds [OF assms(1,2), folded p_def s_def]
  have s: "16 \<le> s" "8 dvd s" using o(3) by (auto simp: size_ok_def)
  have d: "p + s \<le> q \<or> q + t \<le> p" if "(q, t) \<in> frees xs \<union> frees ys" for q t
    using that frees_in [OF o(1)] frees_in [OF o(2)] by fastforce
  have "index_ok hp (frees xs \<union> frees ys)" using assms(1) by (simp add: gap_def)
  from add_fc_spec [OF this o(3,5,6,4) d] obtain hp1 where hp1: "gci_add_fc hp p s = (True, hp1)"
    "index_ok hp1 (insert (p, s) (frees xs \<union> frees ys))" "same_rest hp hp1"
    "mem hp1 p = hmu_set_size (hmu_set_ut (mem hp p) HMU_FC) s" "mem hp1 (p + s - 4) = word_of_int s"
    "\<And>w. w \<noteq> p \<Longrightarrow> w \<noteq> p + 4 \<Longrightarrow> w \<noteq> p + s - 4 \<Longrightarrow> mem hp1 w = mem hp w" by blast
  define hp' where "hp' = (if hmu_is_in_heap hp1 (p + s) then write_word (p + s) (hmu_unmark_pinuse (mem hp1 (p + s))) hp1 else hp1)"
  have m': "mem hp' w = mem hp1 w" if "w \<noteq> p + s" for w using that by (simp add: hp'_def write_word_def)
  have frame: "mem hp' w = mem hp w" if "w < p \<or> p + s < w" for w using that s hp1(6) [of w] m' [of w] by auto
  have next_header: "mem hp' (p + s) = hmu_unmark_pinuse (mem hp (p + s))" if "ys \<noteq> []"
  proof -
    have "hmu_is_in_heap hp1 (p + s)"
      using tiles_start [OF o(2) that] o(5) s hp1(3) by (simp add: hmu_is_in_heap_def same_rest_def)
    then show ?thesis using hp1(6) [of "p + s"] s by (simp add: hp'_def write_word_def)
  qed
  have "agree (mem hp') (Some s) ys"
  proof -
    obtain prev where prev: "agree (mem hp) prev ys" using o(8) by blast
    show ?thesis
    proof (rule agree_behind [OF o(2) prev])
      show "mem hp' (p + s - 4) = word_of_int t \<and> (\<forall>y zs. ys = y # zs \<longrightarrow> snd (snd y))" if "Some s = Some t" for t
        using that hp1(5) m' [of "p + s - 4"] assms(4) by simp
    qed (use frame next_header in auto)
  qed
  moreover have "agree (mem hp') None xs" by (subst agree_front [OF o(1), of _ "mem hp"]) (use frame o(7) in auto)
  moreover have "mem hp' p = hmu_set_size (hmu_set_ut (mem hp p) HMU_FC) s" using m' [of p] s hp1(4) by simp
  ultimately have "agree (mem hp') None (xs @ (p, s, False) # ys)" using assms(3) o(3) o(9) [OF assms(3)] by simp
  moreover have "index_ok hp' (insert (p, s) (frees xs \<union> frees ys))"
  proof (rule index_ok_cong [OF hp1(2)])
    fix q t assume "(q, t) \<in> insert (p, s) (frees xs \<union> frees ys)"
    with hp1(2) have "8 dvd q" using place_bounds(5) unfolding index_ok_def by blast
    then have "q + 4 \<noteq> p + s" using o(4) s(2) by presburger
    then show "mem hp' (q + 4) = mem hp1 (q + 4)" by (rule m')
  qed (simp_all add: hp'_def write_word_def)
  moreover have "tiles 0 (xs @ (p, s, False) # ys) (current_size hp)" using o(1-3) by (simp add: p_def)
  moreover have "same_rest hp hp'" using hp1(3) by (simp add: hp'_def write_word_def same_rest_def)
  ultimately have "pool_ok hp' (xs @ (p, s, False) # ys)" using assms(1) by (simp add: pool_ok_def gap_def same_rest_def)
  then show ?thesis using hp1(1,3) frame by (intro exI [of _ hp1]) (simp add: hp'_def [symmetric] Let_def)
qed

section \<open>Release\<close>

lemma HMU_types [simp]: "HMU_VO \<noteq> HMU_FC" "HMU_FC \<noteq> HMU_VO"
  by (simp_all add: HMU_VO_def HMU_FC_def)

lemma last_free_some:
  assumes "last_free None xs = Some t"
  obtains q us where "xs = us @ [(q, t, False)]"
proof (cases xs rule: rev_cases)
  case (snoc us c)
  with assms that show ?thesis by (cases c) (auto split: if_splits)
qed (use assms in simp)

lemma last_free_none: "last_free None (xs @ [(q, t, False)]) \<noteq> None" by simp

text \<open>The merge with the free chunk in front.\<close>

lemma merge_prev_spec:
  assumes "gap hp xs [(p, s, True)] ys"
  shows "\<exists>hp1 us ms. merge_prev hp p s = Some (True, span us, span ms, hp1) \<and> gap hp1 us ms ys \<and> us @ ms = xs @ [(p, s, True)] \<and> last_free None us = None \<and> useds ms = {(p, s)} \<and>
      same_rest hp hp1 \<and> (\<forall>w. (\<forall>(a, b) \<in> frees (xs @ (p, s, True) # ys). w \<noteq> a + 4) \<longrightarrow> mem hp1 w = mem hp w)"
proof -
  have t: "tiles 0 (xs @ [(p, s, True)] @ ys) (current_size hp)" "agree (mem hp) None (xs @ [(p, s, True)] @ ys)" "current_size hp < 2 ^ 30"
    using assms(1) by (auto simp: gap_def index_ok_def places_ok_def)
  have p: "p = span xs" using t(1) by simp
  show ?thesis
  proof (cases "last_free None xs")
    case None
    then have "hmu_get_pinuse (mem hp p)" using t(2) by simp
    then show ?thesis using assms(1) None p
      by (intro exI [of _ hp] exI [of _ xs] exI [of _ "[(p, s, True)]"]) (auto simp: same_rest_def merge_prev_def Let_def)
  next
    case (Some n)
    then obtain q us where xs: "xs = us @ [(q, n, False)]" by (rule last_free_some)
    have q: "q = span us" "p = q + n" "size_ok n" "0 \<le> q" "p + s \<le> current_size hp" "0 \<le> s"
      using t(1) xs tiles_in [OF t(1), of q n False] tiles_in [OF t(1), of p s True] by (auto simp: size_ok_def)
    have n: "mem hp (p - 4) = word_of_int n" "\<not> hmu_get_pinuse (mem hp p)" using t(2) Some by auto
    have "sint (word_of_int n :: u32) = n" using q(3) by (intro sint_small) (auto simp: size_ok_def)
    then have prev: "p - sint (mem hp (p - 4)) = q" using n(1) q(2) by simp
    have h: "hmu_get_ut (mem hp q) = HMU_FC" "hmu_get_size (mem hp q) = n" "last_free None us = None"
      using t(2) xs by (auto split: if_splits)
    have "hmu_is_in_heap hp q" using q t(3) by (auto simp: hmu_is_in_heap_def size_ok_def)
    moreover from gap_unlink_prev [OF assms(1) [unfolded xs]] obtain hp1 where hp1: "unlink_hmu hp q = Some (True, hp1)"
      "gap hp1 us [(q, n, False), (p, s, True)] ys" "same_rest hp hp1"
      "\<forall>w. (\<forall>(a, b) \<in> frees (us @ (q, n, False) # [(p, s, True)] @ ys). w \<noteq> a + 4) \<longrightarrow> mem hp1 w = mem hp w" by blast
    ultimately show ?thesis using n(2) h prev q(1) xs
      by (intro exI [of _ hp1] exI [of _ us] exI [of _ "[(q, n, False), (p, s, True)]"]) (simp add: add.commute merge_prev_def)
  qed
qed

text \<open>The merge with the free chunk behind.\<close>

lemma merge_next_spec:
  assumes "gap hp xs ms ys" "ms \<noteq> []"
  shows "\<exists>hp1 ns zs. merge_next hp (span xs) (span ms) = Some (True, span ns, hp1) \<and> gap hp1 xs ns zs \<and> ns @ zs = ms @ ys \<and> ns \<noteq> [] \<and> (\<forall>y vs. zs = y # vs \<longrightarrow> snd (snd y)) \<and> useds ns = useds ms \<and>
      same_rest hp hp1 \<and> (\<forall>w. (\<forall>(a, b) \<in> frees (xs @ ms @ ys). w \<noteq> a + 4) \<longrightarrow> mem hp1 w = mem hp w)"
proof -
  have t: "tiles 0 (xs @ ms @ ys) (current_size hp)" "agree (mem hp) None (xs @ ms @ ys)" using assms(1) by (auto simp: gap_def)
  define nxt where "nxt = span xs + span ms"
  have stay: ?thesis if "\<not> (hmu_is_in_heap hp nxt \<and> hmu_get_ut (mem hp nxt) = HMU_FC)" "\<forall>y vs. ys = y # vs \<longrightarrow> snd (snd y)"
    using that assms(1,2) by (intro exI [of _ hp] exI [of _ ms] exI [of _ ys]) (auto simp: same_rest_def merge_next_def Let_def nxt_def)
  show ?thesis
  proof (cases ys)
    case Nil
    then show ?thesis using t(1) tiles_span [of 0 "xs @ ms @ ys"] by (intro stay) (auto simp: nxt_def hmu_is_in_heap_def)
  next
    case (Cons y zs)
    then obtain v u where y: "y = (nxt, v, u)" using t(1) by (cases y) (auto simp: nxt_def)
    have h: "hmu_get_ut (mem hp nxt) = (if u then HMU_VO else HMU_FC)" "hmu_get_size (mem hp nxt) = v" using t(2) Cons y by auto
    show ?thesis
    proof (cases u)
      case True
      then show ?thesis using h y Cons by (intro stay) auto
    next
      case False
      have "hmu_is_in_heap hp nxt"
        using tiles_in [OF t(1), of nxt v u] y Cons by (auto simp: hmu_is_in_heap_def size_ok_def)
      moreover from gap_unlink_next [of hp xs ms nxt v zs] assms(1) y Cons False obtain hp1 where hp1: "unlink_hmu hp nxt = Some (True, hp1)"
        "gap hp1 xs (ms @ [(nxt, v, False)]) zs" "same_rest hp hp1"
        "\<forall>w. (\<forall>(a, b) \<in> frees (xs @ ms @ (nxt, v, False) # zs). w \<noteq> a + 4) \<longrightarrow> mem hp1 w = mem hp w" by auto
      moreover have "\<forall>y vs. zs = y # vs \<longrightarrow> snd (snd y)" using t(2) y Cons False by (intro head_used [of "mem hp" v]) auto
      ultimately show ?thesis using h False y Cons
        by (intro exI [of _ hp1] exI [of _ "ms @ [(nxt, v, False)]"] exI [of _ zs]) (simp add: merge_next_def nxt_def)
    qed
  qed
qed

text \<open>The words of objects that are in use.\<close>

definition kept :: "gc_heap \<Rightarrow> gc_heap \<Rightarrow> (int \<times> int) set \<Rightarrow> bool" where
  "kept hp hp' U \<longleftrightarrow> (\<forall>(q, t) \<in> U. \<forall>w. q < w \<and> w < q + t \<longrightarrow> mem hp' w = mem hp w)"

lemma kept_gap:
  assumes "tiles 0 (us @ ns @ zs) b" "\<And>w. w < span us \<or> span us + span ns < w \<Longrightarrow> (\<forall>(a, c) \<in> frees (us @ ns @ zs). w \<noteq> a + 4) \<Longrightarrow> mem hp' w = mem hp w"
  shows "kept hp hp' (useds us \<union> useds zs)"
  unfolding kept_def
proof (clarify)
  fix q t w assume U: "(q, t) \<in> useds us \<union> useds zs" and w: "q < w" "w < q + t"
  have "tiles 0 us (span us)" "tiles (span us + span ns) zs b" using assms(1) by auto
  then have "w < span us \<or> span us + span ns < w" using U w useds_in by fastforce
  moreover have "w \<noteq> a + 4" if "(a, c) \<in> frees (us @ ns @ zs)" for a c
  proof -
    have "(q, t, True) \<in> set (us @ ns @ zs)" "(a, c, False) \<in> set (us @ ns @ zs)" using U that by (auto simp: useds_def frees_def)
    from tiles_disjoint [OF assms(1) this] tiles_in [OF assms(1) this(2)] show ?thesis using w by (auto simp: size_ok_def)
  qed
  ultimately show "mem hp' w = mem hp w" by (intro assms(2)) auto
qed

definition freed_ok :: "gc_heap \<Rightarrow> chunk list \<Rightarrow> int \<Rightarrow> int \<Rightarrow> gc_heap \<Rightarrow> bool" where
  "freed_ok hp cs p s hp' \<longleftrightarrow> (\<exists>cs'. pool_ok hp' cs' \<and> useds cs' = useds cs - {(p, s)} \<and> kept hp hp' (useds cs - {(p, s)}) \<and>
     current_size hp' = current_size hp \<and> base_addr hp' = base_addr hp \<and> total_free_size hp' = gc_uint32 (total_free_size hp + s))"

lemma useds_apart:
  assumes "tiles 0 (us @ ns @ zs) b"
  shows "useds us \<inter> useds ns = {}" "useds zs \<inter> useds ns = {}"
proof -
  have t: "tiles 0 us (span us)" "tiles (span us) ns (span us + span ns)" "tiles (span us + span ns) zs b" using assms by auto
  show "useds us \<inter> useds ns = {}" using useds_in [OF t(1)] useds_in [OF t(2)] by (fastforce simp: size_ok_def)
  show "useds zs \<inter> useds ns = {}" using useds_in [OF t(3)] useds_in [OF t(2)] by (fastforce simp: size_ok_def)
qed

lemma free_vo_spec:
  assumes "pool_ok hp cs" "(p, s) \<in> useds cs"
  shows "\<exists>hp'. gc_free_vo hp (Some (p + 4)) = Some (GC_SUCCESS, hp') \<and> freed_ok hp cs p s hp'"
proof -
  obtain xs ys where cs: "cs = xs @ (p, s, True) # ys" using useds_split [OF assms(2)] by blast
  note o = pool_chunk [OF assms(1) [unfolded cs]]
  define hp0 where "hp0 = hp\<lparr>total_free_size := gc_uint32 (total_free_size hp + s)\<rparr>"
  have "index_ok hp0 (frees cs)" by (rule index_ok_cong [of hp]) (use assms(1) in \<open>auto simp: hp0_def pool_ok_def\<close>)
  then have "gap hp0 xs [(p, s, True)] ys" using assms(1) by (simp add: gap_def pool_ok_def hp0_def cs del: agree_append tiles_append)
  from merge_prev_spec [OF this] obtain hp1 us ms where r1: "merge_prev hp0 p s = Some (True, span us, span ms, hp1)"
    "gap hp1 us ms ys" "us @ ms = xs @ [(p, s, True)]" "last_free None us = None" "useds ms = {(p, s)}"
    "same_rest hp0 hp1" "\<And>w. (\<forall>(a, b) \<in> frees (xs @ (p, s, True) # ys). w \<noteq> a + 4) \<Longrightarrow> mem hp1 w = mem hp0 w" by blast
  have "ms \<noteq> []" using r1(5) by auto
  from merge_next_spec [OF r1(2) this] obtain hp2 ns zs where r2: "merge_next hp1 (span us) (span ms) = Some (True, span ns, hp2)"
    "gap hp2 us ns zs" "ns @ zs = ms @ ys" "ns \<noteq> []" "\<forall>y vs. zs = y # vs \<longrightarrow> snd (snd y)" "useds ns = useds ms"
    "same_rest hp1 hp2" "\<And>w. (\<forall>(a, b) \<in> frees (us @ ms @ ys). w \<noteq> a + 4) \<Longrightarrow> mem hp2 w = mem hp1 w" by blast
  define hp' where "hp' = (\<lambda>hp3. if hmu_is_in_heap hp3 (span us + span ns)
    then write_word (span us + span ns) (hmu_unmark_pinuse (mem hp3 (span us + span ns))) hp3 else hp3)"
  from gap_close [OF r2(2,4) r1(4) r2(5)] obtain hp3 where r3: "gci_add_fc hp2 (span us) (span ns) = (True, hp3)" "same_rest hp2 hp3"
    "pool_ok (hp' hp3) (us @ (span us, span ns, False) # zs)"
    "\<And>w. w < span us \<or> span us + span ns < w \<Longrightarrow> mem (hp' hp3) w = mem hp2 w" unfolding Let_def hp'_def by blast
  have all: "us @ ns @ zs = cs" using r2(3) r1(3) cs by (metis append.assoc append_Cons append_Nil)
  have all2: "us @ ms @ ys = cs" using all r2(3) by simp
  have t: "tiles 0 (us @ ns @ zs) (current_size hp)" using assms(1) all by (simp add: pool_ok_def)
  have U: "useds us \<union> useds zs = useds cs - {(p, s)}" using useds_apart [OF t] r1(5) r2(6) by (auto simp flip: all)
  have "mem (hp' hp3) w = mem hp w" if "w < span us \<or> span us + span ns < w" "\<forall>(a, c) \<in> frees (us @ ns @ zs). w \<noteq> a + 4" for w
    using r3(4) [OF that(1)] r1(7) [of w] r2(8) [of w] that(2) unfolding all all2 cs [symmetric] by (simp add: hp0_def)
  from kept_gap [OF t this] U have "kept hp (hp' hp3) (useds cs - {(p, s)})" by simp
  moreover have "same_rest hp3 (hp' hp3)" by (simp add: hp'_def write_word_def same_rest_def)
  ultimately have "freed_ok hp cs p s (hp' hp3)"
    unfolding freed_ok_def using r3(3) U r1(6) r2(7) r3(2)
    by (intro exI [of _ "us @ (span us, span ns, False) # zs"]) (simp add: same_rest_def hp0_def)
  moreover have "gc_free_vo hp (Some (p + 4)) = Some (GC_SUCCESS, hp' hp3)"
    using o(10-12,15) assms(1) r1(1) r2(1) r3(1) by (simp add: gc_free_vo_def HMU_SIZE_def Let_def pool_ok_def hp0_def hp'_def)
  ultimately show ?thesis by blast
qed

end
