(* ===== verification/Ems_Api.thy ===== *)
theory Ems_Api
  imports Ems_Free
begin

text \<open>
  The contract of the allocator for its clients: the pool as a set of objects with gaps between them, allocation and
  release on that set, and a locale for clients, which is interpreted on the pool.
\<close>

section \<open>Sizes and room\<close>

lemma useds_sum:
  assumes "tiles a cs b"
  shows "finite (useds cs)" "0 \<le> sum snd (useds cs)" "sum snd (useds cs) \<le> b - a"
proof -
  have "useds cs \<subseteq> (\<lambda>(p, s, u). (p, s)) ` set cs" for cs by (force simp: useds_def)
  then have f: "finite (useds cs)" for cs using finite_subset by blast
  then show "finite (useds cs)" .
  have "0 \<le> sum snd (useds cs) \<and> sum snd (useds cs) \<le> b - a"
    using assms
  proof (induction a cs b rule: tiles.induct)
    case (2 a p s u cs b)
    have "(p, s) \<notin> useds cs" using "2.prems" useds_in [of "a + s" cs b p s] by (auto simp: size_ok_def)
    then show ?case using 2 f [of cs] by (cases u) (auto simp: size_ok_def)
  qed simp
  then show "0 \<le> sum snd (useds cs)" "sum snd (useds cs) \<le> b - a" by auto
qed

text \<open>A place for \<open>n\<close> bytes between the objects in use.\<close>

definition room :: "(int \<times> int) set \<Rightarrow> int \<Rightarrow> int \<Rightarrow> bool" where
  "room U sz n \<longleftrightarrow> (\<exists>a \<ge> 0. a + n \<le> sz \<and> (\<forall>(q, t) \<in> U. a + n \<le> q \<or> q + t \<le> a))"

lemma room_in_chunk:
  assumes "tiles a cs b" "agree m prev cs" "a \<le> x" "x + n \<le> b" "0 < n" "\<forall>(q, t) \<in> useds cs. x + n \<le> q \<or> q + t \<le> x"
  shows "\<exists>(p, s) \<in> frees cs. n \<le> s"
  using assms
proof (induction a cs b arbitrary: prev rule: tiles.induct)
  case (2 a p s u cs b)
  show ?case
  proof (cases "a + s \<le> x")
    case True
    then have "\<exists>(p, s) \<in> frees cs. n \<le> s" using 2 by (cases u) auto
    then show ?thesis by (cases u) auto
  next
    case False
    then have u: "\<not> u" using "2.prems" by (cases u) auto
    have "x + n \<le> a + s"
    proof (cases cs)
      case Nil
      then show ?thesis using "2.prems" by auto
    next
      case (Cons c ds)
      obtain q t v where c: "c = (q, t, v)" by (cases c)
      have "v" "q = a + s" "size_ok t" using "2.prems"(1,2) Cons c u by auto
      then show ?thesis using "2.prems"(6) Cons c u False by (auto simp: size_ok_def)
    qed
    then show ?thesis using "2.prems"(1,3) u by auto
  qed
qed simp

lemma room_iff:
  assumes "pool_ok hp cs" "0 < n"
  shows "(\<exists>(p, s) \<in> frees cs. n \<le> s) \<longleftrightarrow> room (useds cs) (current_size hp) n"
proof
  have t: "tiles 0 cs (current_size hp)" "agree (mem hp) None cs" using assms(1) by (auto simp: pool_ok_def)
  show "room (useds cs) (current_size hp) n" if "\<exists>(p, s) \<in> frees cs. n \<le> s"
  proof -
    from that obtain p s where p: "(p, s) \<in> frees cs" "n \<le> s" by blast
    have "p + n \<le> q \<or> q + t \<le> p" if "(q, t) \<in> useds cs" for q t
      using tiles_disjoint [OF t(1), of p s False q t True] p that by (auto simp: frees_def useds_def)
    then show ?thesis unfolding room_def using frees_in [OF t(1) p(1)] p(2) by (intro exI [of _ p]) auto
  qed
  show "\<exists>(p, s) \<in> frees cs. n \<le> s" if "room (useds cs) (current_size hp) n"
    using that room_in_chunk [OF t] assms(2) unfolding room_def by blast
qed

section \<open>The contract of a pool\<close>

text \<open>A pool that pool_holds the objects \<open>U\<close>, given by the position and the size of their chunks.\<close>

definition pool_holds :: "gc_heap \<Rightarrow> (int \<times> int) set \<Rightarrow> bool" where
  "pool_holds hp U \<longleftrightarrow> (\<exists>cs. pool_ok hp cs \<and> useds cs = U) \<and> total_free_size hp = current_size hp - sum snd U"

lemma pool_holdsE:
  assumes "pool_holds hp U"
  obtains cs where "pool_ok hp cs" "useds cs = U" "tiles 0 cs (current_size hp)" "finite U" "0 \<le> sum snd U" "sum snd U \<le> current_size hp"
    "current_size hp < 2 ^ 30"
proof -
  obtain cs where cs: "pool_ok hp cs" "useds cs = U" using assms by (auto simp: pool_holds_def)
  then have t: "tiles 0 cs (current_size hp)" by (simp add: pool_ok_def)
  show ?thesis using that [OF cs t] useds_sum [OF t] cs pool_index [OF cs(1)] by simp
qed

lemma pool_holds_in: "pool_holds hp U \<Longrightarrow> (p, s) \<in> U \<Longrightarrow> 0 \<le> p \<and> p + s \<le> current_size hp \<and> 16 \<le> s \<and> 8 dvd p"
  by (erule pool_holdsE) (auto dest: useds_in simp: size_ok_def)

lemma pool_holds_disjoint:
  assumes "pool_holds hp U" "(p, s) \<in> U" "(q, t) \<in> U" "(p, s) \<noteq> (q, t)"
  shows "p + s \<le> q \<or> q + t \<le> p"
proof -
  obtain cs where "tiles 0 cs (current_size hp)" "useds cs = U" using pool_holdsE [OF assms(1)] by metis
  then show ?thesis using tiles_disjoint [of 0 cs _ p s True q t True] assms(2-4) by (auto simp: useds_def)
qed

lemma pool_holds_unique: "pool_holds hp U \<Longrightarrow> (p, s) \<in> U \<Longrightarrow> (p, t) \<in> U \<Longrightarrow> s = t"
  using pool_holds_disjoint [of hp U p s p t] pool_holds_in [of hp U p s] pool_holds_in [of hp U p t] by auto

lemma pool_holds_not_corrupted: "pool_holds hp U \<Longrightarrow> \<not> is_heap_corrupted hp"
  by (auto simp: pool_holds_def pool_ok_def)

lemma gc_uint32_small: "0 \<le> x \<Longrightarrow> x < 2 ^ 32 \<Longrightarrow> gc_uint32 x = x"
  by (simp add: gc_uint32_def)

text \<open>A chunk that was given away is a new object, apart from the others.\<close>

lemma given_holds:
  assumes "pool_holds hp (useds cs)" "pool_ok hp cs" "16 \<le> n" "given_ok hp cs n p hp'"
  shows "\<exists>t \<ge> n. p \<notin> fst ` useds cs \<and> pool_holds hp' (insert (p, t) (useds cs)) \<and> (base_addr hp + (p + 4)) mod 8 = 0 \<and>
    kept hp hp' (useds cs) \<and> current_size hp' = current_size hp \<and> base_addr hp' = base_addr hp"
proof -
  have tl: "tiles 0 cs (current_size hp)" "current_size hp < 2 ^ 30" using assms(2) pool_index [OF assms(2)] by (auto simp: pool_ok_def)
  obtain xs s ys where g: "cs = xs @ (p, s, False) # ys" "best_fit cs n p s" "pool_ok hp' (xs @ given p s n @ ys)"
    "current_size hp' = current_size hp" "base_addr hp' = base_addr hp" "total_free_size hp' = gc_uint32 (total_free_size hp - given_size s n)"
    "\<forall>w. w < p \<or> p + s < w \<longrightarrow> mem hp' w = mem hp w" using assms(4) unfolding given_ok_def by blast
  define t where "t = given_size s n"
  have U': "useds (xs @ given p s n @ ys) = insert (p, t) (useds cs)" using g(1) by (auto simp: given_def given_size_def t_def)
  have apart: "q + v \<le> p \<or> p + s \<le> q" if "(q, v) \<in> useds cs" for q v
    using tiles_disjoint [OF tl(1), of p s False q v True] that g(1) by (auto simp: useds_def)
  have s: "size_ok s" "n \<le> s" using g(2) frees_in [OF tl(1)] by (auto simp: best_fit_def)
  then have t: "n \<le> t" "t \<le> s" by (auto simp: t_def given_size_def)
  have new: "p \<notin> fst ` useds cs"
  proof
    assume "p \<in> fst ` useds cs"
    then obtain v where "(p, v) \<in> useds cs" by auto
    then show False using apart [of p v] pool_holds_in [OF assms(1), of p v] s(1) by (auto simp: size_ok_def)
  qed
  then have sum: "sum snd (insert (p, t) (useds cs)) = t + sum snd (useds cs)" using useds_sum(1) [OF tl(1)] by (subst sum.insert) force+
  have "sum snd (insert (p, t) (useds cs)) \<le> current_size hp"
    using useds_sum(3) [of 0 _ "current_size hp"] g(3,4) U' by (metis diff_zero pool_ok_def)
  then have "total_free_size hp' = current_size hp' - sum snd (insert (p, t) (useds cs))"
    using g(4) sum assms(1,3) tl(2) t(1) useds_sum(2) [OF tl(1)] by (subst g(6), subst gc_uint32_small) (auto simp: pool_holds_def simp flip: t_def)
  then have "pool_holds hp' (insert (p, t) (useds cs))" using g(3) U' unfolding pool_holds_def by blast
  moreover have "kept hp hp' (useds cs)" unfolding kept_def using apart g(7) by (fastforce simp: size_ok_def)
  moreover have "(base_addr hp + (p + 4)) mod 8 = 0"
    using base_aligned [OF assms(2), of p s] g(2) by (simp add: best_fit_def HMU_SIZE_def add.assoc)
  ultimately show ?thesis using t(1) new g(4,5) by (intro exI [of _ t]) simp
qed

text \<open>Allocation succeeds exactly if there is room.\<close>

lemma pool_holds_malloc:
  assumes "pool_holds hp U" "0 \<le> n" "n < 2 ^ 32"
  shows "case mem_allocator_malloc hp n of
      (None, hp') \<Rightarrow> hp' = hp \<and> \<not> room U (current_size hp) (need n)
    | (Some r, hp') \<Rightarrow> room U (current_size hp) (need n) \<and> (\<exists>s \<ge> need n. r - 4 \<notin> fst ` U \<and> pool_holds hp' (insert (r - 4, s) U) \<and> (base_addr hp + r) mod 8 = 0 \<and>
        kept hp hp' U \<and> current_size hp' = current_size hp \<and> base_addr hp' = base_addr hp)"
proof -
  obtain cs where cs: "pool_ok hp cs" "useds cs = U" using assms(1) by (auto simp: pool_holds_def)
  have n: "16 \<le> need n" "0 < need n" using need_ok [OF assms(2)] by auto
  note rm = room_iff [OF cs(1) n(2), unfolded cs(2)]
  note sp = alloc_vo_spec [OF cs(1) assms(2,3)]
  show ?thesis
  proof (cases "room U (current_size hp) (need n)")
    case False
    then show ?thesis using sp rm by (simp add: mem_allocator_malloc_def)
  next
    case True
    with sp rm obtain p hp' where r: "gc_alloc_vo hp n = (Some (p + 4), hp')" "given_ok hp cs (need n) p hp'" by auto
    from given_holds [OF _ cs(1) n(1) r(2)] assms(1) cs(2) show ?thesis using r(1) True by (simp add: mem_allocator_malloc_def)
  qed
qed

lemma pool_holds_free:
  assumes "pool_holds hp U" "(p, s) \<in> U"
  shows "\<exists>hp'. mem_allocator_free hp (Some (p + 4)) = Some hp' \<and> pool_holds hp' (U - {(p, s)}) \<and> kept hp hp' (U - {(p, s)}) \<and>
    current_size hp' = current_size hp \<and> base_addr hp' = base_addr hp"
proof -
  obtain cs where cs: "pool_ok hp cs" "useds cs = U" "tiles 0 cs (current_size hp)" "finite U" "0 \<le> sum snd U" "sum snd U \<le> current_size hp"
    "current_size hp < 2 ^ 30" by (rule pool_holdsE [OF assms(1)])
  from free_vo_spec [OF cs(1)] assms(2) cs(2) obtain hp' where r: "gc_free_vo hp (Some (p + 4)) = Some (GC_SUCCESS, hp')" "freed_ok hp cs p s hp'" by blast
  have sum: "sum snd (U - {(p, s)}) = sum snd U - s" using assms(2) cs(4) by (simp add: sum_diff1)
  have "0 \<le> sum snd (U - {(p, s)})" using pool_holds_in [OF assms(1)] by (intro sum_nonneg) force
  then have "gc_uint32 (total_free_size hp + s) = current_size hp - sum snd (U - {(p, s)})"
    using sum cs(6,7) assms(1) pool_holds_in [OF assms] by (subst gc_uint32_small) (auto simp: pool_holds_def)
  moreover from r(2) obtain cs' where cs': "pool_ok hp' cs'" "useds cs' = U - {(p, s)}" "kept hp hp' (U - {(p, s)})"
    "current_size hp' = current_size hp" "base_addr hp' = base_addr hp" "total_free_size hp' = gc_uint32 (total_free_size hp + s)"
    unfolding freed_ok_def cs(2) by blast
  ultimately have "pool_holds hp' (U - {(p, s)})" unfolding pool_holds_def by auto
  then show ?thesis using r(1) cs'(3-5) by (simp add: mem_allocator_free_def)
qed

text \<open>The data of an object belongs to its user.\<close>

lemma pool_holds_write:
  assumes "pool_holds hp U" "(p, s) \<in> U" "p < w" "w < p + s"
  shows "pool_holds (write_word w v hp) U"
proof -
  obtain cs where cs: "pool_ok hp cs" "useds cs = U" "tiles 0 cs (current_size hp)" using pool_holdsE [OF assms(1)] by metis
  have p: "(p, s, True) \<in> set cs" using assms(2) cs(2) by (auto simp: useds_def)
  have other: "w \<noteq> x" if "(q, t, False) \<in> set cs" "q \<le> x" "x < q + t" for q t x
    using tiles_disjoint [OF cs(3) p that(1)] assms(3,4) that by auto
  have header: "w \<noteq> q" if "(q, t, u) \<in> set cs" for q t u
    using tiles_disjoint [OF cs(3) p that] tiles_in [OF cs(3) that] assms(3,4) by (cases "(q, t, u) = (p, s, True)") (auto simp: size_ok_def)
  have "agree (mem (write_word w v hp)) None cs = agree (mem hp) None cs"
  proof (rule agree_cong [OF cs(3)])
    show "mem (write_word w v hp) q = mem hp q" if "(q, t, u) \<in> set cs" for q t u using header [OF that] by (simp add: write_word_def)
    show "mem (write_word w v hp) (q + t - 4) = mem hp (q + t - 4)" if "(q, t) \<in> frees cs" for q t
      using other [of q t "q + t - 4"] that frees_in [OF cs(3) that] by (auto simp: write_word_def frees_def size_ok_def)
  qed simp
  moreover have "index_ok (write_word w v hp) (frees cs)"
  proof (rule index_ok_cong [of hp])
    show "mem (write_word w v hp) (q + 4) = mem hp (q + 4)" if "(q, t) \<in> frees cs" for q t
      using other [of q t "q + 4"] that frees_in [OF cs(3) that] by (auto simp: write_word_def frees_def size_ok_def)
  qed (use cs(1) in \<open>auto simp: write_word_def pool_ok_def\<close>)
  ultimately have "pool_ok (write_word w v hp) cs" using cs(1) by (simp add: pool_ok_def write_word_def)
  then show ?thesis using assms(1) cs(2) by (auto simp: pool_holds_def write_word_def)
qed

section \<open>Clients\<close>

text \<open>A client asks for objects, writes words into them and frees them; \<open>live\<close> lists its objects with the sizes that
  it asked for. A request that the client may not make is not made.\<close>

datatype request = Malloc u32 | Write nat int u32 | Free nat

fun serve :: "('s \<Rightarrow> u32 \<Rightarrow> int option \<times> 's) \<Rightarrow> (int \<Rightarrow> u32 \<Rightarrow> 's \<Rightarrow> 's) \<Rightarrow> ('s \<Rightarrow> int \<Rightarrow> 's option) \<Rightarrow>
    's \<Rightarrow> (int \<times> int) list \<Rightarrow> request list \<Rightarrow> ('s \<times> (int \<times> int) list) option" where
  "serve malloc store free h live [] = Some (h, live)"
| "serve malloc store free h live (Malloc n # rs) =
     (case malloc h n of
       (None, h) \<Rightarrow> serve malloc store free h live rs
     | (Some r, h) \<Rightarrow> serve malloc store free h ((r, uint n) # live) rs)"
| "serve malloc store free h live (Write i d v # rs) =
     (if i < length live \<and> 0 \<le> d \<and> d + 4 \<le> snd (live ! i) \<and> 4 dvd d
      then serve malloc store free (store (fst (live ! i) + d) v h) live rs
      else serve malloc store free h live rs)"
| "serve malloc store free h live (Free i # rs) =
     (if i < length live
      then case free h (fst (live ! i)) of None \<Rightarrow> None
        | Some h \<Rightarrow> serve malloc store free h (take i live @ drop (Suc i) live) rs
      else serve malloc store free h live rs)"

text \<open>What an allocator promises: \<open>pool_holds h U\<close> says that it manages the objects \<open>U\<close>.\<close>

locale allocator =
  fixes pool_holds :: "'s \<Rightarrow> (int \<times> int) set \<Rightarrow> bool"
    and malloc :: "'s \<Rightarrow> u32 \<Rightarrow> int option \<times> 's"
    and store :: "int \<Rightarrow> u32 \<Rightarrow> 's \<Rightarrow> 's"
    and free :: "'s \<Rightarrow> int \<Rightarrow> 's option"
  assumes one_size: "pool_holds h U \<Longrightarrow> (p, s) \<in> U \<Longrightarrow> (p, t) \<in> U \<Longrightarrow> s = t"
    and apart: "pool_holds h U \<Longrightarrow> (p, s) \<in> U \<Longrightarrow> (q, t) \<in> U \<Longrightarrow> p \<noteq> q \<Longrightarrow> p + s \<le> q \<or> q + t \<le> p"
    and malloc_none: "pool_holds h U \<Longrightarrow> malloc h n = (None, h') \<Longrightarrow> pool_holds h' U"
    and malloc_some: "pool_holds h U \<Longrightarrow> malloc h n = (Some r, h') \<Longrightarrow>
      \<exists>s \<ge> uint n + 4. r - 4 \<notin> fst ` U \<and> pool_holds h' (insert (r - 4, s) U)"
    and write_inside: "pool_holds h U \<Longrightarrow> (p, s) \<in> U \<Longrightarrow> p < w \<Longrightarrow> w < p + s \<Longrightarrow> pool_holds (store w v h) U"
    and free_object: "pool_holds h U \<Longrightarrow> (p, s) \<in> U \<Longrightarrow> \<exists>h'. free h (p + 4) = Some h' \<and> pool_holds h' (U - {(p, s)})"
begin

definition tracks :: "'s \<Rightarrow> (int \<times> int) list \<Rightarrow> bool" where
  "tracks h live \<longleftrightarrow> (\<exists>U. pool_holds h U \<and> fst ` U = (\<lambda>(r, n). r - 4) ` set live \<and> distinct (map fst live) \<and>
     (\<forall>(r, n) \<in> set live. \<exists>s. (r - 4, s) \<in> U \<and> n + 4 \<le> s))"

lemma tracks_free:
  assumes "tracks h live" "i < length live"
  shows "\<exists>h'. free h (fst (live ! i)) = Some h' \<and> tracks h' (take i live @ drop (Suc i) live)"
proof -
  obtain U where U: "pool_holds h U" "fst ` U = (\<lambda>(r, n). r - 4) ` set live" "distinct (map fst live)"
    "\<forall>(r, n) \<in> set live. \<exists>s. (r - 4, s) \<in> U \<and> n + 4 \<le> s" using assms(1) by (auto simp: tracks_def)
  obtain r n where r: "live ! i = (r, n)" by (cases "live ! i")
  have split: "live = take i live @ (r, n) # drop (Suc i) live" using id_take_nth_drop [OF assms(2)] r by simp
  define rest where "rest = take i live @ drop (Suc i) live"
  have live: "set live = insert (r, n) (set rest)" by (subst split) (simp add: rest_def)
  have "distinct (map fst (take i live @ (r, n) # drop (Suc i) live))" using U(3) split by simp
  then have d: "distinct (map fst rest)" "r \<notin> fst ` set rest" by (auto simp: rest_def)
  have "(r, n) \<in> set live" by (simp add: live)
  then obtain s where s: "(r - 4, s) \<in> U" using U(4) by blast
  from free_object [OF U(1) this] obtain h' where h': "free h r = Some h'" "pool_holds h' (U - {(r - 4, s)})" by auto
  have "x \<noteq> r - 4" if "(x, t) \<in> U - {(r - 4, s)}" for x t using one_size [OF U(1)] s that by blast
  then have "fst ` (U - {(r - 4, s)}) = fst ` U - {r - 4}" by force
  also have "\<dots> = (\<lambda>(r, n). r - 4) ` set rest" unfolding U(2) live using d(2) by force
  finally have "fst ` (U - {(r - 4, s)}) = (\<lambda>(r, n). r - 4) ` set rest" .
  moreover have "\<exists>t. (r' - 4, t) \<in> U - {(r - 4, s)} \<and> n' + 4 \<le> t" if "(r', n') \<in> set rest" for r' n'
    using U(4) live that d(2) by force
  ultimately have "tracks h' rest" unfolding tracks_def using h'(2) d(1) by blast
  then show ?thesis using h'(1) r by (simp add: rest_def)
qed

lemma tracks_malloc:
  assumes "tracks h live"
  shows "case malloc h n of (None, h') \<Rightarrow> tracks h' live | (Some r, h') \<Rightarrow> tracks h' ((r, uint n) # live)"
proof -
  obtain U where U: "pool_holds h U" "fst ` U = (\<lambda>(r, n). r - 4) ` set live" "distinct (map fst live)"
    "\<forall>(r, n) \<in> set live. \<exists>s. (r - 4, s) \<in> U \<and> n + 4 \<le> s" using assms(1) by (auto simp: tracks_def)
  obtain x h' where m: "malloc h n = (x, h')" by (cases "malloc h n")
  show ?thesis
  proof (cases x)
    case None
    then show ?thesis using malloc_none [OF U(1)] m U by (auto simp: tracks_def)
  next
    case (Some r)
    with malloc_some [OF U(1)] m obtain s where s: "uint n + 4 \<le> s" "r - 4 \<notin> fst ` U" "pool_holds h' (insert (r - 4, s) U)" by blast
    have "r \<notin> fst ` set live" using s(2) U(2) by force
    moreover have "\<forall>(r', n') \<in> set ((r, uint n) # live). \<exists>t. (r' - 4, t) \<in> insert (r - 4, s) U \<and> n' + 4 \<le> t" using U(4) s(1) by auto
    ultimately have "tracks h' ((r, uint n) # live)" unfolding tracks_def using s(3) U(2,3) by (intro exI [of _ "insert (r - 4, s) U"]) auto
    then show ?thesis using m Some by simp
  qed
qed

lemma tracks_write:
  assumes "tracks h live" "i < length live" "0 \<le> d" "d + 4 \<le> snd (live ! i)"
  shows "tracks (store (fst (live ! i) + d) v h) live"
proof -
  obtain U where U: "pool_holds h U" "fst ` U = (\<lambda>(r, n). r - 4) ` set live" "distinct (map fst live)"
    "\<forall>(r, n) \<in> set live. \<exists>s. (r - 4, s) \<in> U \<and> n + 4 \<le> s" using assms(1) by (auto simp: tracks_def)
  have "live ! i \<in> set live" using assms(2) by simp
  then obtain s where "(fst (live ! i) - 4, s) \<in> U" "snd (live ! i) + 4 \<le> s" using bspec [OF U(4), of "live ! i"] by (auto simp: case_prod_beta)
  then have "pool_holds (store (fst (live ! i) + d) v h) U" using assms(3,4) by (intro write_inside [OF U(1)]) auto
  then show ?thesis using U(2-4) by (auto simp: tracks_def)
qed

text \<open>Every sequence of requests is served, and all objects can be freed afterwards.\<close>

lemma serve_tracks: "tracks h live \<Longrightarrow> \<exists>h' live'. serve malloc store free h live rs = Some (h', live') \<and> tracks h' live'"
proof (induction rs arbitrary: h live)
  case (Cons a rs)
  show ?case
  proof (cases a)
    case (Malloc n)
    then show ?thesis using Cons.IH tracks_malloc [OF Cons.prems, of n] by (auto split: prod.splits option.splits)
  next
    case (Write i d v)
    then show ?thesis using Cons tracks_write [OF Cons.prems] by simp
  next
    case (Free i)
    then show ?thesis using Cons tracks_free [OF Cons.prems, of i] by auto
  qed
qed simp

lemma serve_frees: "tracks h live \<Longrightarrow> \<exists>h'. serve malloc store free h live (replicate (length live) (Free 0)) = Some (h', []) \<and> tracks h' []"
proof (induction live arbitrary: h)
  case (Cons x live)
  from tracks_free [OF Cons.prems, of 0] obtain h' where "free h (fst x) = Some h'" "tracks h' live" by auto
  then show ?case using Cons.IH by simp
qed simp

lemma tracks_nil: "tracks h [] \<longleftrightarrow> pool_holds h {}"
  by (auto simp: tracks_def)

lemma tracks_apart:
  assumes "tracks h live" "(r, n) \<in> set live" "(r', n') \<in> set live" "r \<noteq> r'"
  shows "r + n \<le> r' \<or> r' + n' \<le> r"
proof -
  obtain U where U: "pool_holds h U" "\<forall>(r, n) \<in> set live. \<exists>s. (r - 4, s) \<in> U \<and> n + 4 \<le> s" using assms(1) by (auto simp: tracks_def)
  obtain s s' where "(r - 4, s) \<in> U" "n + 4 \<le> s" "(r' - 4, s') \<in> U" "n' + 4 \<le> s'" using U(2) assms(2,3) by blast
  then show ?thesis using apart [OF U(1), of "r - 4" s "r' - 4" s'] assms(4) by auto
qed

end

text \<open>The pool as such an allocator; it stays where it is.\<close>

definition pool_at :: "int \<Rightarrow> int \<Rightarrow> gc_heap \<Rightarrow> (int \<times> int) set \<Rightarrow> bool" where
  "pool_at base n hp U \<longleftrightarrow> pool_holds hp U \<and> base_addr hp = base \<and> current_size hp = n"

lemma pool_atI: "pool_holds hp U \<Longrightarrow> pool_at (base_addr hp) (current_size hp) hp U"
  by (simp add: pool_at_def)

interpretation pool: allocator "pool_at base n" "\<lambda>hp n. mem_allocator_malloc hp (uint n)" write_word "\<lambda>hp r. mem_allocator_free hp (Some r)" for base n :: int
proof
  fix hp U k hp' assume "pool_at base n hp U" "mem_allocator_malloc hp (uint (k :: u32)) = (None, hp')"
  then show "pool_at base n hp' U" using pool_holds_malloc [of hp U "uint k"] uint_lt2p [of k] by (simp add: pool_at_def)
next
  fix hp U k hp' r assume a: "pool_at base n hp U" "mem_allocator_malloc hp (uint (k :: u32)) = (Some r, hp')"
  then show "\<exists>s \<ge> uint k + 4. r - 4 \<notin> fst ` U \<and> pool_at base n hp' (insert (r - 4, s) U)"
    using pool_holds_malloc [of hp U "uint k"] uint_lt2p [of k] need_ok [of "uint k"] unfolding pool_at_def by fastforce
next
  fix hp U p s assume "pool_at base n hp U" "(p, s) \<in> U"
  then show "\<exists>h'. mem_allocator_free hp (Some (p + 4)) = Some h' \<and> pool_at base n h' (U - {(p, s)})" using pool_holds_free unfolding pool_at_def by blast
next
  fix hp U p s w v assume "pool_at base n hp U" "(p, s) \<in> U" "p < w" "w < p + s"
  then show "pool_at base n (write_word w v hp) U" using pool_holds_write by (simp add: pool_at_def) (simp add: write_word_def)
next
  fix hp U p s t assume "pool_at base n hp U" "(p, s) \<in> U" "(p, t) \<in> U"
  then show "s = t" using pool_holds_unique by (auto simp: pool_at_def)
next
  fix hp U p s q t assume "pool_at base n hp U" "(p, s) \<in> U" "(q, t) \<in> U" "p \<noteq> q"
  then show "p + s \<le> q \<or> q + t \<le> p" using pool_holds_disjoint [of hp U p s q t] by (auto simp: pool_at_def)
qed

end
