(* ===== verification/Ems_Realloc.thy ===== *)
theory Ems_Realloc
  imports Ems_Api
begin

text \<open>
  Creation and migration of a pool, and the reallocation of objects: moving an object keeps the contract and its
  contents, growing over the whole of the next chunk does not.
\<close>

section \<open>Creation\<close>

lemma init_pool:
  assumes "gc_init_internal lock_ok base n = Some hp" "size_ok n" "248 \<le> n" "base mod 8 = 4"
  shows "pool_ok hp [(0, n, False)]" "pool_holds hp {}" "current_size hp = n"
proof -
  have hp: "base_addr hp = base" "current_size hp = n" "mem hp 0 = hmu_mark_pinuse (hmu_set_size (hmu_set_ut 0 HMU_FC) n)"
    "kfc_normal_list hp = (\<lambda>_. None)" "kfc_tree hp = Node Leaf (0, n) Leaf" "\<not> is_heap_corrupted hp" "total_free_size hp = n"
    using assms(1) by (auto simp: gc_init_internal_def split: if_splits)
  have "\<not> HMU_IS_FC_NORMAL n" using assms(3) by (simp add: HMU_IS_FC_NORMAL_def HMU_NORMAL_NODE_CNT_def)
  then have "tree_ok hp {(0, n)}" "lists_ok hp {(0, n)}" using hp(4,5) by (auto simp: tree_ok_def lists_ok_def intro!: exI [of _ "[]"])
  moreover have "places_ok hp {(0, n)}" using assms(2) hp(2) by (simp add: places_ok_def size_ok_def)
  ultimately show ok: "pool_ok hp [(0, n, False)]" using assms(2,4) hp by (simp add: pool_ok_def index_ok_def)
  show "pool_holds hp {}" unfolding pool_holds_def using ok hp(2,7) by (auto intro!: exI [of _ "[(0, n, False)]"])
  show "current_size hp = n" by (rule hp(2))
qed

lemma struct_pool_new:
  assumes "gc_init_with_struct_and_pool lock_ok struct_buf struct_buf_size pool_buf pool_buf_size = Some hp" "pool_buf_size < 2 ^ 30"
  shows "pool_holds hp {}" "current_size hp = (pool_buf_size - 4) div 8 * 8"
proof -
  define n where "n = (pool_buf_size - 4) div 8 * 8"
  have b: "256 \<le> pool_buf_size" "pool_buf mod 8 = 0" and i: "gc_init_internal lock_ok (pool_buf + 4) (gc_uint32 (pool_buf_size - 4) div 8 * 8) = Some hp"
    using assms(1) by (auto simp: gc_init_with_struct_and_pool_def Let_def GC_HEAD_PADDING_def APP_HEAP_SIZE_MIN_def split: if_splits)
  have u: "gc_uint32 (pool_buf_size - 4) = pool_buf_size - 4" using b assms(2) by (intro gc_uint32_small) auto
  have n: "size_ok n" "248 \<le> n" using b(1) assms(2) by (auto simp: n_def size_ok_def)
  moreover have "(pool_buf + 4) mod 8 = 4" using b(2) by presburger
  ultimately show "pool_holds hp {}" "current_size hp = (pool_buf_size - 4) div 8 * 8" using init_pool [OF i [unfolded u, folded n_def]] by (simp_all add: n_def)
qed

text \<open>A pool without objects is one free chunk.\<close>

lemma no_objects:
  assumes "pool_holds hp {}" "0 < current_size hp"
  shows "pool_ok hp [(0, current_size hp, False)]"
proof -
  obtain cs where cs: "pool_ok hp cs" "useds cs = {}" "tiles 0 cs (current_size hp)" using pool_holdsE [OF assms(1)] by metis
  then have "agree (mem hp) None cs" by (simp add: pool_ok_def)
  with cs(2,3) assms(2) have "cs = [(0, current_size hp, False)]"
    by (cases cs; cases "tl cs") (auto simp: useds_def split: if_splits)
  with cs(1) show ?thesis by simp
qed

section \<open>Migration\<close>

declare walk_chunks.simps [simp del]

lemma walk_all:
  assumes "tiles a cs b" "agree m prev cs" "b - a < 2 ^ 32"
  shows "walk_chunks m a b"
  using assms
proof (induction a cs b arbitrary: prev rule: tiles.induct)
  case (1 a b)
  then show ?case by (simp add: walk_chunks.simps)
next
  case (2 a p s u cs b)
  then have s: "16 \<le> s" "hmu_get_size (m a) = s" "tiles (a + s) cs b" by (auto simp: size_ok_def)
  then have "a + s \<le> b" using tiles_span by fastforce
  moreover from this have "gc_uint32 (b - a) = b - a" using s(1) "2.prems"(3) by (intro gc_uint32_small) auto
  moreover have "walk_chunks m (a + s) b" using 2 s by auto
  ultimately show ?case using s by (subst walk_chunks.simps) (simp add: Let_def)
qed

lemma migrate_result:
  assumes "pool_holds hp U" "pool_buf_new mod 8 = 0" "pool_buf_size < 2 ^ 32" "current_size hp + 4 \<le> pool_buf_size"
  defines "offset \<equiv> pool_buf_new + 4 - base_addr hp"
  shows "gc_migrate hp pool_buf_new pool_buf_size =
    (GC_SUCCESS, hp\<lparr>base_addr := pool_buf_new + 4, kfc_normal_list := \<lambda>i. map_option (\<lambda>p. p - offset) (kfc_normal_list hp i)\<rparr>)"
proof -
  obtain cs where cs: "pool_ok hp cs" "useds cs = U" "tiles 0 cs (current_size hp)" "finite U" "0 \<le> sum snd U" "sum snd U \<le> current_size hp"
    "current_size hp < 2 ^ 30" by (rule pool_holdsE [OF assms(1)])
  have c: "0 \<le> current_size hp" "8 dvd current_size hp" using cs(3,5,6) tiles_8 [OF cs(3)] by auto
  have ok: "agree (mem hp) None cs" "\<not> is_heap_corrupted hp" using cs(1) by (auto simp: pool_ok_def)
  then have "walk_chunks (mem hp) 0 (current_size hp)" using cs(3,7) by (intro walk_all) auto
  moreover have "gc_uint32 (pool_buf_size - 4) = pool_buf_size - 4" using assms(3,4) c by (intro gc_uint32_small) auto
  moreover have "current_size hp \<le> (pool_buf_size - 4) div 8 * 8" using c(2) assms(4) by presburger
  ultimately show ?thesis
    using assms(2,4) c(1) ok(2) by (auto simp: gc_migrate_def Let_def GC_HEAD_PADDING_def offset_def option.map_ident)
qed

text \<open>A pool without small free chunks can be moved: its objects and their contents stay as they are.\<close>

lemma migrate_pool:
  assumes "pool_ok hp cs" "pool_holds hp (useds cs)" "pool_buf_new mod 8 = 0" "pool_buf_size < 2 ^ 32" "current_size hp + 4 \<le> pool_buf_size"
    "\<And>p s. (p, s) \<in> frees cs \<Longrightarrow> \<not> HMU_IS_FC_NORMAL s"
  shows "\<exists>hp'. gc_migrate hp pool_buf_new pool_buf_size = (GC_SUCCESS, hp') \<and> pool_holds hp' (useds cs) \<and> mem hp' = mem hp"
proof -
  define hp' where "hp' = hp\<lparr>base_addr := pool_buf_new + 4,
    kfc_normal_list := \<lambda>i. map_option (\<lambda>p. p - (pool_buf_new + 4 - base_addr hp)) (kfc_normal_list hp i)\<rparr>"
  note ix = pool_index [OF assms(1)]
  have "lists_ok hp' (frees cs)" unfolding lists_ok_def
  proof (intro allI impI)
    fix i assume i: "i < HMU_NORMAL_NODE_CNT"
    have no: "\<not> ((p, 8 * int i) \<in> frees cs \<and> HMU_IS_FC_NORMAL (8 * int i))" for p using assms(6) by blast
    then have "kfc_normal_list hp i = None" using list_head(1) ix i by blast
    then show "\<exists>xs. chain (mem hp') (kfc_normal_list hp' i) xs \<and> distinct xs
      \<and> set xs = {p. (p, 8 * int i) \<in> frees cs \<and> HMU_IS_FC_NORMAL (8 * int i)}" using no by (intro exI [of _ "[]"]) (simp add: hp'_def)
  qed
  then have "index_ok hp' (frees cs)" using ix by (simp add: index_ok_def places_ok_def tree_ok_def hp'_def)
  moreover have "(pool_buf_new + 4) mod 8 = 4" using assms(3) by presburger
  ultimately have "pool_ok hp' cs" using assms(1) by (simp add: pool_ok_def hp'_def)
  then have "pool_holds hp' (useds cs)" using assms(2) by (auto simp: pool_holds_def hp'_def)
  then show ?thesis using migrate_result [OF assms(2-5)] by (auto simp: hp'_def)
qed

text \<open>After a move with a small free chunk, the next request that it could serve finds a head outside of the pool.\<close>

lemma migrate_stale_heads:
  assumes "pool_ok hp cs" "pool_holds hp (useds cs)" "pool_buf_new mod 8 = 0" "pool_buf_size < 2 ^ 32" "current_size hp + 4 \<le> pool_buf_size"
    "(p, s) \<in> frees cs" "HMU_IS_FC_NORMAL s" "current_size hp \<le> \<bar>pool_buf_new + 4 - base_addr hp\<bar>" "0 \<le> n" "need n \<le> s"
  shows "\<exists>hp'. gc_migrate hp pool_buf_new pool_buf_size = (GC_SUCCESS, hp') \<and> gc_alloc_vo hp' n = (None, corrupted hp')"
proof -
  define d where "d = pool_buf_new + 4 - base_addr hp"
  define hp' where "hp' = hp\<lparr>base_addr := pool_buf_new + 4, kfc_normal_list := \<lambda>i. map_option (\<lambda>p. p - d) (kfc_normal_list hp i)\<rparr>"
  note ix = pool_index [OF assms(1)]
  have s: "size_ok s" "s < 2 ^ 30" using ix place_bounds(2,7) assms(6) by blast+
  have n: "n + 4 \<le> need n" "16 \<le> need n" "8 dvd need n" "size_ok (need n)" using need_ok [OF assms(9)] assms(10) s by (auto simp: size_ok_def)
  have nn: "HMU_IS_FC_NORMAL (need n)" using assms(7,10) by (simp add: HMU_IS_FC_NORMAL_def)
  obtain k where k: "find (\<lambda>i. kfc_normal_list hp i \<noteq> None) [nat (need n div 8)..<HMU_NORMAL_NODE_CNT] = Some k"
    using lists_searched(2) [OF assms(1) n(4) _ assms(6,10)] assms(7) by fastforce
  from lists_searched(1) [OF assms(1) n(4) k] obtain q where q: "kfc_normal_list hp k = Some q" "best_fit cs (need n) q (8 * int k)" by blast
  then have "0 \<le> q" "q < current_size hp" using ix place_bounds(1) [of hp "frees cs" q] by (auto simp: best_fit_def hmu_is_in_heap_def)
  then have out: "\<not> hmu_is_in_heap hp' (q - d)" using assms(8) by (auto simp: hmu_is_in_heap_def hp'_def d_def)
  define t where "t = (n + 11) div 8 * 8"
  have t: "n + 4 \<le> t" "max 16 t = need n" by (auto simp: t_def need_def)
  have "alloc_hmu hp' t = alloc_hmu hp' (need n)" unfolding t(2) [symmetric] by (simp add: alloc_hmu_def smallest_size max_def)
  also have "\<dots> = (None, corrupted hp')"
    using nn n(2) k q(1) out by (simp add: alloc_hmu_def smallest_size Let_def hp'_def)
  finally have "alloc_hmu hp' t = (None, corrupted hp')" .
  moreover have "n + 11 < 2 ^ 32" using n(1) assms(10) s(2) by simp
  ultimately have "gc_alloc_vo hp' n = (None, corrupted hp')"
    using alloc_size_fits [OF assms(9)] t(1) pool_holds_not_corrupted [OF assms(2)] by (simp add: gc_alloc_vo_def t_def hp'_def)
  then show ?thesis using migrate_result [OF assms(2-5)] by (auto simp: hp'_def d_def)
qed

section \<open>Growth in place\<close>

lemma clear_far: "w + 4 \<le> a \<or> b \<le> w \<Longrightarrow> clear_bytes a b m w = m w"
  by (auto simp: clear_bytes_def)

text \<open>The headers decide where the chunks are.\<close>

lemma headers_decide:
  assumes "tiles a xs c" "tiles a cs b" "c < b" "agree m prev xs" "agree m' prev' cs" "\<And>p s u. (p, s, u) \<in> set xs \<Longrightarrow> m' p = m p"
  shows "\<exists>rest. cs = xs @ rest"
  using assms
proof (induction a xs c arbitrary: cs prev prev' rule: tiles.induct)
  case (2 a p s u xs c)
  have "a + s \<le> c" using "2.prems"(1) tiles_span [of "a + s" xs c] by auto
  then obtain t v ds where cs: "cs = (a, t, v) # ds" using "2.prems"(1-3) by (cases cs; cases "hd cs") (auto simp: size_ok_def)
  have m: "m' a = m a" using "2.prems"(1,6) by auto
  then have tv: "t = s" "v = u" using "2.prems"(1,4,5) cs by (auto split: if_splits)
  have "\<exists>rest. ds = xs @ rest"
  proof (rule "2.IH")
    show "m' p = m p" if "(p, s, u) \<in> set xs" for p s u using "2.prems"(6) that by (meson list.set_intros(2))
  qed (use "2.prems" cs tv in auto)
  then show ?case using "2.prems"(1) cs tv by auto
qed simp

lemma grown_header:
  assumes "tiles 0 xs p" "agree m None xs" "\<And>q s u. (q, s, u) \<in> set xs \<Longrightarrow> m' q = m q"
    "hmu_get_size (m' p) = g" "hmu_get_ut (m' p) = HMU_VO" "p + g < b" "0 \<le> g" "\<not> hmu_get_pinuse (m' (p + g))"
  shows "\<not> (tiles 0 cs b \<and> agree m' None cs)"
proof
  assume cs: "tiles 0 cs b \<and> agree m' None cs"
  have "\<exists>rest. cs = xs @ rest"
  proof (rule headers_decide [OF assms(1) _ _ assms(2)])
    show "tiles 0 cs b" "agree m' None cs" "p < b" using cs assms(6,7) by auto
  qed (fact assms(3))
  then obtain rest where rest: "cs = xs @ rest" by blast
  then have r: "tiles p rest b" "agree m' (last_free None xs) rest" using cs assms(1) tiles_span [OF assms(1)] by auto
  then obtain s u ds where d: "rest = (p, s, u) # ds" using assms(6,7) by (cases rest; cases "hd rest") auto
  then have "u" "s = g" "tiles (p + g) ds b" "agree m' None ds" using r assms(4,5) by (auto split: if_splits)
  then show False using assms(6,8) by (cases ds) auto
qed

text \<open>An object that grows over all of the free chunk behind it: the object after that still says that the chunk
  in front of it is free, so that the headers do not describe the pool any more.\<close>

lemma grow_over_chunk:
  assumes "pool_ok hp (xs @ (p, s, True) # (p + s, t, False) # (p + s + t, v, True) # ys)" "0 \<le> n" "(n + 11) div 8 * 8 = s + t"
  shows "\<exists>hp'. gc_realloc_vo hp (Some (p + 4)) n = Some (Some (p + 4), hp') \<and> hmu_get_size (mem hp' p) = s + t \<and>
    hmu_get_ut (mem hp' p) = HMU_VO \<and> mem hp' (p + s + t) = mem hp (p + s + t) \<and> (\<nexists>cs. pool_ok hp' cs) \<and>
    total_free_size hp' = total_free_size hp"
proof -
  let ?cs = "xs @ (p, s, True) # (p + s, t, False) # (p + s + t, v, True) # ys"
  have tl: "tiles 0 ?cs (current_size hp)" "agree (mem hp) None ?cs" "index_ok hp (frees ?cs)" "\<not> is_heap_corrupted hp" "current_size hp < 2 ^ 30"
    using assms(1) pool_index [OF assms(1)] unfolding pool_ok_def by blast+
  have b: "0 \<le> p" "p + s + t < current_size hp" "16 \<le> s" "16 \<le> t" "8 dvd p" "8 dvd s" "8 dvd t"
    using tiles_in [OF tl(1), of p s True] tiles_in [OF tl(1), of "p + s" t False] tiles_in [OF tl(1), of "p + s + t" v True] tl(1) by (auto simp: size_ok_def)
  have g: "size_ok (s + t)" using b tl(5) by (simp add: size_ok_def)
  have h: "hmu_get_size (mem hp p) = s" "hmu_get_ut (mem hp p) = HMU_VO" "hmu_get_ut (mem hp (p + s)) = HMU_FC"
    "hmu_get_size (mem hp (p + s)) = t" "\<not> hmu_get_pinuse (mem hp (p + s + t))" using tl(2) by auto
  from unlink_spec [OF tl(3) _ h(3,4)] obtain hp1 where hp1: "unlink_hmu hp (p + s) = Some (True, hp1)" "same_rest hp hp1"
    "\<And>w. \<forall>(q, t) \<in> frees ?cs. w \<noteq> q + 4 \<Longrightarrow> mem hp1 w = mem hp w" by auto
  have link: "mem hp1 w = mem hp w" if "8 dvd w" for w
  proof (rule hp1(3), clarify)
    fix q t' assume "(q, t') \<in> frees ?cs" "w = q + 4"
    moreover from this have "8 dvd q" using frees_in [OF tl(1)] by fastforce
    ultimately show False using that by presburger
  qed
  define hp2 where "hp2 = write_word p (hmu_set_size (mem hp1 p) (s + t)) hp1"
  define hp3 where "hp3 = hp2\<lparr>mem := clear_bytes (p + s) (p + s + t) (mem hp2)\<rparr>"
  have m3: "mem hp3 w = mem hp w" if "8 dvd w" "w < p \<or> p + s + t \<le> w" for w
  proof -
    have "clear_bytes (p + s) (p + s + t) (mem hp2) w = mem hp2 w" using that(2) b by (intro clear_far) auto
    moreover have "w \<noteq> p" using that(2) b by auto
    ultimately show ?thesis using link [OF that(1)] by (simp add: hp3_def hp2_def write_word_def)
  qed
  have p3: "mem hp3 p = hmu_set_size (mem hp p) (s + t)" using b link [of p] by (simp add: hp3_def hp2_def write_word_def clear_far)
  have "n + 11 < s + t + 8" using assms(3) by presburger
  then have "n + 11 < 2 ^ 32" using tl(5) b(1,2) by simp
  from alloc_size_fits [OF assms(2) this] have "alloc_size n = (n + 4, s + t)" using assms(3) by simp
  moreover have "\<not> s + t < n" using assms(3) by presburger
  ultimately have "gc_realloc_vo hp (Some (p + 4)) n = Some (Some (p + 4), hp3)"
    using tl(4) b h(1,3,4) hp1(1) by (simp add: gc_realloc_vo_def HMU_SIZE_def hmu_is_in_heap_def hp3_def hp2_def add.assoc Let_def)
  moreover have "\<not> pool_ok hp3 cs" for cs
  proof -
    have "m' q = mem hp q" if "(q, s', u) \<in> set xs" "m' = mem hp3" for q s' u m'
    proof -
      have "tiles 0 xs p" using tl(1) by simp
      from tiles_in [OF this that(1)] show ?thesis using m3 [of q] that(2) by (simp add: size_ok_def)
    qed
    then have "\<not> (tiles 0 cs (current_size hp) \<and> agree (mem hp3) None cs)"
      using tl(1,2) p3 g h(2,5) b m3 [of "p + s + t"] by (intro grown_header [of xs p "mem hp" _ "s + t"]) (auto simp: add.assoc)
    moreover have "current_size hp3 = current_size hp" using hp1(2) by (simp add: hp3_def hp2_def write_word_def same_rest_def)
    ultimately show ?thesis by (auto simp: pool_ok_def)
  qed
  moreover have "total_free_size hp3 = total_free_size hp" using hp1(2) by (simp add: hp3_def hp2_def write_word_def same_rest_def)
  ultimately show ?thesis using p3 g h(2) m3 [of "p + s + t"] b by (intro exI [of _ hp3]) auto
qed

section \<open>Moving an object\<close>

lemma move_object_inside:
  "w \<le> p \<or> p + g \<le> w \<Longrightarrow> s \<le> g \<Longrightarrow> move_object (p + 4) (g - 4) old (s - 4) m w = m w"
  by (auto simp: move_object_def clear_bytes_def)

text \<open>An object that does not fit into its chunk and cannot grow in place is moved with its contents.\<close>

lemma realloc_moves:
  assumes "pool_holds hp U" "(p, s) \<in> U" "0 \<le> n" "n + 11 < 2 ^ 32" "s < (n + 11) div 8 * 8"
    "\<not> (hmu_is_in_heap hp (p + s) \<and> hmu_get_ut (mem hp (p + s)) = HMU_FC \<and> (n + 11) div 8 * 8 \<le> s + hmu_get_size (mem hp (p + s)))"
  shows "if room U (current_size hp) (need n) then \<exists>r hp' t. gc_realloc_vo hp (Some (p + 4)) n = Some (Some r, hp') \<and>
      need n \<le> t \<and> pool_holds hp' (insert (r - 4, t) (U - {(p, s)})) \<and> kept hp hp' (U - {(p, s)}) \<and>
      (\<forall>d. 0 \<le> d \<and> d < s - 4 \<longrightarrow> mem hp' (r + d) = mem hp (p + 4 + d))
    else gc_realloc_vo hp (Some (p + 4)) n = Some (None, hp)"
proof -
  obtain cs where cs: "pool_ok hp cs" "useds cs = U" using assms(1) by (auto simp: pool_holds_def)
  define tot where "tot = (n + 11) div 8 * 8"
  have tot: "n + 4 \<le> tot" "8 dvd tot" "max 16 tot = need n" by (auto simp: tot_def need_def)
  have n: "16 \<le> need n" "8 dvd need n" "0 < need n" using need_ok [OF assms(3)] by auto
  note sp = alloc_hmu_spec [OF cs(1) tot(2), unfolded tot(3)]
  note rm = room_iff [OF cs(1) n(3), unfolded cs(2)]
  obtain xs ys where "cs = xs @ (p, s, True) # ys" using useds_split assms(2) cs(2) by blast
  then have h: "hmu_get_size (mem hp p) = s" using pool_chunk(10) cs(1) by blast
  have move: "gc_realloc_vo hp (Some (p + 4)) n = realloc_move hp (Some (p + 4)) tot s"
    using alloc_size_fits [OF assms(3,4)] tot(1) assms(5,6) h pool_holds_not_corrupted [OF assms(1)]
    by (auto simp: gc_realloc_vo_def HMU_SIZE_def tot_def Let_def)
  show ?thesis
  proof (cases "room U (current_size hp) (need n)")
    case False
    then have "alloc_hmu hp tot = (None, hp)" using sp rm by (simp add: alloc_spec_def)
    then show ?thesis using False move by (simp add: realloc_move_def)
  next
    case True
    with rm have "\<exists>(p, s) \<in> frees cs. need n \<le> s" by simp
    from alloc_finish [OF cs(1) n(1,2) sp this] obtain q g hp2 where r: "alloc_hmu hp tot = (Some q, hp2)" "size_ok g" "need n \<le> g" "hmu_get_size (mem hp2 q) = g"
      "\<And>f. \<forall>m w. w \<le> q \<or> q + g \<le> w \<longrightarrow> f m w = m w \<Longrightarrow>
         given_ok hp cs (need n) q (hp2\<lparr>mem := f ((mem hp2)(q := hmu_unfree_vo (hmu_set_ut (mem hp2 q) HMU_VO)))\<rparr>)" by blast
    define m where "m = (mem hp2)(q := hmu_unfree_vo (hmu_set_ut (mem hp2 q) HMU_VO))"
    define hp3 where "hp3 = hp2\<lparr>mem := move_object (q + 4) (g - 4) (p + 4) (s - 4) m\<rparr>"
    have s: "s \<le> g" using assms(5) tot r(3) by (simp add: tot_def need_def)
    have "given_ok hp cs (need n) q hp3" "given_ok hp cs (need n) q (hp2\<lparr>mem := m\<rparr>)"
      using r(5) [of "move_object (q + 4) (g - 4) (p + 4) (s - 4)"] r(5) [of id] move_object_inside s unfolding hp3_def m_def by auto
    from given_holds [OF _ cs(1) n(1) this(1)] given_holds [OF _ cs(1) n(1) this(2)] assms(1) cs(2)
    obtain t where t: "need n \<le> t" "q \<notin> fst ` U" "pool_holds hp3 (insert (q, t) U)" "kept hp hp3 U" "kept hp (hp2\<lparr>mem := m\<rparr>) U" by blast
    have pq: "p \<noteq> q" using t(2) assms(2) by force
    from pool_holds_free [OF t(3)] assms(2) obtain hp4 where f: "mem_allocator_free hp3 (Some (p + 4)) = Some hp4"
      "pool_holds hp4 (insert (q, t) U - {(p, s)})" "kept hp3 hp4 (insert (q, t) U - {(p, s)})" by blast
    have U: "insert (q, t) U - {(p, s)} = insert (q, t) (U - {(p, s)})" using pq by auto
    obtain x where "gc_free_vo hp3 (Some (p + 4)) = Some (x, hp4)" using f(1) by (auto simp: mem_allocator_free_def)
    then have "gc_realloc_vo hp (Some (p + 4)) n = Some (Some (q + 4), hp4)"
      by (simp add: move realloc_move_def HMU_SIZE_def r(1,4) Let_def write_word_def hp3_def m_def)
    moreover have "mem hp4 (q + 4 + d) = mem hp (p + 4 + d)" if d: "0 \<le> d" "d < s - 4" for d
    proof -
      have "mem hp4 (q + 4 + d) = mem hp3 (q + 4 + d)" using f(3) U d s t(1) r(3) assms(5) tot unfolding kept_def by (auto simp: tot_def need_def)
      also have "\<dots> = m (p + 4 + d)" using d by (simp add: hp3_def move_object_def)
      also have "\<dots> = mem hp (p + 4 + d)" using t(5) assms(2) d unfolding kept_def by force
      finally show ?thesis .
    qed
    moreover have "kept hp hp4 (U - {(p, s)})" using f(3) t(4) U unfolding kept_def by fastforce
    ultimately have "\<exists>r hp' t. gc_realloc_vo hp (Some (p + 4)) n = Some (Some r, hp') \<and>
      need n \<le> t \<and> pool_holds hp' (insert (r - 4, t) (U - {(p, s)})) \<and> kept hp hp' (U - {(p, s)}) \<and>
      (\<forall>d. 0 \<le> d \<and> d < s - 4 \<longrightarrow> mem hp' (r + d) = mem hp (p + 4 + d))"
      using t(1) f(2) U by (intro exI [of _ "q + 4"] exI [of _ hp4] exI [of _ t]) simp
    then show ?thesis unfolding if_P [OF True] .
  qed
qed

end
