(* ===== verification/Ems_Props.thy ===== *)
theory Ems_Props
  imports Ems_Realloc
begin

text \<open>
  The properties of the pool allocator that its clients rely on, and the one that growing in place breaks.
\<close>

text \<open>C10. Allocation from a pool that holds the objects \<open>U\<close> succeeds exactly if there is a gap for the request with
  its header, and otherwise changes nothing. A new object lies inside of the pool, is aligned to eight bytes, has
  the requested size and is apart from all objects in use; their contents and the rest of the invariant are kept.\<close>

theorem malloc_correct:
  assumes "pool_holds hp U" "0 \<le> n" "n < 2 ^ 32"
  shows "case mem_allocator_malloc hp n of
      (None, hp') \<Rightarrow> hp' = hp \<and> \<not> room U (current_size hp) (need n)
    | (Some r, hp') \<Rightarrow> room U (current_size hp) (need n) \<and> 4 \<le> r \<and> r + n \<le> current_size hp \<and> (base_addr hp + r) mod 8 = 0 \<and>
        (\<forall>(q, t) \<in> U. r + n \<le> q \<or> q + t \<le> r - 4) \<and> kept hp hp' U \<and> (\<exists>s \<ge> n + 4. pool_holds hp' (insert (r - 4, s) U))"
proof -
  note m = pool_holds_malloc [OF assms]
  obtain x hp' where x: "mem_allocator_malloc hp n = (x, hp')" by (cases "mem_allocator_malloc hp n")
  show ?thesis
  proof (cases x)
    case None
    then show ?thesis using m x by simp
  next
    case (Some r)
    with m x obtain s where s: "need n \<le> s" "r - 4 \<notin> fst ` U" "pool_holds hp' (insert (r - 4, s) U)" "(base_addr hp + r) mod 8 = 0"
      "kept hp hp' U" "current_size hp' = current_size hp" "room U (current_size hp) (need n)" by auto
    have n: "n + 4 \<le> s" using need_ok [OF assms(2)] s(1) by simp
    have "4 \<le> r" "r + n \<le> current_size hp" using pool_holds_in [OF s(3), of "r - 4" s] n s(6) by auto
    moreover have "r + n \<le> q \<or> q + t \<le> r - 4" if "(q, t) \<in> U" for q t
    proof -
      have "q \<noteq> r - 4" using s(2) that by force
      then show ?thesis using pool_holds_disjoint [OF s(3), of "r - 4" s q t] that n by auto
    qed
    ultimately show ?thesis using x Some s n by auto
  qed
qed

definition small_pool :: gc_heap where
  "small_pool = the (gc_init_with_struct_and_pool True 0 8 0 256)"

lemma small_pool: "gc_init_with_struct_and_pool True 0 8 0 256 = Some small_pool"
  by (simp add: small_pool_def gc_init_with_struct_and_pool_def gc_init_internal_def APP_HEAP_SIZE_MIN_def Let_def)

theorem malloc_correct_witness:
  "case mem_allocator_malloc small_pool 100 of
      (None, hp') \<Rightarrow> hp' = small_pool \<and> \<not> room {} (current_size small_pool) (need 100)
    | (Some r, hp') \<Rightarrow> room {} (current_size small_pool) (need 100) \<and> 4 \<le> r \<and> r + 100 \<le> current_size small_pool \<and>
        (base_addr small_pool + r) mod 8 = 0 \<and> (\<forall>(q, t) \<in> {}. r + 100 \<le> q \<or> q + t \<le> r - 4) \<and> kept small_pool hp' {} \<and>
        (\<exists>s \<ge> 100 + 4. pool_holds hp' (insert (r - 4, s) {}))"
proof -
  have "pool_holds small_pool {}" by (rule struct_pool_new(1) [OF small_pool]) simp
  then show ?thesis by (rule malloc_correct) simp_all
qed

definition serve_pool :: "gc_heap \<Rightarrow> (int \<times> int) list \<Rightarrow> request list \<Rightarrow> (gc_heap \<times> (int \<times> int) list) option" where
  "serve_pool = serve (\<lambda>hp n. mem_allocator_malloc hp (uint n)) write_word (\<lambda>hp r. mem_allocator_free hp (Some r))"

text \<open>C30. Every sequence of allocations, writes into objects and releases is served by a new pool without an endless
  search and without a report of corruption. The live objects then lie inside of the pool, aligned and pairwise apart,
  and after all of them are freed the pool is again a single free chunk with the full size accounted for.\<close>

theorem pool_session:
  assumes "gc_init_with_struct_and_pool lock_ok struct_buf struct_buf_size pool_buf pool_buf_size = Some hp" "pool_buf_size < 2 ^ 30"
  shows "\<exists>hp1 live hp2. serve_pool hp [] rs = Some (hp1, live) \<and> \<not> is_heap_corrupted hp1 \<and>
    (\<forall>(r, n) \<in> set live. 4 \<le> r \<and> r + n \<le> current_size hp \<and> (base_addr hp + r) mod 8 = 0) \<and>
    (\<forall>i j. i < j \<and> j < length live \<longrightarrow>
       fst (live ! i) + snd (live ! i) \<le> fst (live ! j) \<or> fst (live ! j) + snd (live ! j) \<le> fst (live ! i)) \<and>
    serve_pool hp1 live (replicate (length live) (Free 0)) = Some (hp2, []) \<and>
    pool_ok hp2 [(0, current_size hp, False)] \<and> total_free_size hp2 = current_size hp"
proof -
  let ?base = "base_addr hp" and ?n = "current_size hp"
  note new = struct_pool_new [OF assms]
  have "pool.tracks ?base ?n hp []" unfolding pool.tracks_nil by (rule pool_atI [OF new(1)])
  from pool.serve_tracks [OF this, of rs] obtain hp1 live where s1: "serve_pool hp [] rs = Some (hp1, live)" "pool.tracks ?base ?n hp1 live"
    unfolding serve_pool_def by blast
  from pool.serve_frees [OF s1(2)] obtain hp2 where s2: "serve_pool hp1 live (replicate (length live) (Free 0)) = Some (hp2, [])" "pool_at ?base ?n hp2 {}"
    unfolding serve_pool_def pool.tracks_nil by blast
  from s1(2) obtain U where U: "pool_holds hp1 U" "base_addr hp1 = ?base" "current_size hp1 = ?n" "distinct (map fst live)"
    "\<forall>(r, n) \<in> set live. \<exists>s. (r - 4, s) \<in> U \<and> n + 4 \<le> s" unfolding pool.tracks_def pool_at_def by blast
  have place: "4 \<le> r \<and> r + k \<le> ?n \<and> (?base + r) mod 8 = 0" if "(r, k) \<in> set live" for r k
  proof -
    from that U(5) obtain s where s: "(r - 4, s) \<in> U" "k + 4 \<le> s" by blast
    have b: "?base mod 8 = 4" using U(1,2) by (auto simp: pool_holds_def pool_ok_def)
    from pool_holds_in [OF U(1) s(1)] have r: "0 \<le> r - 4" "r - 4 + s \<le> ?n" "8 dvd r - 4" using U(3) by auto
    then have "(?base + r) mod 8 = 0" using b by presburger
    then show ?thesis using r s(2) by auto
  qed
  have apart: "fst (live ! i) + snd (live ! i) \<le> fst (live ! j) \<or> fst (live ! j) + snd (live ! j) \<le> fst (live ! i)"
    if "i < j" "j < length live" for i j
  proof (rule pool.tracks_apart [OF s1(2)])
    have "map fst live ! i \<noteq> map fst live ! j" using that U(4) by (subst nth_eq_iff_index_eq) auto
    then show "fst (live ! i) \<noteq> fst (live ! j)" using that by simp
  qed (use that in auto)
  have "0 < ?n" using assms by (subst new(2)) (auto simp: gc_init_with_struct_and_pool_def Let_def APP_HEAP_SIZE_MIN_def split: if_splits)
  then have whole: "pool_ok hp2 [(0, ?n, False)]" "total_free_size hp2 = ?n" using s2(2) no_objects [of hp2] by (auto simp: pool_at_def pool_holds_def)
  have "\<forall>(r, k) \<in> set live. 4 \<le> r \<and> r + k \<le> ?n \<and> (?base + r) mod 8 = 0" using place by auto
  with s1(1) s2(1) apart whole pool_holds_not_corrupted [OF U(1)] show ?thesis by blast
qed

theorem pool_session_witness:
  "\<exists>hp1 live hp2. serve_pool small_pool [] [Malloc 10, Malloc 60, Write 0 4 7, Malloc 500, Free 1] = Some (hp1, live) \<and>
    \<not> is_heap_corrupted hp1 \<and>
    serve_pool hp1 live (replicate (length live) (Free 0)) = Some (hp2, []) \<and> total_free_size hp2 = current_size small_pool"
  using pool_session [OF small_pool, of "[Malloc 10, Malloc 60, Write 0 4 7, Malloc 500, Free 1]"] by auto

text \<open>C14. If an object grows exactly over the free chunk behind it, \<open>mem_allocator_realloc\<close> succeeds in place but leaves
  the header of the next object as it was: that still says that the chunk in front of it is free, so that the end of
  the grown object will be taken for a size when the next object is freed. No division into chunks agrees with the
  headers any more. The size of the chunk is not subtracted from the free size either.\<close>

theorem growth_over_chunk_breaks_pool:
  assumes "pool_ok hp (xs @ (p, s, True) # (p + s, t, False) # (p + s + t, v, True) # ys)" "0 \<le> n" "(n + 11) div 8 * 8 = s + t"
  shows "\<exists>hp'. mem_allocator_realloc hp (Some (p + 4)) n = Some (Some (p + 4), hp') \<and> hmu_get_ut (mem hp' p) = HMU_VO \<and>
    hmu_get_size (mem hp' p) = s + t \<and> \<not> hmu_get_pinuse (mem hp' (p + s + t)) \<and> (\<nexists>cs. pool_ok hp' cs) \<and>
    total_free_size hp' = total_free_size hp"
proof -
  have "agree (mem hp) None (xs @ (p, s, True) # (p + s, t, False) # (p + s + t, v, True) # ys)" using assms(1) unfolding pool_ok_def by blast
  then have "\<not> hmu_get_pinuse (mem hp (p + s + t))" by simp
  then show ?thesis using grow_over_chunk [OF assms] by (auto simp: mem_allocator_realloc_def)
qed

definition three_chunks :: gc_heap where
  "three_chunks = \<lparr>base_addr = 4, current_size = 248, mem = (\<lambda>_. 0)(0 := 0xA0000003, 24 := 0x60000002, 36 := 16, 40 := 0x8000001A),
     kfc_normal_list = (\<lambda>_. None)(2 := Some 24), kfc_tree = Leaf, is_heap_corrupted = False, highmark_size = 248, total_free_size = 16\<rparr>"

lemma three_chunks_ok: "pool_ok three_chunks ([] @ (0, 24, True) # (0 + 24, 16, False) # (0 + 24 + 16, 208, True) # [])"
proof -
  have "agree (mem three_chunks) None [(0, 24, True), (24, 16, False), (40, 208, True)]"
    by (simp add: three_chunks_def hmu_get_size_def hmu_get_ut_def hmu_get_pinuse_def hmu_is_vo_freed_def GETBITS_def GETBIT_def HMU_VO_def HMU_FC_def)
  moreover have "places_ok three_chunks {(24, 16)}" by (simp add: places_ok_def size_ok_def three_chunks_def)
  moreover have "tree_ok three_chunks {(24, 16)}" by (auto simp: tree_ok_def three_chunks_def HMU_IS_FC_NORMAL_def HMU_NORMAL_NODE_CNT_def)
  moreover have "\<exists>xs. chain (mem three_chunks) (kfc_normal_list three_chunks i) xs \<and> distinct xs \<and>
      set xs = {p. (p, 8 * int i) \<in> {(24, 16)} \<and> HMU_IS_FC_NORMAL (8 * int i)}" for i
    by (cases "i = 2"; intro exI [of _ "if i = 2 then [24] else []"])
      (auto simp: three_chunks_def HMU_IS_FC_NORMAL_def HMU_NORMAL_NODE_CNT_def get_hmu_normal_node_next_def)
  ultimately show ?thesis
    by (simp add: pool_ok_def index_ok_def lists_ok_def) (simp add: three_chunks_def size_ok_def)
qed

theorem growth_over_chunk_breaks_pool_witness:
  "\<exists>hp'. mem_allocator_realloc three_chunks (Some (0 + 4)) 36 = Some (Some (0 + 4), hp') \<and> hmu_get_ut (mem hp' 0) = HMU_VO \<and>
    hmu_get_size (mem hp' 0) = 24 + 16 \<and> \<not> hmu_get_pinuse (mem hp' (0 + 24 + 16)) \<and> (\<nexists>cs. pool_ok hp' cs) \<and>
    total_free_size hp' = total_free_size three_chunks"
  by (rule growth_over_chunk_breaks_pool [OF three_chunks_ok]) simp_all

text \<open>C39. \<open>mem_allocator_migrate\<close> moves a pool and reports success, but leaves the heads of the lists of small free chunks
  where they were. If the pool has a small free chunk and moved by at least its size, the next request that the chunk
  could serve marks the heap as corrupted, and no request at all is served afterwards.\<close>

theorem migration_loses_small_chunks:
  assumes "pool_ok hp cs" "pool_holds hp (useds cs)" "pool_buf_new mod 8 = 0" "pool_buf_size < 2 ^ 32" "current_size hp + 4 \<le> pool_buf_size"
    "(p, s) \<in> frees cs" "HMU_IS_FC_NORMAL s" "current_size hp \<le> \<bar>pool_buf_new + 4 - base_addr hp\<bar>" "0 \<le> n" "need n \<le> s"
  shows "\<exists>hp'. mem_allocator_migrate hp pool_buf_new pool_buf_size = (GC_SUCCESS, hp') \<and>
    mem_allocator_malloc hp' n = (None, corrupted hp') \<and> (\<forall>k. mem_allocator_malloc (corrupted hp') k = (None, corrupted hp'))"
proof -
  have "gc_alloc_vo (corrupted hp') k = (None, corrupted hp')" for hp' k by (simp add: gc_alloc_vo_def case_prod_beta corrupted_def)
  then show ?thesis using migrate_stale_heads [OF assms] by (auto simp: mem_allocator_migrate_def mem_allocator_malloc_def)
qed

theorem migration_loses_small_chunks_witness:
  "\<exists>hp'. mem_allocator_migrate three_chunks 1000 256 = (GC_SUCCESS, hp') \<and>
    mem_allocator_malloc hp' 10 = (None, corrupted hp') \<and> (\<forall>k. mem_allocator_malloc (corrupted hp') k = (None, corrupted hp'))"
proof (rule migration_loses_small_chunks [OF three_chunks_ok])
  have "\<exists>cs. pool_ok three_chunks cs \<and> useds cs = {(0, 24), (40, 208)}"
    using three_chunks_ok by (intro exI [of _ "[(0, 24, True), (24, 16, False), (40, 208, True)]"]) simp
  then show "pool_holds three_chunks (useds ([] @ (0, 24, True) # (0 + 24, 16, False) # (0 + 24 + 16, 208, True) # []))"
    unfolding pool_holds_def by (simp add: three_chunks_def)
  show "(24, 16) \<in> frees ([] @ (0, 24, True) # (0 + 24, 16, False) # (0 + 24 + 16, 208, True) # [])" by simp
qed (simp_all add: three_chunks_def HMU_IS_FC_NORMAL_def HMU_NORMAL_NODE_CNT_def need_def)

end
