(* ===== verification/Spec2Isabelle.thy ===== *)
theory Spec2Isabelle
  imports Scenario Watz_Props Loader_Common Bh_Vector Externref Bh_List Data_Segments Ems_Props
begin

text \<open>
  WaTZ runs WebAssembly inside an Arm TrustZone enclave (OP-TEE) and attests what it runs. The
  repository holds a port of the WebAssembly Micro Runtime (two versions under \<open>src/wamr\<close>), a trusted
  application that loads and runs a module, a protocol for remote attestation, a verifier that hands
  out a secret after it has checked the evidence, and the host programs of both sides.

  \<^bold>\<open>Parts and how they interact.\<close>
  The attester (\<open>watz/ta/remote_attestation.c\<close>, called from WebAssembly through WASI) opens a socket to
  the verifier's host and exchanges four messages: its session key (message 0), the verifier's keys
  with a signature and a MAC (message 1), a quote over the anchor of the session (message 2) and the
  sealed secret (message 3). The verifier's host (\<open>vedliot_verifier/host/main.c\<close>) moves the messages
  between the socket and the verifier's trusted application (\<open>vedliot_verifier/ta\<close>), which holds the
  keys and the secret. On the other side, the WaTZ host (\<open>watz/host/main.c\<close>) reads a module from a file
  and passes it to the WaTZ trusted application (\<open>watz/ta/main.c\<close>, \<open>wasm.c\<close>), which sets up the runtime
  and runs it; the platform layer (\<open>core/shared/platform/linux-trustzone\<close>) gives the runtime memory and
  captures the output in a buffer of the normal world.

  \<^bold>\<open>Theories.\<close>
  \<^item> \<open>Prelude\<close>: byte buffers, little-endian numbers, alignment, fact collections.
  \<^item> \<open>Tee_Api\<close>: the calls of the GlobalPlatform API, of the runtime, of the mapping extensions and of
    the host system; computations that issue them and end with a value, a panic or an access outside
    a C object; weakest preconditions. \<open>Tee_Params\<close>: command parameters and host programs.
  \<^item> \<open>Gp_Spec\<close>, \<open>Honest\<close>: what the API documents (\<open>gp_tee\<close>), total correctness against environments
    that refuse nothing (\<open>honest\<close>, with the private value of the one ECDH key pair as a parameter and other key
    pairs arbitrary), observers of a trace (locale \<open>trace_observer\<close>).
  \<^item> \<open>Ra_Wire\<close>: the message structs of both headers and their codecs (locale \<open>struct_codec\<close>).
  \<^item> \<open>Attester\<close>, \<open>Attester_Spec\<close>, \<open>Attester_Honest\<close>: \<open>remote_attestation.c\<close>.
  \<^item> \<open>Verifier\<close>, \<open>Verifier_Spec\<close>, \<open>Verifier_Honest\<close>: \<open>verifier.c\<close>. \<open>Verifier_Ta\<close>: \<open>ta/main.c\<close>.
    \<open>Verifier_Host\<close>, \<open>Server_Spec\<close>, \<open>Server_Honest\<close>: \<open>host/main.c\<close>, and what its socket sees.
  \<^item> \<open>Protocol\<close>, \<open>Exchange\<close>, \<open>Scenario\<close>: both sides together, and a concrete exchange.
  \<^item> \<open>Tz_Platform\<close>, \<open>Tz_Spec\<close>: the platform layer, the mappings that are in place after a trace and the contract of
    the captured output.
  \<^item> \<open>Watz_Ta\<close>, \<open>Watz_Spec\<close>: the WaTZ trusted application. \<open>Watz_Host\<close>, \<open>Watz_Host_Spec\<close>: its host.
    \<open>Watz_Props\<close>: their properties.
  \<^item> \<open>Bh_Common\<close>, \<open>Bh_Vector\<close>, \<open>Bh_Hashmap\<close>, \<open>Bh_List\<close>, \<open>Leb128\<close>: the utilities of the runtime
    (\<open>core/shared/utils\<close>): checked copies, the growing array (locale \<open>sequence\<close>), the hash map (locale
    \<open>dictionary\<close>), the intrusive list and the number reader. \<open>Loader_Common\<close>: the checks that the loaders
    share (\<open>wasm_loader_common.c\<close>). \<open>Externref\<close>: the table of external references
    (\<open>wasm_runtime_common.c\<close>), a client of the hash map.
  \<^item> \<open>Wasm_Memory\<close>, \<open>Wasm_Memory_Spec\<close>: linear memories (\<open>wasm_memory.c\<close>, and \<open>memory_instantiate\<close> of
    \<open>aot_runtime.c\<close>), a client of the platform layer: their invariant \<open>mem_ok\<close> and the blocks that are mapped.
    \<open>Data_Segments\<close>: the copying of data segments at instantiation, with the checked copy of \<open>Bh_Common\<close>.
  \<^item> \<open>Ems_Heap\<close>: the pool allocator (\<open>core/shared/mem-alloc\<close>), which serves the heap of the trusted application and
    the application heaps inside of linear memories. \<open>Ems_Spec\<close>, \<open>Ems_Index\<close>, \<open>Ems_Pool\<close>: headers, layout, lists, tree
    and the invariant \<open>pool_ok\<close>. \<open>Ems_Alloc\<close>, \<open>Ems_Malloc\<close>, \<open>Ems_Free\<close>, \<open>Ems_Realloc\<close>: the operations.
    \<open>Ems_Api\<close>: the pool as a set of objects, and its clients (locale \<open>allocator\<close>). \<open>Ems_Props\<close>: its properties.

  \<^bold>\<open>How code is modelled.\<close>
  A C function is a definition of the same name that passes its state explicitly and returns in the
  type \<open>tee\<close>; every call into the API is a \<open>call\<close>, every access to a buffer a bounds-checked \<open>rd\<close> or
  \<open>wr\<close>, every early return and \<open>goto\<close> a branch. Functions of the same name in two programs carry a
  suffix (\<open>_v\<close> and \<open>_host\<close> in the verifier, \<open>_w\<close> in WaTZ). Structs are records, arrays are byte lists,
  pointers to API objects are handles with 0 as the null pointer. Widths are explicit: \<open>size_t\<close> in the
  messages is a parameter, because the two sides disagree about it. What is not in the repository is
  a parameter: the API and the runtime are an environment that answers each call given the calls
  before it, the primitives are a record \<open>crypto\<close>, the constants of the attestation service are \<open>ra_params\<close>,
  the memory shared with the normal world may change between any two calls, and the writes of a
  WebAssembly application are a function of its history. What the theorems need of these parameters is a
  named hypothesis (\<open>gp_tee\<close>, \<open>honest\<close>, \<open>crypto_laws\<close>, \<open>crypto_sizes\<close>, \<open>host_serves\<close>, \<open>willing\<close>, \<open>disk\<close>, \<open>files\<close>,
  \<open>blocks_fit\<close>, \<open>blocks_fresh\<close>) that
  the witnesses instantiate. Loops are structural or have a termination proof, except for the searches in
  the intrusive list and in the lists of free chunks, which are partial functions with \<open>None\<close> for a search that does not end; no fuel is
  used. The utilities do not call the API: they are functions on records and byte blocks that return
  \<open>None\<close> when they would leave a block, and take the answer of the allocator as an argument.

  \<^bold>\<open>What is shown.\<close>
  C1 to C9, C11 to C13, C15 and C16, in this theory: nothing but message 1 leaves before valid evidence, and the secret
  only sealed (C1, C11), the exchange completes and both sides agree (C2 to C5, C7), a successful handshake
  authenticates the verifier (C6), the receive loop delivers the stream (C8), the exact outcome of every message 0
  (C15), and where the code departs from its intent: a MAC that is not computed (C9), a buffer that is too small (C12), an
  application that seals its secret without evidence (C13), length fields of different width (C16). C17 to
  C25, in \<open>Watz_Props\<close>: a run of an application completes and prints its captured output, resources, the
  runtime included, are released on every path, the capture refines its contract, sizes;
  and the exact extent of five defects: leftovers are printed (C18) or the buffer is overrun (C19), replaced code is
  run (C21), an unchecked length (C22), and a mapping that is lost if the kernel refuses to end it (C25). C28, C29 and C31:
  numbers of a module are read exactly, and what the loaders' checks accept. C27, C32
  and C35, in \<open>Wasm_Memory_Spec\<close>: address checks are exact, instantiation establishes the invariant of a
  memory and growth keeps it, with all its ways to fail, among them the one after which its block is gone. C26, in
  \<open>Data_Segments\<close>: data segments stay inside the block and are placed as specified. C33, C34, C36 and C40: the
  word-wise copy is a copy, the vector implements a list, the hash map implements a dictionary, the removal
  loop of the list ends. C37 and C38: in every reachable state
  external references resolve to their objects, and which references one collection removes and which two in a row.
  C10 and C30, in \<open>Ems_Props\<close>: the allocator serves a request exactly if there is room and keeps all other objects
  intact, every sequence of requests is served, and all memory comes back; C14 and C39: growing an object over a
  whole free chunk breaks the pool, and a moved pool loses its lists of small chunks.

  \<^bold>\<open>Not modelled.\<close>
  The parsing of modules, the interpreters, JIT and AOT compilers of the runtime (\<open>core/iwasm\<close>), its WASI
  libraries, which are third-party code that WaTZ vendors; the glue that registers the
  attestation functions with WASI, of which only the header is in the repository; the 2021 copies of the WaTZ application and host, which differ from the 2.4.1 ones
  in configuration; benchmarks, tests, samples and build files. Log messages, the dumps under
  \<open>DEBUG_MESSAGE\<close> and the measurements under \<open>PROFILING\<close> are compiled out.
\<close>

section \<open>The verifier releases its secret only to an attested peer\<close>

text \<open>C1. Whatever the environment does, as long as its API behaves as documented, a run of the
  verifier's host program writes to its sockets nothing, message 1, or message 1 and then message 3.
  What is written first is the image of message 1 of the open session: the session key and the signing key of the verifier, the
  signature and the MAC. When message 3 is written, the trusted application has accepted the evidence of
  the peer for the session of that message 1 (MAC under the session's key, matching session key, quote signed by the built-in
  attestation key, anchor over both session keys), and message 3 is the secret sealed under the session key. The bytes
  behind it are those that the zeroed buffer, the two messages of the peer and message 1 left there.\<close>

theorem secret_released_only_after_attestation:
  assumes "gp_tee C env" "\<forall>k i d. length (snd (gcm_seal C k i d)) = 16"
    and "verifier_main p custom env [] = (Ret code, tr)"
  shows "server_post C p (main_secret custom) tr"
  using wpD [OF verifier_main_spec assms(3)] assms(1,2) by simp

theorem secret_released_only_after_attestation_witness:
  "\<exists>code tr. verifier_main toy_params (Some 400) toy_server [] = (Ret code, tr)
     \<and> server_post toy_crypto toy_params (main_secret (Some 400)) tr"
proof -
  have "twp (verifier_main toy_params (Some 400)) toy_server [] (\<lambda>code tr. code = 0 \<and> length (sock_writes tr) = 2)"
    by (rule verifier_main_total [OF server_env_honest server_env_serves toy_sizes toy_roomy toy_peer]) simp_all
  then obtain code tr where "verifier_main toy_params (Some 400) toy_server [] = (Ret code, tr)"
    by (rule twpE)
  then show ?thesis
    using secret_released_only_after_attestation [OF toy_gp toy_tags] by blast
qed

text \<open>C2. The verifier does complete: if no call is refused, the peer sends a key and evidence that
  passes the checks for the verifier's session key, and the secret is large enough for the shared buffer to
  hold messages 1 and 2, then the program ends with status 0 after it wrote exactly two messages. \<open>priv\<close> is the
  private value of the one ECDH key pair of the run; the signing key pair, which is generated when the
  session opens, is arbitrary.\<close>

theorem verifier_completes:
  assumes "honest C priv net env" "host_serves msgs env" "crypto_sizes C p"
    and "roomy p (main_secret custom)" "good_peer C p priv msgs"
  shows "\<exists>tr m1 m3. verifier_main p custom env [] = (Ret 0, tr) \<and> sock_writes tr = [m1, m3]"
  using verifier_main_total [OF assms] by (auto simp: length_Suc_conv numeral_2_eq_2 elim!: twpE)

theorem verifier_completes_witness:
  "\<exists>tr m1 m3. verifier_main toy_params (Some 400) toy_server [] = (Ret 0, tr) \<and> sock_writes tr = [m1, m3]"
  by (rule verifier_completes [OF server_env_honest server_env_serves toy_sizes toy_roomy toy_peer]) simp_all

section \<open>The exchange\<close>

text \<open>C3. Message 1 of the verifier is accepted by the attester whose key it answered, for every pinned
  key that is the verifier's (or none), and afterwards both sides hold the same MAC key and the same
  session key, and the anchor of the attester is the digest that the verifier will compute.\<close>

theorem handshake_agreement:
  assumes "crypto_laws C" "crypto_sizes C p" "sizeof_size_t p = 4" "gp_tee C envV" "session_ok C p trV ta"
    and "handle_msg0 p ta (enc_point 4 (point_of C priv)) envV trV = (Ret (TEE_SUCCESS, ta1), t1)"
    and "prepare_msg1 p ta1 buffer n envV t1 = (Ret (TEE_SUCCESS, ta2, out, n2), t2)"
    and "honest C priv (take n2 out @ rest) envA"
    and "trusted_key (ecdsa_verifier_public_key (msg1_v ta)) kx kx_size ky ky_size"
    and "kx_size \<le> length kx" "ky_size \<le> length ky" "length anchor = 32"
  shows "\<exists>ctx anchor' trA.
    ra_net_handshake p host kx kx_size ky ky_size anchor 32 envA [] = (Ret (TEE_SUCCESS, ctx, anchor'), trA)
    \<and> paired C p priv trA ctx t2 ta2
    \<and> secret_value C trA (ecdh_shared_mac_key ctx) = secret_value C t2 (ecdh_shared_mac_key_v ta2)
    \<and> secret_value C trA (ecdh_shared_session_key ctx) = secret_value C t2 (ecdh_shared_session_key_v ta2)
    \<and> anchor' = sha256 C (point_bytes (msg0_v ta2) @ point_bytes (ecdh_verifier_public_key (msg1_v ta2)))"
proof -
  have "twp (ra_net_handshake p host kx kx_size ky ky_size anchor 32) envA [] (\<lambda>(res, ctx, anchor') trA.
    res = TEE_SUCCESS \<and> paired C p priv trA ctx t2 ta2
    \<and> anchor' = sha256 C (point_bytes (msg0_v ta2) @ point_bytes (ecdh_verifier_public_key (msg1_v ta2))))"
    by (rule handshake_pairs [OF assms(1-8) _ assms(9-12)]) simp
  then show ?thesis
    using paired_keys [OF assms(1,2)] by (auto elim!: twpE)
qed

theorem handshake_agreement_witness:
  "\<exists>(ta2 :: ra_context_verifier) net t2 ctx anchor trA.
     ra_net_handshake toy_params ''verifier'' [] 0 [] 0 (replicate 32 0) 32 (net_env toy_crypto toy_attester net) []
       = (Ret (TEE_SUCCESS, ctx, anchor), trA)
     \<and> secret_value toy_crypto trA (ecdh_shared_session_key ctx) = secret_value toy_crypto t2 (ecdh_shared_session_key_v ta2)"
proof (rule toy_session)
  fix tr ta
  assume ok: "session_ok toy_crypto toy_params tr ta"
  show ?thesis
  proof (rule toy_msg1_run [OF ok])
    fix ta1 t1 ta2 out n2 t2
    assume "handle_msg0 toy_params ta (enc_point 4 (point_of toy_crypto toy_attester)) toy_server tr = (Ret (TEE_SUCCESS, ta1), t1)"
      and "prepare_msg1 toy_params ta1 (replicate 400 0) 0 toy_server t1 = (Ret (TEE_SUCCESS, ta2, out, n2), t2)"
    from handshake_agreement [OF toy_laws toy_sizes toy_width toy_gp ok this, of "[]"
        "net_env toy_crypto toy_attester (take n2 out)" "[]" 0 "[]" 0 "replicate 32 0" "''verifier''"]
    obtain ctx anchor trA where "ra_net_handshake toy_params ''verifier'' [] 0 [] 0 (replicate 32 0) 32
        (net_env toy_crypto toy_attester (take n2 out)) [] = (Ret (TEE_SUCCESS, ctx, anchor), trA)"
      "secret_value toy_crypto trA (ecdh_shared_session_key ctx) = secret_value toy_crypto t2 (ecdh_shared_session_key_v ta2)"
      using honest_net_env [of toy_crypto toy_attester "take n2 out"] by (auto simp: trusted_key_def)
    then show ?thesis
      by (intro exI conjI)
  qed
qed

text \<open>C4. After an agreed handshake, the attester's message 2 with a quote that the attestation service
  signed over the attester's anchor passes every check of the verifier.\<close>

theorem evidence_accepted:
  assumes "crypto_laws C" "crypto_sizes C p" "sizeof_size_t p = 4"
    and "honest C priv netA envA" "honest C privV netV envV" "paired C p priv trA ctx trV ta"
    and "good_quote C p (sha256 C (point_bytes (msg0_v ta) @ point_bytes (ecdh_verifier_public_key (msg1_v ta)))) q"
  shows "\<exists>ctx' trA' m2 ta' trV'.
    ra_net_send_quote p ctx q envA trA = (Ret (TEE_SUCCESS, ctx'), trA') \<and> net_output trA' = net_output trA @ [m2]
    \<and> handle_msg2 p ta m2 envV trV = (Ret (TEE_SUCCESS, ta'), trV') \<and> is_quote_valid ta'
    \<and> paired C p priv trA' ctx' trV' ta'"
proof -
  have q: "length q = sizeof_ra_quote p" using assms(7) by (simp add: good_quote_def)
  obtain ctx' trA' where s: "ra_net_send_quote p ctx q envA trA = (Ret (TEE_SUCCESS, ctx'), trA')"
      "ctx' = ctx\<lparr>msg2 := protocol_msg2 C trA ctx q\<rparr>" "keeps trA trA'"
      "net_output trA' = net_output trA @ [enc_msg2 p 4 (protocol_msg2 C trA ctx q)]"
    using ra_net_send_quote_total [OF assms(4,2,6) q] assms(3) by (auto elim!: twpE)
  obtain ta' trV' where v: "handle_msg2 p ta (enc_msg2 p 4 (protocol_msg2 C trA ctx q)) envV trV = (Ret (TEE_SUCCESS, ta'), trV')"
      "is_quote_valid ta'" "paired C p priv trA ctx trV' ta'"
    using msg2_accepted [OF assms(1-3,5,6,7)] by (auto elim!: twpE)
  have "paired C p priv trA' ctx' trV' ta'"
    unfolding s(2) by (rule paired_sent [OF v(3) s(3) q assms(2)])
  with s v show ?thesis by blast
qed

theorem evidence_accepted_witness:
  "\<exists>ctx trA ctx' trA' q netA m2 ta trV ta' trV'.
     ra_net_send_quote toy_params ctx q (net_env toy_crypto toy_attester netA) trA = (Ret (TEE_SUCCESS, ctx'), trA')
     \<and> handle_msg2 toy_params ta m2 toy_server trV = (Ret (TEE_SUCCESS, ta'), trV') \<and> is_quote_valid ta'"
proof (rule toy_handshake_run)
  fix net ctx anchor trA trV ta
  assume "paired toy_crypto toy_params toy_attester trA ctx trV ta"
  from evidence_accepted [OF toy_laws toy_sizes toy_width honest_net_env [of _ _ net]
      server_env_honest [of _ toy_verifier toy_msgs] this toy_quote_good]
  obtain ctx' trA' q m2 ta' trV' where
    "ra_net_send_quote toy_params ctx q (net_env toy_crypto toy_attester net) trA = (Ret (TEE_SUCCESS, ctx'), trA')"
    "handle_msg2 toy_params ta m2 toy_server trV = (Ret (TEE_SUCCESS, ta'), trV')" "is_quote_valid ta'"
    using crypto_sizesD(1) [OF toy_sizes] by auto
  then show ?thesis
    by (intro exI conjI)
qed

text \<open>C5. The secret arrives: the message 3 that the verifier prepares for a buffer of the size its host
  allocates is received, opened and copied to the caller's buffer by the attester.\<close>

theorem secret_arrives:
  assumes "crypto_laws C" "crypto_sizes C p" "honest C privV netV envV" "paired C p priv trA ctx trV ta"
    and "length buffer = buff_room p (length sec)" "buff_room p (length sec) < 256 ^ sizeof_size_t p"
  shows "\<exists>ta' out trV'. prepare_msg3 p ta buffer sec (length sec) envV trV = (Ret (TEE_SUCCESS, ta', out), trV')
    \<and> (\<forall>envA. honest C priv (net_input trA @ out) envA \<longrightarrow>
        (\<exists>ctx' trA'. ra_net_receive_data p ctx (replicate (length sec) 0) (length sec) envA trA
           = (Ret (TEE_SUCCESS, ctx', sec, length sec), trA')))"
proof -
  have "twp (prepare_msg3 p ta buffer sec (length sec)) envV trV (\<lambda>(res, ta', out) trV'. res = TEE_SUCCESS
    \<and> (\<forall>envA. honest C priv (net_input trA @ out) envA \<longrightarrow>
        (\<exists>ctx' trA'. ra_net_receive_data p ctx (replicate (length sec) 0) (length sec) envA trA
           = (Ret (TEE_SUCCESS, ctx', sec, length sec), trA'))))"
    by (rule twp_mono [OF secret_delivered [OF assms refl]]) (fastforce elim!: twpE)
  then show ?thesis
    by (auto elim!: twpE)
qed

theorem secret_arrives_witness:
  "\<exists>ctx trA ta trV ta' out trV' ctx' trA'.
     prepare_msg3 toy_params ta (replicate (buff_room toy_params 3) 0) [1, 2, 3] 3 toy_server trV
       = (Ret (TEE_SUCCESS, ta', out), trV')
     \<and> ra_net_receive_data toy_params ctx [0, 0, 0] 3 (net_env toy_crypto toy_attester (net_input trA @ out)) trA
       = (Ret (TEE_SUCCESS, ctx', [1, 2, 3], 3), trA')"
proof (rule toy_handshake_run)
  fix net ctx anchor trA trV ta
  assume "paired toy_crypto toy_params toy_attester trA ctx trV ta"
  from secret_arrives [OF toy_laws toy_sizes server_env_honest this, of "replicate (buff_room toy_params 3) 0" "[1, 2, 3]"]
  show ?thesis
    using honest_net_env by (fastforce simp: buff_room_def sizeof_defs toy_params_def RA_AES_GCM_CIPHERTEXT_OVERHEAD_def numeral_3_eq_3)
qed

section \<open>The attester\<close>

text \<open>C6. A handshake that reports success has authenticated the verifier: the pinned key is the one the
  verifier presented, its signature covers both session keys, the MAC of message 1 is right under the
  derived key, the session keys follow the key schedule, and the anchor binds both session keys.\<close>

theorem handshake_authenticates:
  assumes "gp_tee C env"
    and "ra_net_handshake p host kx kx_size ky ky_size anchor anchor_size env tr = (Ret (TEE_SUCCESS, ctx, anchor'), tr')"
  shows "handshake_ok C tr' ctx kx kx_size ky ky_size anchor anchor'"
  using wpD [OF ra_net_handshake_spec [OF assms(1)] assms(2)] by simp

theorem handshake_authenticates_witness:
  "\<exists>net ctx anchor trA.
     ra_net_handshake toy_params ''verifier'' [] 0 [] 0 (replicate 32 0) 32 (net_env toy_crypto toy_attester net) []
       = (Ret (TEE_SUCCESS, ctx, anchor), trA)
     \<and> handshake_ok toy_crypto trA ctx [] 0 [] 0 (replicate 32 0) anchor"
proof (rule toy_handshake_run)
  fix net ctx anchor trA trV ta
  assume "ra_net_handshake toy_params ''verifier'' [] 0 [] 0 (replicate 32 0) 32 (net_env toy_crypto toy_attester net) []
       = (Ret (TEE_SUCCESS, ctx, anchor), trA)"
  then show ?thesis
    using handshake_authenticates [OF honest_gp_tee [OF honest_net_env]] by blast
qed

text \<open>C7. The handshake succeeds whenever no call is refused and the network delivers a message 1 that
  passes the checks.\<close>

theorem handshake_completes:
  assumes "honest C priv net env" "crypto_sizes C p" "sizeof_msg1 p 4 \<le> length net"
    and "acceptable C priv kx kx_size ky ky_size (dec_msg1 p 4 net)"
    and "kx_size \<le> length kx" "ky_size \<le> length ky" "length anchor = 32"
  shows "\<exists>ctx anchor' tr. ra_net_handshake p host kx kx_size ky ky_size anchor 32 env [] = (Ret (TEE_SUCCESS, ctx, anchor'), tr)
    \<and> has_keys C (KPriv priv) (dec_msg1 p 4 net) tr ctx"
proof -
  have "twp (ra_net_handshake p host kx kx_size ky ky_size anchor 32) env [] (\<lambda>(res, ctx, anchor') tr.
      res = TEE_SUCCESS \<and> has_keys C (KPriv priv) (dec_msg1 p 4 net) tr ctx
      \<and> anchor' = sha256 C (point_bytes (msg0 ctx) @ point_bytes (ecdh_verifier_public_key (dec_msg1 p 4 net))))"
    by (rule ra_net_handshake_total [OF assms(1-3) refl assms(4-7)]) simp
  then show ?thesis
    by (auto elim!: twpE)
qed

theorem handshake_completes_witness:
  "\<exists>net ctx anchor tr.
     ra_net_handshake toy_params ''verifier'' [] 0 [] 0 (replicate 32 0) 32 (net_env toy_crypto toy_attester net) []
       = (Ret (TEE_SUCCESS, ctx, anchor), tr)"
proof (rule toy_acceptable)
  fix net
  assume "sizeof_msg1 toy_params 4 \<le> length net" "acceptable toy_crypto toy_attester [] 0 [] 0 (dec_msg1 toy_params 4 net)"
  from handshake_completes [OF honest_net_env toy_sizes this, of "replicate 32 0" "''verifier''"] show ?thesis
    by auto
qed

text \<open>C8. The receive loop of the attester terminates and delivers exactly the bytes that arrived, in
  order, after the bytes that were there before; on success it stops only when enough bytes arrived or
  the peer sent nothing more.\<close>

theorem receive_delivers_stream:
  assumes "t \<le> length dat" "receive_socket_per_chunk s c dat n t env tr = (Ret (res, buf, t'), tr')"
  shows "length buf = length dat \<and> t \<le> t' \<and> t' \<le> length dat \<and> take t buf = take t dat
    \<and> net_input tr' = net_input tr @ drop t (take t' buf)
    \<and> (res = TEE_SUCCESS \<longrightarrow> n \<le> t' \<or> (c = 0 \<and> tr' = tr) \<or> peer_done s tr')"
  using wpD [OF receive_socket_per_chunk_spec [OF assms(1)] assms(2)] by simp

theorem receive_delivers_stream_witness:
  "\<exists>buf t' tr'. receive_socket_per_chunk 1 2 [0, 0, 0] 3 0 (net_env toy_crypto [] [5, 6, 7]) [] = (Ret (TEE_SUCCESS, buf, t'), tr')
     \<and> net_input tr' = take t' buf"
proof -
  have "twp (receive_socket_per_chunk 1 2 [0, 0, 0] 3 0) (net_env toy_crypto [] [5, 6, 7]) [] (\<lambda>(res, buf, t') tr'.
      res = TEE_SUCCESS \<and> t' = 0 + length (drop (length (net_input [])) [5, 6, 7 :: byte]) \<and> length buf = 3
      \<and> take t' buf = take 0 [0, 0, 0] @ drop (length (net_input [])) [5, 6, 7])"
    by (rule receive_all_total [OF honest_net_env]) simp_all
  then obtain buf t' tr' where r: "receive_socket_per_chunk 1 2 [0, 0, 0] 3 0 (net_env toy_crypto [] [5, 6, 7]) []
      = (Ret (TEE_SUCCESS, buf, t'), tr')"
    by (auto elim!: twpE)
  show ?thesis
    using r receive_delivers_stream [OF _ r] by auto
qed

text \<open>C9. A message 2 may leave without a MAC: when the TEE refuses the MAC operation,
  \<open>prepare_msg2\<close> still reports success and keeps the old contents of the MAC field, so that
  \<open>ra_net_send_quote\<close> sends the quote unauthenticated.\<close>

theorem refused_mac_goes_unnoticed:
  assumes "\<forall>tr. \<exists>a. env tr (TEE_AllocateOperation TEE_ALG_AES_CMAC TEE_MODE_MAC 128) = Some a \<and> ans_res a \<noteq> TEE_SUCCESS"
    and "prepare_msg2 ctx q env tr = (Ret (res, ctx'), tr')"
  shows "res = TEE_SUCCESS \<and> mac2 (msg2 ctx') = mac2 (msg2 ctx)"
proof -
  have "wp (prepare_msg2 ctx q) env tr True (\<lambda>(res, ctx') tr'. res = TEE_SUCCESS \<and> mac2 (msg2 ctx') = mac2 (msg2 ctx))"
    unfolding prepare_msg2_def Let_def free_op_def
    using assms(1) by (auto simp: wp_simps wp_call) (metis option.inject)
  from wpD [OF this assms(2)] show ?thesis by simp
qed

theorem refused_mac_goes_unnoticed_witness:
  "\<exists>ctx tr. prepare_msg2 (zero_ra_context toy_params) (replicate 224 1) no_mac_env [] = (Ret (TEE_SUCCESS, ctx), tr)
     \<and> mac2 (msg2 ctx) = replicate 16 0 \<and> quote (msg2 ctx) = replicate 224 1"
proof -
  have "\<exists>ctx tr. prepare_msg2 (zero_ra_context toy_params) (replicate 224 1) no_mac_env [] = (Ret (TEE_SUCCESS, ctx), tr)
      \<and> quote (msg2 ctx) = replicate 224 1"
    by (simp add: prepare_msg2_def zero_ra_context_def zero_point_def toy_params_def rd_def wr_def splice_0 Let_def
        call_def no_mac_env_def err_def free_op_def return_def ref_env_def)
  then obtain ctx tr where r: "prepare_msg2 (zero_ra_context toy_params) (replicate 224 1) no_mac_env [] = (Ret (TEE_SUCCESS, ctx), tr)"
    "quote (msg2 ctx) = replicate 224 1" by auto
  have "mac2 (msg2 ctx) = mac2 (msg2 (zero_ra_context toy_params))"
    using refused_mac_goes_unnoticed [OF _ r(1)] by (simp add: no_mac_env_def err_def)
  with r show ?thesis by (auto simp: zero_ra_context_def)
qed

section \<open>The verifier\<close>

text \<open>C11. A message 2 that the application accepts carries valid evidence: the MAC is right under the
  session's key, the session key is the one of message 0, the quote is signed by the built-in
  attestation key, and its anchor is the digest of both session keys; only then is the flag set.\<close>

theorem accepted_evidence_is_valid:
  assumes "gp_tee C env" "session_ok C p tr ta" "has_keys_v C tr ta"
    and "handle_msg2 p ta buffer env tr = (Ret (TEE_SUCCESS, ta'), tr')"
  shows "attested C p tr' ta' \<and> msg2_v ta' = dec_msg2 p (sizeof_size_t p) buffer \<and> same_secret ta ta'"
proof -
  have l: "ecdsa_attester_public_key_handle ta \<in> live_objs tr" "ecdh_shared_mac_key_v ta \<in> live_objs tr"
    using assms(2,3) by (auto simp: session_ok_def endorsed_session_def stage_v_defs)
  show ?thesis
    using wpD [OF handle_msg2_spec [OF assms(1) l] assms(4)] assms(2,3)
    by (auto simp: attested_def session_ok_def endorsed_session_def session_open_def wf_ctx_v_def stage_v_defs
        keeps_def same_secret_def)
qed

theorem accepted_evidence_is_valid_witness:
  "\<exists>ta trV m2 ta' trV'. handle_msg2 toy_params ta m2 toy_server trV = (Ret (TEE_SUCCESS, ta'), trV')
     \<and> attested toy_crypto toy_params trV' ta'"
proof (rule toy_handshake_run)
  fix net ctx anchor trA trV ta
  assume k: "paired toy_crypto toy_params toy_attester trA ctx trV ta"
  then have s: "session_ok toy_crypto toy_params trV ta" "has_keys_v toy_crypto trV ta"
    by (simp_all add: paired_def)
  obtain m2 ta' trV' where r: "handle_msg2 toy_params ta m2 toy_server trV = (Ret (TEE_SUCCESS, ta'), trV')"
    using msg2_accepted [OF toy_laws toy_sizes toy_width server_env_honest [of _ toy_verifier toy_msgs] k toy_quote_good]
      crypto_sizesD(1) [OF toy_sizes] by (auto elim!: twpE)
  show ?thesis
    using r accepted_evidence_is_valid [OF toy_gp s r] by blast
qed

text \<open>C12. A server that runs with the built-in secret never sends anything: the buffer it sizes after
  the secret is too small for message 1.\<close>

theorem default_secret_is_never_served:
  assumes "gp_tee C env" "verifier_main p None env [] = (Ret code, tr)"
  shows "sock_writes tr = []"
  using wpD [OF verifier_main_default_silent [OF assms(1)] assms(2)] by simp

theorem default_secret_is_never_served_witness:
  "\<exists>tr. verifier_main toy_params None toy_server [] = (Ret 1, tr) \<and> sock_writes tr = []"
proof -
  have "twp (verifier_main toy_params None) toy_server [] (\<lambda>code tr. code = 1)"
    using toy_peer toy_evidence point_codec.dec_enc [OF point_of_simps(1) [OF toy_sizes]]
    by (intro verifier_main_default_total [OF server_env_honest server_env_serves toy_sizes])
      (simp_all add: toy_width good_peer_def toy_msgs_def point_of_simps [OF toy_sizes])
  then obtain tr where "verifier_main toy_params None toy_server [] = (Ret 1, tr)"
    by (auto elim!: twpE)
  then show ?thesis
    using default_secret_is_never_served [OF toy_gp] by blast
qed

text \<open>C13. The application itself does not enforce that the secret follows the evidence: after message 0 of
  any peer, the command for message 3 succeeds although no evidence was ever received and the flag is
  not set, and its output is the secret, sealed under the key that the application shares with that
  peer. Only the order in which the host issues the commands (C1) protects the secret.\<close>

theorem secret_sealed_without_evidence:
  assumes "honest C priv net env" "crypto_sizes C p" "session_ok C p tr ta"
    and "secret ta = sec" "secret_size ta = length sec" "\<not> is_quote_valid ta"
    and "ga = dec_point (sizeof_size_t p) m0" "sizeof_msg0 (sizeof_size_t p) \<le> length m0" "in_bounds ga"
    and "sizeof_msg3 (sizeof_size_t p) + length sec \<le> length buffer"
  shows "\<exists>ta1 params1 t1 ta3 params3 t3 i.
    TA_InvokeCommandEntryPoint p ta VERIFIER_COMMAND_HANDLE_MSG_0
      (TEE_PARAM_TYPES TEE_PARAM_TYPE_MEMREF_INPUT TEE_PARAM_TYPE_NONE TEE_PARAM_TYPE_NONE TEE_PARAM_TYPE_NONE)
      [no_param\<lparr>memref := m0\<rparr>, no_param, no_param, no_param] env tr = (Ret (TEE_SUCCESS, ta1, params1), t1)
    \<and> TA_InvokeCommandEntryPoint p ta1 VERIFIER_COMMAND_PREPARE_MSG_3
      (TEE_PARAM_TYPES TEE_PARAM_TYPE_MEMREF_OUTPUT TEE_PARAM_TYPE_MEMREF_OUTPUT TEE_PARAM_TYPE_NONE TEE_PARAM_TYPE_NONE)
      [no_param\<lparr>memref := buffer\<rparr>, no_param, no_param, no_param] env t1 = (Ret (TEE_SUCCESS, ta3, params3), t3)
    \<and> \<not> is_quote_valid ta1 \<and> \<not> is_quote_valid ta3
    \<and> sealed_msg3 C (sizeof_size_t p)
        (label_key C RA_SHARED_SESSION_DATA (ecdh C priv (take (x_size ga) (x_raw ga)) (take (y_size ga) (y_raw ga))))
        i sec buffer (memref (params3 ! 0))"
proof -
  let ?w = "sizeof_size_t p"
  note gp = honest_gp_tee [OF assms(1)]
  have wf: "wf_ctx_v p ta" using assms(3) by (simp add: session_ok_def)
  have "twp (handle_msg0 p ta m0) env tr (\<lambda>(res, ta1) t1. res = TEE_SUCCESS \<and> ready C p sec priv ga t1 ta1
      \<and> \<not> is_quote_valid ta1)"
    by (rule twp_mono [OF twp_wp [OF twp_wp [OF handle_msg0_total [OF assms(1,2) wf assms(8)] handle_msg0_spec [OF gp wf]]
          handle_msg0_flag [unfolded flag_kept_def, rule_format]]])
      (use assms in \<open>auto simp: ready_def session_ok_def endorsed_session_def session_open_def wf_ctx_v_def msg0_frame_def
        has_keys_v_def has_mac_key_v_def has_kdk_v_def fresh_key_def keeps_def\<close>)
  then obtain ta1 t1 where m0: "handle_msg0 p ta m0 env tr = (Ret (TEE_SUCCESS, ta1), t1)"
    and r: "ready C p sec priv ga t1 ta1" and q: "\<not> is_quote_valid ta1"
    by (auto elim!: twpE)
  have s: "secret ta1 = sec" "secret_size ta1 = length sec"
    and key: "secret_value C t1 (ecdh_shared_session_key_v ta1) = label_key C RA_SHARED_SESSION_DATA
      (ecdh C priv (take (x_size ga) (x_raw ga)) (take (y_size ga) (y_raw ga)))"
    using r by (auto simp: ready_def stage_v_defs)
  note live = readyD(8) [OF r assms(2)]
  have "twp (prepare_msg3 p ta1 buffer (secret ta1) (secret_size ta1)) env t1 (\<lambda>(res, ta3, out) t3. res = TEE_SUCCESS
      \<and> sealed_msg3 C ?w (secret_value C t1 (ecdh_shared_session_key_v ta1)) (take 32 (msg3_v ta3)) sec buffer out
      \<and> \<not> is_quote_valid ta3)"
    using assms(10) s
    by (intro twp_mono [OF twp_wp [OF twp_wp [OF prepare_msg3_total [OF assms(1,2) live]
          prepare_msg3_spec [OF gp live crypto_sizesD(7) [OF assms(2)]]] prepare_msg3_frame [OF gp]]])
      (use q in \<open>auto simp: evidence_frame_def\<close>)
  then obtain ta3 out t3 where "prepare_msg3 p ta1 buffer (secret ta1) (secret_size ta1) env t1 = (Ret (TEE_SUCCESS, ta3, out), t3)"
    and "sealed_msg3 C ?w (secret_value C t1 (ecdh_shared_session_key_v ta1)) (take 32 (msg3_v ta3)) sec buffer out"
    and "\<not> is_quote_valid ta3"
    by (auto elim!: twpE)
  then show ?thesis
    using m0 q by (intro exI [of _ ta1] exI [of _ t1] exI [of _ ta3] exI [of _ t3])
      (auto simp: TA_InvokeCommandEntryPoint_def verifier_command_defs bind_def return_def key)
qed

theorem secret_sealed_without_evidence_witness:
  "\<exists>ta tr ta1 params1 t1 ta3 params3 t3.
    TA_InvokeCommandEntryPoint toy_params ta VERIFIER_COMMAND_HANDLE_MSG_0
      (TEE_PARAM_TYPES TEE_PARAM_TYPE_MEMREF_INPUT TEE_PARAM_TYPE_NONE TEE_PARAM_TYPE_NONE TEE_PARAM_TYPE_NONE)
      [no_param\<lparr>memref := enc_point 4 (point_of toy_crypto toy_attester)\<rparr>, no_param, no_param, no_param] toy_server tr
        = (Ret (TEE_SUCCESS, ta1, params1), t1)
    \<and> TA_InvokeCommandEntryPoint toy_params ta1 VERIFIER_COMMAND_PREPARE_MSG_3
      (TEE_PARAM_TYPES TEE_PARAM_TYPE_MEMREF_OUTPUT TEE_PARAM_TYPE_MEMREF_OUTPUT TEE_PARAM_TYPE_NONE TEE_PARAM_TYPE_NONE)
      [no_param\<lparr>memref := replicate 60 0\<rparr>, no_param, no_param, no_param] toy_server t1 = (Ret (TEE_SUCCESS, ta3, params3), t3)
    \<and> \<not> is_quote_valid ta3"
proof (rule toy_session)
  fix ta tr
  assume s: "session_ok toy_crypto toy_params tr ta"
  then have ok: "session_ok toy_crypto toy_params tr (ta\<lparr>secret := [1, 2, 3], secret_size := 3, is_quote_valid := False\<rparr>)"
    by (auto simp: session_ok_def endorsed_session_def session_open_def wf_ctx_v_def)
  have pt: "dec_point 4 (enc_point 4 (point_of toy_crypto toy_attester)) = point_of toy_crypto toy_attester"
    "length (enc_point 4 (point_of toy_crypto toy_attester)) = sizeof_msg0 4"
    using point_codec.dec_enc [OF point_of_simps(1) [OF toy_sizes]]
      point_codec.length_enc [OF point_of_simps(1) [OF toy_sizes]] by auto
  from secret_sealed_without_evidence [OF server_env_honest [of toy_crypto toy_verifier toy_msgs] toy_sizes ok _ _ _ refl,
      of "[1, 2, 3]" "enc_point 4 (point_of toy_crypto toy_attester)" "replicate 60 0"]
  show ?thesis
    by (simp add: toy_width pt point_of_simps [OF toy_sizes] sizeof_msg3_def) blast
qed

text \<open>A command with an unknown number, or with other parameter types than the command expects, is
  refused before anything happens: no call is made and neither the context nor the parameters change.\<close>

lemma unexpected_command_is_refused:
  assumes "command_types cmd \<noteq> Some types"
  shows "TA_InvokeCommandEntryPoint p ctx cmd types params env tr = (Ret (TEE_ERROR_BAD_PARAMETERS, ctx, params), tr)"
  using assms unfolding TA_InvokeCommandEntryPoint_def command_types_def
  by (auto simp: return_def verifier_command_defs split: if_splits)

section \<open>Messages of the peer\<close>

text \<open>C15. What the application makes of an arbitrary message 0, when no call is refused: a message that is too
  short is rejected; one whose declared sizes fit the 32-byte coordinates is stored and leads to the
  session keys; and one that declares a larger size makes the application read outside of the
  coordinate. The sizes that the peer declares are not checked anywhere.\<close>

theorem msg0_outcome_exact:
  assumes "honest C priv net env" "crypto_sizes C p" "wf_ctx_v p ta"
  shows "let ga = dec_point (sizeof_size_t p) m0; run = handle_msg0 p ta m0 env tr in
    if length m0 < sizeof_msg0 (sizeof_size_t p) then \<exists>ta' tr'. run = (Ret (TEE_ERROR_SHORT_BUFFER, ta'), tr')
    else if x_size ga \<le> 32 \<and> y_size ga \<le> 32 then
      \<exists>ta' tr'. run = (Ret (TEE_SUCCESS, ta'), tr') \<and> msg0_v ta' = ga \<and> has_keys_v C tr' ta'
    else fst run = Oob"
proof -
  let ?w = "sizeof_size_t p" and ?ga = "dec_point (sizeof_size_t p) m0"
  note gp = honest_gp_tee [OF assms(1)]
  have len: "length (x_raw (ecdh_verifier_public_key (msg1_v ta))) = 32" "length (y_raw (ecdh_verifier_public_key (msg1_v ta))) = 32"
    using assms(3) by (simp_all add: wf_ctx_v_def)
  obtain c t where g: "generate_ecdh_keypair_v ta env tr = (Ret (TEE_SUCCESS, c), t)"
    using generate_ecdh_keypair_v_total [OF assms(1,2) len, of tr] by (auto elim!: twpE)
  have short: "handle_msg0 p ta m0 env tr = (Ret (TEE_ERROR_SHORT_BUFFER, c), t)" if "length m0 < sizeof_msg0 ?w"
    using that g by (simp add: handle_msg0_def store_msg0_def bind_def return_def)
  have raw: "length (x_raw ?ga) = 32" "length (y_raw ?ga) = 32" if "sizeof_msg0 ?w \<le> length m0"
    using that by (simp_all add: dec_point_def sizeof_msg0_def)
  have good: "\<exists>ta' tr'. handle_msg0 p ta m0 env tr = (Ret (TEE_SUCCESS, ta'), tr') \<and> msg0_v ta' = ?ga \<and> has_keys_v C tr' ta'"
    if "sizeof_msg0 ?w \<le> length m0" "x_size ?ga \<le> 32 \<and> y_size ?ga \<le> 32"
    using twp_wp [OF handle_msg0_total [OF assms that(1)] handle_msg0_spec [OF gp assms(3)], of tr] that raw
    by (auto simp: in_bounds_def elim!: twpE)
  have bad: "fst (handle_msg0 p ta m0 env tr) = Oob"
    if "sizeof_msg0 ?w \<le> length m0" "\<not> (x_size ?ga \<le> 32 \<and> y_size ?ga \<le> 32)"
    using populate_overrun [OF assms(1), of "c\<lparr>msg0_v := ?ga\<rparr>" t] that raw g
    by (auto simp: handle_msg0_def store_msg0_def bind_def split: prod.splits outcome.splits)
  show ?thesis
    using short good bad by (auto simp: Let_def not_less)
qed

theorem msg0_outcome_exact_witness:
  "\<exists>ta tr. fst (handle_msg0 toy_params ta (replicate 32 0 @ le_bytes 4 33 @ replicate 36 0) toy_server tr) = Oob"
proof (rule toy_session)
  fix ta tr
  assume "session_ok toy_crypto toy_params tr ta"
  then have "wf_ctx_v toy_params ta" by (simp add: session_ok_def)
  from msg0_outcome_exact [OF server_env_honest toy_sizes this, of "replicate 32 0 @ le_bytes 4 33 @ replicate 36 0" toy_verifier toy_msgs tr]
  show ?thesis
    by (auto simp: Let_def toy_width sizeof_msg0_def dec_point_def le_value_le_bytes)
qed

text \<open>C16. The attester sends 32-bit length fields; a verifier whose \<open>size_t\<close> has 64 bits reads the
  length of the first coordinate together with the first four bytes of the second coordinate. The
  length it obtains is within the coordinate only if these bytes are zero.\<close>

theorem wide_verifier_misreads_length:
  assumes "wf_point 4 pt"
  shows "x_size (dec_point 8 (enc_point 4 pt @ r)) = x_size pt + 256 ^ 4 * le_value (take 4 (y_raw pt))"
proof -
  have "take 8 (drop 32 (enc_point 4 pt @ r)) = le_bytes 4 (x_size pt) @ take 4 (y_raw pt)"
    using assms by (simp add: enc_point_def wf_point_def)
  moreover have "le_value (a @ b) = le_value a + 256 ^ length a * le_value b" for a b
    by (induction a) (simp_all add: algebra_simps)
  ultimately show ?thesis
    using assms by (simp add: dec_point_def wf_point_def le_value_le_bytes)
qed

theorem wide_verifier_misreads_length_witness:
  "32 < x_size (dec_point 8 (enc_point 4 (zero_point\<lparr>x_size := 32, y_raw := 1 # replicate 31 0\<rparr>) @ replicate 8 0))"
proof -
  have "wf_point 4 (zero_point\<lparr>x_size := 32, y_raw := 1 # replicate 31 0\<rparr>)"
    by (simp add: wf_point_def zero_point_def)
  from wide_verifier_misreads_length [OF this, of "replicate 8 0"] show ?thesis
    by simp
qed

end
